(* ===== verification/Freya_Prelude.thy ===== *)
theory Freya_Prelude
  imports Main "HOL-Library.Word" "HOL-Library.Monad_Syntax"
begin

unbundle bit_operations_syntax

text \<open>
  What the components share: the names of Go's integer types, the errors and panics of Go as
  values, the little-endian byte encodings of Go's \<open>encoding/binary\<close>, the reads of slices that
  panic out of range, and the generic lemmas on lists, options and maps that the component
  proofs use.

  Conventions. A Go integer of width \<open>w\<close> is a \<open>w word\<close>, signed or not: the bits are the same,
  \<open>uint\<close> reads it unsigned and \<open>sint\<close> reads it as two's complement. A Go \<open>int\<close> is a HOL \<open>int\<close> or
  \<open>nat\<close> where the values are bounded by the code far below its 64 bits, and a \<open>64 word\<close> where its
  bits are looked at. A function that may panic returns an \<open>option\<close>, \<open>None\<close> for the panic. A Go
  \<open>error\<close> is a \<open>string option\<close>, \<open>None\<close> for \<open>nil\<close>.
\<close>

section \<open>Collections of facts\<close>

named_theorems go_defs "definitions of the modelled operations, unfolded by simp in the component proofs"
named_theorems go_inv "preservation lemmas of the components' invariants"
named_theorems le_simps "length and round-trip facts of the little-endian encodings"

section \<open>Go's types\<close>

type_synonym byte = "8 word"
type_synonym uint16 = "16 word"
type_synonym uint32 = "32 word"
type_synonym uint64 = "64 word"
type_synonym int8 = "8 word"
type_synonym int16 = "16 word"
type_synonym int32 = "32 word"
type_synonym int64 = "64 word"

type_synonym err = "string option"

abbreviation nil :: err where
  "nil \<equiv> None"

abbreviation errors_New :: "string \<Rightarrow> err" where
  "errors_New s \<equiv> Some s"

section \<open>Slices\<close>

text \<open>\<open>xs[i]\<close> and \<open>xs[i:j]\<close> panic when an index is out of range.\<close>

definition go_index :: "'a list \<Rightarrow> nat \<Rightarrow> 'a option" where
  "go_index xs i = (if i < length xs then Some (xs ! i) else None)"

definition go_slice :: "'a list \<Rightarrow> nat \<Rightarrow> nat \<Rightarrow> 'a list option" where
  "go_slice xs i j = (if i \<le> j \<and> j \<le> length xs then Some (take (j - i) (drop i xs)) else None)"

text \<open>\<open>copy(dst[i:], src)\<close> for a source that fits: the bytes of \<open>dst\<close> from \<open>i\<close> on are replaced.\<close>

definition splice :: "'a list \<Rightarrow> nat \<Rightarrow> 'a list \<Rightarrow> 'a list" where
  "splice dst i src = take i dst @ src @ drop (i + length src) dst"

lemma go_index_Some [simp]: "i < length xs \<Longrightarrow> go_index xs i = Some (xs ! i)"
  by (simp add: go_index_def)

lemma go_index_None [simp]: "length xs \<le> i \<Longrightarrow> go_index xs i = None"
  by (simp add: go_index_def)

lemma go_slice_Some: "i \<le> j \<Longrightarrow> j \<le> length xs \<Longrightarrow> go_slice xs i j = Some (take (j - i) (drop i xs))"
  by (simp add: go_slice_def)

lemma go_slice_SomeD: "go_slice xs i j = Some ys \<Longrightarrow> i \<le> j \<and> j \<le> length xs \<and> ys = take (j - i) (drop i xs)"
  by (auto simp: go_slice_def split: if_splits)

lemma length_splice [simp]: "i + length src \<le> length dst \<Longrightarrow> length (splice dst i src) = length dst"
  by (simp add: splice_def)

lemma take_splice_before: "k \<le> i \<Longrightarrow> i + length src \<le> length dst \<Longrightarrow> take k (splice dst i src) = take k dst"
  by (simp add: splice_def min_def)

lemma take_splice_after:
  "i + length src \<le> length dst \<Longrightarrow> take (i + length src) (splice dst i src) = take i dst @ src"
  by (simp add: splice_def)

lemma drop_splice_after:
  "i + length src \<le> k \<Longrightarrow> i + length src \<le> length dst \<Longrightarrow> drop k (splice dst i src) = drop k dst"
  by (simp add: splice_def)

lemma list_update_as_splice: "i < length xs \<Longrightarrow> xs[i := y] = splice xs i [y]"
  by (simp add: splice_def upd_conv_take_nth_drop)

lemma list_update_again: "i \<noteq> j \<Longrightarrow> xs[i := a, j := b, i := a] = xs[i := a, j := b]"
  by (metis list_update_overwrite list_update_swap)

section \<open>Machine integers\<close>

lemma unat_word_of_nat: "n < 2 ^ LENGTH('a) \<Longrightarrow> unat (word_of_nat n :: 'a::len word) = n"
  by (simp add: unsigned_of_nat take_bit_nat_eq_self)

lemma unat_plus_one: "(x :: 'a::len word) \<noteq> - 1 \<Longrightarrow> unat (x + 1) = unat x + 1"
  using max_word_wrap [of x] unatSuc [of x] by (auto simp: add.commute)

lemma word_less_plus_one: "(x :: 'a::len word) \<noteq> - 1 \<Longrightarrow> x < x + 1"
  by (simp add: word_less_nat_alt unat_plus_one)

text \<open>The overflow test of the source, \<open>^uint64(0) - a < p\<close>.\<close>

lemma unat_add_no_wrap:
  assumes "p \<le> - 1 - (a :: 'a::len word)"
  shows "unat a + unat p < 2 ^ LENGTH('a)" and "unat (a + p) = unat a + unat p"
proof -
  have less_bound: "unat a < 2 ^ LENGTH('a)" by (rule unsigned_less)
  have "unat (- 1 - a) = 2 ^ LENGTH('a) - 1 - unat a"
    by (simp add: unat_sub unsigned_minus_1_eq_mask mask_eq_exp_minus_1)
  then show *: "unat a + unat p < 2 ^ LENGTH('a)"
    using assms less_bound unfolding word_le_nat_alt by linarith
  then show "unat (a + p) = unat a + unat p" by (rule unat_add_lem [THEN iffD1])
qed

section \<open>Little-endian encodings\<close>

text \<open>
  \<open>le_bytes n x\<close> are the \<open>n\<close> low bytes of \<open>x\<close>, least significant first
  (\<open>binary.LittleEndian.PutUint32\<close> with \<open>n = 4\<close>); \<open>le_word bs\<close> is the word they denote
  (\<open>binary.LittleEndian.Uint32\<close>).
\<close>

primrec le_bytes :: "nat \<Rightarrow> 'a::len word \<Rightarrow> byte list" where
  "le_bytes 0 x = []"
| "le_bytes (Suc n) x = ucast x # le_bytes n (drop_bit 8 x)"

primrec le_word :: "byte list \<Rightarrow> 'a::len word" where
  "le_word [] = 0"
| "le_word (b # bs) = ucast b + push_bit 8 (le_word bs)"

lemma length_le_bytes [simp, le_simps]: "length (le_bytes n x) = n"
  by (induction n arbitrary: x) simp_all

lemma ucast_plus_push_bit: "ucast (b::byte) + push_bit 8 (w::'a::len word) = ucast b OR push_bit 8 w"
  by (rule disjunctive_add_eq_or, rule bit_word_eqI) (auto simp: bit_simps dest: bit_imp_le_length)

lemma le_word_le_bytes: "le_word (le_bytes n x) = take_bit (8 * n) (x :: 'a::len word)"
proof (induction n arbitrary: x)
  case 0
  then show ?case by simp
next
  case (Suc n)
  show ?case
    unfolding le_bytes.simps le_word.simps Suc.IH ucast_plus_push_bit
    by (rule bit_word_eqI) (auto simp: bit_simps not_less dest: bit_imp_le_length)
qed

text \<open>Encoding a word of at most \<open>n\<close> bytes and decoding it gives it back.\<close>

lemma le_round_trip [le_simps]: "LENGTH('a) \<le> 8 * n \<Longrightarrow> le_word (le_bytes n x) = (x :: 'a::len word)"
  by (simp add: le_word_le_bytes take_bit_word_eq_self)

lemma le_word_bounded: "take_bit (8 * length bs) (le_word bs :: 'a::len word) = le_word bs"
proof (induction bs)
  case Nil
  then show ?case by simp
next
  case (Cons b bs)
  have "bit (le_word bs :: 'a word) i \<Longrightarrow> i < 8 * length bs" for i
    using arg_cong [OF Cons.IH, of "\<lambda>w. bit w i"] by (simp add: bit_take_bit_iff)
  then show ?case
    by (intro bit_word_eqI) (fastforce simp: ucast_plus_push_bit bit_simps dest: bit_imp_le_length)
qed

lemma le_bytes_le_word [le_simps]:
  "8 * length bs \<le> LENGTH('a) \<Longrightarrow> le_bytes (length bs) (le_word bs :: 'a::len word) = bs"
proof (induction bs)
  case Nil
  then show ?case by simp
next
  case (Cons b bs)
  have low: "ucast (ucast b OR push_bit 8 (le_word bs :: 'a word)) = b"
    using Cons.prems by (intro bit_word_eqI) (auto simp: bit_simps)
  have "drop_bit 8 (ucast b OR push_bit 8 (le_word bs :: 'a word))
      = take_bit (LENGTH('a) - 8) (le_word bs :: 'a word)"
    by (intro bit_word_eqI) (auto simp: bit_simps dest: bit_imp_le_length)
  also have "\<dots> = take_bit (LENGTH('a) - 8) (take_bit (8 * length bs) (le_word bs))"
    by (simp only: le_word_bounded)
  also have "\<dots> = le_word bs"
    unfolding take_bit_take_bit using Cons.prems by (simp add: min_absorb2 le_word_bounded del: take_bit_take_bit)
  finally have high: "drop_bit 8 (ucast b OR push_bit 8 (le_word bs :: 'a word)) = le_word bs" .
  show ?case
    unfolding list.size(4) add_0_right add_Suc_right le_bytes.simps le_word.simps ucast_plus_push_bit low high
    using Cons by simp
qed

lemma le_word_inject:
  assumes "length bs = length cs" and "8 * length bs \<le> LENGTH('a)"
    and "(le_word bs :: 'a::len word) = le_word cs"
  shows "bs = cs"
proof -
  have "bs = le_bytes (length bs) (le_word bs :: 'a word)"
    using assms(2) by (rule le_bytes_le_word [symmetric])
  also have "\<dots> = le_bytes (length cs) (le_word cs :: 'a word)"
    by (simp only: assms(1,3))
  also have "\<dots> = cs"
    using assms(1,2) by (intro le_bytes_le_word) simp
  finally show ?thesis .
qed

section \<open>Options and maps\<close>

lemma bind_eq_Some: "Option.bind x f = Some y \<longleftrightarrow> (\<exists>z. x = Some z \<and> f z = Some y)"
  by (cases x) auto

end
