(* ===== verification/Freya_Codec.thy ===== *)
theory Freya_Codec
  imports Freya_Prelude
begin

text \<open>
  The packet codec of \<open>share/network\<close>: \<open>reader.go\<close> (the cursor over a received packet, whose reads
  panic when the buffer is too small) and \<open>writer.go\<close> (the growing output buffer). The locale
  \<open>byte_sink\<close> states what a packet builder relies on (every write appends the encoding of its
  argument), \<open>byte_source\<close> what a packet parser relies on; both are interpreted on the operations
  below, and the round trip between them is proved for any sequence of fields.
\<close>

section \<open>Reader (reader.go)\<close>

record Reader =
  rbuffer :: "byte list"
  rindex :: nat
  rMagicKey :: uint16
  rSize :: uint16
  rCheckSum :: uint32
  rType :: uint16

text \<open>Every read returns the value and the advanced reader; \<open>None\<close> is \<open>log.Panic\<close>.\<close>

definition ReadSByte :: "Reader \<Rightarrow> (int8 \<times> Reader) option" where
  "ReadSByte r =
     (if length (rbuffer r) \<le> rindex r then None
      else let data = rbuffer r ! rindex r in Some (data, r\<lparr>rindex := rindex r + 1\<rparr>))"

definition ReadByte :: "Reader \<Rightarrow> (byte \<times> Reader) option" where
  "ReadByte r =
     (if length (rbuffer r) \<le> rindex r then None
      else let data = rbuffer r ! rindex r in Some (data, r\<lparr>rindex := rindex r + 1\<rparr>))"

definition ReadInt16 :: "Reader \<Rightarrow> (int16 \<times> Reader) option" where
  "ReadInt16 r =
     (if length (rbuffer r) \<le> rindex r + 1 then None
      else let b = rbuffer r; i = rindex r;
               data = ucast (b ! i);
               data = data + push_bit 8 (ucast (b ! (i + 1)))
           in Some (data, r\<lparr>rindex := i + 2\<rparr>))"

definition ReadUint16 :: "Reader \<Rightarrow> (uint16 \<times> Reader) option" where
  "ReadUint16 r =
     (if length (rbuffer r) \<le> rindex r + 1 then None
      else let b = rbuffer r; i = rindex r;
               data = ucast (b ! i);
               data = data + push_bit 8 (ucast (b ! (i + 1)))
           in Some (data, r\<lparr>rindex := i + 2\<rparr>))"

definition ReadInt32 :: "Reader \<Rightarrow> (int32 \<times> Reader) option" where
  "ReadInt32 r =
     (if length (rbuffer r) \<le> rindex r + 3 then None
      else let b = rbuffer r; i = rindex r;
               data = ucast (b ! i);
               data = data + push_bit 8 (ucast (b ! (i + 1)));
               data = data + push_bit 16 (ucast (b ! (i + 2)));
               data = data + push_bit 24 (ucast (b ! (i + 3)))
           in Some (data, r\<lparr>rindex := i + 4\<rparr>))"

definition ReadUint32 :: "Reader \<Rightarrow> (uint32 \<times> Reader) option" where
  "ReadUint32 r =
     (if length (rbuffer r) \<le> rindex r + 3 then None
      else let b = rbuffer r; i = rindex r;
               data = ucast (b ! i);
               data = data + push_bit 8 (ucast (b ! (i + 1)));
               data = data + push_bit 16 (ucast (b ! (i + 2)));
               data = data + push_bit 24 (ucast (b ! (i + 3)))
           in Some (data, r\<lparr>rindex := i + 4\<rparr>))"

definition ReadInt64 :: "Reader \<Rightarrow> (int64 \<times> Reader) option" where
  "ReadInt64 r =
     (if length (rbuffer r) \<le> rindex r + 7 then None
      else let b = rbuffer r; i = rindex r;
               data = ucast (b ! i);
               data = data + push_bit 8 (ucast (b ! (i + 1)));
               data = data + push_bit 16 (ucast (b ! (i + 2)));
               data = data + push_bit 24 (ucast (b ! (i + 3)));
               data = data + push_bit 32 (ucast (b ! (i + 4)));
               data = data + push_bit 40 (ucast (b ! (i + 5)));
               data = data + push_bit 48 (ucast (b ! (i + 6)));
               data = data + push_bit 56 (ucast (b ! (i + 7)))
           in Some (data, r\<lparr>rindex := i + 8\<rparr>))"

definition ReadUint64 :: "Reader \<Rightarrow> (uint64 \<times> Reader) option" where
  "ReadUint64 r =
     (if length (rbuffer r) \<le> rindex r + 7 then None
      else let b = rbuffer r; i = rindex r;
               data = ucast (b ! i);
               data = data + push_bit 8 (ucast (b ! (i + 1)));
               data = data + push_bit 16 (ucast (b ! (i + 2)));
               data = data + push_bit 24 (ucast (b ! (i + 3)));
               data = data + push_bit 32 (ucast (b ! (i + 4)));
               data = data + push_bit 40 (ucast (b ! (i + 5)));
               data = data + push_bit 48 (ucast (b ! (i + 6)));
               data = data + push_bit 56 (ucast (b ! (i + 7)))
           in Some (data, r\<lparr>rindex := i + 8\<rparr>))"

text \<open>
  \<open>ReadString\<close> and \<open>ReadBytes\<close> take a Go \<open>int\<close>; a negative length passes the size check and panics
  in the slice expression.
\<close>

definition ReadString :: "int \<Rightarrow> Reader \<Rightarrow> (byte list \<times> Reader) option" where
  "ReadString len r =
     (if int (length (rbuffer r)) \<le> int (rindex r) + len - 1 then None
      else if len < 0 \<or> length (rbuffer r) < rindex r then None
      else Some (take (nat len) (drop (rindex r) (rbuffer r)), r\<lparr>rindex := rindex r + nat len\<rparr>))"

definition ReadBytes :: "int \<Rightarrow> Reader \<Rightarrow> (byte list \<times> Reader) option" where
  "ReadBytes len r =
     (if int (length (rbuffer r)) \<le> int (rindex r) + len - 1 then None
      else if len < 0 \<or> length (rbuffer r) < rindex r then None
      else Some (take (nat len) (drop (rindex r) (rbuffer r)), r\<lparr>rindex := rindex r + nat len\<rparr>))"

text \<open>\<open>NewReader\<close> reads the ten-byte client header.\<close>

definition NewReader :: "byte list \<Rightarrow> Reader option" where
  "NewReader buffer = do {
     let r = \<lparr>rbuffer = buffer, rindex = 0, rMagicKey = 0, rSize = 0, rCheckSum = 0, rType = 0\<rparr>;
     (magic, r) \<leftarrow> ReadUint16 r;
     let r = r\<lparr>rMagicKey := magic\<rparr>;
     (size, r) \<leftarrow> ReadUint16 r;
     let r = r\<lparr>rSize := size\<rparr>;
     (sum, r) \<leftarrow> ReadUint32 r;
     let r = r\<lparr>rCheckSum := sum\<rparr>;
     (type, r) \<leftarrow> ReadUint16 r;
     Some (r\<lparr>rType := type\<rparr>)
   }"

section \<open>Writer (writer.go)\<close>

definition DEFAULT_BUFFER_SIZE :: nat where
  "DEFAULT_BUFFER_SIZE = 1024"

definition MagicKey :: uint16 where
  "MagicKey = 0xB7E2"

record Writer =
  wbuffer :: "byte list"
  windex :: nat
  wType :: int

text \<open>The dynamic types \<open>getType\<close> distinguishes; \<open>Opaque\<close> is any other value.\<close>

datatype interface =
    Int8 int8 | Uint8 byte | Int16 int16 | Uint16 uint16 | Int32 int32 | Uint32 uint32
  | GoInt int64 | Int64 int64 | Uint64 uint64 | Opaque

function checkLength :: "nat \<Rightarrow> Writer \<Rightarrow> Writer" where
  "checkLength len w =
     (if length (wbuffer w) < windex w + len
      then checkLength len (w\<lparr>wbuffer := wbuffer w @ replicate DEFAULT_BUFFER_SIZE 0\<rparr>)
      else w)"
  by pat_completeness auto
termination
  by (relation "measure (\<lambda>(len, w). windex w + len - length (wbuffer w))")
    (auto simp: DEFAULT_BUFFER_SIZE_def)

text \<open>
  \<open>getType\<close> serialises into an eight-byte scratch array and returns its first \<open>len\<close> bytes; a value
  of Go's \<open>int\<close> fills only the first four.
\<close>

definition getType :: "interface \<Rightarrow> nat \<Rightarrow> Writer \<Rightarrow> byte list option \<times> Writer" where
  "getType obj len w =
     (let w = checkLength len w;
          tmp = (case obj of
              Int8 x \<Rightarrow> Some (le_bytes 1 x @ replicate 7 0)
            | Uint8 x \<Rightarrow> Some (le_bytes 1 x @ replicate 7 0)
            | Int16 x \<Rightarrow> Some (le_bytes 2 x @ replicate 6 0)
            | Uint16 x \<Rightarrow> Some (le_bytes 2 x @ replicate 6 0)
            | Int32 x \<Rightarrow> Some (le_bytes 4 x @ replicate 4 0)
            | Uint32 x \<Rightarrow> Some (le_bytes 4 x @ replicate 4 0)
            | GoInt x \<Rightarrow> Some (le_bytes 4 x @ replicate 4 0)
            | Int64 x \<Rightarrow> Some (le_bytes 8 x)
            | Uint64 x \<Rightarrow> Some (le_bytes 8 x)
            | Opaque \<Rightarrow> None)
      in (map_option (take len) tmp, w))"

text \<open>The assignments \<open>w.buffer[w.index+i] = t[i]\<close> for \<open>i < n\<close> and \<open>w.index += n\<close> that end every write.\<close>

definition store :: "byte list option \<Rightarrow> nat \<Rightarrow> Writer \<Rightarrow> Writer option" where
  "store t n w =
     (case t of
        None \<Rightarrow> None
      | Some t \<Rightarrow>
          (if n \<le> length t \<and> windex w + n \<le> length (wbuffer w)
           then Some (w\<lparr>wbuffer := splice (wbuffer w) (windex w) (take n t), windex := windex w + n\<rparr>)
           else None))"

definition WriteBool :: "bool \<Rightarrow> Writer \<Rightarrow> Writer option" where
  "WriteBool data w = store (Some [if data then 1 else 0]) 1 w"

definition WriteSbyte :: "interface \<Rightarrow> Writer \<Rightarrow> Writer option" where
  "WriteSbyte data w = (let (t, w) = getType data 1 w in store t 1 w)"

definition WriteByte :: "interface \<Rightarrow> Writer \<Rightarrow> Writer option" where
  "WriteByte data w = (let (t, w) = getType data 1 w in store t 1 w)"

definition WriteInt16 :: "interface \<Rightarrow> Writer \<Rightarrow> Writer option" where
  "WriteInt16 data w = (let (t, w) = getType data 2 w in store t 2 w)"

definition WriteUint16 :: "interface \<Rightarrow> Writer \<Rightarrow> Writer option" where
  "WriteUint16 data w = (let (t, w) = getType data 2 w in store t 2 w)"

definition WriteInt32 :: "interface \<Rightarrow> Writer \<Rightarrow> Writer option" where
  "WriteInt32 data w = (let (t, w) = getType data 4 w in store t 4 w)"

definition WriteUint32 :: "interface \<Rightarrow> Writer \<Rightarrow> Writer option" where
  "WriteUint32 data w = (let (t, w) = getType data 4 w in store t 4 w)"

definition WriteInt64 :: "interface \<Rightarrow> Writer \<Rightarrow> Writer option" where
  "WriteInt64 data w = (let (t, w) = getType data 8 w in store t 8 w)"

definition WriteUint64 :: "interface \<Rightarrow> Writer \<Rightarrow> Writer option" where
  "WriteUint64 data w = (let (t, w) = getType data 8 w in store t 8 w)"

definition WriteString :: "byte list \<Rightarrow> Writer \<Rightarrow> Writer option" where
  "WriteString data w = store (Some data) (length data) (checkLength (length data) w)"

definition WriteBytes :: "byte list \<Rightarrow> Writer \<Rightarrow> Writer option" where
  "WriteBytes data w = store (Some data) (length data) (checkLength (length data) w)"

text \<open>The optional argument of \<open>NewWriter\<close> is the custom magic key.\<close>

definition NewWriter :: "uint16 \<Rightarrow> uint16 option \<Rightarrow> Writer option" where
  "NewWriter code magic = do {
     let w = \<lparr>wbuffer = replicate DEFAULT_BUFFER_SIZE 0, windex = 0, wType = 0\<rparr>;
     w \<leftarrow> (case magic of None \<Rightarrow> WriteUint16 (Uint16 MagicKey) w | Some m \<Rightarrow> WriteUint16 (Uint16 m) w);
     w \<leftarrow> WriteUint16 (GoInt 0) w;
     w \<leftarrow> WriteUint16 (Uint16 code) w;
     Some (w\<lparr>wType := uint code\<rparr>)
   }"

text \<open>
  \<open>Finalize\<close> patches the size into the buffer itself and returns a copy of the written part, so the
  writer it leaves behind is returned too: the same packet is finalised once per receiving session.
\<close>

definition Finalize :: "Writer \<Rightarrow> (byte list \<times> Writer) option" where
  "Finalize w =
     (let len = windex w in
      if 3 < length (wbuffer w) \<and> len \<le> length (wbuffer w)
      then let w = w\<lparr>wbuffer := (wbuffer w)[2 := word_of_nat len, 3 := word_of_nat (len div 256)]\<rparr>
           in Some (take len (wbuffer w), w)
      else None)"

section \<open>Interfaces\<close>

text \<open>Running a list of writes or of reads, stopping at the first panic.\<close>

primrec put_all :: "('v \<Rightarrow> 'w \<Rightarrow> 'w option) \<Rightarrow> 'v list \<Rightarrow> 'w \<Rightarrow> 'w option" where
  "put_all put [] w = Some w"
| "put_all put (v # vs) w = Option.bind (put v w) (put_all put vs)"

primrec get_all :: "('k \<Rightarrow> 'r \<Rightarrow> ('v \<times> 'r) option) \<Rightarrow> 'k list \<Rightarrow> 'r \<Rightarrow> ('v list \<times> 'r) option" where
  "get_all get [] r = Some ([], r)"
| "get_all get (k # ks) r =
     (case get k r of None \<Rightarrow> None
      | Some (v, r) \<Rightarrow> (case get_all get ks r of None \<Rightarrow> None | Some (vs, r) \<Rightarrow> Some (v # vs, r)))"

text \<open>What a packet builder relies on: a write never panics and appends the encoding of its value.\<close>

locale byte_sink =
  fixes put :: "'v \<Rightarrow> 'w \<Rightarrow> 'w option"
    and enc :: "'v \<Rightarrow> byte list"
    and written :: "'w \<Rightarrow> byte list"
    and invar :: "'w \<Rightarrow> bool"
  assumes put_ok: "invar w \<Longrightarrow> \<exists>w'. put v w = Some w' \<and> invar w' \<and> written w' = written w @ enc v"
begin

lemma put_all_ok:
  "invar w \<Longrightarrow> \<exists>w'. put_all put vs w = Some w' \<and> invar w' \<and> written w' = written w @ concat (map enc vs)"
proof (induction vs arbitrary: w)
  case Nil
  then show ?case by simp
next
  case (Cons v vs)
  from put_ok [OF Cons.prems, of v] obtain u
    where u: "put v w = Some u" "invar u" "written u = written w @ enc v" by blast
  from Cons.IH [OF u(2)] u(1,3) show ?case by auto
qed

end

text \<open>What a packet parser relies on: a read consumes exactly its width and panics when it is not there.\<close>

locale byte_source =
  fixes get :: "'k \<Rightarrow> 'r \<Rightarrow> ('v \<times> 'r) option"
    and width :: "'k \<Rightarrow> nat"
    and dec :: "'k \<Rightarrow> byte list \<Rightarrow> 'v"
    and rest :: "'r \<Rightarrow> byte list"
    and valid :: "'r \<Rightarrow> bool"
  assumes get_ok: "valid r \<Longrightarrow> width k \<le> length (rest r) \<Longrightarrow>
      \<exists>r'. get k r = Some (dec k (take (width k) (rest r)), r') \<and> valid r' \<and> rest r' = drop (width k) (rest r)"
    and get_short: "valid r \<Longrightarrow> length (rest r) < width k \<Longrightarrow> get k r = None"
begin

text \<open>A whole parse succeeds exactly when the bytes are there.\<close>

lemma get_all_iff: "valid r \<Longrightarrow> get_all get ks r \<noteq> None \<longleftrightarrow> (\<Sum>k\<leftarrow>ks. width k) \<le> length (rest r)"
proof (induction ks arbitrary: r)
  case Nil
  then show ?case by simp
next
  case (Cons k ks)
  show ?case
  proof (cases "width k \<le> length (rest r)")
    case True
    from get_ok [OF Cons.prems this] obtain r' where
      "get k r = Some (dec k (take (width k) (rest r)), r')" "valid r'" "rest r' = drop (width k) (rest r)"
      by blast
    with Cons.IH [of r'] True show ?thesis by (auto split: option.splits)
  next
    case False
    with get_short [of r k] Cons.prems show ?thesis by simp
  qed
qed

end

locale byte_codec =
  byte_sink put enc written invar + byte_source get width dec rest valid
  for put :: "'v \<Rightarrow> 'w \<Rightarrow> 'w option" and enc :: "'v \<Rightarrow> byte list"
    and written :: "'w \<Rightarrow> byte list" and invar :: "'w \<Rightarrow> bool"
    and get :: "'k \<Rightarrow> 'r \<Rightarrow> ('v \<times> 'r) option" and width :: "'k \<Rightarrow> nat"
    and dec :: "'k \<Rightarrow> byte list \<Rightarrow> 'v" and rest :: "'r \<Rightarrow> byte list" and valid :: "'r \<Rightarrow> bool" +
  fixes kind :: "'v \<Rightarrow> 'k"
  assumes width_enc: "width (kind v) = length (enc v)"
    and dec_enc: "dec (kind v) (enc v) = v"
begin

lemma round_trip:
  "valid r \<Longrightarrow> rest r = concat (map enc vs) @ post \<Longrightarrow>
     \<exists>r'. get_all get (map kind vs) r = Some (vs, r') \<and> rest r' = post"
proof (induction vs arbitrary: r)
  case Nil
  then show ?case by simp
next
  case (Cons v vs)
  have "width (kind v) \<le> length (rest r)"
    using Cons.prems by (simp add: width_enc)
  from get_ok [OF Cons.prems(1) this] obtain r1 where r1:
    "get (kind v) r = Some (v, r1)" "valid r1" "rest r1 = concat (map enc vs) @ post"
    using Cons.prems(2) by (auto simp: width_enc dec_enc)
  from Cons.IH [OF r1(2,3)] r1(1) show ?case by auto
qed

end

section \<open>The writer appends\<close>

definition written :: "Writer \<Rightarrow> byte list" where
  "written w = take (windex w) (wbuffer w)"

definition writer_inv :: "Writer \<Rightarrow> bool" where
  "writer_inv w \<longleftrightarrow> windex w \<le> length (wbuffer w) \<and> DEFAULT_BUFFER_SIZE \<le> length (wbuffer w)"

lemma length_written [simp]: "writer_inv w \<Longrightarrow> length (written w) = windex w"
  by (simp add: written_def writer_inv_def)

declare checkLength.simps [simp del]

lemma checkLength_spec:
  "windex (checkLength len w) = windex w
   \<and> wType (checkLength len w) = wType w
   \<and> windex w + len \<le> length (wbuffer (checkLength len w))
   \<and> (\<exists>k. wbuffer (checkLength len w) = wbuffer w @ replicate k 0)"
proof (induction len w rule: checkLength.induct)
  case (1 len w)
  show ?case
  proof (cases "length (wbuffer w) < windex w + len")
    case True
    from "1.IH" [OF True] True show ?thesis
      by (subst (1 2 3 4) checkLength.simps) (auto simp: replicate_add [symmetric])
  next
    case False
    then show ?thesis by (subst (1 2 3 4) checkLength.simps) (auto intro: exI [of _ 0])
  qed
qed

lemma checkLength_written:
  "writer_inv w \<Longrightarrow> written (checkLength len w) = written w \<and> writer_inv (checkLength len w)"
  using checkLength_spec [of len w] by (auto simp: written_def writer_inv_def)

lemma store_written:
  assumes "writer_inv w" and "windex w + n \<le> length (wbuffer w)" and "length t = n"
  shows "\<exists>w'. store (Some t) n w = Some w' \<and> writer_inv w' \<and> written w' = written w @ t \<and> wType w' = wType w"
  using assms take_splice_after [of "windex w" t "wbuffer w"]
  by (auto simp: store_def written_def writer_inv_def)

text \<open>The write operations all reserve their length and then store that many bytes.\<close>

lemma reserve_store_written:
  assumes "writer_inv w" and "length t = n"
  shows "\<exists>w'. store (Some t) n (checkLength n w) = Some w' \<and> writer_inv w' \<and> written w' = written w @ t
           \<and> wType w' = wType w"
  using store_written [of "checkLength n w" n t] checkLength_written [OF assms(1), of n]
    checkLength_spec [of n w] assms(2) by auto

section \<open>Fields of a packet\<close>

text \<open>One constructor per typed write operation; \<open>write_field\<close> is the call, \<open>read_field\<close> the matching read.\<close>

datatype field =
    FSbyte int8 | FByte byte | FInt16 int16 | FUint16 uint16 | FInt32 int32 | FUint32 uint32
  | FInt64 int64 | FUint64 uint64 | FString "byte list" | FBytes "byte list"

datatype fkind =
    KSbyte | KByte | KInt16 | KUint16 | KInt32 | KUint32 | KInt64 | KUint64 | KString nat | KBytes nat

primrec write_field :: "field \<Rightarrow> Writer \<Rightarrow> Writer option" where
  "write_field (FSbyte x) w = WriteSbyte (Int8 x) w"
| "write_field (FByte x) w = WriteByte (Uint8 x) w"
| "write_field (FInt16 x) w = WriteInt16 (Int16 x) w"
| "write_field (FUint16 x) w = WriteUint16 (Uint16 x) w"
| "write_field (FInt32 x) w = WriteInt32 (Int32 x) w"
| "write_field (FUint32 x) w = WriteUint32 (Uint32 x) w"
| "write_field (FInt64 x) w = WriteInt64 (Int64 x) w"
| "write_field (FUint64 x) w = WriteUint64 (Uint64 x) w"
| "write_field (FString x) w = WriteString x w"
| "write_field (FBytes x) w = WriteBytes x w"

primrec read_field :: "fkind \<Rightarrow> Reader \<Rightarrow> (field \<times> Reader) option" where
  "read_field KSbyte r = map_option (map_prod FSbyte id) (ReadSByte r)"
| "read_field KByte r = map_option (map_prod FByte id) (ReadByte r)"
| "read_field KInt16 r = map_option (map_prod FInt16 id) (ReadInt16 r)"
| "read_field KUint16 r = map_option (map_prod FUint16 id) (ReadUint16 r)"
| "read_field KInt32 r = map_option (map_prod FInt32 id) (ReadInt32 r)"
| "read_field KUint32 r = map_option (map_prod FUint32 id) (ReadUint32 r)"
| "read_field KInt64 r = map_option (map_prod FInt64 id) (ReadInt64 r)"
| "read_field KUint64 r = map_option (map_prod FUint64 id) (ReadUint64 r)"
| "read_field (KString n) r = map_option (map_prod FString id) (ReadString (int n) r)"
| "read_field (KBytes n) r = map_option (map_prod FBytes id) (ReadBytes (int n) r)"

primrec field_bytes :: "field \<Rightarrow> byte list" where
  "field_bytes (FSbyte x) = le_bytes 1 x"
| "field_bytes (FByte x) = le_bytes 1 x"
| "field_bytes (FInt16 x) = le_bytes 2 x"
| "field_bytes (FUint16 x) = le_bytes 2 x"
| "field_bytes (FInt32 x) = le_bytes 4 x"
| "field_bytes (FUint32 x) = le_bytes 4 x"
| "field_bytes (FInt64 x) = le_bytes 8 x"
| "field_bytes (FUint64 x) = le_bytes 8 x"
| "field_bytes (FString x) = x"
| "field_bytes (FBytes x) = x"

primrec field_of_bytes :: "fkind \<Rightarrow> byte list \<Rightarrow> field" where
  "field_of_bytes KSbyte bs = FSbyte (le_word bs)"
| "field_of_bytes KByte bs = FByte (le_word bs)"
| "field_of_bytes KInt16 bs = FInt16 (le_word bs)"
| "field_of_bytes KUint16 bs = FUint16 (le_word bs)"
| "field_of_bytes KInt32 bs = FInt32 (le_word bs)"
| "field_of_bytes KUint32 bs = FUint32 (le_word bs)"
| "field_of_bytes KInt64 bs = FInt64 (le_word bs)"
| "field_of_bytes KUint64 bs = FUint64 (le_word bs)"
| "field_of_bytes (KString n) bs = FString bs"
| "field_of_bytes (KBytes n) bs = FBytes bs"

primrec kind_width :: "fkind \<Rightarrow> nat" where
  "kind_width KSbyte = 1" | "kind_width KByte = 1"
| "kind_width KInt16 = 2" | "kind_width KUint16 = 2"
| "kind_width KInt32 = 4" | "kind_width KUint32 = 4"
| "kind_width KInt64 = 8" | "kind_width KUint64 = 8"
| "kind_width (KString n) = n" | "kind_width (KBytes n) = n"

primrec field_kind :: "field \<Rightarrow> fkind" where
  "field_kind (FSbyte x) = KSbyte" | "field_kind (FByte x) = KByte"
| "field_kind (FInt16 x) = KInt16" | "field_kind (FUint16 x) = KUint16"
| "field_kind (FInt32 x) = KInt32" | "field_kind (FUint32 x) = KUint32"
| "field_kind (FInt64 x) = KInt64" | "field_kind (FUint64 x) = KUint64"
| "field_kind (FString x) = KString (length x)" | "field_kind (FBytes x) = KBytes (length x)"

lemmas write_defs = WriteSbyte_def WriteByte_def WriteInt16_def WriteUint16_def WriteInt32_def
  WriteUint32_def WriteInt64_def WriteUint64_def WriteString_def WriteBytes_def getType_def Let_def

lemma write_field_written:
  assumes "writer_inv w"
  shows "\<exists>w'. write_field f w = Some w' \<and> writer_inv w' \<and> written w' = written w @ field_bytes f
           \<and> wType w' = wType w"
  using reserve_store_written [OF assms, of "field_bytes f"]
  by (cases f) (simp_all add: write_defs)

section \<open>The reader consumes\<close>

definition unread :: "Reader \<Rightarrow> byte list" where
  "unread r = drop (rindex r) (rbuffer r)"

lemma take2_drop: "i + 1 < length b \<Longrightarrow> take 2 (drop i b) = [b ! i, b ! (i + 1)]"
  by (simp add: take_Suc_conv_app_nth numeral_2_eq_2)

lemma take4_drop:
  "i + 3 < length b \<Longrightarrow> take 4 (drop i b) = [b ! i, b ! (i + 1), b ! (i + 2), b ! (i + 3)]"
  by (simp add: take_Suc_conv_app_nth eval_nat_numeral add.commute)

lemma take8_drop:
  "i + 7 < length b \<Longrightarrow> take 8 (drop i b) =
     [b ! i, b ! (i + 1), b ! (i + 2), b ! (i + 3), b ! (i + 4), b ! (i + 5), b ! (i + 6), b ! (i + 7)]"
  by (simp add: take_Suc_conv_app_nth eval_nat_numeral add.commute)

lemmas read_defs = ReadSByte_def ReadByte_def ReadInt16_def ReadUint16_def ReadInt32_def
  ReadUint32_def ReadInt64_def ReadUint64_def ReadString_def ReadBytes_def Let_def

lemma le_word_2: "le_word [a, b] = ucast a + push_bit 8 (ucast b)"
  by (simp add: push_bit_add)

lemma le_word_4:
  "le_word [a, b, c, d] = ucast a + push_bit 8 (ucast b) + push_bit 16 (ucast c) + push_bit 24 (ucast d)"
  by (simp add: push_bit_add add.assoc)

lemma le_word_8:
  "le_word [a, b, c, d, e, f, g, h] =
     ucast a + push_bit 8 (ucast b) + push_bit 16 (ucast c) + push_bit 24 (ucast d)
     + push_bit 32 (ucast e) + push_bit 40 (ucast f) + push_bit 48 (ucast g) + push_bit 56 (ucast h)"
  by (simp add: push_bit_add add.assoc)

definition reader_inv :: "Reader \<Rightarrow> bool" where
  "reader_inv r \<longleftrightarrow> rindex r \<le> length (rbuffer r)"

lemma take1_drop: "i < length b \<Longrightarrow> take 1 (drop i b) = [b ! i]"
  by (simp add: take_Suc_conv_app_nth)

lemma le_word_1: "le_word [a] = (a :: byte)"
  by simp

lemma ReadSByte_unread:
  "1 \<le> length (unread r) \<Longrightarrow> ReadSByte r = Some (le_word (take 1 (unread r)), r\<lparr>rindex := rindex r + 1\<rparr>)"
  by (simp add: ReadSByte_def Let_def unread_def take1_drop le_word_1 del: le_word.simps One_nat_def)

lemma ReadByte_unread:
  "1 \<le> length (unread r) \<Longrightarrow> ReadByte r = Some (le_word (take 1 (unread r)), r\<lparr>rindex := rindex r + 1\<rparr>)"
  by (simp add: ReadByte_def Let_def unread_def take1_drop le_word_1 del: le_word.simps One_nat_def)

lemma ReadInt16_unread:
  "2 \<le> length (unread r) \<Longrightarrow> ReadInt16 r = Some (le_word (take 2 (unread r)), r\<lparr>rindex := rindex r + 2\<rparr>)"
  by (simp add: ReadInt16_def Let_def unread_def take2_drop le_word_2 del: le_word.simps)

lemma ReadUint16_unread:
  "2 \<le> length (unread r) \<Longrightarrow> ReadUint16 r = Some (le_word (take 2 (unread r)), r\<lparr>rindex := rindex r + 2\<rparr>)"
  by (simp add: ReadUint16_def Let_def unread_def take2_drop le_word_2 del: le_word.simps)

lemma ReadInt32_unread:
  "4 \<le> length (unread r) \<Longrightarrow> ReadInt32 r = Some (le_word (take 4 (unread r)), r\<lparr>rindex := rindex r + 4\<rparr>)"
  by (simp add: ReadInt32_def Let_def unread_def take4_drop le_word_4 del: le_word.simps)

lemma ReadUint32_unread:
  "4 \<le> length (unread r) \<Longrightarrow> ReadUint32 r = Some (le_word (take 4 (unread r)), r\<lparr>rindex := rindex r + 4\<rparr>)"
  by (simp add: ReadUint32_def Let_def unread_def take4_drop le_word_4 del: le_word.simps)

lemma ReadInt64_unread:
  "8 \<le> length (unread r) \<Longrightarrow> ReadInt64 r = Some (le_word (take 8 (unread r)), r\<lparr>rindex := rindex r + 8\<rparr>)"
  by (simp add: ReadInt64_def Let_def unread_def take8_drop le_word_8 del: le_word.simps)

lemma ReadUint64_unread:
  "8 \<le> length (unread r) \<Longrightarrow> ReadUint64 r = Some (le_word (take 8 (unread r)), r\<lparr>rindex := rindex r + 8\<rparr>)"
  by (simp add: ReadUint64_def Let_def unread_def take8_drop le_word_8 del: le_word.simps)

lemma ReadString_unread:
  "reader_inv r \<Longrightarrow> n \<le> length (unread r) \<Longrightarrow>
     ReadString (int n) r = Some (take n (unread r), r\<lparr>rindex := rindex r + n\<rparr>)"
  by (auto simp: ReadString_def unread_def reader_inv_def)

lemma ReadBytes_unread:
  "reader_inv r \<Longrightarrow> n \<le> length (unread r) \<Longrightarrow>
     ReadBytes (int n) r = Some (take n (unread r), r\<lparr>rindex := rindex r + n\<rparr>)"
  by (auto simp: ReadBytes_def unread_def reader_inv_def)

lemmas reads_unread = ReadSByte_unread ReadByte_unread ReadInt16_unread ReadUint16_unread
  ReadInt32_unread ReadUint32_unread ReadInt64_unread ReadUint64_unread ReadString_unread ReadBytes_unread

lemma advance_unread: "unread (r\<lparr>rindex := rindex r + n\<rparr>) = drop n (unread r)"
  by (simp add: unread_def add.commute)

lemma advance_inv: "reader_inv r \<Longrightarrow> n \<le> length (unread r) \<Longrightarrow> reader_inv (r\<lparr>rindex := rindex r + n\<rparr>)"
  by (auto simp: reader_inv_def unread_def)

lemma read_field_unread:
  assumes "reader_inv r" and "kind_width k \<le> length (unread r)"
  shows "\<exists>r'. read_field k r = Some (field_of_bytes k (take (kind_width k) (unread r)), r')
           \<and> reader_inv r' \<and> unread r' = drop (kind_width k) (unread r)"
proof -
  have "read_field k r = Some (field_of_bytes k (take (kind_width k) (unread r)),
      r\<lparr>rindex := rindex r + kind_width k\<rparr>)"
    using assms by (cases k) (simp_all add: reads_unread del: One_nat_def)
  then show ?thesis
    using assms by (simp add: advance_unread advance_inv)
qed

lemma read_field_short:
  assumes "reader_inv r" and "length (unread r) < kind_width k"
  shows "read_field k r = None"
  using assms by (cases k) (auto simp: read_defs unread_def reader_inv_def)

section \<open>The interfaces hold\<close>

lemma field_of_field_bytes: "field_of_bytes (field_kind f) (field_bytes f) = f"
  by (cases f) (simp_all add: le_round_trip del: le_bytes.simps One_nat_def)

lemma kind_width_field: "kind_width (field_kind f) = length (field_bytes f)"
  by (cases f) simp_all

interpretation pkt: byte_codec write_field field_bytes written writer_inv
  read_field kind_width field_of_bytes unread reader_inv field_kind
proof unfold_locales
  fix w f
  assume "writer_inv w"
  then show "\<exists>w'. write_field f w = Some w' \<and> writer_inv w' \<and> written w' = written w @ field_bytes f"
    using write_field_written by blast
qed (rule read_field_unread read_field_short kind_width_field field_of_field_bytes; assumption)+

text \<open>Writing a Go \<open>int\<close> constant, as \<open>NewWriter\<close> does for the size field.\<close>

lemma WriteUint16_GoInt_written:
  assumes "writer_inv w"
  shows "\<exists>w'. WriteUint16 (GoInt x) w = Some w' \<and> writer_inv w' \<and> written w' = written w @ le_bytes 2 x
           \<and> wType w' = wType w"
  using reserve_store_written [OF assms, of "le_bytes 2 x"]
  by (simp add: write_defs numeral_2_eq_2 eval_nat_numeral)

lemma NewWriter_written:
  "\<exists>w. NewWriter code magic = Some w \<and> writer_inv w \<and> wType w = uint code
     \<and> written w = le_bytes 2 (case magic of None \<Rightarrow> MagicKey | Some m \<Rightarrow> m) @ [0, 0] @ le_bytes 2 code"
proof -
  define m where "m = (case magic of None \<Rightarrow> MagicKey | Some m \<Rightarrow> m)"
  define w0 where "w0 = \<lparr>wbuffer = replicate DEFAULT_BUFFER_SIZE (0::byte), windex = 0, wType = 0\<rparr>"
  have "writer_inv w0" and "written w0 = []"
    by (simp_all add: w0_def writer_inv_def written_def)
  then obtain w1 where w1: "WriteUint16 (Uint16 m) w0 = Some w1" "writer_inv w1" "written w1 = le_bytes 2 m"
    using write_field_written [of w0 "FUint16 m"] by auto
  from WriteUint16_GoInt_written [OF w1(2), of 0] obtain w2 where w2:
    "WriteUint16 (GoInt 0) w1 = Some w2" "writer_inv w2" "written w2 = written w1 @ le_bytes 2 (0::int64)" by blast
  from write_field_written [OF w2(2), of "FUint16 code"] obtain w3 where w3:
    "WriteUint16 (Uint16 code) w2 = Some w3" "writer_inv w3" "written w3 = written w2 @ le_bytes 2 code" by auto
  have "NewWriter code magic = Some (w3\<lparr>wType := uint code\<rparr>)"
    using w1(1) w2(1) w3(1) by (simp add: NewWriter_def m_def w0_def Let_def split: option.splits)
  then show ?thesis
    using w1 w2 w3 by (simp add: m_def writer_inv_def written_def numeral_2_eq_2)
qed

section \<open>Properties\<close>

lemma size_low_byte: "ucast (word_of_nat n :: uint16) = (word_of_nat n :: byte)"
  by (rule bit_word_eqI) (simp add: bit_simps)

lemma size_high_byte: "ucast (drop_bit 8 (word_of_nat n :: uint16)) = (word_of_nat (n div 256) :: byte)"
proof -
  have "n div 256 = drop_bit 8 n" by (simp add: drop_bit_eq_div)
  then show ?thesis by (intro bit_word_eqI) (auto simp: bit_simps)
qed

lemma size_bytes: "le_bytes 2 (word_of_nat n :: uint16) = [word_of_nat n, word_of_nat (n div 256)]"
  by (simp add: numeral_2_eq_2 size_low_byte size_high_byte)

lemma Finalize_written:
  assumes "writer_inv w" and "written w = a @ b @ c" and "length a = 2" and "length b = 2"
  shows "\<exists>w'. Finalize w = Some (a @ le_bytes 2 (word_of_nat (windex w) :: uint16) @ c, w')"
proof -
  have len: "3 < length (wbuffer w)" "windex w \<le> length (wbuffer w)"
    using assms(1) by (auto simp: writer_inv_def DEFAULT_BUFFER_SIZE_def)
  obtain a0 a1 b0 b1 where ab: "a = [a0, a1]" "b = [b0, b1]"
    using assms(3,4) by (auto simp: numeral_2_eq_2 length_Suc_conv)
  have "take (windex w) ((wbuffer w)[2 := x, 3 := y]) = (take (windex w) (wbuffer w))[2 := x, 3 := y]" for x y
    by (simp add: take_update_swap)
  also have "\<dots>x y = a @ [x, y] @ c" for x y
    using assms(2) ab by (simp add: written_def numeral_3_eq_3 numeral_2_eq_2)
  finally show ?thesis
    using len by (simp add: Finalize_def Let_def size_bytes)
qed


text \<open>
  Finalising a packet again, as a broadcast does once per receiving session, yields the same bytes.
\<close>

theorem Finalize_idempotent:
  assumes "Finalize w = Some (bs, w')"
  shows "Finalize w' = Some (bs, w')"
  using assms by (auto simp: Finalize_def Let_def list_update_again split: if_splits)

theorem Finalize_idempotent_witness:
  "Finalize \<lparr>wbuffer = [1, 2, 9, 9, 5, 6], windex = 5, wType = 0\<rparr>
     = Some ([1, 2, 5, 0, 5], \<lparr>wbuffer = [1, 2, 5, 0, 5, 6], windex = 5, wType = 0\<rparr>)
   \<and> Finalize \<lparr>wbuffer = [1, 2, 5, 0, 5, 6], windex = 5, wType = 0\<rparr>
     = Some ([1, 2, 5, 0, 5], \<lparr>wbuffer = [1, 2, 5, 0, 5, 6], windex = 5, wType = 0\<rparr>)"
proof -
  have "Finalize \<lparr>wbuffer = [1, 2, 9, 9, 5, 6], windex = 5, wType = 0\<rparr>
      = Some ([1, 2, 5, 0, 5], \<lparr>wbuffer = [1, 2, 5, 0, 5, 6], windex = 5, wType = 0\<rparr>)"
    by (simp add: Finalize_def)
  from this Finalize_idempotent [OF this] show ?thesis by simp
qed

text \<open>
  On a writer whose cursor is inside its buffer, no typed write ever panics, because each reserves
  its length first; only \<open>WriteBool\<close>, which does not call \<open>checkLength\<close>, panics, and exactly when the
  buffer is full.
\<close>

theorem only_WriteBool_panics:
  assumes "writer_inv w"
  shows "write_field f w \<noteq> None \<and> (WriteBool b w = None \<longleftrightarrow> windex w = length (wbuffer w))"
proof
  show "write_field f w \<noteq> None"
    using write_field_written [OF assms] by auto
  show "WriteBool b w = None \<longleftrightarrow> windex w = length (wbuffer w)"
    using assms by (auto simp: WriteBool_def store_def writer_inv_def)
qed

theorem only_WriteBool_panics_witness:
  "write_field (FByte 7) \<lparr>wbuffer = replicate 1024 0, windex = 1024, wType = 0\<rparr> \<noteq> None
   \<and> WriteBool True \<lparr>wbuffer = replicate 1024 0, windex = 1024, wType = 0\<rparr> = None"
  using only_WriteBool_panics [of "\<lparr>wbuffer = replicate 1024 0, windex = 1024, wType = 0\<rparr>" "FByte 7" True]
  by (simp add: writer_inv_def DEFAULT_BUFFER_SIZE_def)

text \<open>
  \<open>NewReader\<close> accepts exactly the buffers that hold the ten-byte client header, and then leaves
  the cursor behind it with the magic key, size, checksum and packet type of the header.
\<close>

theorem NewReader_header:
  "NewReader buf =
     (if length buf < 10 then None
      else Some \<lparr>rbuffer = buf, rindex = 10, rMagicKey = le_word (take 2 buf),
                 rSize = le_word (take 2 (drop 2 buf)), rCheckSum = le_word (take 4 (drop 4 buf)),
                 rType = le_word (take 2 (drop 8 buf))\<rparr>)"
proof (cases "length buf < 10")
  case True
  then consider "length buf < 2" | "2 \<le> length buf" "length buf < 4"
    | "4 \<le> length buf" "length buf < 8" | "8 \<le> length buf" "length buf < 10" by linarith
  then show ?thesis
    using True
    by cases (simp_all add: NewReader_def ReadUint16_def ReadUint32_def Let_def)
next
  case False
  then show ?thesis
    by (simp add: NewReader_def ReadUint16_unread ReadUint32_unread Let_def unread_def eval_nat_numeral del: le_word.simps)
qed

end
