(* ===== verification/Freya_Encryption.thy ===== *)
theory Freya_Encryption
  imports Freya_Codec
begin

text \<open>
  The transport cipher of \<open>share/encryption\<close>: the key generator (\<open>keyrand.go\<close>), the shared key table
  (\<open>xorkeytable.go\<close>) and the per-session cipher state with \<open>Encrypt\<close> and \<open>Decrypt\<close>
  (\<open>encryption.go\<close>). Both loops work in place on byte slices with panicking index expressions, and
  are proved equal to a chained block cipher on lists, \<open>chain_enc\<close> and \<open>chain_dec\<close>, whose inverse
  laws are the contract \<open>chained_cipher\<close>.
\<close>

section \<open>Constants (const.go)\<close>

definition RecvXorKeyNum :: nat where "RecvXorKeyNum = 0x4000"
definition RecvXorKeyNumMask :: uint32 where "RecvXorKeyNumMask = 0x00003FFF"
definition RecvXorSeed :: uint32 where "RecvXorSeed = 0x8F54C37B OR 1"
definition Recv2ndXorSeed :: uint32 where "Recv2ndXorSeed = 0x34BC821A OR 1"
definition SendXorKey :: uint32 where "SendXorKey = 0x7AB38CF1"
definition S2CHeaderSize :: nat where "S2CHeaderSize = 0x06"
definition C2SHeaderSize :: nat where "C2SHeaderSize = 0x0A"
definition MainCMDSize :: nat where "MainCMDSize = 0x02"
definition Connect2SvrSize :: nat where "Connect2SvrSize = 0x0E"

lemmas enc_consts = RecvXorKeyNum_def RecvXorKeyNumMask_def SendXorKey_def S2CHeaderSize_def
  C2SHeaderSize_def MainCMDSize_def Connect2SvrSize_def

section \<open>Key generator (keyrand.go)\<close>

record KeyRand =
  holdRand :: uint32

definition Seed :: "uint32 \<Rightarrow> KeyRand \<Rightarrow> KeyRand" where
  "Seed seed k = k\<lparr>holdRand := seed\<rparr>"

text \<open>The state is multiplied at 32 bits and wraps; the output is computed at 64 signed bits.\<close>

definition Rand :: "KeyRand \<Rightarrow> int64 \<times> KeyRand" where
  "Rand k =
     (let k = k\<lparr>holdRand := holdRand k * 49723125 + 21403831\<rparr>
      in (signed_drop_bit 16 (signed_drop_bit 16 (ucast (holdRand k)) * 41894339 + 11741117) AND 0xFFFF, k))"

section \<open>Key table (xorkeytable.go)\<close>

record XorKeyTable =
  KeyTable :: "uint32 list"
  Seed2nd :: uint32

text \<open>
  \<open>fill_keys n i k ks\<close> is the loop \<open>for ; i < i0+n; i++\<close> of both generators: \<open>x.KeyTable[i]\<close> is
  assembled from two draws.
\<close>

primrec fill_keys :: "nat \<Rightarrow> nat \<Rightarrow> KeyRand \<Rightarrow> uint32 list \<Rightarrow> uint32 list option" where
  "fill_keys 0 i k ks = Some ks"
| "fill_keys (Suc n) i k ks =
     (let (low, k) = Rand k; (high, k) = Rand k in
      if i < length ks
      then fill_keys n (i + 1) k (ks[i := ucast ((low AND 0xFFFF) OR push_bit 16 (high AND 0xFFFF))])
      else None)"

definition XorKeyTable_XorKeyTable :: "XorKeyTable \<Rightarrow> XorKeyTable option" where
  "XorKeyTable_XorKeyTable x =
     (let keyRand = Seed RecvXorSeed \<lparr>holdRand = 0\<rparr>;
          x = x\<lparr>KeyTable := replicate (RecvXorKeyNum * 2) 0\<rparr>
      in map_option (\<lambda>ks. x\<lparr>KeyTable := ks\<rparr>) (fill_keys RecvXorKeyNum 0 keyRand (KeyTable x)))"

definition Generate2ndXorKeyTable :: "uint32 \<Rightarrow> XorKeyTable \<Rightarrow> XorKeyTable option" where
  "Generate2ndXorKeyTable seed x =
     (let keyRand = Seed seed \<lparr>holdRand = 0\<rparr>
      in map_option (\<lambda>ks. x\<lparr>KeyTable := ks, Seed2nd := seed\<rparr>)
           (fill_keys RecvXorKeyNum RecvXorKeyNum keyRand (KeyTable x)))"

definition XorKeyTable_Init :: "XorKeyTable \<Rightarrow> XorKeyTable option" where
  "XorKeyTable_Init x = Option.bind (XorKeyTable_XorKeyTable x) (Generate2ndXorKeyTable Recv2ndXorSeed)"

section \<open>Cipher (encryption.go)\<close>

record Encryption =
  recvXorKey :: uint32
  isFirstPacket :: bool
  xorKeyTableBaseMultiple :: uint32
  Key :: XorKeyTable
  RecvXorKeyIdx :: uint32

definition mask :: "uint32 list" where
  "mask = [0xFFFFFFFF, 0xFFFFFF00, 0xFFFF0000, 0xFF000000]"

text \<open>The errors of \<open>Encrypt\<close> and \<open>Decrypt\<close>, with the numbers their messages carry.\<close>

datatype cipher_error =
    LengthTooSmall nat nat
  | InvalidMagicKey uint16 uint16
  | InvalidPacketSize int int

text \<open>\<open>rnd\<close> is the result of \<open>rand.Intn(RecvXorKeyNum)\<close>.\<close>

definition Encryption_Init :: "nat \<Rightarrow> XorKeyTable \<Rightarrow> Encryption \<Rightarrow> Encryption" where
  "Encryption_Init rnd key e =
     e\<lparr>isFirstPacket := True, xorKeyTableBaseMultiple := 1, Key := key, RecvXorKeyIdx := word_of_nat rnd\<rparr>"

text \<open>\<open>binary.LittleEndian.Uint32(b)\<close> and \<open>PutUint32(b[j:], v)\<close> panic on short slices.\<close>

definition get_Uint32 :: "byte list \<Rightarrow> uint32 option" where
  "get_Uint32 b = (if 4 \<le> length b then Some (le_word (take 4 b)) else None)"

definition put_Uint32 :: "byte list \<Rightarrow> nat \<Rightarrow> uint32 \<Rightarrow> byte list option" where
  "put_Uint32 b j v = (if j + 4 \<le> length b then Some (splice b j (le_bytes 4 v)) else None)"

definition GetPacketSize :: "Encryption \<Rightarrow> byte list \<Rightarrow> nat option" where
  "GetPacketSize e data =
     (if \<not> isFirstPacket e
      then do { d \<leftarrow> get_Uint32 data;
                let header = d XOR recvXorKey e;
                Some (unat (drop_bit 16 header)) }
      else Some Connect2SvrSize)"

text \<open>The key looked up with a cipher word: \<open>KeyTable[(x \& mask) * mult]\<close>, the product at 32 bits.\<close>

definition table_key :: "Encryption \<Rightarrow> uint32 \<Rightarrow> uint32 \<Rightarrow> uint32 option" where
  "table_key e mult x = go_index (KeyTable (Key e)) (unat ((x AND RecvXorKeyNumMask) * mult))"

text \<open>
  The last \<open>remainLen\<close> bytes, word for word the same in \<open>Encrypt\<close> and \<open>Decrypt\<close>: they are copied
  into a four-byte array, translated there and copied back.
\<close>

definition xor_tail :: "byte list \<Rightarrow> nat \<Rightarrow> nat \<Rightarrow> uint32 \<Rightarrow> byte list \<Rightarrow> byte list option" where
  "xor_tail data remainLen j xorKey pPayload = do {
     s \<leftarrow> go_slice data j (j + remainLen);
     let remainData = s @ replicate (4 - length s) 0;
     r \<leftarrow> get_Uint32 remainData;
     m \<leftarrow> go_index mask remainLen;
     let xorNum = r XOR xorKey;
     let r = xorNum XOR (xorKey AND m);
     remainData \<leftarrow> put_Uint32 remainData 0 r;
     t \<leftarrow> go_slice remainData 0 remainLen;
     _ \<leftarrow> go_slice pPayload j (j + remainLen);
     Some (splice pPayload j t) }"

text \<open>The body loop of \<open>Encrypt\<close>: \<open>n\<close> rounds left, at offset \<open>j\<close>.\<close>

primrec encrypt_loop ::
    "Encryption \<Rightarrow> byte list \<Rightarrow> nat \<Rightarrow> nat \<Rightarrow> byte list \<Rightarrow> uint32 \<Rightarrow> (byte list \<times> uint32 \<times> nat) option" where
  "encrypt_loop e data 0 j pPayload xorKey = Some (pPayload, xorKey, j)"
| "encrypt_loop e data (Suc n) j pPayload xorKey = do {
     s \<leftarrow> go_slice data j (j + 4);
     d \<leftarrow> get_Uint32 s;
     let xorNum = d XOR xorKey;
     pPayload \<leftarrow> put_Uint32 pPayload j xorNum;
     xorKey \<leftarrow> table_key e 1 xorNum;
     encrypt_loop e data n (j + 4) pPayload xorKey }"

definition Encrypt :: "Encryption \<Rightarrow> byte list \<Rightarrow> (cipher_error + byte list) option" where
  "Encrypt e data =
     (let iLen = length data in
      if iLen < S2CHeaderSize then Some (Inl (LengthTooSmall iLen S2CHeaderSize))
      else do {
        let pPayload = replicate iLen 0;
        d \<leftarrow> get_Uint32 data;
        let xorNum = d XOR SendXorKey;
        pPayload \<leftarrow> put_Uint32 pPayload 0 xorNum;
        xorKey \<leftarrow> table_key e 1 xorNum;
        let payloadLen = iLen - (S2CHeaderSize - MainCMDSize);
        (pPayload, xorKey, j) \<leftarrow> encrypt_loop e data (payloadLen div 4) 4 pPayload xorKey;
        p \<leftarrow> xor_tail data (iLen mod 4) j xorKey pPayload;
        Some (Inr p)
      })"

text \<open>The body loop of \<open>Decrypt\<close>.\<close>

primrec decrypt_loop ::
    "Encryption \<Rightarrow> byte list \<Rightarrow> nat \<Rightarrow> nat \<Rightarrow> byte list \<Rightarrow> uint32 \<Rightarrow> (byte list \<times> uint32 \<times> nat) option" where
  "decrypt_loop e data 0 j pPayload xorKey = Some (pPayload, xorKey, j)"
| "decrypt_loop e data (Suc n) j pPayload xorKey = do {
     s \<leftarrow> go_slice data j (j + 4);
     xorNum \<leftarrow> get_Uint32 s;
     pPayload \<leftarrow> put_Uint32 pPayload j (xorNum XOR xorKey);
     xorKey \<leftarrow> table_key e (xorKeyTableBaseMultiple e) xorNum;
     decrypt_loop e data n (j + 4) pPayload xorKey }"

text \<open>The checks on the header: the length of the packet and the state with the session's first key.\<close>

definition decrypt_header :: "Encryption \<Rightarrow> byte list \<Rightarrow> (cipher_error + nat) option \<times> Encryption" where
  "decrypt_header e data =
     (case get_Uint32 data of None \<Rightarrow> (None, e)
      | Some d \<Rightarrow>
          if \<not> isFirstPacket e
          then let header = d XOR recvXorKey e in
               if ucast header \<noteq> MagicKey then (Some (Inl (InvalidMagicKey (ucast header) MagicKey)), e)
               else (Some (Inr (unat (drop_bit 16 header))), e)
          else let header = d;
                   e = e\<lparr>recvXorKey := header XOR (ucast MagicKey OR push_bit 16 (word_of_nat Connect2SvrSize))\<rparr>;
                   packetLen = Connect2SvrSize
               in if ucast (header XOR recvXorKey e) \<noteq> MagicKey
                  then (Some (Inl (InvalidMagicKey (ucast (header XOR recvXorKey e)) MagicKey)), e)
                  else if uint (drop_bit 16 (header XOR recvXorKey e)) \<noteq> int packetLen \<or> packetLen < C2SHeaderSize
                  then (Some (Inl (InvalidPacketSize (uint (drop_bit 16 (header XOR recvXorKey e))) (int packetLen))), e)
                  else (Some (Inr packetLen), e))"

text \<open>
  The translation of the payload, between the header checks and the key rotation. A \<open>packetLen\<close>
  below eight makes Go's \<open>payloadLen\<close> negative, here zero: no round of the loop in both.
\<close>

definition decrypt_body :: "Encryption \<Rightarrow> nat \<Rightarrow> byte list \<Rightarrow> byte list option" where
  "decrypt_body e packetLen data = do {
     xorNum \<leftarrow> get_Uint32 data;
     let pPayload = replicate packetLen 0;
     let pHeader = xorNum XOR recvXorKey e;
     xorKey \<leftarrow> table_key e (xorKeyTableBaseMultiple e) xorNum;
     pPayload \<leftarrow> put_Uint32 pPayload 0 pHeader;
     let payloadLen = packetLen - (C2SHeaderSize - MainCMDSize);
     (pPayload, xorKey, j) \<leftarrow> decrypt_loop e data (payloadLen div 4) 8 pPayload xorKey;
     xor_tail data (packetLen mod 4) j xorKey pPayload }"

text \<open>The end of \<open>Decrypt\<close>: the stride doubles after the first packet and the session key advances.\<close>

definition rotate_key :: "Encryption \<Rightarrow> Encryption option" where
  "rotate_key e = do {
     let e = (if isFirstPacket e then e\<lparr>isFirstPacket := False, xorKeyTableBaseMultiple := 2\<rparr> else e);
     k \<leftarrow> go_index (KeyTable (Key e)) (unat (RecvXorKeyIdx e * xorKeyTableBaseMultiple e));
     let e = e\<lparr>recvXorKey := k, RecvXorKeyIdx := RecvXorKeyIdx e + 1\<rparr>;
     Some (if word_of_nat RecvXorKeyNum \<le> RecvXorKeyIdx e then e\<lparr>RecvXorKeyIdx := 0\<rparr> else e) }"

definition Decrypt :: "Encryption \<Rightarrow> byte list \<Rightarrow> ((cipher_error + byte list) \<times> Encryption) option" where
  "Decrypt e data =
     (case decrypt_header e data of
        (None, e) \<Rightarrow> None
      | (Some (Inl er), e) \<Rightarrow> Some (Inl er, e)
      | (Some (Inr packetLen), e) \<Rightarrow> do {
          p \<leftarrow> decrypt_body e packetLen data;
          e \<leftarrow> rotate_key e;
          Some (Inr p, e) })"

section \<open>The cipher as a chain of blocks\<close>

text \<open>
  The reference definition: every four-byte block is xored with a key that the previous cipher block
  selects; the last zero to three bytes are xored with the low bytes of the last key.
\<close>

fun chain_enc :: "(uint32 \<Rightarrow> uint32) \<Rightarrow> uint32 \<Rightarrow> byte list \<Rightarrow> byte list" where
  "chain_enc T k (a # b # c # d # bs) =
     (let x = le_word [a, b, c, d] XOR k in le_bytes 4 x @ chain_enc T (T x) bs)"
| "chain_enc T k bs = map2 (XOR) bs (le_bytes 4 k)"

fun chain_dec :: "(uint32 \<Rightarrow> uint32) \<Rightarrow> uint32 \<Rightarrow> byte list \<Rightarrow> byte list" where
  "chain_dec T k (a # b # c # d # bs) =
     (let x = le_word [a, b, c, d] in le_bytes 4 (x XOR k) @ chain_dec T (T x) bs)"
| "chain_dec T k bs = map2 (XOR) bs (le_bytes 4 k)"

text \<open>What the two ends of a connection rely on.\<close>

locale chained_cipher =
  fixes enc :: "'k \<Rightarrow> byte list \<Rightarrow> byte list"
    and dec :: "'k \<Rightarrow> byte list \<Rightarrow> byte list"
  assumes dec_enc: "dec k (enc k bs) = bs"
    and enc_dec: "enc k (dec k bs) = bs"
    and length_enc: "length (enc k bs) = length bs"
begin

lemma enc_inject: "enc k a = enc k b \<longleftrightarrow> a = b"
  by (metis dec_enc)

lemma length_dec: "length (dec k bs) = length bs"
  by (metis enc_dec length_enc)

lemma enc_eq_iff: "enc k a = c \<longleftrightarrow> a = dec k c"
  by (metis dec_enc enc_dec)

end

lemma le4: "\<exists>a b c d. le_bytes 4 (x::uint32) = [a, b, c, d] \<and> le_word [a, b, c, d] = x"
proof -
  obtain a b c d where *: "le_bytes 4 x = [a, b, c, d]"
    using length_le_bytes [of 4 x] by (auto simp: numeral_eq_Suc length_Suc_conv)
  moreover have "le_word (le_bytes 4 x) = x" by (rule le_round_trip) simp
  ultimately show ?thesis by metis
qed

lemma map2_xor_twice: "length ks \<ge> length bs \<Longrightarrow> map2 (XOR) (map2 (XOR) bs ks) ks = (bs :: byte list)"
  by (induction bs ks rule: list_induct2') (auto simp: xor.assoc)

lemma chain_dec_short: "length bs < 4 \<Longrightarrow> chain_dec T k bs = map2 (XOR) bs (le_bytes 4 k)"
  by (cases "(T, k, bs)" rule: chain_dec.cases) auto

lemma chain_enc_short: "length bs < 4 \<Longrightarrow> chain_enc T k bs = map2 (XOR) bs (le_bytes 4 k)"
  by (cases "(T, k, bs)" rule: chain_enc.cases) auto

lemma xor_short_twice:
  "length bs < 4 \<Longrightarrow> map2 (XOR) (map2 (XOR) bs (le_bytes 4 (k::uint32))) (le_bytes 4 k) = (bs :: byte list)"
  by (rule map2_xor_twice) (simp add: less_imp_le)

lemma le_bytes_block: "le_bytes 4 (le_word [a, b, c, d] :: uint32) = [a, b, c, d]"
  using le_bytes_le_word [of "[a, b, c, d]", where 'a = 32] by (simp del: le_word.simps add: numeral_eq_Suc)

lemma chain_short_inverse:
  assumes "length bs < 4"
  shows "chain_dec T k (chain_enc T k bs) = bs" and "chain_enc T k (chain_dec T k bs) = bs"
proof -
  have "length (map2 (XOR) bs (le_bytes 4 k)) < 4" using assms by simp
  then show "chain_dec T k (chain_enc T k bs) = bs" "chain_enc T k (chain_dec T k bs) = bs"
    by (simp_all only: chain_enc_short [OF assms] chain_dec_short [OF assms]
        chain_enc_short chain_dec_short xor_short_twice [OF assms])
qed

lemma chain_dec_enc: "chain_dec T k (chain_enc T k bs) = bs"
proof (induction T k bs rule: chain_enc.induct)
  case (1 T k a b c d bs)
  define x where "x = le_word [a, b, c, d] XOR k"
  obtain a' b' c' d' where x: "le_bytes 4 x = [a', b', c', d']" "le_word [a', b', c', d'] = x"
    using le4 by blast
  have "x XOR k = le_word [a, b, c, d]" by (simp only: x_def xor.assoc xor_self_eq xor.right_neutral)
  with x 1 [OF x_def] show ?case
    by (simp del: le_word.simps add: x_def [symmetric] le_bytes_block)
qed (rule chain_short_inverse, simp)+

lemma chain_enc_dec: "chain_enc T k (chain_dec T k bs) = bs"
proof (induction T k bs rule: chain_dec.induct)
  case (1 T k a b c d bs)
  define x :: uint32 where "x = le_word [a, b, c, d]"
  obtain a' b' c' d' where x: "le_bytes 4 (x XOR k) = [a', b', c', d']" "le_word [a', b', c', d'] = x XOR k"
    using le4 by blast
  have "(x XOR k) XOR k = x" by (simp only: xor.assoc xor_self_eq xor.right_neutral)
  with x 1 [OF x_def] show ?case
    using le_bytes_block [of a b c d, folded x_def]
    by (simp del: le_word.simps add: x_def [symmetric])
qed (rule chain_short_inverse, simp)+

lemma length_chain_enc: "length (chain_enc T k bs) = length bs"
  by (induction T k bs rule: chain_enc.induct) (simp_all del: le_word.simps add: Let_def)

interpretation chain: chained_cipher "chain_enc T" "chain_dec T"
  by unfold_locales (simp_all add: chain_dec_enc chain_enc_dec length_chain_enc)

section \<open>The loops implement the chain\<close>

text \<open>The invariant of a session's cipher state: the shared table is complete and the counter in range.\<close>

definition enc_inv :: "Encryption \<Rightarrow> bool" where
  "enc_inv e \<longleftrightarrow> length (KeyTable (Key e)) = RecvXorKeyNum * 2 \<and> unat (RecvXorKeyIdx e) < RecvXorKeyNum \<and>
     xorKeyTableBaseMultiple e = (if isFirstPacket e then 1 else 2)"

text \<open>The key a cipher word selects, as a total function.\<close>

definition next_key :: "Encryption \<Rightarrow> uint32 \<Rightarrow> uint32 \<Rightarrow> uint32" where
  "next_key e mult x = KeyTable (Key e) ! unat ((x AND RecvXorKeyNumMask) * mult)"

lemma masked_bound: "unat ((x::uint32) AND RecvXorKeyNumMask) < RecvXorKeyNum"
proof -
  have "x AND RecvXorKeyNumMask = take_bit 14 x"
    by (simp add: RecvXorKeyNumMask_def take_bit_eq_mask Bit_Operations.mask_eq_exp_minus_1)
  then show ?thesis
    using take_bit_nat_less_exp [of 14 "unat x"]
    by (simp add: RecvXorKeyNum_def take_bit_word_eq_self unsigned_take_bit_eq)
qed

lemma unat_double: "unat (i::uint32) < RecvXorKeyNum \<Longrightarrow> unat (i * 2) = 2 * unat i"
  by (simp add: RecvXorKeyNum_def unat_mult_lem [THEN iffD1] mult.commute)

lemma table_key_ok:
  assumes "enc_inv e" and "mult = 1 \<or> mult = 2"
  shows "table_key e mult x = Some (next_key e mult x)"
  using assms masked_bound [of x] unat_double [OF masked_bound [of x]]
  by (auto simp: table_key_def next_key_def enc_inv_def)

lemma take_le_bytes: "n \<le> m \<Longrightarrow> take n (le_bytes m x) = le_bytes n x"
proof (induction n arbitrary: m x)
  case (Suc n)
  then show ?case by (cases m) simp_all
qed simp

lemma le_bytes_xor: "le_bytes n (x XOR y) = map2 (XOR) (le_bytes n x) (le_bytes n (y :: 'a::len word))"
  by (induction n arbitrary: x y) (simp_all add: unsigned_xor_eq)

lemma le_bytes_take_bit: "le_bytes n (take_bit (8 * n) x) = le_bytes n (x :: 'a::len word)"
proof (induction n arbitrary: x)
  case (Suc n)
  have "ucast (take_bit (8 * Suc n) x) = (ucast x :: byte)"
    by (rule bit_word_eqI) (simp add: bit_simps)
  moreover have "drop_bit 8 (take_bit (8 * Suc n) x) = take_bit (8 * n) (drop_bit 8 x)"
    by (simp add: drop_bit_take_bit)
  ultimately show ?case using Suc.IH [of "drop_bit 8 x"] by simp
qed simp

lemma le_bytes_cong: "take_bit (8 * n) x = take_bit (8 * n) y \<Longrightarrow> le_bytes n x = le_bytes n (y :: 'a::len word)"
  by (metis le_bytes_take_bit)

text \<open>The tail mask clears exactly the part of the key the remaining bytes do not reach.\<close>

lemma le_bytes_masked: "n < 4 \<Longrightarrow> le_bytes n (k XOR (k AND mask ! n)) = le_bytes n (k :: uint32)"
proof (rule le_bytes_cong)
  assume "n < 4"
  then have "take_bit (8 * n) (mask ! n) = 0"
    by (auto simp: less_Suc_eq numeral_eq_Suc mask_def take_bit_Suc)
  then show "take_bit (8 * n) (k XOR (k AND mask ! n)) = take_bit (8 * n) k"
    by simp
qed

lemma map2_take: "length xs = n \<Longrightarrow> map2 f xs (take n ys) = map2 f xs ys"
proof -
  assume "length xs = n"
  then have "map2 f xs (take n ys) = take n (map2 f xs ys)" by (simp add: take_map take_zip)
  also have "\<dots> = map2 f xs ys" using \<open>length xs = n\<close> by simp
  finally show ?thesis .
qed

lemma xor_tail_ok:
  assumes "j + r = length data" "r < 4" "length P = length data"
  shows "xor_tail data r j k P = Some (take j P @ map2 (XOR) (drop j data) (le_bytes 4 k))"
proof -
  define s where "s = drop j data"
  define R :: uint32 where "R = le_word (s @ replicate (4 - r) 0)"
  have len: "length s = r" using assms by (simp add: s_def)
  have R4: "le_bytes 4 R = s @ replicate (4 - r) 0"
    using le_bytes_le_word [of "s @ replicate (4 - r) 0", where 'a = 32] len assms(2) by (simp add: R_def)
  have "le_bytes r R = s"
    using take_le_bytes [of r 4 R] assms(2) len by (simp add: R4)
  then have "le_bytes r ((R XOR k) XOR (k AND mask ! r)) = map2 (XOR) s (le_bytes r k)"
    by (simp only: xor.assoc [of R] le_bytes_xor [of r R] le_bytes_masked [OF assms(2)])
  then have t: "take r (le_bytes 4 ((R XOR k) XOR (k AND mask ! r))) = map2 (XOR) s (le_bytes 4 k)"
    using map2_take [OF len, of "(XOR)" "le_bytes 4 k"] assms(2) by (simp add: take_le_bytes)
  have "go_slice data j (j + r) = Some s" "go_slice P j (j + r) = Some (drop j P)"
    using assms by (simp_all add: go_slice_def s_def)
  moreover have "go_index mask r = Some (mask ! r)"
    using assms(2) by (simp add: mask_def)
  moreover have "get_Uint32 (s @ replicate (4 - r) 0) = Some R"
    using len assms(2) by (simp add: get_Uint32_def R_def)
  moreover have "put_Uint32 (s @ replicate (4 - r) 0) 0 v = Some (le_bytes 4 v)" for v
    using len assms(2) by (simp add: put_Uint32_def splice_def)
  moreover have "go_slice (le_bytes 4 (v::uint32)) 0 r = Some (take r (le_bytes 4 v))" for v
    using assms(2) by (simp add: go_slice_def)
  moreover have "splice P j (map2 (XOR) s (le_bytes 4 k)) = take j P @ map2 (XOR) s (le_bytes 4 k)"
    using len assms by (simp add: splice_def)
  ultimately show ?thesis
    using len t by (simp add: xor_tail_def s_def [symmetric])
qed

lemma block_at:
  assumes "j + 4 \<le> length data"
  obtains a b c d where "take 4 (drop j data) = [a, b, c, d]" and "drop j data = a # b # c # d # drop (j + 4) data"
proof -
  have "length (take 4 (drop j data)) = Suc (Suc (Suc (Suc 0)))" using assms by simp
  then obtain a b c d where *: "take 4 (drop j data) = [a, b, c, d]"
    unfolding length_Suc_conv length_0_conv by blast
  have "drop j data = take 4 (drop j data) @ drop 4 (drop j data)" by (simp only: append_take_drop_id)
  also have "\<dots> = a # b # c # d # drop (j + 4) data" by (simp add: * add.commute)
  finally show ?thesis using * that by blast
qed

lemma encrypt_loop_ok:
  assumes "enc_inv e" "length P = length data" "length data = j + 4 * n + r" "r < 4"
  shows "Option.bind (encrypt_loop e data n j P k) (\<lambda>(P, k, j). xor_tail data r j k P)
       = Some (take j P @ chain_enc (next_key e 1) k (drop j data))"
  using assms
proof (induction n arbitrary: j P k)
  case 0
  then show ?case by (simp add: xor_tail_ok chain_enc_short)
next
  case (Suc n)
  obtain a b c d where blk: "take 4 (drop j data) = [a, b, c, d]"
      "drop j data = a # b # c # d # drop (j + 4) data"
    by (rule block_at [of j data]) (use Suc.prems(3) in simp)
  define x where "x = le_word [a, b, c, d] XOR k"
  have "go_slice data j (j + 4) = Some [a, b, c, d]"
    using Suc.prems(3) blk(1) by (simp add: go_slice_def)
  moreover have "get_Uint32 [a, b, c, d] = Some (le_word [a, b, c, d])"
    by (simp add: get_Uint32_def del: le_word.simps)
  moreover have "put_Uint32 P j x = Some (splice P j (le_bytes 4 x))"
    using Suc.prems(2,3) by (simp add: put_Uint32_def)
  moreover note table_key_ok [OF Suc.prems(1), of 1 x]
  moreover have "Option.bind (encrypt_loop e data n (j + 4) (splice P j (le_bytes 4 x)) (next_key e 1 x))
      (\<lambda>(P, k, j). xor_tail data r j k P)
    = Some (take (j + 4) (splice P j (le_bytes 4 x)) @ chain_enc (next_key e 1) (next_key e 1 x) (drop (j + 4) data))"
    using Suc.prems by (intro Suc.IH) simp_all
  moreover have "take (j + 4) (splice P j (le_bytes 4 x)) = take j P @ le_bytes 4 x"
    using take_splice_after [of j "le_bytes 4 x" P] Suc.prems(2,3) by simp
  ultimately show ?case
    by (simp add: blk(2) x_def [symmetric] Let_def del: le_word.simps)
qed

lemma decrypt_loop_ok:
  assumes "enc_inv e" "length P = length data" "length data = j + 4 * n + r" "r < 4"
  shows "Option.bind (decrypt_loop e data n j P k) (\<lambda>(P, k, j). xor_tail data r j k P)
       = Some (take j P @ chain_dec (next_key e (xorKeyTableBaseMultiple e)) k (drop j data))"
  using assms
proof (induction n arbitrary: j P k)
  case 0
  then show ?case by (simp add: xor_tail_ok chain_dec_short)
next
  case (Suc n)
  let ?m = "xorKeyTableBaseMultiple e"
  obtain a b c d where blk: "take 4 (drop j data) = [a, b, c, d]"
      "drop j data = a # b # c # d # drop (j + 4) data"
    by (rule block_at [of j data]) (use Suc.prems(3) in simp)
  define x :: uint32 where "x = le_word [a, b, c, d]"
  have "go_slice data j (j + 4) = Some [a, b, c, d]"
    using Suc.prems(3) blk(1) by (simp add: go_slice_def)
  moreover have "get_Uint32 [a, b, c, d] = Some x"
    by (simp add: get_Uint32_def x_def del: le_word.simps)
  moreover have "put_Uint32 P j (x XOR k) = Some (splice P j (le_bytes 4 (x XOR k)))"
    using Suc.prems(2,3) by (simp add: put_Uint32_def)
  moreover have "table_key e ?m x = Some (next_key e ?m x)"
    using Suc.prems(1) by (intro table_key_ok) (auto simp: enc_inv_def)
  moreover have "Option.bind (decrypt_loop e data n (j + 4) (splice P j (le_bytes 4 (x XOR k))) (next_key e ?m x))
      (\<lambda>(P, k, j). xor_tail data r j k P)
    = Some (take (j + 4) (splice P j (le_bytes 4 (x XOR k))) @
        chain_dec (next_key e ?m) (next_key e ?m x) (drop (j + 4) data))"
    using Suc.prems by (intro Suc.IH) simp_all
  moreover have "take (j + 4) (splice P j (le_bytes 4 (x XOR k))) = take j P @ le_bytes 4 (x XOR k)"
    using take_splice_after [of j "le_bytes 4 (x XOR k)" P] Suc.prems(2,3) by simp
  ultimately show ?case
    by (simp add: blk(2) x_def [symmetric] Let_def del: le_word.simps)
qed

lemma bind_triple: "Option.bind m (\<lambda>(a, b, c). f a b c) = Some y \<Longrightarrow>
    Option.bind m (\<lambda>(a, b, c). Option.bind (f a b c) g) = g y"
  by (cases m) auto

lemma Encrypt_chain:
  assumes "enc_inv e" "S2CHeaderSize \<le> length data"
  shows "Encrypt e data = Some (Inr (chain_enc (next_key e 1) SendXorKey data))"
proof -
  obtain a b c d where blk: "take 4 data = [a, b, c, d]" "data = a # b # c # d # drop 4 data"
    by (rule block_at [of 0 data]) (use assms(2) in \<open>simp_all add: enc_consts\<close>)
  define x where "x = le_word [a, b, c, d] XOR SendXorKey"
  let ?P = "splice (replicate (length data) 0) 0 (le_bytes 4 x)"
  have loop: "Option.bind (encrypt_loop e data ((length data - 4) div 4) 4 ?P (next_key e 1 x))
      (\<lambda>(P, k, j). xor_tail data (length data mod 4) j k P)
    = Some (take 4 ?P @ chain_enc (next_key e 1) (next_key e 1 x) (drop 4 data))"
  proof (rule encrypt_loop_ok [OF assms(1)])
    show "length ?P = length data" using assms(2) by (simp add: enc_consts)
    show "length data = 4 + 4 * ((length data - 4) div 4) + length data mod 4"
      using assms(2) unfolding S2CHeaderSize_def by presburger
  qed simp
  have "take 4 ?P = le_bytes 4 x"
    using assms(2) by (simp add: splice_def)
  moreover have "get_Uint32 data = Some (le_word [a, b, c, d])"
    using assms(2) blk(1) by (simp add: get_Uint32_def enc_consts del: le_word.simps)
  moreover have "put_Uint32 (replicate (length data) 0) 0 x = Some ?P"
    using assms(2) by (simp add: put_Uint32_def enc_consts)
  moreover note table_key_ok [OF assms(1), of 1 x]
  moreover have "chain_enc (next_key e 1) SendXorKey data
      = le_bytes 4 x @ chain_enc (next_key e 1) (next_key e 1 x) (drop 4 data)"
    by (subst blk(2)) (simp add: x_def Let_def del: le_word.simps)
  ultimately show ?thesis
    using assms(2) x_def [symmetric]
    by (simp add: Encrypt_def S2CHeaderSize_def MainCMDSize_def Let_def bind_triple [OF loop] del: le_word.simps)
qed

lemma decrypt_body_chain:
  assumes "enc_inv e" "C2SHeaderSize \<le> length data"
  shows "decrypt_body e (length data) data =
     Some (le_bytes 4 (le_word (take 4 data) XOR recvXorKey e) @ replicate 4 0 @
       chain_dec (next_key e (xorKeyTableBaseMultiple e))
         (next_key e (xorKeyTableBaseMultiple e) (le_word (take 4 data))) (drop 8 data))"
proof -
  let ?m = "xorKeyTableBaseMultiple e"
  define h :: uint32 where "h = le_word (take 4 data)"
  let ?P = "splice (replicate (length data) 0) 0 (le_bytes 4 (h XOR recvXorKey e))"
  have loop: "Option.bind (decrypt_loop e data ((length data - 8) div 4) 8 ?P (next_key e ?m h))
      (\<lambda>(P, k, j). xor_tail data (length data mod 4) j k P)
    = Some (take 8 ?P @ chain_dec (next_key e ?m) (next_key e ?m h) (drop 8 data))"
  proof (rule decrypt_loop_ok [OF assms(1)])
    show "length ?P = length data" using assms(2) by (simp add: enc_consts)
    show "length data = 8 + 4 * ((length data - 8) div 4) + length data mod 4"
      using assms(2) unfolding C2SHeaderSize_def by presburger
  qed simp
  have "take 8 ?P = le_bytes 4 (h XOR recvXorKey e) @ replicate 4 0"
    using assms(2) by (simp add: splice_def enc_consts min_def)
  moreover have "get_Uint32 data = Some h"
    using assms(2) by (simp add: get_Uint32_def enc_consts h_def)
  moreover have "put_Uint32 (replicate (length data) 0) 0 (h XOR recvXorKey e) = Some ?P"
    using assms(2) by (simp add: put_Uint32_def enc_consts)
  moreover have "table_key e ?m h = Some (next_key e ?m h)"
    using assms(1) by (intro table_key_ok) (auto simp: enc_inv_def)
  ultimately show ?thesis
    using loop by (simp add: decrypt_body_def C2SHeaderSize_def MainCMDSize_def h_def [symmetric] case_prod_unfold)
qed

lemma rotate_key_ok:
  assumes "enc_inv e"
  shows "\<exists>e'. rotate_key e = Some e' \<and> enc_inv e' \<and> \<not> isFirstPacket e' \<and> Key e' = Key e \<and>
     unat (RecvXorKeyIdx e') = (unat (RecvXorKeyIdx e) + 1) mod RecvXorKeyNum \<and>
     recvXorKey e' = KeyTable (Key e) ! (2 * unat (RecvXorKeyIdx e))"
proof -
  have i: "unat (RecvXorKeyIdx e) < 16384" and l: "length (KeyTable (Key e)) = 32768"
    using assms by (simp_all add: enc_inv_def RecvXorKeyNum_def)
  have d: "unat (RecvXorKeyIdx e * 2) = 2 * unat (RecvXorKeyIdx e)"
    using unat_double i by (simp add: RecvXorKeyNum_def)
  have s: "unat (RecvXorKeyIdx e + 1) = unat (RecvXorKeyIdx e) + 1"
    using i by (subst unat_add_lem [THEN iffD1]) auto
  have c: "(0x4000 \<le> RecvXorKeyIdx e + 1) \<longleftrightarrow> unat (RecvXorKeyIdx e) + 1 = 16384"
    using i s by (auto simp: word_le_nat_alt)
  define e' where "e' = e\<lparr>isFirstPacket := False, xorKeyTableBaseMultiple := 2,
      recvXorKey := KeyTable (Key e) ! (2 * unat (RecvXorKeyIdx e)),
      RecvXorKeyIdx := if unat (RecvXorKeyIdx e) + 1 = 16384 then 0 else RecvXorKeyIdx e + 1\<rparr>"
  have "rotate_key e = Some e'"
    using assms i l d c
    by (cases e) (auto simp: rotate_key_def e'_def enc_inv_def RecvXorKeyNum_def)
  moreover have "unat (RecvXorKeyIdx e') = (unat (RecvXorKeyIdx e) + 1) mod RecvXorKeyNum"
    using i s by (simp add: e'_def RecvXorKeyNum_def)
  moreover from this have "enc_inv e'"
    using assms by (simp add: enc_inv_def) (simp add: e'_def RecvXorKeyNum_def)
  ultimately show ?thesis
    by (intro exI [of _ e']) (simp add: e'_def)
qed

section \<open>Properties\<close>

text \<open>The keys the generator yields, in order.\<close>

primrec key_stream :: "nat \<Rightarrow> KeyRand \<Rightarrow> uint32 list" where
  "key_stream 0 k = []"
| "key_stream (Suc n) k =
     (let (low, k) = Rand k; (high, k) = Rand k
      in ucast ((low AND 0xFFFF) OR push_bit 16 (high AND 0xFFFF)) # key_stream n k)"

lemma length_key_stream [simp]: "length (key_stream n k) = n"
  by (induction n arbitrary: k) (simp_all add: case_prod_unfold Let_def)

lemma fill_keys_stream:
  "i + n \<le> length ks \<Longrightarrow> fill_keys n i k ks = Some (splice ks i (key_stream n k))"
proof (induction n arbitrary: i k ks)
  case 0
  then show ?case by (simp add: splice_def)
next
  case (Suc n)
  have "splice (ks[i := x]) (i + 1) bs = splice ks i (x # bs)" if "i + Suc (length bs) \<le> length ks" for x and bs
    using that by (simp add: splice_def take_Suc_conv_app_nth list_update_append1 nth_list_update take_update_swap)
      (simp add: upd_conv_take_nth_drop take_Suc_conv_app_nth)
  with Suc show ?case by (simp add: case_prod_unfold Let_def)
qed

lemma XorKeyTable_Init_stream:
  "XorKeyTable_Init x = Some (x\<lparr>KeyTable := key_stream RecvXorKeyNum \<lparr>holdRand = RecvXorSeed\<rparr> @
      key_stream RecvXorKeyNum \<lparr>holdRand = Recv2ndXorSeed\<rparr>, Seed2nd := Recv2ndXorSeed\<rparr>)"
  by (simp add: XorKeyTable_Init_def XorKeyTable_XorKeyTable_def Generate2ndXorKeyTable_def fill_keys_stream
      Seed_def splice_def)

text \<open>
  Generating the shared key table never runs out of the slice: the table has twice
  \<open>RecvXorKeyNum\<close> entries, the first half drawn from the first seed and the second half from the
  second one, and a session initialised with it, whatever start index below \<open>RecvXorKeyNum\<close> it
  draws, satisfies the invariant of the cipher.
\<close>

theorem Init_establishes_enc_inv:
  assumes "rnd < RecvXorKeyNum"
  shows "\<exists>t. XorKeyTable_Init x = Some t \<and>
     KeyTable t = key_stream RecvXorKeyNum \<lparr>holdRand = RecvXorSeed\<rparr> @
       key_stream RecvXorKeyNum \<lparr>holdRand = Recv2ndXorSeed\<rparr> \<and>
     enc_inv (Encryption_Init rnd t e)"
  using assms unfolding XorKeyTable_Init_stream
  by (simp add: enc_inv_def Encryption_Init_def unat_word_of_nat RecvXorKeyNum_def)

theorem Init_establishes_enc_inv_witness:
  "\<exists>t. XorKeyTable_Init \<lparr>KeyTable = [], Seed2nd = 0\<rparr> = Some t \<and>
     KeyTable t = key_stream RecvXorKeyNum \<lparr>holdRand = RecvXorSeed\<rparr> @
       key_stream RecvXorKeyNum \<lparr>holdRand = Recv2ndXorSeed\<rparr> \<and>
     enc_inv (Encryption_Init 0x3FFF t
       \<lparr>recvXorKey = 0, isFirstPacket = False, xorKeyTableBaseMultiple = 0,
        Key = \<lparr>KeyTable = [], Seed2nd = 0\<rparr>, RecvXorKeyIdx = 0\<rparr>)"
  by (rule Init_establishes_enc_inv) (simp add: RecvXorKeyNum_def)

text \<open>A cipher state for the witnesses: a zero table, before the first packet.\<close>

definition fresh_encryption :: Encryption where
  "fresh_encryption = Encryption_Init 5 \<lparr>KeyTable = replicate (RecvXorKeyNum * 2) 0, Seed2nd = 0\<rparr>
     \<lparr>recvXorKey = 0, isFirstPacket = False, xorKeyTableBaseMultiple = 0,
      Key = \<lparr>KeyTable = [], Seed2nd = 0\<rparr>, RecvXorKeyIdx = 0\<rparr>"

lemma fresh_encryption_inv: "enc_inv fresh_encryption" "isFirstPacket fresh_encryption"
  by (simp_all add: fresh_encryption_def Encryption_Init_def enc_inv_def RecvXorKeyNum_def)

text \<open>
  C20: \<open>Encrypt\<close> never panics: it refuses exactly the packets shorter than the server header, and
  otherwise its in-place loop over words and its masked tail compute the chained cipher, so a peer
  that holds the key table recovers the packet with the inverse chain.
\<close>

theorem Encrypt_correct:
  assumes "enc_inv e"
  shows "if length data < S2CHeaderSize then Encrypt e data = Some (Inl (LengthTooSmall (length data) S2CHeaderSize))
     else \<exists>c. Encrypt e data = Some (Inr c) \<and> length c = length data \<and>
            chain_dec (next_key e 1) SendXorKey c = data"
  using Encrypt_chain [OF assms, of data]
  by (auto simp: chain.length_enc chain.dec_enc Encrypt_def)

theorem Encrypt_correct_witness:
  "\<exists>c. Encrypt fresh_encryption [0xE2, 0xB7, 8, 0, 1, 2, 3, 4] = Some (Inr c) \<and> length c = 8 \<and>
     chain_dec (next_key fresh_encryption 1) SendXorKey c = [0xE2, 0xB7, 8, 0, 1, 2, 3, 4]"
  using Encrypt_correct [OF fresh_encryption_inv(1), of "[0xE2, 0xB7, 8, 0, 1, 2, 3, 4]"]
  by (simp add: S2CHeaderSize_def numeral_eq_Suc)

lemma header_word:
  assumes "n < 65536"
  shows "ucast ((ucast MagicKey :: uint32) OR push_bit 16 (word_of_nat n)) = MagicKey"
    and "unat (drop_bit 16 ((ucast MagicKey :: uint32) OR push_bit 16 (word_of_nat n))) = n"
    and "uint (drop_bit 16 ((ucast MagicKey :: uint32) OR push_bit 16 (word_of_nat n))) = int n"
proof -
  show "ucast ((ucast MagicKey :: uint32) OR push_bit 16 (word_of_nat n)) = MagicKey"
    by (rule bit_word_eqI) (simp add: bit_simps)
  have "drop_bit 16 ((ucast MagicKey :: uint32) OR push_bit 16 (word_of_nat n)) = take_bit 16 (word_of_nat n)"
    by (rule bit_word_eqI) (auto simp: bit_simps dest: bit_imp_le_length)
  also have "\<dots> = word_of_nat n"
    using assms by (simp add: take_bit_of_nat) (simp add: take_bit_nat_eq_self)
  finally show *: "unat (drop_bit 16 ((ucast MagicKey :: uint32) OR push_bit 16 (word_of_nat n))) = n"
    using assms by (simp add: unat_word_of_nat)
  then show "uint (drop_bit 16 ((ucast MagicKey :: uint32) OR push_bit 16 (word_of_nat n))) = int n"
    by (metis of_nat_unat)
qed

definition magic_header :: "nat \<Rightarrow> uint32" where
  "magic_header n = ucast MagicKey OR push_bit 16 (word_of_nat n)"

lemmas magic_header = header_word [folded magic_header_def]

lemma decrypt_header_first:
  assumes "isFirstPacket e" "4 \<le> length data"
  shows "decrypt_header e data = (Some (Inr Connect2SvrSize),
     e\<lparr>recvXorKey := le_word (take 4 data) XOR magic_header Connect2SvrSize\<rparr>)"
proof -
  have "h XOR (h XOR w) = w" for h w :: uint32
    by (simp add: xor.assoc [symmetric])
  moreover have "Connect2SvrSize < 65536" "\<not> Connect2SvrSize < C2SHeaderSize"
    by (simp_all add: enc_consts)
  ultimately show ?thesis
    using assms magic_header(1,3) [of Connect2SvrSize]
    by (simp add: decrypt_header_def get_Uint32_def Let_def magic_header_def [symmetric])
qed

lemma decrypt_header_next:
  assumes "\<not> isFirstPacket e" "4 \<le> length data"
  shows "decrypt_header e data =
     (let header = le_word (take 4 data) XOR recvXorKey e in
      if ucast header = MagicKey then (Some (Inr (unat (drop_bit 16 header))), e)
      else (Some (Inl (InvalidMagicKey (ucast header) MagicKey)), e))"
  using assms by (simp add: decrypt_header_def get_Uint32_def Let_def)

text \<open>
  The key a client packet is received under: any key will do for the first packet, which carries it,
  and the session's current one afterwards.
\<close>

definition key_agreed :: "Encryption \<Rightarrow> uint32 \<Rightarrow> bool" where
  "key_agreed e k \<longleftrightarrow> isFirstPacket e \<or> k = recvXorKey e"

text \<open>
  The encoding \<open>Decrypt\<close> inverts: the header word under \<open>k\<close>, the four checksum bytes \<open>chk\<close> in clear,
  the rest chained from the key the cipher header selects.
\<close>

definition client_packet :: "Encryption \<Rightarrow> uint32 \<Rightarrow> byte list \<Rightarrow> byte list \<Rightarrow> byte list" where
  "client_packet e k chk p =
     (let T = next_key e (xorKeyTableBaseMultiple e); h = le_word (take 4 p) XOR k
      in le_bytes 4 h @ chk @ chain_enc T (T h) (drop 8 p))"

lemma Decrypt_ok:
  assumes "enc_inv e" "C2SHeaderSize \<le> length data"
    and "decrypt_header e data = (Some (Inr (length data)), e\<lparr>recvXorKey := k\<rparr>)"
  shows "\<exists>e'. Decrypt e data = Some (Inr (le_bytes 4 (le_word (take 4 data) XOR k) @ replicate 4 0 @
       chain_dec (next_key e (xorKeyTableBaseMultiple e))
         (next_key e (xorKeyTableBaseMultiple e) (le_word (take 4 data))) (drop 8 data)), e') \<and>
     rotate_key (e\<lparr>recvXorKey := k\<rparr>) = Some e' \<and> enc_inv e' \<and> \<not> isFirstPacket e' \<and> Key e' = Key e"
proof -
  let ?e = "e\<lparr>recvXorKey := k\<rparr>"
  have inv: "enc_inv ?e" using assms(1) by (simp add: enc_inv_def)
  have "next_key ?e m x = next_key e m x" for m x by (simp add: next_key_def)
  then have body: "decrypt_body ?e (length data) data = Some (le_bytes 4 (le_word (take 4 data) XOR k) @ replicate 4 0 @
       chain_dec (next_key e (xorKeyTableBaseMultiple e))
         (next_key e (xorKeyTableBaseMultiple e) (le_word (take 4 data))) (drop 8 data))"
    using decrypt_body_chain [OF inv assms(2)] by (simp add: next_key_def [abs_def])
  from rotate_key_ok [OF inv] obtain e' where "rotate_key ?e = Some e'" "enc_inv e'" "\<not> isFirstPacket e'" "Key e' = Key e"
    by auto
  with assms(3) body show ?thesis by (simp add: Decrypt_def)
qed

text \<open>
  C16: \<open>Decrypt\<close> recovers every packet a client sends: header, command and payload come back as
  they were, the four checksum bytes are replaced by zeros whatever they were, and the session moves
  to its next key. The first packet is accepted under any key.
\<close>

theorem Decrypt_round_trip:
  assumes "enc_inv e" and "key_agreed e k"
    and "C2SHeaderSize \<le> length p" and "length p < 65536" and "isFirstPacket e \<longrightarrow> length p = Connect2SvrSize"
    and "le_word (take 4 p) = magic_header (length p)" and "length chk = 4"
  shows "\<exists>e'. Decrypt e (client_packet e k chk p) = Some (Inr (take 4 p @ replicate 4 0 @ drop 8 p), e') \<and>
     enc_inv e' \<and> \<not> isFirstPacket e' \<and> Key e' = Key e"
proof -
  let ?h = "le_word (take 4 p) XOR k" and ?T = "next_key e (xorKeyTableBaseMultiple e)"
  define data where "data = client_packet e k chk p"
  have len: "length data = length p"
    using assms(3,7) by (simp add: data_def client_packet_def Let_def chain.length_enc enc_consts)
  have h: "le_word (take 4 data) = ?h" "drop 8 data = chain_enc ?T (?T ?h) (drop 8 p)"
    using assms(7) by (simp_all add: data_def client_packet_def Let_def le_round_trip)
  have k: "?h XOR k = le_word (take 4 p)" "?h XOR le_word (take 4 p) = k"
    by (simp_all add: xor.assoc xor.commute xor.left_commute)
  have "decrypt_header e data = (Some (Inr (length data)), e\<lparr>recvXorKey := k\<rparr>)"
  proof (cases "isFirstPacket e")
    case True
    then show ?thesis
      using decrypt_header_first [OF True, of data] assms(3,5,6) k(2) h(1) len by (simp add: enc_consts)
  next
    case False
    then have "k = recvXorKey e" using assms(2) by (simp add: key_agreed_def)
    with False show ?thesis
      using decrypt_header_next [OF False, of data] assms(3,4,6) k(1) h(1) len magic_header(1,2) [of "length p"]
      by (simp add: enc_consts)
  qed
  from Decrypt_ok [OF assms(1) _ this] assms(3)
  have "\<exists>e'. Decrypt e data = Some (Inr (le_bytes 4 (?h XOR k) @ replicate 4 0 @ drop 8 p), e') \<and>
     enc_inv e' \<and> \<not> isFirstPacket e' \<and> Key e' = Key e"
    using len by (auto simp: h chain.dec_enc)
  moreover have "le_bytes 4 (le_word (take 4 p) :: uint32) = take 4 p"
    using le_bytes_le_word [of "take 4 p", where 'a = 32] assms(3) by (simp add: enc_consts)
  ultimately show ?thesis by (simp add: k(1) data_def)
qed

theorem Decrypt_round_trip_witness:
  "\<exists>e'. Decrypt fresh_encryption
       (client_packet fresh_encryption 0xDEADBEEF [9, 9, 9, 9] [0xE2, 0xB7, 14, 0, 0, 0, 0, 0, 0x65, 0, 1, 2, 3, 4]) =
     Some (Inr [0xE2, 0xB7, 14, 0, 0, 0, 0, 0, 0x65, 0, 1, 2, 3, 4], e') \<and>
     enc_inv e' \<and> \<not> isFirstPacket e' \<and> Key e' = Key fresh_encryption"
proof -
  let ?p = "[0xE2, 0xB7, 14, 0, 0, 0, 0, 0, 0x65, 0, 1, 2, 3, 4] :: byte list"
  have "le_word (take 4 ?p) = magic_header (length ?p)"
    by (simp add: magic_header_def MagicKey_def)
  then show ?thesis
    using Decrypt_round_trip [OF fresh_encryption_inv(1), of "0xDEADBEEF" ?p "[9, 9, 9, 9]"]
    by (simp add: key_agreed_def fresh_encryption_inv enc_consts replicate_Suc del: le_word.simps) (simp add: numeral_eq_Suc)
qed

lemma Decrypt_never_panics:
  assumes "enc_inv e" and "GetPacketSize e data = Some (length data)" and "C2SHeaderSize \<le> length data"
  shows "\<exists>r e'. Decrypt e data = Some (r, e') \<and> enc_inv e' \<and>
     (case r of Inl er \<Rightarrow> \<not> isFirstPacket e \<and> e' = e \<and>
          (\<exists>h. ucast (h XOR recvXorKey e) \<noteq> MagicKey \<and> get_Uint32 data = Some h \<and>
            er = InvalidMagicKey (ucast (h XOR recvXorKey e)) MagicKey)
      | Inr p \<Rightarrow> length p = length data \<and> \<not> isFirstPacket e')"
proof (cases "isFirstPacket e")
  case True
  then have "decrypt_header e data = (Some (Inr (length data)),
      e\<lparr>recvXorKey := le_word (take 4 data) XOR magic_header Connect2SvrSize\<rparr>)"
    using decrypt_header_first [of e data] assms(2,3) by (simp add: GetPacketSize_def C2SHeaderSize_def)
  from Decrypt_ok [OF assms(1,3) this] assms(3) show ?thesis
    by (fastforce simp: chain.length_dec C2SHeaderSize_def)
next
  case False
  define h :: uint32 where "h = le_word (take 4 data)"
  have g: "get_Uint32 data = Some h" using assms(3) by (simp add: get_Uint32_def h_def C2SHeaderSize_def)
  then have size: "unat (drop_bit 16 (h XOR recvXorKey e)) = length data"
    using assms(2) False by (simp add: GetPacketSize_def)
  show ?thesis
  proof (cases "ucast (h XOR recvXorKey e) = MagicKey")
    case True
    then have "decrypt_header e data = (Some (Inr (length data)), e\<lparr>recvXorKey := recvXorKey e\<rparr>)"
      using decrypt_header_next [OF False, of data] assms(3) size by (simp add: h_def [symmetric] C2SHeaderSize_def)
    from Decrypt_ok [OF assms(1,3) this] assms(3) show ?thesis
      by (fastforce simp: chain.length_dec C2SHeaderSize_def)
  next
    case bad: False
    then have "Decrypt e data = Some (Inl (InvalidMagicKey (ucast (h XOR recvXorKey e)) MagicKey), e)"
      using decrypt_header_next [OF False, of data] assms(3)
      by (simp add: Decrypt_def h_def [symmetric] C2SHeaderSize_def)
    with assms(1) False bad g show ?thesis by auto
  qed
qed



end
