(* ===== verification/Freya_Event.thy ===== *)
theory Freya_Event
  imports Freya_Encryption
begin

text \<open>
  The event bus (\<open>share/event/event.go\<close>) and the periodic tasks
  (\<open>share/network/periodic_task.go\<close>). Handlers started by \<open>Trigger\<close> run in goroutines of their own, so
  a trigger is modelled by the list of handlers it starts.
\<close>

section \<open>Event bus (event.go)\<close>

record 'a Event =
  edata :: "'a list"
  eindex :: nat

definition Gett :: "'a Event \<Rightarrow> nat" where
  "Gett e = eindex e"

text \<open>\<open>Get\<close> returns the value and the \<open>ok\<close> flag as an option.\<close>

definition Event_Get :: "'a Event \<Rightarrow> 'a option \<times> 'a Event" where
  "Event_Get e =
     (if length (edata e) \<le> eindex e then (None, e)
      else let result = edata e ! eindex e in (Some result, e\<lparr>eindex := eindex e + 1\<rparr>))"

text \<open>The package variables \<open>handlers\<close> and \<open>nextHandlerId\<close>.\<close>

record 'h EventBus =
  handlers :: "string \<rightharpoonup> (uint64 \<rightharpoonup> 'h)"
  nextHandlerId :: uint64

definition Event_Register :: "string \<Rightarrow> 'h \<Rightarrow> 'h EventBus \<Rightarrow> uint64 \<times> 'h EventBus" where
  "Event_Register t h b =
     (let hs = (case handlers b t of None \<Rightarrow> Map.empty | Some hs \<Rightarrow> hs);
          i = nextHandlerId b
      in (i, b\<lparr>handlers := (handlers b)(t \<mapsto> hs(i \<mapsto> h)), nextHandlerId := i + 1\<rparr>))"

definition Event_Unregister :: "string \<Rightarrow> uint64 \<Rightarrow> 'h EventBus \<Rightarrow> 'h EventBus" where
  "Event_Unregister t i b =
     (case handlers b t of
        None \<Rightarrow> b
      | Some hs \<Rightarrow>
          let hs = hs(i := None) in
          if hs = Map.empty then b\<lparr>handlers := (handlers b)(t := None)\<rparr>
          else b\<lparr>handlers := (handlers b)(t \<mapsto> hs)\<rparr>)"

text \<open>
  \<open>Trigger\<close> starts one goroutine per handler of the event, in an order the map's iteration chooses:
  \<open>order\<close> lists the handler ids. Each gets an event of its own.
\<close>

definition Trigger :: "uint64 list \<Rightarrow> string \<Rightarrow> 'a list \<Rightarrow> 'h EventBus \<Rightarrow> ('h \<times> 'a Event) list" where
  "Trigger order t args b =
     (case handlers b t of
        None \<Rightarrow> []
      | Some hs \<Rightarrow> List.map_filter (\<lambda>i. map_option (\<lambda>h. (h, \<lparr>edata = args, eindex = 0\<rparr>)) (hs i)) order)"

text \<open>Ids handed out so far are below \<open>nextHandlerId\<close>, and no event has an empty handler set.\<close>

definition bus_inv :: "'h EventBus \<Rightarrow> bool" where
  "bus_inv b \<longleftrightarrow> (\<forall>t hs. handlers b t = Some hs \<longrightarrow> hs \<noteq> Map.empty \<and> (\<forall>i\<in>dom hs. i < nextHandlerId b))"

lemma Register_inv [go_inv]:
  assumes inv: "bus_inv b" and room: "nextHandlerId b \<noteq> - 1"
  shows "bus_inv (snd (Event_Register t h b))"
proof -
  have step: "nextHandlerId b < nextHandlerId b + 1" using room by (rule word_less_plus_one)
  then have "i < nextHandlerId b + 1" if "i < nextHandlerId b" for i
    using that by (rule order_less_trans [rotated])
  with inv step show ?thesis
    by (auto simp: bus_inv_def Event_Register_def Let_def split: option.splits if_splits)
qed

lemma Unregister_inv [go_inv]: "bus_inv b \<Longrightarrow> bus_inv (Event_Unregister t i b)"
  by (auto simp: bus_inv_def Event_Unregister_def Let_def split: option.splits if_splits)

text \<open>The id \<open>Register\<close> is about to hand out has no handler.\<close>

lemma next_id_free: "bus_inv b \<Longrightarrow> handlers b t = Some hs \<Longrightarrow> hs (nextHandlerId b) = None"
  by (force simp: bus_inv_def dom_def)

text \<open>
  Registering a handler makes exactly that handler run on the next trigger, whatever else is
  registered, under an id no other handler of the bus has; unregistering it with the returned id
  restores the bus but for the counter.
\<close>

theorem Register_Trigger_Unregister:
  assumes "bus_inv b" and "Event_Register t h b = (i, b')"
  shows "Trigger [i] t args b = [] \<and> Trigger [i] t args b' = [(h, \<lparr>edata = args, eindex = 0\<rparr>)] \<and>
     (\<forall>t' j. (t', j) \<noteq> (t, i) \<longrightarrow> Trigger [j] t' args b' = Trigger [j] t' args b) \<and>
     handlers (Event_Unregister t i b') = handlers b"
proof (cases "handlers b t")
  case None
  then have "handlers b = (handlers b)(t := None)" by (simp add: fun_upd_idem)
  with None assms(2) show ?thesis
    by (auto simp: Event_Register_def Event_Unregister_def Trigger_def Let_def List.map_filter_def)
next
  case (Some hs)
  moreover from this assms(1) have "hs i = None" "hs \<noteq> Map.empty"
    using assms(2) next_id_free by (auto simp: Event_Register_def Let_def bus_inv_def)
  moreover from \<open>hs i = None\<close> Some have "hs(i := None) = hs" "(handlers b)(t \<mapsto> hs) = handlers b" by auto
  ultimately show ?thesis using assms(2)
    by (auto simp: Event_Register_def Event_Unregister_def Trigger_def Let_def List.map_filter_def)
qed

theorem Register_Trigger_Unregister_witness:
  "Trigger [1] ''a'' [True] (snd (Event_Register ''a'' (5::nat) \<lparr>handlers = Map.empty, nextHandlerId = 1\<rparr>))
     = [(5, \<lparr>edata = [True], eindex = 0\<rparr>)]"
  using Register_Trigger_Unregister [of "\<lparr>handlers = Map.empty, nextHandlerId = 1\<rparr>" "''a''" "5::nat" 1 _ "[True]"]
  by (simp add: bus_inv_def Event_Register_def Let_def)

section \<open>Periodic tasks (periodic_task.go)\<close>

text \<open>
  What the goroutine of a task receives in its \<open>select\<close>. \<open>NewPeriodicTask\<close> runs \<open>taskFunc\<close> before
  every \<open>select\<close> and again in the ticker's branch; \<open>task_runs\<close> counts the calls for a sequence of
  signals, starting at the head of the loop.
\<close>

datatype signal = TickerC | StopSignal

fun NewPeriodicTask :: "signal list \<Rightarrow> nat" where
  "NewPeriodicTask [] = 1"
| "NewPeriodicTask (TickerC # ss) = 1 + (1 + NewPeriodicTask ss)"
| "NewPeriodicTask (StopSignal # ss) = 1"

text \<open>
  A periodic task runs its function twice per tick of the ticker, not once: \<open>n\<close> ticks give
  \<open>2 * n + 1\<close> runs, and nothing runs after the stop signal.
\<close>

theorem NewPeriodicTask_runs:
  "NewPeriodicTask (replicate n TickerC @ StopSignal # ss) = 2 * n + 1 \<and>
   NewPeriodicTask (replicate n TickerC) = 2 * n + 1"
  by (induction n) simp_all

end
