(* ===== verification/Freya_Session.thy ===== *)
theory Freya_Session
  imports Freya_Event
begin

text \<open>
  One client connection (\<open>share/network/session.go\<close>) and the dispatch of its packets
  (\<open>packethandler.go\<close>). The receive loop is total and never panics, and the packets it delivers do
  not depend on how TCP cuts the stream into reads.
\<close>

section \<open>Session (session.go)\<close>

text \<open>The packet event the loop triggers for every decrypted frame (\<open>args.go\<close>).\<close>

record PacketArgs =
  Length :: int
  Type :: int
  Data :: "byte list"
  PReader :: Reader

text \<open>
  A periodic task of the job list is known by its number; \<open>stopped\<close> collects the tasks whose
  \<open>Stop\<close> was called, \<open>received\<close> and \<open>disconnects\<close> the events triggered. \<open>closed\<close> is the state of the
  closing channel, which only the body of \<open>closeOnce\<close> closes.
\<close>

record Session =
  sbuffer :: "byte list"
  sEncryption :: Encryption
  sfirstPacket :: bool
  UserIdx :: uint16
  AuthKey :: uint32
  sIp :: string
  AccountId :: int32
  Verified :: bool
  LoggedIn :: bool
  PeriodicJobs :: "string \<rightharpoonup> nat"
  stopped :: "nat set"
  closed :: bool
  received :: "PacketArgs list"
  disconnects :: nat

definition IsClosed :: "Session \<Rightarrow> bool" where
  "IsClosed s = closed s"

definition AddJob :: "string \<Rightarrow> nat \<Rightarrow> Session \<Rightarrow> Session" where
  "AddJob name task s = s\<lparr>PeriodicJobs := (PeriodicJobs s)(name \<mapsto> task)\<rparr>"

definition RemoveJob :: "string \<Rightarrow> Session \<Rightarrow> Session" where
  "RemoveJob name s =
     (case PeriodicJobs s name of
        Some job \<Rightarrow> s\<lparr>stopped := insert job (stopped s), PeriodicJobs := (PeriodicJobs s)(name := None)\<rparr>
      | None \<Rightarrow> s)"

text \<open>Every job is stopped and deleted, in whatever order the map is walked.\<close>

definition RemoveAllJobs :: "Session \<Rightarrow> Session" where
  "RemoveAllJobs s = s\<lparr>stopped := stopped s \<union> ran (PeriodicJobs s), PeriodicJobs := Map.empty\<rparr>"

definition Close :: "Session \<Rightarrow> Session" where
  "Close s =
     (if closed s then s
      else let s = RemoveAllJobs (s\<lparr>closed := True\<rparr>) in s\<lparr>disconnects := disconnects s + 1\<rparr>)"

text \<open>
  The inner loop of \<open>Start\<close>: it consumes complete frames of the buffer and returns \<open>closeSession\<close>
  with the session, \<open>None\<close> for a panic.
\<close>

function drain :: "Session \<Rightarrow> (bool \<times> Session) option" where
  "drain s =
     (if sbuffer s = [] then Some (False, s)
      else if IsClosed s then Some (False, s)
      else let minimumHeader = (if sfirstPacket s then Connect2SvrSize else 4) in
      if length (sbuffer s) < minimumHeader then Some (False, s)
      else case GetPacketSize (sEncryption s) (sbuffer s) of
        None \<Rightarrow> None
      | Some packetLength \<Rightarrow>
          if packetLength < C2SHeaderSize then Some (True, s)
          else if length (sbuffer s) < packetLength then Some (False, s)
          else case Decrypt (sEncryption s) (take packetLength (sbuffer s)) of
            None \<Rightarrow> None
          | Some (Inl decryptErr, e) \<Rightarrow> Some (True, s\<lparr>sEncryption := e\<rparr>)
          | Some (Inr data, e) \<Rightarrow>
              (case NewReader data of
                 None \<Rightarrow> None
               | Some reader \<Rightarrow>
                   drain (s\<lparr>sEncryption := e, sbuffer := drop packetLength (sbuffer s), sfirstPacket := False,
                     received := received s @ [\<lparr>Length = uint (rSize reader), Type = uint (rType reader),
                        Data = data, PReader = reader\<rparr>]\<rparr>)))"
  by pat_completeness auto
termination
  by (relation "measure (\<lambda>s. length (sbuffer s))") (auto simp: C2SHeaderSize_def)

declare drain.simps [simp del]

text \<open>What one \<open>socket.Read\<close> delivers: the bytes, and whether it reported an error as well.\<close>

type_synonym socket_read = "byte list \<times> bool"

text \<open>One iteration of the outer loop; the flag tells whether the loop goes on.\<close>

definition on_read :: "socket_read \<Rightarrow> Session \<Rightarrow> (bool \<times> Session) option" where
  "on_read rd s = do {
     let (bytes, err) = rd;
     let s = s\<lparr>sbuffer := sbuffer s @ bytes\<rparr>;
     (closeSession, s) \<leftarrow> drain s;
     Some (if IsClosed s then (False, s)
           else if closeSession then (False, Close s)
           else if err then (False, Close s)
           else (True, s)) }"

text \<open>The outer loop on the reads the socket delivers, until it breaks or the list ends.\<close>

fun read_loop :: "socket_read list \<Rightarrow> Session \<Rightarrow> (bool \<times> Session) option" where
  "read_loop [] s = Some (True, s)"
| "read_loop (rd # rds) s =
     (case on_read rd s of
        None \<Rightarrow> None
      | Some (False, s) \<Rightarrow> Some (False, s)
      | Some (True, s) \<Rightarrow> read_loop rds s)"

definition Start :: "nat \<Rightarrow> XorKeyTable \<Rightarrow> socket_read list \<Rightarrow> Session \<Rightarrow> (bool \<times> Session) option" where
  "Start rnd table rds s =
     read_loop rds (s\<lparr>sbuffer := [], PeriodicJobs := Map.empty,
       sEncryption := Encryption_Init rnd table
         \<lparr>recvXorKey = 0, isFirstPacket = False, xorKeyTableBaseMultiple = 0,
          Key = \<lparr>KeyTable = [], Seed2nd = 0\<rparr>, RecvXorKeyIdx = 0\<rparr>,
       sfirstPacket := True\<rparr>)"

section \<open>The receive loop never panics\<close>

definition session_inv :: "Session \<Rightarrow> bool" where
  "session_inv s \<longleftrightarrow> enc_inv (sEncryption s) \<and> sfirstPacket s = isFirstPacket (sEncryption s)"

lemma NewReader_total: "C2SHeaderSize \<le> length data \<Longrightarrow> \<exists>r. NewReader data = Some r"
  by (simp add: NewReader_def C2SHeaderSize_def ReadUint16_def ReadUint32_def Let_def)

lemma GetPacketSize_prefix:
  "GetPacketSize e a = Some n \<Longrightarrow> GetPacketSize e (a @ b) = Some n"
  by (auto simp: GetPacketSize_def get_Uint32_def split: if_splits)

lemma GetPacketSize_frame:
  assumes "GetPacketSize e buf = Some n" "C2SHeaderSize \<le> n" "n \<le> length buf"
  shows "GetPacketSize e (take n buf) = Some n"
  using assms by (auto simp: GetPacketSize_def get_Uint32_def C2SHeaderSize_def min_def split: if_splits)

lemma GetPacketSize_total:
  "(if isFirstPacket e then Connect2SvrSize else 4) \<le> length buf \<Longrightarrow> \<exists>n. GetPacketSize e buf = Some n"
  by (cases "isFirstPacket e") (simp_all add: GetPacketSize_def get_Uint32_def)

text \<open>On a complete frame the body of the loop decrypts and parses.\<close>

lemma frame_ok:
  assumes "enc_inv e" "GetPacketSize e buf = Some n" "C2SHeaderSize \<le> n" "n \<le> length buf"
  obtains er e' where "Decrypt e (take n buf) = Some (Inl er, e')" "enc_inv e'" "e' = e" 
  | p e' r where "Decrypt e (take n buf) = Some (Inr p, e')" "enc_inv e'" "\<not> isFirstPacket e'"
      "NewReader p = Some r" "length p = n"
proof -
  have "length (take n buf) = n" using assms(4) by simp
  with Decrypt_never_panics [OF assms(1), of "take n buf"] GetPacketSize_frame [OF assms(2-4)] assms(3)
  obtain r e' where D: "Decrypt e (take n buf) = Some (r, e')" "enc_inv e'"
     "case r of Inl er \<Rightarrow> e' = e | Inr p \<Rightarrow> length p = n \<and> \<not> isFirstPacket e'"
    by (fastforce split: sum.splits)
  show ?thesis
  proof (cases r)
    case (Inl er)
    with D that(1) show ?thesis by auto
  next
    case (Inr p)
    with D NewReader_total [of p] assms(3) that(2) show ?thesis by auto
  qed
qed

text \<open>The loop, one equation per exit and one for a delivered frame.\<close>

definition incomplete :: "Session \<Rightarrow> bool" where
  "incomplete s \<longleftrightarrow> sbuffer s = [] \<or> IsClosed s \<or>
     length (sbuffer s) < (if sfirstPacket s then Connect2SvrSize else 4)"

definition deliver :: "Session \<Rightarrow> nat \<Rightarrow> Encryption \<Rightarrow> byte list \<Rightarrow> Reader \<Rightarrow> Session" where
  "deliver s n e p r = s\<lparr>sEncryption := e, sbuffer := drop n (sbuffer s), sfirstPacket := False,
     received := received s @ [\<lparr>Length = uint (rSize r), Type = uint (rType r), Data = p, PReader = r\<rparr>]\<rparr>"

lemma drain_incomplete: "incomplete s \<Longrightarrow> drain s = Some (False, s)"
  unfolding incomplete_def by (subst drain.simps) (auto simp: Let_def)

lemma drain_unfold:
  assumes "\<not> incomplete s" and "GetPacketSize (sEncryption s) (sbuffer s) = Some n"
  shows "drain s =
     (if n < C2SHeaderSize then Some (True, s)
      else if length (sbuffer s) < n then Some (False, s)
      else case Decrypt (sEncryption s) (take n (sbuffer s)) of
        None \<Rightarrow> None
      | Some (Inl _, e) \<Rightarrow> Some (True, s\<lparr>sEncryption := e\<rparr>)
      | Some (Inr p, e) \<Rightarrow> (case NewReader p of None \<Rightarrow> None | Some r \<Rightarrow> drain (deliver s n e p r)))"
  using assms unfolding incomplete_def
  by (subst drain.simps) (auto simp: Let_def deliver_def split: option.splits sum.splits)

lemma drain_stuck: "\<not> incomplete s \<Longrightarrow> GetPacketSize (sEncryption s) (sbuffer s) = None \<Longrightarrow> drain s = None"
  unfolding incomplete_def by (subst drain.simps) (simp add: Let_def)

lemma deliver_shorter:
  "\<not> incomplete s \<Longrightarrow> C2SHeaderSize \<le> n \<Longrightarrow> length (sbuffer (deliver s n e p r)) < length (sbuffer s)"
  by (simp add: deliver_def incomplete_def C2SHeaderSize_def)

lemma drain_induct [case_names incomplete no_header frame]:
  assumes "\<And>s. incomplete s \<Longrightarrow> P s"
    and "\<And>s. \<not> incomplete s \<Longrightarrow> GetPacketSize (sEncryption s) (sbuffer s) = None \<Longrightarrow> P s"
    and "\<And>s n. \<not> incomplete s \<Longrightarrow> GetPacketSize (sEncryption s) (sbuffer s) = Some n \<Longrightarrow>
       (\<And>e p r. C2SHeaderSize \<le> n \<Longrightarrow> P (deliver s n e p r)) \<Longrightarrow> P s"
  shows "P s"
proof (induction s rule: measure_induct_rule [of "\<lambda>s. length (sbuffer s)"])
  case (less s)
  show ?case
  proof (cases "incomplete s")
    case True
    then show ?thesis by (rule assms(1))
  next
    case False
    show ?thesis
    proof (cases "GetPacketSize (sEncryption s) (sbuffer s)")
      case None
      with False show ?thesis by (rule assms(2))
    next
      case (Some n)
      with False less show ?thesis by (intro assms(3) [of s n]) (simp_all add: deliver_shorter)
    qed
  qed
qed

lemma drain_total: "session_inv s \<Longrightarrow> \<exists>c s'. drain s = Some (c, s') \<and> session_inv s'"
proof (induction s rule: drain_induct)
  case (incomplete s)
  then show ?case by (auto simp: drain_incomplete)
next
  case (no_header s)
  then show ?case
    using GetPacketSize_total [of "sEncryption s" "sbuffer s"] by (auto simp: session_inv_def incomplete_def)
next
  case (frame s n)
  show ?case
  proof (cases "C2SHeaderSize \<le> n \<and> n \<le> length (sbuffer s)")
    case False
    with frame show ?thesis by (auto simp: drain_unfold)
  next
    case True
    have "enc_inv (sEncryption s)" using frame.prems by (simp add: session_inv_def)
    then show ?thesis
    proof (cases rule: frame_ok [OF _ frame.hyps(2), case_names enc big_enough there bad good])
      case (bad er e')
      with True frame show ?thesis by (auto simp: drain_unfold)
    next
      case (good p e' r)
      then have "session_inv (deliver s n e' p r)" by (simp add: session_inv_def deliver_def)
      from frame.IH [OF _ this] good True frame.hyps show ?thesis by (simp add: drain_unfold)
    qed (use True in simp_all)
  qed
qed

section \<open>Segmentation independence\<close>

abbreviation with_bytes :: "Session \<Rightarrow> byte list \<Rightarrow> Session" where
  "with_bytes s b \<equiv> s\<lparr>sbuffer := sbuffer s @ b\<rparr>"

text \<open>More bytes behind the buffer change nothing of what the loop has already done.\<close>

lemma drain_append:
  "drain s = Some (c, s') \<Longrightarrow> drain (with_bytes s b) = (if c then Some (True, with_bytes s' b) else drain (with_bytes s' b))"
proof (induction s rule: drain_induct)
  case (incomplete s)
  then show ?case by (simp add: drain_incomplete)
next
  case (no_header s)
  then show ?case by (simp add: drain_stuck)
next
  case (frame s n)
  have go: "\<not> incomplete (with_bytes s b)" using frame.hyps(1) by (auto simp: incomplete_def IsClosed_def)
  have n: "GetPacketSize (sEncryption (with_bytes s b)) (sbuffer (with_bytes s b)) = Some n"
    using GetPacketSize_prefix [OF frame.hyps(2)] by simp
  note eqs = drain_unfold [OF frame.hyps] drain_unfold [OF go n]
  show ?case
  proof (cases "C2SHeaderSize \<le> n \<and> n \<le> length (sbuffer s)")
    case False
    then consider "n < C2SHeaderSize" | "\<not> n < C2SHeaderSize" "length (sbuffer s) < n" by linarith
    then show ?thesis
    proof cases
      case 1
      with frame.prems have "c" "s' = s" by (simp_all add: eqs(1))
      with 1 show ?thesis by (simp add: eqs(2))
    next
      case 2
      with frame.prems have "\<not> c" "s' = s" by (simp_all add: eqs(1))
      then show ?thesis by simp
    qed
  next
    case True
    then have "deliver (with_bytes s b) n e p r = with_bytes (deliver s n e p r) b" for e p r
      by (simp add: deliver_def)
    with True frame.prems frame.IH show ?thesis
      by (auto simp: eqs split: option.splits sum.splits)
  qed
qed

text \<open>Reads without an error, as the loop sees a stream cut at arbitrary points.\<close>

abbreviation clean_reads :: "byte list list \<Rightarrow> socket_read list" where
  "clean_reads cs \<equiv> map (\<lambda>c. (c, False)) cs"

lemma drain_again: "drain s = Some (False, s') \<Longrightarrow> drain s' = Some (False, s')"
proof (induction s rule: drain_induct)
  case (frame s n)
  then show ?case
    by (cases "n < C2SHeaderSize \<or> length (sbuffer s) < n")
      (auto simp: drain_unfold split: option.splits sum.splits if_splits)
qed (auto simp: drain_incomplete drain_stuck)

lemma drain_closed: "drain s = Some (c, s') \<Longrightarrow> closed s' = closed s \<and> (closed s \<longrightarrow> \<not> c)"
proof (induction s rule: drain_induct)
  case (frame s n)
  have "\<not> closed s" using frame.hyps(1) by (simp add: incomplete_def IsClosed_def)
  moreover have "closed (deliver s n e p r) = closed s" for e p r by (simp add: deliver_def)
  ultimately show ?case
    using frame by (auto simp: drain_unfold split: option.splits sum.splits if_splits)
qed (auto simp: drain_incomplete drain_stuck)

text \<open>What the loop has delivered, and the session it goes on reading with, if it does.\<close>

definition outcome :: "(bool \<times> Session) option \<Rightarrow> (PacketArgs list \<times> Session option) option" where
  "outcome r = map_option (\<lambda>(on, s). (received s, if on then Some s else None)) r"

lemma received_Close [simp]: "received (Close s) = received s"
  by (simp add: Close_def RemoveAllJobs_def Let_def)

lemma on_read_clean:
  "\<not> closed s \<Longrightarrow> on_read (c, False) s =
     map_option (\<lambda>(k, s'). if k then (False, Close s') else (True, s')) (drain (with_bytes s c))"
  using drain_closed [of "with_bytes s c"]
  by (cases "drain (with_bytes s c)") (auto simp: on_read_def IsClosed_def)

lemma read_loop_concat:
  assumes "session_inv s" "\<not> closed s" "drain s = Some (False, s)"
  shows "outcome (read_loop (clean_reads cs) s) = outcome (on_read (concat cs, False) s)"
  using assms
proof (induction cs arbitrary: s)
  case Nil
  then show ?case by (simp add: on_read_clean outcome_def)
next
  case (Cons c cs)
  have "session_inv (with_bytes s c)" using Cons.prems(1) by (simp add: session_inv_def)
  from drain_total [OF this] obtain k s1 where d: "drain (with_bytes s c) = Some (k, s1)" and inv: "session_inv s1"
    by blast
  have all: "drain (with_bytes s (c @ concat cs)) =
      (if k then Some (True, with_bytes s1 (concat cs)) else drain (with_bytes s1 (concat cs)))"
    using drain_append [OF d, of "concat cs"] by simp
  have open1: "\<not> closed s1" using drain_closed [OF d] Cons.prems(2) by simp
  show ?case
  proof (cases k)
    case True
    with d all Cons.prems(2) show ?thesis by (simp add: on_read_clean outcome_def)
  next
    case False
    with drain_again d have "drain s1 = Some (False, s1)" by simp
    from Cons.IH [OF inv open1 this] d all False Cons.prems(2) open1 show ?thesis
      by (simp add: on_read_clean)
  qed
qed

lemma read_loop_total: "session_inv s \<Longrightarrow> \<exists>r. read_loop rds s = Some r"
proof (induction rds arbitrary: s)
  case (Cons rd rds)
  have "session_inv (with_bytes s (fst rd))" using Cons.prems by (simp add: session_inv_def)
  from drain_total [OF this] obtain c s' where d: "drain (with_bytes s (fst rd)) = Some (c, s')" "session_inv s'"
    by blast
  with Cons.IH [of s'] show ?case by (auto simp: on_read_def case_prod_unfold)
qed auto

text \<open>A session as \<open>Network.Init\<close> creates it, for the witnesses.\<close>

definition fresh_session :: Session where
  "fresh_session = \<lparr>sbuffer = [], sEncryption = fresh_encryption, sfirstPacket = True, UserIdx = 0, AuthKey = 0,
     sIp = [], AccountId = 0, Verified = False, LoggedIn = False, PeriodicJobs = Map.empty, stopped = {},
     closed = False, received = [], disconnects = 0\<rparr>"

text \<open>
  C22: The receive loop never panics, whatever bytes a client sends and however they arrive, and what
  it delivers depends only on the bytes: cutting the stream into other reads gives the same packets
  in the same order, and the same session afterwards.
\<close>

theorem Start_segmentation:
  assumes "rnd < RecvXorKeyNum" and "length (KeyTable table) = RecvXorKeyNum * 2" and "\<not> closed s"
  shows "Start rnd table rds s \<noteq> None \<and>
     (concat cs = concat ds \<longrightarrow>
        outcome (Start rnd table (clean_reads cs) s) = outcome (Start rnd table (clean_reads ds) s))"
proof -
  define s0 where "s0 = s\<lparr>sbuffer := [], PeriodicJobs := Map.empty,
       sEncryption := Encryption_Init rnd table
         \<lparr>recvXorKey = 0, isFirstPacket = False, xorKeyTableBaseMultiple = 0,
          Key = \<lparr>KeyTable = [], Seed2nd = 0\<rparr>, RecvXorKeyIdx = 0\<rparr>,
       sfirstPacket := True\<rparr>"
  have inv: "session_inv s0" "\<not> closed s0" "drain s0 = Some (False, s0)"
    using assms by (simp_all add: s0_def session_inv_def enc_inv_def Encryption_Init_def unat_word_of_nat
        RecvXorKeyNum_def drain_incomplete incomplete_def)
  then show ?thesis
    using read_loop_total [OF inv(1)] read_loop_concat [OF inv]
    by (simp add: Start_def s0_def [symmetric])
qed

theorem Start_segmentation_witness:
  "outcome (Start 5 \<lparr>KeyTable = replicate 0x8000 0, Seed2nd = 0\<rparr> (clean_reads [[1, 2, 3], replicate 11 7]) fresh_session)
   = outcome (Start 5 \<lparr>KeyTable = replicate 0x8000 0, Seed2nd = 0\<rparr> (clean_reads [[1, 2, 3] @ replicate 11 7]) fresh_session)"
  by (rule Start_segmentation [THEN conjunct2, rule_format])
    (simp_all add: RecvXorKeyNum_def fresh_session_def)

text \<open>
  Closing a session stops every job of its list and announces the disconnect exactly once,
  however often it is closed.
\<close>

theorem Close_once:
  "\<not> closed s \<Longrightarrow> Close (Close s) = Close s \<and> closed (Close s) \<and> disconnects (Close s) = disconnects s + 1 \<and>
     PeriodicJobs (Close s) = Map.empty \<and> stopped (Close s) = stopped s \<union> ran (PeriodicJobs s)"
  by (simp add: Close_def RemoveAllJobs_def Let_def)

theorem Close_once_witness:
  "stopped (Close (AddJob ''drain'' 7 fresh_session)) = {7}"
proof -
  have "\<not> closed (AddJob ''drain'' 7 fresh_session)" by (simp add: AddJob_def fresh_session_def)
  from Close_once [OF this] show ?thesis by (simp add: AddJob_def fresh_session_def)
qed

section \<open>Packet dispatch (packethandler.go)\<close>

text \<open>
  A handler changes a state \<open>'s\<close> that contains its session and may panic; the effects up to the panic
  stay. \<open>None\<close> as a method is a packet the server only sends.
\<close>

record 's PacketData =
  PName :: string
  Method :: "('s \<Rightarrow> Reader \<Rightarrow> bool \<times> 's) option"

type_synonym 's PacketHandler = "uint16 \<rightharpoonup> 's PacketData"

definition PacketHandler_Init :: "'s PacketHandler" where
  "PacketHandler_Init = Map.empty"

definition PacketHandler_Register ::
    "uint16 \<Rightarrow> string \<Rightarrow> ('s \<Rightarrow> Reader \<Rightarrow> bool \<times> 's) option \<Rightarrow> 's PacketHandler \<Rightarrow> 's PacketHandler" where
  "PacketHandler_Register code name method pk = pk(code \<mapsto> \<lparr>PName = name, Method = method\<rparr>)"

text \<open>\<open>close_session\<close> is \<open>args.Session.Close()\<close>, run by the deferred recovery.\<close>

definition Handle :: "('s \<Rightarrow> 's) \<Rightarrow> 's PacketHandler \<Rightarrow> PacketArgs \<Rightarrow> 's \<Rightarrow> 's" where
  "Handle close_session pk args st =
     (case pk (rType (PReader args)) of
        None \<Rightarrow> st
      | Some d \<Rightarrow>
          (case Method d of
             None \<Rightarrow> st
           | Some invoke \<Rightarrow>
               let (panicked, st) = invoke st (PReader args) in if panicked then close_session st else st))"

definition PacketHandler_Name :: "'s PacketHandler \<Rightarrow> int \<Rightarrow> string" where
  "PacketHandler_Name pk code = (case pk (word_of_int code) of Some d \<Rightarrow> PName d | None \<Rightarrow> ''Unknown'')"


end
