(* ===== verification/Freya_Network.thy ===== *)
theory Freya_Network
  imports Freya_Session
begin

text \<open>
  The table of connected clients (\<open>share/network/network.go\<close>): allocation of user indexes, lookup,
  verification and removal. The accept loop is the only writer that adds entries, so its check of an
  index and the insertion that follows are one step of the model; disconnects remove entries between
  two such steps.
\<close>

section \<open>Client table (network.go)\<close>

definition INVALID_USER_INDEX :: uint16 where
  "INVALID_USER_INDEX = 65535"

record Network =
  clients :: "uint16 \<rightharpoonup> Session"
  userIdx :: uint16

definition Network_Init :: Network where
  "Network_Init = \<lparr>clients = Map.empty, userIdx = 0\<rparr>"

text \<open>
  The loop \<open>for n.clients[n.userIdx] != nil\<close> with the counter wrapping at 16 bits; \<open>None\<close> when it
  never ends. It runs with the lock held.
\<close>

partial_function (option) find_free :: "(uint16 \<rightharpoonup> Session) \<Rightarrow> uint16 \<Rightarrow> uint16 option" where
  "find_free cs i = (if cs i \<noteq> None then find_free cs (i + 1) else Some i)"

declare find_free.simps [code]

text \<open>
  One accepted connection: \<open>now\<close> is the clock, in milliseconds, \<open>s\<close> the session just created. The
  branch for an index still taken after the loop is the one the code reports as an error.
\<close>

definition accept :: "nat \<Rightarrow> Session \<Rightarrow> Network \<Rightarrow> (Session option \<times> Network) option" where
  "accept now s n = do {
     n \<leftarrow> (if clients n (userIdx n) \<noteq> None
          then do { i \<leftarrow> find_free (clients n) (userIdx n); Some (n\<lparr>userIdx := i\<rparr>) }
          else Some n);
     if clients n (userIdx n) \<noteq> None then Some (None, n)
     else do {
       let s = s\<lparr>UserIdx := userIdx n, AuthKey := word_of_nat now\<rparr>;
       Some (Some s, n\<lparr>clients := (clients n)(userIdx n \<mapsto> s), userIdx := userIdx n + 1\<rparr>) } }"

definition GetOnlineUsers :: "Network \<Rightarrow> nat" where
  "GetOnlineUsers n = card (dom (clients n))"

text \<open>
  \<open>GetSession\<close>, \<open>IsOnline\<close> and \<open>CloseUser\<close> walk the map in an unspecified order: \<open>order\<close> lists its
  keys as one iteration yields them.
\<close>

primrec GetSession :: "uint16 list \<Rightarrow> uint16 \<Rightarrow> Network \<Rightarrow> Session option" where
  "GetSession [] idx n = None"
| "GetSession (k # order) idx n =
     (case clients n k of
        Some value \<Rightarrow> if UserIdx value = idx then Some value else GetSession order idx n
      | None \<Rightarrow> GetSession order idx n)"

definition Sessions :: "uint16 list \<Rightarrow> Network \<Rightarrow> Session list" where
  "Sessions order n = List.map_filter (clients n) order"

definition VerifyUser :: "uint16 \<Rightarrow> uint32 \<Rightarrow> string \<Rightarrow> int32 \<Rightarrow> Network \<Rightarrow> bool \<times> Network" where
  "VerifyUser i k ip db_idx n =
     (case clients n i of
        None \<Rightarrow> (False, n)
      | Some s \<Rightarrow>
          if AuthKey s = k \<and> sIp s = ip
          then (True, n\<lparr>clients := (clients n)(i \<mapsto> s\<lparr>Verified := True, LoggedIn := True, AccountId := db_idx\<rparr>)\<rparr>)
          else (False, n))"

primrec IsOnline :: "uint16 list \<Rightarrow> int32 \<Rightarrow> Network \<Rightarrow> uint16" where
  "IsOnline [] account n = INVALID_USER_INDEX"
| "IsOnline (k # order) account n =
     (case clients n k of
        Some s \<Rightarrow> if AccountId s = account \<and> Verified s \<and> LoggedIn s then UserIdx s else IsOnline order account n
      | None \<Rightarrow> IsOnline order account n)"

primrec CloseUser :: "uint16 list \<Rightarrow> uint16 \<Rightarrow> Network \<Rightarrow> bool \<times> Network" where
  "CloseUser [] i n = (False, n)"
| "CloseUser (k # order) i n =
     (case clients n k of
        Some s \<Rightarrow> if UserIdx s = i then (True, n\<lparr>clients := (clients n)(k \<mapsto> Close s)\<rparr>) else CloseUser order i n
      | None \<Rightarrow> CloseUser order i n)"

definition onClientDisconnect :: "Session \<Rightarrow> Network \<Rightarrow> Network" where
  "onClientDisconnect s n = n\<lparr>clients := (clients n)(UserIdx s := None)\<rparr>"

text \<open>Every client is filed under its own index.\<close>

definition net_inv :: "Network \<Rightarrow> bool" where
  "net_inv n \<longleftrightarrow> (\<forall>i s. clients n i = Some s \<longrightarrow> UserIdx s = i)"

section \<open>Index allocation\<close>

lemma find_free_sound: "find_free cs i = Some j \<Longrightarrow> cs j = None"
  by (rule find_free.raw_induct [where P = "\<lambda>cs i j. cs j = None"]) (auto split: if_splits)

lemma find_free_total: "cs (i + word_of_nat d) = None \<Longrightarrow> \<exists>j. find_free cs i = Some j"
proof (induction d arbitrary: i)
  case 0
  then show ?case by (subst find_free.simps) simp
next
  case (Suc d)
  then have "cs ((i + 1) + word_of_nat d) = None" by (simp add: ac_simps)
  from Suc.IH [OF this] show ?case by (subst find_free.simps) auto
qed

lemma find_free_terminates: "(\<exists>j. find_free cs i = Some j) \<longleftrightarrow> (\<exists>k. cs k = None)"
proof
  assume "\<exists>k. cs k = None"
  then obtain k where "cs k = None" ..
  then have "cs (i + word_of_nat (unat (k - i))) = None" by simp
  then show "\<exists>j. find_free cs i = Some j" by (rule find_free_total)
qed (blast dest: find_free_sound)

lemma accept_ok:
  assumes "\<exists>k. clients n k = None"
  obtains s' n' where "accept now s n = Some (Some s', n')" "clients n (UserIdx s') = None"
    "clients n' = (clients n)(UserIdx s' \<mapsto> s')" "AuthKey s' = word_of_nat now"
proof (cases "clients n (userIdx n)")
  case None
  then show ?thesis
    by (intro that [of "s\<lparr>UserIdx := userIdx n, AuthKey := word_of_nat now\<rparr>"
          "n\<lparr>clients := (clients n)(userIdx n \<mapsto> s\<lparr>UserIdx := userIdx n, AuthKey := word_of_nat now\<rparr>), userIdx := userIdx n + 1\<rparr>"])
      (simp_all add: accept_def Let_def)
next
  case (Some x)
  with assms obtain j where j: "find_free (clients n) (userIdx n) = Some j" "clients n j = None"
    using find_free_terminates find_free_sound by metis
  with Some show ?thesis
    by (intro that [of "s\<lparr>UserIdx := j, AuthKey := word_of_nat now\<rparr>"
          "n\<lparr>clients := (clients n)(j \<mapsto> s\<lparr>UserIdx := j, AuthKey := word_of_nat now\<rparr>), userIdx := j + 1\<rparr>"])
      (simp_all add: accept_def Let_def)
qed

text \<open>
  C24: While one of the 65536 user indexes is free, accepting a connection terminates and gives the
  session a free index: no connected client is replaced, everyone stays reachable, and the error
  branch after the search is never taken. With every index in use the search never ends.
\<close>

theorem accept_allocates:
  assumes "net_inv n"
  shows "if \<exists>k. clients n k = None
     then \<exists>s' n'. accept now s n = Some (Some s', n') \<and> net_inv n' \<and> clients n (UserIdx s') = None \<and>
       clients n' = (clients n)(UserIdx s' \<mapsto> s')
     else accept now s n = None"
proof (cases "\<exists>k. clients n k = None")
  case True
  then obtain s' n' where "accept now s n = Some (Some s', n')" "clients n (UserIdx s') = None"
    "clients n' = (clients n)(UserIdx s' \<mapsto> s')" by (rule accept_ok)
  with assms True show ?thesis by (auto simp: net_inv_def)
next
  case False
  then have "find_free (clients n) (userIdx n) = None"
    by (metis find_free_sound not_None_eq)
  with False show ?thesis by (simp add: accept_def)
qed

theorem accept_allocates_witness:
  "\<exists>s' n'. accept 1700000000000 fresh_session (Network_Init\<lparr>clients := [0 \<mapsto> fresh_session]\<rparr>) = Some (Some s', n') \<and>
     net_inv n' \<and> UserIdx s' \<noteq> 0"
proof -
  have "net_inv (Network_Init\<lparr>clients := [0 \<mapsto> fresh_session]\<rparr>)"
    by (simp add: net_inv_def Network_Init_def fresh_session_def)
  moreover have "\<exists>k. clients (Network_Init\<lparr>clients := [0 \<mapsto> fresh_session]\<rparr>) k = None"
    by (intro exI [of _ 1]) simp
  ultimately show ?thesis
    using accept_allocates [of "Network_Init\<lparr>clients := [0 \<mapsto> fresh_session]\<rparr>" 1700000000000 fresh_session]
    by (auto split: if_splits)
qed

section \<open>Lookups\<close>

text \<open>What a caller relies on of an iteration over the table: it yields every key.\<close>

lemma GetSession_lookup:
  assumes "net_inv n" "dom (clients n) \<subseteq> set order"
  shows "GetSession order idx n = clients n idx"
proof -
  have "GetSession order idx n = (if idx \<in> set order then clients n idx else None)" for order
    using assms(1) by (induction order) (auto simp: net_inv_def split: option.splits)
  with assms(2) show ?thesis by (cases "clients n idx") auto
qed

lemma IsOnline_cases:
  "(\<exists>k s. k \<in> set order \<and> clients n k = Some s \<and> AccountId s = a \<and> Verified s \<and> LoggedIn s \<and> IsOnline order a n = UserIdx s)
   \<or> (IsOnline order a n = INVALID_USER_INDEX \<and>
      (\<forall>k\<in>set order. \<forall>s. clients n k = Some s \<longrightarrow> \<not> (AccountId s = a \<and> Verified s \<and> LoggedIn s)))"
  by (induction order) (auto split: option.splits)

text \<open>
  \<open>GetSession\<close> returns the client of an index whatever order the map is walked in. \<open>IsOnline\<close>
  returns the index of a verified session of the account, or \<open>INVALID_USER_INDEX\<close>; that value is
  also a real index, so it means "offline" only while nobody holds index 65535.
\<close>

theorem client_lookup:
  assumes "net_inv n" and "set order = dom (clients n)"
  shows "GetSession order idx n = clients n idx \<and>
     (clients n INVALID_USER_INDEX = None \<longrightarrow>
       (IsOnline order a n = INVALID_USER_INDEX \<longleftrightarrow>
         \<not> (\<exists>i s. clients n i = Some s \<and> AccountId s = a \<and> Verified s \<and> LoggedIn s))) \<and>
     (IsOnline order a n \<noteq> INVALID_USER_INDEX \<longrightarrow>
       (\<exists>s. clients n (IsOnline order a n) = Some s \<and> AccountId s = a \<and> Verified s \<and> LoggedIn s))"
proof -
  have dom: "k \<in> set order \<longleftrightarrow> (\<exists>s. clients n k = Some s)" for k using assms(2) by auto
  have idx: "clients n k = Some s \<Longrightarrow> UserIdx s = k" for k s using assms(1) by (simp add: net_inv_def)
  have "GetSession order idx n = clients n idx" using GetSession_lookup assms by simp
  moreover from IsOnline_cases [of order n a] show ?thesis
  proof (elim disjE exE conjE)
    fix k s
    assume "clients n k = Some s" "AccountId s = a" "Verified s" "LoggedIn s" "IsOnline order a n = UserIdx s"
    with idx calculation show ?thesis by auto
  next
    assume "IsOnline order a n = INVALID_USER_INDEX"
      "\<forall>k\<in>set order. \<forall>s. clients n k = Some s \<longrightarrow> \<not> (AccountId s = a \<and> Verified s \<and> LoggedIn s)"
    with dom calculation show ?thesis by auto
  qed
qed

theorem client_lookup_witness:
  "let s = fresh_session\<lparr>AccountId := 9, Verified := True, LoggedIn := True\<rparr> in
   IsOnline [0] 9 (Network_Init\<lparr>clients := [0 \<mapsto> s]\<rparr>) \<noteq> INVALID_USER_INDEX"
proof -
  let ?s = "fresh_session\<lparr>AccountId := 9, Verified := True, LoggedIn := True\<rparr>"
  let ?n = "Network_Init\<lparr>clients := [0 \<mapsto> ?s]\<rparr>"
  have "net_inv ?n" "set [0] = dom (clients ?n)" "clients ?n INVALID_USER_INDEX = None"
    by (auto simp: net_inv_def fresh_session_def INVALID_USER_INDEX_def)
  from client_lookup [OF this(1,2), of 0 9] this(3) show ?thesis
    by (simp add: fresh_session_def)
qed

text \<open>
  \<open>VerifyUser\<close> marks a session as logged in only for the caller that presents the key the session
  was accepted with from the same address, and touches no other session.
\<close>

theorem VerifyUser_checks:
  "case VerifyUser i k ip db n of
     (True, n') \<Rightarrow> (\<exists>s. clients n i = Some s \<and> AuthKey s = k \<and> sIp s = ip \<and>
        clients n' = (clients n)(i \<mapsto> s\<lparr>Verified := True, LoggedIn := True, AccountId := db\<rparr>))
   | (False, n') \<Rightarrow> n' = n \<and> \<not> (\<exists>s. clients n i = Some s \<and> AuthKey s = k \<and> sIp s = ip)"
  by (auto simp: VerifyUser_def split: option.splits)

lemma net_inv_kept [go_inv]:
  "net_inv n \<Longrightarrow> net_inv (snd (VerifyUser i k ip db n))"
  "net_inv n \<Longrightarrow> net_inv (onClientDisconnect s n)"
  by (auto simp: net_inv_def VerifyUser_def onClientDisconnect_def split: option.splits)

end
