(* ===== verification/Freya_Items.thy ===== *)
theory Freya_Items
  imports Freya_Prelude
begin

text \<open>
  Items, the requests the game server sends to the master server about them
  (\<open>share/models/inventory/item.go\<close>, \<open>rpc.go\<close>, \<open>share/models/skills/rpc.go\<close>,
  \<open>share/models/character/character.go\<close>) and the RPC client
  itself, which is a record of one function per kind of call: each maps the request and the state of
  the remote side to an error or a response and the new state of the remote side.
\<close>

section \<open>Items (item.go)\<close>

record Item =
  Kind :: uint32
  Serials :: uint32
  Option :: int32
  Slot :: uint16
  Expire :: uint32

text \<open>\<open>Item\{\}\<close>, the zero value.\<close>

definition zero_Item :: Item where
  "zero_Item = \<lparr>Kind = 0, Serials = 0, Option = 0, Slot = 0, Expire = 0\<rparr>"

lemma zero_Item_simps [simp]:
  "Kind zero_Item = 0" "Serials zero_Item = 0" "Option zero_Item = 0" "Slot zero_Item = 0" "Expire zero_Item = 0"
  by (simp_all add: zero_Item_def)

section \<open>Requests and responses (rpc.go)\<close>

record ItemRequest =
  iServer :: byte
  iId :: int32
  iCommand :: string
  iItem :: Item
  iNewItem :: "Item option"

record ItemResponse =
  iResult :: bool

record TradeItemTransfer =
  tItem :: Item
  TargetSlot :: uint16

record TradeRequest =
  tServer :: byte
  FirstCharacter :: int32
  SecondCharacter :: int32
  FirstItems :: "TradeItemTransfer list"
  SecondItems :: "TradeItemTransfer list"
  FirstAlz :: uint64
  SecondAlz :: uint64

record TradeResponse =
  tResult :: bool
  tFirstAlz :: uint64
  tSecondAlz :: uint64

record StorageMoveRequest =
  smServer :: byte
  smCharacter :: int32
  SourceType :: byte
  SourceSlot :: uint16
  TargetType :: byte
  smTargetSlot :: uint16

record EnchantRequest =
  eServer :: byte
  eCharacter :: int32
  eTarget :: Item
  eNewKind :: uint32
  eCores :: "Item list"

record ForceCoreEnchantRequest =
  fServer :: byte
  fCharacter :: int32
  fTarget :: Item
  fNewTarget :: Item
  RandomScroll :: "Item option"
  SpecificScroll :: "Item option"
  fCores :: "Item list"

record AttachRequest =
  aServer :: byte
  aCharacter :: int32
  aSource :: Item
  aTarget :: Item
  aNewKind :: uint32
  aNewTarget :: "Item option"

record PurchaseRequest =
  pServer :: byte
  pCharacter :: int32
  pItem :: Item
  pPrice :: uint64

record SellRequest =
  sServer :: byte
  sCharacter :: int32
  sItems :: "Item list"
  sPrice :: uint64

text \<open>The response of a purchase or a sale.\<close>

record PurchaseResponse =
  pResult :: bool
  pAlz :: uint64

record SellResponse =
  sResult :: bool
  sAlz :: uint64

record Skill =
  SkillId :: uint16
  Level :: byte
  SkillSlot :: uint16

record LearnRequest =
  lServer :: byte
  lCharacter :: int32
  lInventorySlot :: uint16
  lItemID :: uint32
  lSkill :: Skill

text \<open>The requests about the values of a character (\<open>share/models/character/character.go\<close>).\<close>

record ExperienceReq =
  xServer :: byte
  xCharacter :: int32
  ExpectedExp :: uint64
  ExpectedLevel :: uint16
  xExp :: uint64
  xLevel :: uint16
  StatPoints :: uint32
  xCurrentHP :: uint16
  xMaxHP :: uint16
  xCurrentMP :: uint16
  xMaxMP :: uint16
  xCurrentSP :: uint16
  xMaxSP :: uint16

text \<open>The fifteen values a skill experience update expects and sets.\<close>

record SkillProgress =
  pgSwordRank :: byte
  pgMagicRank :: byte
  pgSwordExp :: uint16
  pgMagicExp :: uint16
  pgSwordPoint :: uint16
  pgMagicPoint :: uint16
  pgSwordRankExp :: uint16
  pgMagicRankExp :: uint16
  pgSTR :: uint32
  pgDEX :: uint32
  pgINT :: uint32
  pgCurrentHP :: uint16
  pgMaxHP :: uint16
  pgCurrentMP :: uint16
  pgMaxMP :: uint16

record SkillExperienceReq =
  seServer :: byte
  seCharacter :: int32
  Expected :: SkillProgress
  New :: SkillProgress

record VitalsRequest =
  vServer :: byte
  vCharacter :: int32
  vCurrentHP :: uint16
  vMaxHP :: uint16
  vCurrentMP :: uint16
  vMaxMP :: uint16
  vCurrentSP :: uint16
  vMaxSP :: uint16

record StatRequest =
  stServer :: byte
  stCharacter :: int32
  Stat :: byte
  stExpectedPNT :: uint32

record StatDistributionRequest =
  dServer :: byte
  dCharacter :: int32
  dSTR :: uint32
  dDEX :: uint32
  dINT :: uint32
  dExpectedPNT :: uint32

text \<open>The response to both.\<close>

record StatResponse =
  srResult :: bool
  srSTR :: uint32
  srDEX :: uint32
  srINT :: uint32
  srPNT :: uint32

record PositionReq =
  poServer :: byte
  poCharacter :: int32
  poWorld :: byte
  poX :: byte
  poY :: byte

section \<open>The RPC client\<close>

text \<open>
  \<open>Call(method, req, res)\<close> for each type of request; the responses that carry only \<open>Result\<close> are
  booleans. An error may come back although the remote side has acted, so the state is returned in
  every case.
\<close>

record 'm Client =
  call_item :: "string \<Rightarrow> ItemRequest \<Rightarrow> 'm \<Rightarrow> (string + ItemResponse) \<times> 'm"
  call_purchase :: "PurchaseRequest \<Rightarrow> 'm \<Rightarrow> (string + PurchaseResponse) \<times> 'm"
  call_sell :: "SellRequest \<Rightarrow> 'm \<Rightarrow> (string + SellResponse) \<times> 'm"
  call_learn :: "LearnRequest \<Rightarrow> 'm \<Rightarrow> (string + bool) \<times> 'm"
  call_enchant :: "EnchantRequest \<Rightarrow> 'm \<Rightarrow> (string + bool) \<times> 'm"
  call_forcecore :: "ForceCoreEnchantRequest \<Rightarrow> 'm \<Rightarrow> (string + bool) \<times> 'm"
  call_attach :: "AttachRequest \<Rightarrow> 'm \<Rightarrow> (string + bool) \<times> 'm"
  call_storage :: "StorageMoveRequest \<Rightarrow> 'm \<Rightarrow> (string + bool) \<times> 'm"
  call_trade :: "TradeRequest \<Rightarrow> 'm \<Rightarrow> (string + TradeResponse) \<times> 'm"
  call_experience :: "ExperienceReq \<Rightarrow> 'm \<Rightarrow> (string + bool) \<times> 'm"
  call_skill_experience :: "SkillExperienceReq \<Rightarrow> 'm \<Rightarrow> (string + bool) \<times> 'm"
  call_vitals :: "VitalsRequest \<Rightarrow> 'm \<Rightarrow> (string + bool) \<times> 'm"
  call_stat :: "StatRequest \<Rightarrow> 'm \<Rightarrow> (string + StatResponse) \<times> 'm"
  call_distribution :: "StatDistributionRequest \<Rightarrow> 'm \<Rightarrow> (string + StatResponse) \<times> 'm"
  call_position :: "PositionReq \<Rightarrow> 'm \<Rightarrow> (string + bool) \<times> 'm"

section \<open>Serialisation\<close>

text \<open>\<open>binary.Write(buf, LittleEndian, item)\<close> writes the fields in order, eighteen bytes.\<close>

definition item_bytes :: "Item \<Rightarrow> byte list" where
  "item_bytes it = le_bytes 4 (Kind it) @ le_bytes 4 (Serials it) @ le_bytes 4 (Option it) @
     le_bytes 2 (Slot it) @ le_bytes 4 (Expire it)"

lemma length_item_bytes [simp]: "length (item_bytes it) = 18"
  by (simp add: item_bytes_def)

text \<open>Reading the fields back, as the client does.\<close>

definition item_of_bytes :: "byte list \<Rightarrow> Item" where
  "item_of_bytes bs = \<lparr>Kind = le_word (take 4 bs), Serials = le_word (take 4 (drop 4 bs)),
     Option = le_word (take 4 (drop 8 bs)), Slot = le_word (take 2 (drop 12 bs)),
     Expire = le_word (take 4 (drop 14 bs))\<rparr>"

lemma item_round_trip [simp]: "item_of_bytes (item_bytes it @ rest) = it"
  by (cases it) (simp add: item_of_bytes_def item_bytes_def le_round_trip)

fun items_of_bytes :: "nat \<Rightarrow> byte list \<Rightarrow> Item list" where
  "items_of_bytes 0 bs = []"
| "items_of_bytes (Suc n) bs = item_of_bytes bs # items_of_bytes n (drop 18 bs)"

lemma items_round_trip: "items_of_bytes (length its) (concat (map item_bytes its)) = its"
  by (induction its) simp_all

end
