(* ===== verification/Freya_Inventory.thy ===== *)
theory Freya_Inventory
  imports Freya_Items
begin

text \<open>
  The in-memory inventory of a character (\<open>share/models/inventory/inventory.go\<close>). Every operation
  first persists its effect through the RPC client and then changes the map. The locale
  \<open>item_master\<close> states what it relies on of the remote side; under it, every operation keeps the map
  equal to the persisted rows of the character.
\<close>

section \<open>State\<close>

text \<open>
  \<open>Inv\<close> is never nil after \<open>Init\<close>; the nil check of \<open>SetLocal\<close> is the same as starting from an empty
  map. The mutex makes each operation atomic with respect to the others.
\<close>

record 'm Inventory =
  Inv :: "int \<rightharpoonup> Item"
  rpcHandler :: "'m Client option"
  character :: int32
  serverId :: byte

definition Inventory_Init :: "'m Inventory \<Rightarrow> 'm Inventory" where
  "Inventory_Init e = e\<lparr>Inv := Map.empty\<rparr>"

definition Inventory_Setup :: "'m Client option \<Rightarrow> int32 \<Rightarrow> byte \<Rightarrow> 'm Inventory \<Rightarrow> 'm Inventory" where
  "Inventory_Setup rpc i server e = e\<lparr>rpcHandler := rpc, character := i, serverId := server\<rparr>"

text \<open>An operation returns \<open>(bool, error)\<close>, the inventory and the remote state.\<close>

type_synonym 'm inv_result = "(bool \<times> err) \<times> 'm Inventory \<times> 'm"

abbreviation not_ready :: string where
  "not_ready \<equiv> ''rpc handler is not ready''"

definition sync :: "string \<Rightarrow> Item \<Rightarrow> Item option \<Rightarrow> 'm Inventory \<Rightarrow> 'm \<Rightarrow> (bool \<times> err) \<times> 'm" where
  "sync cmd old new e m =
     (if character e = 0 \<and> serverId e = 0 then ((True, nil), m)
      else case rpcHandler e of
        None \<Rightarrow> ((False, errors_New not_ready), m)
      | Some rpc \<Rightarrow>
          let req = \<lparr>iServer = serverId e, iId = character e, iCommand = cmd, iItem = old, iNewItem = new\<rparr> in
          (case call_item rpc cmd req m of
             (Inl err, m) \<Rightarrow> ((False, errors_New err), m)
           | (Inr res, m) \<Rightarrow> ((iResult res, nil), m)))"

abbreviation key :: "uint16 \<Rightarrow> int" where
  "key s \<equiv> uint s"

section \<open>Operations (inventory.go)\<close>

definition Inventory_Set :: "uint16 \<Rightarrow> Item \<Rightarrow> 'm Inventory \<Rightarrow> 'm \<Rightarrow> 'm inv_result" where
  "Inventory_Set slot item e m =
     (let ((ok, err), m) = sync ''AddItem'' item None e m in
      ((ok, err), (if err = nil \<and> ok then e\<lparr>Inv := (Inv e)(key slot \<mapsto> item)\<rparr> else e), m))"

definition Purchase :: "Item \<Rightarrow> uint64 \<Rightarrow> 'm Inventory \<Rightarrow> 'm \<Rightarrow> (bool \<times> uint64 \<times> err) \<times> 'm Inventory \<times> 'm" where
  "Purchase item price e m =
     (if Inv e (key (Slot item)) \<noteq> None
      then ((False, 0, errors_New ''inventory slot is already occupied''), e, m)
      else case rpcHandler e of
        None \<Rightarrow> ((False, 0, errors_New not_ready), e, m)
      | Some rpc \<Rightarrow>
          let req = \<lparr>pServer = serverId e, pCharacter = character e, pItem = item, pPrice = price\<rparr> in
          (case call_purchase rpc req m of
             (Inl err, m) \<Rightarrow> ((False, 0, errors_New err), e, m)
           | (Inr res, m) \<Rightarrow>
               if \<not> pResult res then ((False, pAlz res, nil), e, m)
               else ((True, pAlz res, nil), e\<lparr>Inv := (Inv e)(key (Slot item) \<mapsto> item)\<rparr>, m)))"

text \<open>The loop of \<open>Sell\<close> over the items, with the slots seen so far.\<close>

primrec sell_check :: "(int \<rightharpoonup> Item) \<Rightarrow> uint16 set \<Rightarrow> Item list \<Rightarrow> err" where
  "sell_check im seenSlots [] = nil"
| "sell_check im seenSlots (item # items) =
     (if im (key (Slot item)) \<noteq> Some item then errors_New ''inventory item changed before selling''
      else if Slot item \<in> seenSlots then errors_New ''inventory slot is listed more than once''
      else sell_check im (insert (Slot item) seenSlots) items)"

definition delete_items :: "Item list \<Rightarrow> (int \<rightharpoonup> Item) \<Rightarrow> (int \<rightharpoonup> Item)" where
  "delete_items items im = fold (\<lambda>item im. im(key (Slot item) := None)) items im"

definition Sell :: "Item list \<Rightarrow> uint64 \<Rightarrow> 'm Inventory \<Rightarrow> 'm \<Rightarrow> (bool \<times> uint64 \<times> err) \<times> 'm Inventory \<times> 'm" where
  "Sell items price e m =
     (if items = [] \<or> price = 0 then ((False, 0, nil), e, m)
      else case rpcHandler e of
        None \<Rightarrow> ((False, 0, errors_New not_ready), e, m)
      | Some rpc \<Rightarrow>
          (case sell_check (Inv e) {} items of
             Some err \<Rightarrow> ((False, 0, errors_New err), e, m)
           | None \<Rightarrow>
               let req = \<lparr>sServer = serverId e, sCharacter = character e, sItems = items, sPrice = price\<rparr> in
               (case call_sell rpc req m of
                  (Inl err, m) \<Rightarrow> ((False, 0, errors_New err), e, m)
                | (Inr res, m) \<Rightarrow>
                    if \<not> sResult res then ((False, sAlz res, nil), e, m)
                    else ((True, sAlz res, nil), e\<lparr>Inv := delete_items items (Inv e)\<rparr>, m))))"

definition ConsumeSkillBook :: "uint16 \<Rightarrow> uint32 \<Rightarrow> Skill \<Rightarrow> 'm Inventory \<Rightarrow> 'm \<Rightarrow> 'm inv_result" where
  "ConsumeSkillBook slot itemID skill e m =
     (if (case Inv e (key slot) of None \<Rightarrow> True | Some item \<Rightarrow> Kind item \<noteq> itemID)
      then ((False, errors_New ''skill book does not exist in the inventory slot''), e, m)
      else case rpcHandler e of
        None \<Rightarrow> ((False, errors_New not_ready), e, m)
      | Some rpc \<Rightarrow>
          let req = \<lparr>lServer = serverId e, lCharacter = character e, lInventorySlot = slot, lItemID = itemID,
                     lSkill = skill\<rparr> in
          (case call_learn rpc req m of
             (Inl err, m) \<Rightarrow> ((False, errors_New err), e, m)
           | (Inr res, m) \<Rightarrow>
               if \<not> res then ((False, nil), e, m)
               else ((True, nil), e\<lparr>Inv := (Inv e)(key slot := None)\<rparr>, m)))"

definition ConsumeOne :: "uint16 \<Rightarrow> 'm Inventory \<Rightarrow> 'm \<Rightarrow> (Item \<times> bool \<times> err) \<times> 'm Inventory \<times> 'm" where
  "ConsumeOne slot e m =
     (case Inv e (key slot) of
        None \<Rightarrow> ((zero_Item, False, errors_New ''stackable item does not exist in the inventory slot''), e, m)
      | Some item \<Rightarrow>
          if Kind item = 0 \<or> sint (Option item) \<le> 0
          then ((zero_Item, False, errors_New ''stackable item does not exist in the inventory slot''), e, m)
          else if rpcHandler e = None then ((zero_Item, False, errors_New not_ready), e, m)
          else
            let updated = item\<lparr>Option := Option item - 1\<rparr>;
                ((ok, err), m) = sync ''ConsumeItem'' item (Some updated) e m in
            if err \<noteq> nil \<or> \<not> ok then ((zero_Item, False, err), e, m)
            else ((updated, True, nil),
                  e\<lparr>Inv := (if Option updated = 0 then (Inv e)(key slot := None) else (Inv e)(key slot \<mapsto> updated))\<rparr>,
                  m))"

definition Inventory_Get :: "uint16 \<Rightarrow> 'm Inventory \<Rightarrow> Item" where
  "Inventory_Get slot e = (case Inv e (key slot) of Some value \<Rightarrow> value | None \<Rightarrow> zero_Item)"

definition Stack :: "uint16 \<Rightarrow> int32 \<Rightarrow> 'm Inventory \<Rightarrow> 'm \<Rightarrow> 'm inv_result" where
  "Stack slot amount e m =
     (let item = (Inventory_Get slot e)\<lparr>Option := amount\<rparr>;
          ((ok, err), m) = sync ''StackItem'' item None e m in
      ((ok, err), (if err = nil then e\<lparr>Inv := ((Inv e)(key slot := None))(key slot \<mapsto> item)\<rparr> else e), m))"

definition SetLocal :: "Item \<Rightarrow> 'm Inventory \<Rightarrow> 'm Inventory" where
  "SetLocal item e = e\<lparr>Inv := (Inv e)(key (Slot item) \<mapsto> item)\<rparr>"

definition RemoveLocal :: "uint16 \<Rightarrow> 'm Inventory \<Rightarrow> 'm Inventory" where
  "RemoveLocal slot e = e\<lparr>Inv := (Inv e)(key slot := None)\<rparr>"

definition Inventory_Remove :: "uint16 \<Rightarrow> 'm Inventory \<Rightarrow> 'm \<Rightarrow> 'm inv_result" where
  "Inventory_Remove slot e m =
     (case Inv e (key slot) of
        None \<Rightarrow> ((False, errors_New ''such item does not exist in the inventory''), e, m)
      | Some item \<Rightarrow>
          let ((ok, err), m) = sync ''RemoveItem'' item None e m in
          ((ok, err), (if err = nil then e\<lparr>Inv := (Inv e)(key slot := None)\<rparr> else e), m))"

text \<open>The loop of \<open>Enchant\<close> that collects the cores.\<close>

primrec collect_cores :: "(int \<rightharpoonup> Item) \<Rightarrow> uint16 \<Rightarrow> uint16 set \<Rightarrow> uint16 list \<Rightarrow> string + Item list" where
  "collect_cores im targetSlot seen [] = Inr []"
| "collect_cores im targetSlot seen (slot # slots) =
     (if slot = targetSlot then Inl ''target item cannot also be a core''
      else if slot \<in> seen then Inl ''enchant core slot is listed more than once''
      else case im (key slot) of
        None \<Rightarrow> Inl ''enchant core does not exist in the inventory''
      | Some core \<Rightarrow>
          if Kind core = 0 then Inl ''enchant core does not exist in the inventory''
          else map_sum id (Cons core) (collect_cores im targetSlot (insert slot seen) slots))"

definition Enchant :: "uint16 \<Rightarrow> uint32 \<Rightarrow> uint16 list \<Rightarrow> 'm Inventory \<Rightarrow> 'm \<Rightarrow> 'm inv_result" where
  "Enchant targetSlot newKind coreSlots e m =
     (case Inv e (key targetSlot) of
        None \<Rightarrow> ((False, errors_New ''target item does not exist in the inventory''), e, m)
      | Some target \<Rightarrow>
          if Kind target = 0 then ((False, errors_New ''target item does not exist in the inventory''), e, m)
          else if newKind = 0 \<or> coreSlots = [] then ((False, errors_New ''invalid enchant request''), e, m)
          else case rpcHandler e of
            None \<Rightarrow> ((False, errors_New not_ready), e, m)
          | Some rpc \<Rightarrow>
              (case collect_cores (Inv e) targetSlot {} coreSlots of
                 Inl err \<Rightarrow> ((False, errors_New err), e, m)
               | Inr cores \<Rightarrow>
                   let req = \<lparr>eServer = serverId e, eCharacter = character e, eTarget = target, eNewKind = newKind,
                              eCores = cores\<rparr> in
                   (case call_enchant rpc req m of
                      (Inl err, m) \<Rightarrow> ((False, errors_New err), e, m)
                    | (Inr res, m) \<Rightarrow>
                        if \<not> res then ((False, nil), e, m)
                        else ((True, nil),
                          e\<lparr>Inv := delete_items cores ((Inv e)(key targetSlot \<mapsto> target\<lparr>Kind := newKind\<rparr>))\<rparr>, m))))"

text \<open>The checks of \<open>ForceCoreEnchant\<close> on the submitted materials.\<close>

primrec check_materials :: "(int \<rightharpoonup> Item) \<Rightarrow> uint16 set \<Rightarrow> Item list \<Rightarrow> err" where
  "check_materials im seen [] = nil"
| "check_materials im seen (material # ms) =
     (if Kind material = 0 then errors_New ''force-core material does not exist''
      else if Slot material \<in> seen then errors_New ''force-core material slot is duplicated''
      else if im (key (Slot material)) \<noteq> Some material
      then errors_New ''force-core material changed before enchanting''
      else check_materials im (insert (Slot material) seen) ms)"

text \<open>What happens to one material once the transaction is through.\<close>

definition spend_material :: "uint16 set \<Rightarrow> Item \<Rightarrow> (int \<rightharpoonup> Item) \<Rightarrow> (int \<rightharpoonup> Item)" where
  "spend_material coreSlots material im =
     (if Slot material \<in> coreSlots then im(key (Slot material) := None)
      else if sint (Option material) \<le> 0 then im(key (Slot material) := None)
      else let material = material\<lparr>Option := Option material - 1\<rparr> in
           if Option material = 0 then im(key (Slot material) := None)
           else im(key (Slot material) \<mapsto> material))"

abbreviation opt_list :: "'a option \<Rightarrow> 'a list" where
  "opt_list x \<equiv> (case x of None \<Rightarrow> [] | Some a \<Rightarrow> [a])"

definition ForceCoreEnchant ::
    "Item \<Rightarrow> Item \<Rightarrow> Item option \<Rightarrow> Item option \<Rightarrow> Item list \<Rightarrow> 'm Inventory \<Rightarrow> 'm \<Rightarrow> 'm inv_result" where
  "ForceCoreEnchant target newTarget randomScroll specificScroll cores e m =
     (if Inv e (key (Slot target)) \<noteq> Some target \<or> Kind newTarget = 0 \<or> Slot newTarget \<noteq> Slot target \<or>
         Serials newTarget \<noteq> Serials target \<or> Expire newTarget \<noteq> Expire target \<or> cores = []
      then ((False, errors_New ''invalid force-core enchant target''), e, m)
      else case rpcHandler e of
        None \<Rightarrow> ((False, errors_New not_ready), e, m)
      | Some rpc \<Rightarrow>
          let request = \<lparr>fServer = serverId e, fCharacter = character e, fTarget = target, fNewTarget = newTarget,
                RandomScroll = randomScroll, SpecificScroll = specificScroll, fCores = cores\<rparr>;
              coreSlots = Slot ` set cores;
              materials = opt_list randomScroll @ opt_list specificScroll @ cores
          in (case check_materials (Inv e) {Slot target} materials of
                Some err \<Rightarrow> ((False, errors_New err), e, m)
              | None \<Rightarrow>
                  (case call_forcecore rpc request m of
                     (Inl err, m) \<Rightarrow> ((False, errors_New err), e, m)
                   | (Inr res, m) \<Rightarrow>
                       if \<not> res then ((False, nil), e, m)
                       else ((True, nil),
                         e\<lparr>Inv := fold (spend_material coreSlots) materials ((Inv e)(key (Slot target) \<mapsto> newTarget))\<rparr>,
                         m))))"

definition attachLocked :: "uint16 \<Rightarrow> uint16 \<Rightarrow> Item \<Rightarrow> 'm Inventory \<Rightarrow> 'm \<Rightarrow> 'm inv_result" where
  "attachLocked sourceSlot targetSlot newTarget e m =
     (if sourceSlot = targetSlot then ((False, errors_New ''source and target inventory slots must differ''), e, m)
      else if Kind newTarget = 0 \<or> Slot newTarget \<noteq> targetSlot
      then ((False, errors_New ''invalid attached target item''), e, m)
      else case Inv e (key sourceSlot) of
        None \<Rightarrow> ((False, errors_New ''source item does not exist in the inventory''), e, m)
      | Some source \<Rightarrow>
          if Kind source = 0 then ((False, errors_New ''source item does not exist in the inventory''), e, m)
          else case Inv e (key targetSlot) of
            None \<Rightarrow> ((False, errors_New ''target item does not exist in the inventory''), e, m)
          | Some target \<Rightarrow>
              if Kind target = 0 then ((False, errors_New ''target item does not exist in the inventory''), e, m)
              else if Serials newTarget \<noteq> Serials target \<or> Expire newTarget \<noteq> Expire target
              then ((False, errors_New ''attached target identity cannot be changed''), e, m)
              else case rpcHandler e of
                None \<Rightarrow> ((False, errors_New not_ready), e, m)
              | Some rpc \<Rightarrow>
                  let req = \<lparr>aServer = serverId e, aCharacter = character e, aSource = source, aTarget = target,
                             aNewKind = Kind newTarget, aNewTarget = Some newTarget\<rparr> in
                  (case call_attach rpc req m of
                     (Inl err, m) \<Rightarrow> ((False, errors_New err), e, m)
                   | (Inr res, m) \<Rightarrow>
                       if \<not> res then ((False, nil), e, m)
                       else ((True, nil),
                         e\<lparr>Inv := ((Inv e)(key sourceSlot := None))(key targetSlot \<mapsto> newTarget)\<rparr>, m)))"

definition Attach :: "uint16 \<Rightarrow> uint16 \<Rightarrow> uint32 \<Rightarrow> 'm Inventory \<Rightarrow> 'm \<Rightarrow> 'm inv_result" where
  "Attach sourceSlot targetSlot newKind e m =
     (case Inv e (key targetSlot) of
        None \<Rightarrow> ((False, errors_New ''target item does not exist in the inventory''), e, m)
      | Some target \<Rightarrow> attachLocked sourceSlot targetSlot (target\<lparr>Kind := newKind\<rparr>) e m)"

definition AttachWithTarget :: "uint16 \<Rightarrow> uint16 \<Rightarrow> Item \<Rightarrow> 'm Inventory \<Rightarrow> 'm \<Rightarrow> 'm inv_result" where
  "AttachWithTarget sourceSlot targetSlot target e m = attachLocked sourceSlot targetSlot target e m"

definition Inventory_Swap :: "uint16 \<Rightarrow> uint16 \<Rightarrow> 'm Inventory \<Rightarrow> 'm \<Rightarrow> 'm inv_result" where
  "Inventory_Swap old new e m =
     (case Inv e (key old) of
        None \<Rightarrow> ((False, errors_New ''such item does not exist in the inventory''), e, m)
      | Some oldItem \<Rightarrow>
          (case Inv e (key new) of
             None \<Rightarrow> ((False, errors_New ''such item does not exist in the inventory''), e, m)
           | Some newItem \<Rightarrow>
               let oldItem = oldItem\<lparr>Slot := new\<rparr>;
                   newItem = newItem\<lparr>Slot := old\<rparr>;
                   ((ok, err), m) = sync ''SwapItem'' oldItem (Some newItem) e m in
               ((ok, err),
                (if err = nil
                 then e\<lparr>Inv := ((((Inv e)(key old := None))(key new := None))(key (Slot oldItem) \<mapsto> oldItem))
                        (key (Slot newItem) \<mapsto> newItem)\<rparr>
                 else e), m)))"

definition Move :: "uint16 \<Rightarrow> uint16 \<Rightarrow> 'm Inventory \<Rightarrow> 'm \<Rightarrow> 'm inv_result" where
  "Move old new e m =
     (case Inv e (key old) of
        None \<Rightarrow> ((False, errors_New ''such item does not exist in the inventory''), e, m)
      | Some oldItem \<Rightarrow>
          if Inv e (key new) \<noteq> None then ((True, errors_New ''such item already exists in the inventory''), e, m)
          else
            let newItem = oldItem\<lparr>Slot := new\<rparr>;
                ((ok, err), m) = sync ''MoveItem'' oldItem (Some newItem) e m in
            ((ok, err),
             (if err = nil then e\<lparr>Inv := ((Inv e)(key old := None))(key (Slot newItem) \<mapsto> newItem)\<rparr> else e), m))"

text \<open>
  \<open>Serialize\<close> collects the keys in the order the map yields them (\<open>ks\<close>), sorts them and writes every
  item with a kind.
\<close>

definition Inventory_Serialize :: "int list \<Rightarrow> 'm Inventory \<Rightarrow> byte list \<times> nat" where
  "Inventory_Serialize ks e =
     (let keys = sort ks in
      foldl (\<lambda>(equip, len) value.
          case Inv e value of
            Some it \<Rightarrow> if Kind it > 0 then (equip @ item_bytes it, len + 1) else (equip, len)
          | None \<Rightarrow> (equip, len))
        ([], 0) keys)"

section \<open>Sequences of operations\<close>

text \<open>The operations a client can trigger, as the packet handlers call them.\<close>

datatype inv_op =
    OpSet Item | OpPurchase Item uint64 | OpSell "Item list" uint64 | OpLearn uint16 uint32 Skill
  | OpConsume uint16 | OpRemove uint16 | OpEnchant uint16 uint32 "uint16 list" | OpAttach uint16 uint16 uint32
  | OpAttachWith uint16 uint16 Item | OpSwap uint16 uint16 | OpMove uint16 uint16

fun run_op :: "inv_op \<Rightarrow> 'm Inventory \<times> 'm \<Rightarrow> 'm Inventory \<times> 'm" where
  "run_op (OpSet it) (e, m) = snd (Inventory_Set (Slot it) it e m)"
| "run_op (OpPurchase it p) (e, m) = snd (Purchase it p e m)"
| "run_op (OpSell its p) (e, m) = snd (Sell its p e m)"
| "run_op (OpLearn s i sk) (e, m) = snd (ConsumeSkillBook s i sk e m)"
| "run_op (OpConsume s) (e, m) = snd (ConsumeOne s e m)"
| "run_op (OpRemove s) (e, m) = snd (Inventory_Remove s e m)"
| "run_op (OpEnchant t k cs) (e, m) = snd (Enchant t k cs e m)"
| "run_op (OpAttach s t k) (e, m) = snd (Attach s t k e m)"
| "run_op (OpAttachWith s t it) (e, m) = snd (AttachWithTarget s t it e m)"
| "run_op (OpSwap a b) (e, m) = snd (Inventory_Swap a b e m)"
| "run_op (OpMove a b) (e, m) = snd (Move a b e m)"

section \<open>What the inventory relies on of the master server\<close>

definition accepted :: "('r \<Rightarrow> bool) \<Rightarrow> string + 'r \<Rightarrow> bool" where
  "accepted f res = (case res of Inr r \<Rightarrow> f r | Inl _ \<Rightarrow> False)"

lemma accepted_simps [simp]: "accepted f (Inr r) = f r" "\<not> accepted f (Inl e)"
  by (simp_all add: accepted_def)

text \<open>
  \<open>rows m c\<close> are the persisted items of character \<open>c\<close> by slot. A call that is accepted changes the rows
  of its character in the one described way; any other outcome leaves them alone.
\<close>

locale item_master =
  fixes rpc :: "'m Client"
    and rows :: "'m \<Rightarrow> int32 \<Rightarrow> uint16 \<rightharpoonup> Item"
  assumes rows_Slot: "rows m c s = Some it \<Longrightarrow> Slot it = s"
    and answers: "cmd \<in> {''RemoveItem'', ''SwapItem'', ''MoveItem''} \<Longrightarrow>
      call_item rpc cmd r m = (Inr p, m') \<Longrightarrow> iResult p"
    and add: "call_item rpc ''AddItem'' r m = (res, m') \<Longrightarrow> rows m' (iId r) =
      (if accepted iResult res then (rows m (iId r))(Slot (iItem r) \<mapsto> iItem r) else rows m (iId r))"
    and remove: "call_item rpc ''RemoveItem'' r m = (res, m') \<Longrightarrow> rows m' (iId r) =
      (if accepted iResult res then (rows m (iId r))(Slot (iItem r) := None) else rows m (iId r))"
    and move: "call_item rpc ''MoveItem'' r m = (res, m') \<Longrightarrow> iNewItem r = Some new \<Longrightarrow>
      rows m (iId r) (Slot (iItem r)) = Some it \<Longrightarrow> Slot new \<noteq> Slot (iItem r) \<Longrightarrow> rows m' (iId r) =
      (if accepted iResult res
       then (rows m (iId r))(Slot (iItem r) := None, Slot new \<mapsto> it\<lparr>Slot := Slot new\<rparr>) else rows m (iId r))"
    and swap: "call_item rpc ''SwapItem'' r m = (res, m') \<Longrightarrow> iNewItem r = Some new \<Longrightarrow>
      rows m (iId r) (Slot new) = Some a \<Longrightarrow> rows m (iId r) (Slot (iItem r)) = Some b \<Longrightarrow> rows m' (iId r) =
      (if accepted iResult res
       then (rows m (iId r))(Slot new \<mapsto> b\<lparr>Slot := Slot new\<rparr>, Slot (iItem r) \<mapsto> a\<lparr>Slot := Slot (iItem r)\<rparr>)
       else rows m (iId r))"
    and consume: "call_item rpc ''ConsumeItem'' r m = (res, m') \<Longrightarrow> iNewItem r = Some new \<Longrightarrow> rows m' (iId r) =
      (if accepted iResult res
       then (rows m (iId r))(Slot (iItem r) := if Option new = 0 then None else Some ((iItem r)\<lparr>Option := Option new\<rparr>))
       else rows m (iId r))"
    and purchase: "call_purchase rpc pq m = (pres, m') \<Longrightarrow> rows m' (pCharacter pq) =
      (if accepted pResult pres then (rows m (pCharacter pq))(Slot (pItem pq) \<mapsto> pItem pq) else rows m (pCharacter pq))"
    and sell: "call_sell rpc sq m = (sres, m') \<Longrightarrow> rows m' (sCharacter sq) =
      (if accepted sResult sres then rows m (sCharacter sq) |` (- Slot ` set (sItems sq)) else rows m (sCharacter sq))"
    and learn: "call_learn rpc lq m = (bres, m') \<Longrightarrow> rows m' (lCharacter lq) =
      (if accepted id bres then (rows m (lCharacter lq))(lInventorySlot lq := None) else rows m (lCharacter lq))"
    and enchant: "call_enchant rpc eq m = (bres, m') \<Longrightarrow> rows m' (eCharacter eq) =
      (if accepted id bres
       then ((rows m (eCharacter eq))(Slot (eTarget eq) \<mapsto> (eTarget eq)\<lparr>Kind := eNewKind eq\<rparr>)) |` (- Slot ` set (eCores eq))
       else rows m (eCharacter eq))"
    and attach: "call_attach rpc aq m = (bres, m') \<Longrightarrow> aNewTarget aq = Some t \<Longrightarrow> rows m' (aCharacter aq) =
      (if accepted id bres then (rows m (aCharacter aq))(Slot (aSource aq) := None, Slot (aTarget aq) \<mapsto> t)
       else rows m (aCharacter aq))"

text \<open>Memory and database agree, and the session of the character is set up.\<close>

definition coherent :: "'m Client \<Rightarrow> ('m \<Rightarrow> int32 \<Rightarrow> uint16 \<rightharpoonup> Item) \<Rightarrow> 'm Inventory \<Rightarrow> 'm \<Rightarrow> bool" where
  "coherent rpc rows e m \<longleftrightarrow> rpcHandler e = Some rpc \<and> \<not> (character e = 0 \<and> serverId e = 0) \<and>
     (\<forall>s. Inv e (key s) = rows m (character e) s)"

lemma key_inject [simp]: "key s = key t \<longleftrightarrow> s = t"
  by (simp add: word_uint_eq_iff)

lemma delete_items_apply [simp]:
  "delete_items items im (key s) = (if s \<in> Slot ` set items then None else im (key s))"
  unfolding delete_items_def by (induction items arbitrary: im) auto

lemma coherent_update:
  "coherent rpc rows e m \<Longrightarrow> (\<And>s. im (key s) = rows m' (character e) s) \<Longrightarrow> coherent rpc rows (e\<lparr>Inv := im\<rparr>) m'"
  by (simp add: coherent_def)

lemma coherent_same:
  "coherent rpc rows e m \<Longrightarrow> rows m' (character e) = rows m (character e) \<Longrightarrow> coherent rpc rows e m'"
  by (simp add: coherent_def)

lemma coherent_Inv: "coherent rpc rows e m \<Longrightarrow> Inv e (key s) = rows m (character e) s"
  by (simp add: coherent_def)

lemma coherent_rpc: "coherent rpc rows e m \<Longrightarrow> rpcHandler e = Some rpc"
  by (simp add: coherent_def)

lemma result_cases: "(\<And>r e m. x = (r, e, m) \<Longrightarrow> P e m) \<Longrightarrow> P (fst (snd x)) (snd (snd x))"
  by (cases x) auto

context item_master
begin

lemma sync_call:
  assumes "coherent rpc rows e m" "sync cmd old new e m = ((ok, er), m')"
  obtains res where "call_item rpc cmd \<lparr>iServer = serverId e, iId = character e, iCommand = cmd, iItem = old, iNewItem = new\<rparr> m
      = (res, m')" "ok \<and> er = nil \<longleftrightarrow> accepted iResult res" "er = nil \<longleftrightarrow> (\<exists>p. res = Inr p)"
  using assms by (auto simp: coherent_def sync_def Let_def split: prod.splits sum.splits)

text \<open>The commands the server never answers with a mere refusal.\<close>

lemma sync_answers:
  assumes "coherent rpc rows e m" "sync cmd old new e m = ((ok, er), m')"
    and "cmd \<in> {''RemoveItem'', ''SwapItem'', ''MoveItem''}"
  obtains res where "call_item rpc cmd \<lparr>iServer = serverId e, iId = character e, iCommand = cmd, iItem = old, iNewItem = new\<rparr> m
      = (res, m')" "er = nil \<longleftrightarrow> accepted iResult res"
proof -
  from sync_call [OF assms(1,2)] obtain res where
    c: "call_item rpc cmd \<lparr>iServer = serverId e, iId = character e, iCommand = cmd, iItem = old, iNewItem = new\<rparr> m = (res, m')"
    and "ok \<and> er = nil \<longleftrightarrow> accepted iResult res" and nil: "er = nil \<longleftrightarrow> (\<exists>p. res = Inr p)" .
  have "er = nil \<longleftrightarrow> accepted iResult res"
  proof (cases res)
    case (Inl e)
    with nil show ?thesis by simp
  next
    case (Inr p)
    with nil answers [OF assms(3) c [unfolded Inr]] show ?thesis by simp
  qed
  with c that show ?thesis by blast
qed

lemma Set_coherent:
  assumes "coherent rpc rows e m" "Slot item = slot" "Inventory_Set slot item e m = (r, e', m')"
  shows "coherent rpc rows e' m'"
proof -
  obtain ok er where s: "sync ''AddItem'' item None e m = ((ok, er), m')"
    and e': "e' = (if er = nil \<and> ok then e\<lparr>Inv := (Inv e)(key slot \<mapsto> item)\<rparr> else e)"
    using assms(3) by (auto simp: Inventory_Set_def split: prod.splits)
  from sync_call [OF assms(1) s] obtain res where "call_item rpc ''AddItem''
      \<lparr>iServer = serverId e, iId = character e, iCommand = ''AddItem'', iItem = item, iNewItem = None\<rparr> m = (res, m')"
    and res: "ok \<and> er = nil \<longleftrightarrow> accepted iResult res" .
  from add [OF this(1)] assms(2) res e' show ?thesis
    by (auto intro!: coherent_update [OF assms(1)] coherent_same [OF assms(1)] simp: coherent_Inv [OF assms(1)])
qed

lemma Remove_coherent:
  assumes "coherent rpc rows e m" "Inventory_Remove slot e m = (r, e', m')"
  shows "coherent rpc rows e' m'"
proof (cases "Inv e (key slot)")
  case None
  with assms show ?thesis by (simp add: Inventory_Remove_def)
next
  case (Some item)
  with assms(1) rows_Slot have slot: "Slot item = slot" by (metis coherent_Inv)
  obtain ok er where s: "sync ''RemoveItem'' item None e m = ((ok, er), m')"
    and e': "e' = (if er = nil then e\<lparr>Inv := (Inv e)(key slot := None)\<rparr> else e)"
    using assms(2) Some by (auto simp: Inventory_Remove_def split: prod.splits)
  from sync_answers [OF assms(1) s] obtain res where c: "call_item rpc ''RemoveItem''
      \<lparr>iServer = serverId e, iId = character e, iCommand = ''RemoveItem'', iItem = item, iNewItem = None\<rparr> m = (res, m')"
    and res: "er = nil \<longleftrightarrow> accepted iResult res" by blast
  from remove [OF c] res slot e' show ?thesis
    by (auto intro!: coherent_update [OF assms(1)] coherent_same [OF assms(1)] simp: coherent_Inv [OF assms(1)])
qed

lemma Move_coherent:
  assumes "coherent rpc rows e m" "Move old new e m = (r, e', m')"
  shows "coherent rpc rows e' m'"
proof (cases "Inv e (key old) = None \<or> Inv e (key new) \<noteq> None")
  case True
  with assms show ?thesis by (auto simp: Move_def split: option.splits)
next
  case False
  then obtain item where item: "Inv e (key old) = Some item" and free: "Inv e (key new) = None" by auto
  with assms(1) rows_Slot have slot: "Slot item = old" by (metis coherent_Inv)
  have ne: "new \<noteq> old" using item free by auto
  obtain ok er where s: "sync ''MoveItem'' item (Some (item\<lparr>Slot := new\<rparr>)) e m = ((ok, er), m')"
    and e': "e' = (if er = nil then e\<lparr>Inv := ((Inv e)(key old := None))(key new \<mapsto> item\<lparr>Slot := new\<rparr>)\<rparr> else e)"
    using assms(2) item free by (auto simp: Move_def Let_def split: prod.splits)
  from sync_answers [OF assms(1) s] obtain res where c: "call_item rpc ''MoveItem''
      \<lparr>iServer = serverId e, iId = character e, iCommand = ''MoveItem'', iItem = item,
       iNewItem = Some (item\<lparr>Slot := new\<rparr>)\<rparr> m = (res, m')"
    and res: "er = nil \<longleftrightarrow> accepted iResult res" by blast
  have "rows m (character e) (Slot item) = Some item" using item slot coherent_Inv [OF assms(1)] by metis
  with move [OF c] res slot ne e' show ?thesis
    by (auto intro!: coherent_update [OF assms(1)] coherent_same [OF assms(1)] simp: coherent_Inv [OF assms(1)])
qed

lemma Swap_coherent:
  assumes "coherent rpc rows e m" "Inventory_Swap old new e m = (r, e', m')"
  shows "coherent rpc rows e' m'"
proof (cases "Inv e (key old) = None \<or> Inv e (key new) = None")
  case True
  with assms show ?thesis by (auto simp: Inventory_Swap_def split: option.splits)
next
  case False
  then obtain a b where a: "Inv e (key old) = Some a" and b: "Inv e (key new) = Some b" by auto
  with assms(1) rows_Slot have slots: "Slot a = old" "Slot b = new" by (metis coherent_Inv)+
  obtain ok er where s: "sync ''SwapItem'' (a\<lparr>Slot := new\<rparr>) (Some (b\<lparr>Slot := old\<rparr>)) e m = ((ok, er), m')"
    and e': "e' = (if er = nil then e\<lparr>Inv := ((((Inv e)(key old := None))(key new := None))(key new \<mapsto> a\<lparr>Slot := new\<rparr>))
                        (key old \<mapsto> b\<lparr>Slot := old\<rparr>)\<rparr> else e)"
    using assms(2) a b by (auto simp: Inventory_Swap_def Let_def split: prod.splits)
  from sync_answers [OF assms(1) s] obtain res where c: "call_item rpc ''SwapItem''
      \<lparr>iServer = serverId e, iId = character e, iCommand = ''SwapItem'', iItem = a\<lparr>Slot := new\<rparr>,
       iNewItem = Some (b\<lparr>Slot := old\<rparr>)\<rparr> m = (res, m')"
    and res: "er = nil \<longleftrightarrow> accepted iResult res" by blast
  have "rows m (character e) old = Some a" "rows m (character e) new = Some b"
    using a b coherent_Inv [OF assms(1)] by metis+
  with swap [OF c] res e' have "rows m' (character e) = (if er = nil
      then (rows m (character e))(old \<mapsto> b\<lparr>Slot := old\<rparr>, new \<mapsto> a\<lparr>Slot := new\<rparr>) else rows m (character e))"
    by simp
  moreover have "old = new \<Longrightarrow> a = b" using a b by simp
  ultimately show ?thesis using e'
    by (auto intro!: coherent_update [OF assms(1)] coherent_same [OF assms(1)] simp: coherent_Inv [OF assms(1)])
qed

lemma ConsumeOne_coherent:
  assumes "coherent rpc rows e m" "ConsumeOne slot e m = (r, e', m')"
  shows "coherent rpc rows e' m'"
proof -
  have "(e' = e \<and> m' = m) \<or> (\<exists>item. Inv e (key slot) = Some item \<and> \<not> (Kind item = 0 \<or> sint (Option item) \<le> 0))"
    using assms(2) by (auto simp: ConsumeOne_def split: option.splits if_splits)
  then show ?thesis
  proof (elim disjE exE conjE)
    fix item
    assume item: "Inv e (key slot) = Some item" "\<not> (Kind item = 0 \<or> sint (Option item) \<le> 0)"
    let ?u = "item\<lparr>Option := Option item - 1\<rparr>"
    obtain ok er m2 where s: "sync ''ConsumeItem'' item (Some ?u) e m = ((ok, er), m2)"
      by (metis prod.exhaust)
    then have e': "e' = (if er \<noteq> nil \<or> \<not> ok then e
         else e\<lparr>Inv := (if Option ?u = 0 then (Inv e)(key slot := None) else (Inv e)(key slot \<mapsto> ?u))\<rparr>)" and m': "m' = m2"
      using assms(2) item coherent_rpc [OF assms(1)] by (auto simp: ConsumeOne_def Let_def split: if_splits)
    have slot: "Slot item = slot" using item(1) assms(1) rows_Slot by (metis coherent_Inv)
    from sync_call [OF assms(1) s] obtain res where c: "call_item rpc ''ConsumeItem''
        \<lparr>iServer = serverId e, iId = character e, iCommand = ''ConsumeItem'', iItem = item, iNewItem = Some ?u\<rparr> m = (res, m2)"
      and res: "ok \<and> er = nil \<longleftrightarrow> accepted iResult res" by blast
    from consume [OF c] res slot e' m' show ?thesis
      by (auto intro!: coherent_update [OF assms(1)] coherent_same [OF assms(1)] simp: coherent_Inv [OF assms(1)])
  qed (use assms(1) in simp)
qed

lemma Purchase_coherent:
  assumes "coherent rpc rows e m" "Purchase item price e m = (r, e', m')"
  shows "coherent rpc rows e' m'"
proof (cases "Inv e (key (Slot item))")
  case Some
  with assms show ?thesis by (simp add: Purchase_def)
next
  case None
  let ?req = "\<lparr>pServer = serverId e, pCharacter = character e, pItem = item, pPrice = price\<rparr>"
  obtain res m2 where c: "call_purchase rpc ?req m = (res, m2)" by (cases "call_purchase rpc ?req m")
  with assms(2) None coherent_rpc [OF assms(1)] have "m' = m2"
    "e' = (if accepted pResult res then e\<lparr>Inv := (Inv e)(key (Slot item) \<mapsto> item)\<rparr> else e)"
    by (auto simp: Purchase_def Let_def split: sum.splits if_splits)
  with purchase [OF c] show ?thesis
    by (auto intro!: coherent_update [OF assms(1)] coherent_same [OF assms(1)] simp: coherent_Inv [OF assms(1)])
qed

lemma Sell_coherent:
  assumes "coherent rpc rows e m" "Sell items price e m = (r, e', m')"
  shows "coherent rpc rows e' m'"
proof (cases "items = [] \<or> price = 0 \<or> sell_check (Inv e) {} items \<noteq> nil")
  case True
  with assms coherent_rpc [OF assms(1)] show ?thesis by (auto simp: Sell_def split: if_splits)
next
  case False
  let ?req = "\<lparr>sServer = serverId e, sCharacter = character e, sItems = items, sPrice = price\<rparr>"
  obtain res m2 where c: "call_sell rpc ?req m = (res, m2)" by (cases "call_sell rpc ?req m")
  with assms(2) False coherent_rpc [OF assms(1)] have "m' = m2"
    "e' = (if accepted sResult res then e\<lparr>Inv := delete_items items (Inv e)\<rparr> else e)"
    by (auto simp: Sell_def Let_def split: sum.splits if_splits)
  with sell [OF c] show ?thesis
    by (auto intro!: coherent_update [OF assms(1)] coherent_same [OF assms(1)] simp: coherent_Inv [OF assms(1)] restrict_map_def)
qed

lemma ConsumeSkillBook_coherent:
  assumes "coherent rpc rows e m" "ConsumeSkillBook slot itemID skill e m = (r, e', m')"
  shows "coherent rpc rows e' m'"
proof (cases "case Inv e (key slot) of None \<Rightarrow> True | Some item \<Rightarrow> Kind item \<noteq> itemID")
  case True
  with assms show ?thesis by (simp add: ConsumeSkillBook_def)
next
  case False
  let ?req = "\<lparr>lServer = serverId e, lCharacter = character e, lInventorySlot = slot, lItemID = itemID, lSkill = skill\<rparr>"
  obtain res m2 where c: "call_learn rpc ?req m = (res, m2)" by (cases "call_learn rpc ?req m")
  with assms(2) False coherent_rpc [OF assms(1)] have "m' = m2"
    "e' = (if accepted id res then e\<lparr>Inv := (Inv e)(key slot := None)\<rparr> else e)"
    by (auto simp: ConsumeSkillBook_def Let_def split: sum.splits if_splits)
  with learn [OF c] show ?thesis
    by (auto intro!: coherent_update [OF assms(1)] coherent_same [OF assms(1)] simp: coherent_Inv [OF assms(1)])
qed

lemma Enchant_coherent:
  assumes "coherent rpc rows e m" "Enchant targetSlot newKind coreSlots e m = (r, e', m')"
  shows "coherent rpc rows e' m'"
proof -
  have slots: "Slot it = s" if "Inv e (key s) = Some it" for s it
    using that assms(1) rows_Slot by (metis coherent_Inv)
  have "(e' = e \<and> m' = m) \<or> (\<exists>target cores. Inv e (key targetSlot) = Some target \<and> Kind target \<noteq> 0 \<and> newKind \<noteq> 0 \<and> coreSlots \<noteq> [] \<and>
      collect_cores (Inv e) targetSlot {} coreSlots = Inr cores)"
    using assms(2) coherent_rpc [OF assms(1)] by (auto simp: Enchant_def split: option.splits if_splits sum.splits)
  then show ?thesis
  proof (elim disjE exE conjE)
    fix target cores
    assume t: "Inv e (key targetSlot) = Some target" "Kind target \<noteq> 0" "newKind \<noteq> 0" "coreSlots \<noteq> []"
      and cc: "collect_cores (Inv e) targetSlot {} coreSlots = Inr cores"
    let ?req = "\<lparr>eServer = serverId e, eCharacter = character e, eTarget = target, eNewKind = newKind, eCores = cores\<rparr>"
    obtain res m2 where c: "call_enchant rpc ?req m = (res, m2)" by (cases "call_enchant rpc ?req m")
    with assms(2) t cc coherent_rpc [OF assms(1)] have "m' = m2"
      "e' = (if accepted id res then e\<lparr>Inv := delete_items cores ((Inv e)(key targetSlot \<mapsto> target\<lparr>Kind := newKind\<rparr>))\<rparr> else e)"
      by (auto simp: Enchant_def Let_def split: sum.splits if_splits)
    with enchant [OF c] slots [OF t(1)] show ?thesis
      by (auto intro!: coherent_update [OF assms(1)] coherent_same [OF assms(1)]
          simp: coherent_Inv [OF assms(1)] restrict_map_def)
  qed (use assms(1) in simp)
qed

lemma attachLocked_coherent:
  assumes "coherent rpc rows e m" "attachLocked sourceSlot targetSlot newTarget e m = (r, e', m')"
  shows "coherent rpc rows e' m'"
proof -
  have slots: "Slot it = s" if "Inv e (key s) = Some it" for s it
    using that assms(1) rows_Slot by (metis coherent_Inv)
  have "(e' = e \<and> m' = m) \<or> (\<exists>source target. Inv e (key sourceSlot) = Some source \<and> Inv e (key targetSlot) = Some target \<and>
      \<not> (sourceSlot = targetSlot \<or> Kind newTarget = 0 \<or> Slot newTarget \<noteq> targetSlot \<or> Kind source = 0 \<or> Kind target = 0 \<or>
        Serials newTarget \<noteq> Serials target \<or> Expire newTarget \<noteq> Expire target))"
    using assms(2) coherent_rpc [OF assms(1)]
    by (auto simp: attachLocked_def split: option.split_asm if_split_asm)
  then show ?thesis
  proof (elim disjE exE conjE)
    fix source target
    assume t: "Inv e (key sourceSlot) = Some source" "Inv e (key targetSlot) = Some target"
      "\<not> (sourceSlot = targetSlot \<or> Kind newTarget = 0 \<or> Slot newTarget \<noteq> targetSlot \<or> Kind source = 0 \<or> Kind target = 0 \<or>
        Serials newTarget \<noteq> Serials target \<or> Expire newTarget \<noteq> Expire target)"
    let ?req = "\<lparr>aServer = serverId e, aCharacter = character e, aSource = source, aTarget = target,
                 aNewKind = Kind newTarget, aNewTarget = Some newTarget\<rparr>"
    obtain res m2 where c: "call_attach rpc ?req m = (res, m2)" by (cases "call_attach rpc ?req m")
    with assms(2) t coherent_rpc [OF assms(1)] have "m' = m2"
      "e' = (if accepted id res then e\<lparr>Inv := ((Inv e)(key sourceSlot := None))(key targetSlot \<mapsto> newTarget)\<rparr> else e)"
      by (auto simp: attachLocked_def Let_def split: sum.splits if_splits)
    with attach [OF c] slots [OF t(1)] slots [OF t(2)] t(3) show ?thesis
      by (auto intro!: coherent_update [OF assms(1)] coherent_same [OF assms(1)] simp: coherent_Inv [OF assms(1)])
  qed (use assms(1) in simp)
qed

lemma Attach_coherent:
  "coherent rpc rows e m \<Longrightarrow> Attach sourceSlot targetSlot newKind e m = (r, e', m') \<Longrightarrow> coherent rpc rows e' m'"
  by (auto simp: Attach_def dest: attachLocked_coherent split: option.splits)

lemma run_op_coherent:
  assumes "coherent rpc rows (fst em) (snd em)"
  shows "coherent rpc rows (fst (run_op p em)) (snd (run_op p em))"
proof -
  obtain e m where em: "em = (e, m)" by (cases em)
  with assms have c: "coherent rpc rows e m" by simp
  note step = result_cases [where P = "coherent rpc rows"]
  show ?thesis
  proof (cases p)
    case (OpSet it)
    then show ?thesis by (simp add: em) (rule step, erule Set_coherent [OF c refl])
  next
    case (OpPurchase it p)
    then show ?thesis by (simp add: em) (rule step, erule Purchase_coherent [OF c])
  next
    case (OpSell its p)
    then show ?thesis by (simp add: em) (rule step, erule Sell_coherent [OF c])
  next
    case (OpLearn s i sk)
    then show ?thesis by (simp add: em) (rule step, erule ConsumeSkillBook_coherent [OF c])
  next
    case (OpConsume s)
    then show ?thesis by (simp add: em) (rule step, erule ConsumeOne_coherent [OF c])
  next
    case (OpRemove s)
    then show ?thesis by (simp add: em) (rule step, erule Remove_coherent [OF c])
  next
    case (OpEnchant t k cs)
    then show ?thesis by (simp add: em) (rule step, erule Enchant_coherent [OF c])
  next
    case (OpAttach s t k)
    then show ?thesis by (simp add: em) (rule step, erule Attach_coherent [OF c])
  next
    case (OpAttachWith s t it)
    then show ?thesis by (simp add: em) (rule step, erule attachLocked_coherent [OF c, folded AttachWithTarget_def])
  next
    case (OpSwap a b)
    then show ?thesis by (simp add: em) (rule step, erule Swap_coherent [OF c])
  next
    case (OpMove a b)
    then show ?thesis by (simp add: em) (rule step, erule Move_coherent [OF c])
  qed
qed

lemma run_ops_coherent:
  "coherent rpc rows (fst em) (snd em) \<Longrightarrow> coherent rpc rows (fst (fold run_op ps em)) (snd (fold run_op ps em))"
  by (induction ps arbitrary: em) (simp_all add: run_op_coherent)

end

section \<open>Serialisation\<close>

lemma serialize_fold:
  "foldl (\<lambda>(equip, len) value.
      case Inv e value of
        Some it \<Rightarrow> if Kind it > 0 then (equip @ item_bytes it, len + 1) else (equip, len)
      | None \<Rightarrow> (equip, len)) (bs, n) keys =
   (let its = filter (\<lambda>it. Kind it > 0) (List.map_filter (Inv e) keys)
    in (bs @ concat (map item_bytes its), n + length its))"
  by (induction keys arbitrary: bs n) (auto simp: List.map_filter_def Let_def split: option.splits)

text \<open>
  C26: The serialised inventory does not depend on the order in which the map is walked, announces
  exactly the number of items it holds, and decodes to the items with a kind, in slot order.
\<close>

theorem Inventory_Serialize_items:
  assumes "distinct ks" and "set ks = dom (Inv e)"
  shows "case Inventory_Serialize ks e of (bs, n) \<Rightarrow>
     items_of_bytes n bs = filter (\<lambda>it. Kind it > 0) (List.map_filter (Inv e) (sorted_list_of_set (dom (Inv e)))) \<and>
     length bs = 18 * n"
proof -
  have "sort ks = sorted_list_of_set (dom (Inv e))"
    using assms by (metis sorted_list_of_set.idem_if_sorted_distinct distinct_sort set_sort sorted_sort)
  moreover have "length (concat (map item_bytes its)) = 18 * length its" for its
    by (induction its) simp_all
  ultimately show ?thesis
    by (simp add: Inventory_Serialize_def serialize_fold Let_def items_round_trip)
qed

theorem Inventory_Serialize_items_witness:
  "case Inventory_Serialize [7, 3] \<lparr>Inv = [3 \<mapsto> zero_Item\<lparr>Kind := 9, Slot := 3\<rparr>, 7 \<mapsto> zero_Item\<lparr>Kind := 4, Slot := 7\<rparr>],
       rpcHandler = None, character = 1, serverId = 1\<rparr> of (bs, n) \<Rightarrow>
     items_of_bytes n bs = [zero_Item\<lparr>Kind := 9, Slot := 3\<rparr>, zero_Item\<lparr>Kind := 4, Slot := 7\<rparr>] \<and> length bs = 18 * n"
proof -
  let ?e = "\<lparr>Inv = [3 \<mapsto> zero_Item\<lparr>Kind := 9, Slot := 3\<rparr>, 7 \<mapsto> zero_Item\<lparr>Kind := 4, Slot := 7\<rparr>],
       rpcHandler = None, character = 1, serverId = 1\<rparr>"
  have dom: "dom (Inv ?e) = {3, 7}" by auto
  have "sorted_list_of_set {3, 7 :: int} = [3, 7]" by simp
  with Inventory_Serialize_items [of "[7, 3]" ?e] show ?thesis
    unfolding dom by (simp add: List.map_filter_def insert_commute)
qed

end
