(* ===== verification/Freya_Db.thy ===== *)
theory Freya_Db
  imports Freya_Items
begin

text \<open>
  The part of the World database the inventory handlers of the master server use
  (\<open>sql/world.sql\<close>: \<open>characters\<close>, \<open>characters_inventory\<close>, \<open>characters_equipment\<close>,
  \<open>characters_warehouse\<close>, \<open>characters_skills\<close>, \<open>characters_quickslots\<close>, keyed by \<open>(id, slot)\<close>) and the
  statements they issue. A statement may fail: \<open>io\<close> lists, for the coming database calls, whether each
  reports an error. A transaction works on a copy that replaces the database only when the commit
  succeeds; the row locks it takes make it one step for everybody else.
\<close>

section \<open>Tables\<close>

text \<open>The columns of an item row besides its key.\<close>

record Row =
  row_kind :: uint32
  row_serials :: uint32
  row_opt :: int32
  row_expire :: uint32

definition row_of :: "Item \<Rightarrow> Row" where
  "row_of it = \<lparr>row_kind = Kind it, row_serials = Serials it, row_opt = Option it, row_expire = Expire it\<rparr>"

definition item_at :: "uint16 \<Rightarrow> Row \<Rightarrow> Item" where
  "item_at s r = \<lparr>Kind = row_kind r, Serials = row_serials r, Option = row_opt r, Slot = s, Expire = row_expire r\<rparr>"

lemma item_at_row_of: "item_at s (row_of it) = it\<lparr>Slot := s\<rparr>"
  by (cases it) (simp add: item_at_def row_of_def)

lemma item_at_row_of_slot [simp]: "item_at (Slot it) (row_of it) = it"
  by (simp add: item_at_row_of)

lemma row_of_item_at [simp]: "row_of (item_at s r) = r"
  by (simp add: row_of_def item_at_def)

lemma Slot_item_at [simp]: "Slot (item_at s r) = s"
  by (simp add: item_at_def)

lemma item_at_eq_iff: "item_at s r = it \<longleftrightarrow> Slot it = s \<and> r = row_of it"
  by (cases it; cases r) (auto simp: item_at_def row_of_def)

datatype table = characters_inventory | characters_equipment | characters_warehouse

text \<open>The columns of \<open>characters\<close> the handlers write besides the money.\<close>

record CharRow =
  col_exp :: uint64
  col_level :: uint16
  col_rank :: byte
  col_world :: byte
  col_x :: byte
  col_y :: byte
  col_current_hp :: uint16
  col_max_hp :: uint16
  col_current_mp :: uint16
  col_max_mp :: uint16
  col_current_sp :: uint16
  col_max_sp :: uint16
  str_stat :: uint32
  dex_stat :: uint32
  int_stat :: uint32
  pnt_stat :: uint32
  sword_rank :: byte
  magic_rank :: byte
  sword_exp :: uint16
  magic_exp :: uint16
  sword_point :: uint16
  magic_point :: uint16
  sword_rank_exp :: uint16
  magic_rank_exp :: uint16

text \<open>A character has a row in \<open>characters\<close> when \<open>alz_of\<close> is set; \<open>columns\<close> are the row's other values.\<close>

record Db =
  tables :: "table \<Rightarrow> int32 \<Rightarrow> uint16 \<rightharpoonup> Row"
  alz_of :: "int32 \<rightharpoonup> uint64"
  skills_of :: "int32 \<Rightarrow> uint16 \<rightharpoonup> uint16 \<times> byte"
  columns :: "int32 \<Rightarrow> CharRow"

definition set_row :: "table \<Rightarrow> int32 \<Rightarrow> uint16 \<Rightarrow> Row option \<Rightarrow> Db \<Rightarrow> Db" where
  "set_row t c s r db = db\<lparr>tables := (tables db)(t := (tables db t)(c := (tables db t c)(s := r)))\<rparr>"

lemma set_row_simps [simp]:
  "tables (set_row t c s r db) t' c' = (if t' = t \<and> c' = c then (tables db t c)(s := r) else tables db t' c')"
  "alz_of (set_row t c s r db) = alz_of db"
  "skills_of (set_row t c s r db) = skills_of db" "columns (set_row t c s r db) = columns db"
  by (simp_all add: set_row_def)

section \<open>Statements\<close>

text \<open>
  The rows of one character in one table as items: what \<open>SELECT kind, serials, opt, slot, expire\<close>
  returns.
\<close>

definition stored :: "table \<Rightarrow> int32 \<Rightarrow> Db \<Rightarrow> uint16 \<rightharpoonup> Item" where
  "stored t c db = (\<lambda>s. map_option (item_at s) (tables db t c s))"

lemma stored_Slot: "stored t c db s = Some it \<Longrightarrow> Slot it = s"
  by (auto simp: stored_def)

lemma stored_set_row [simp]:
  "stored t' c' (set_row t c s r db) =
     (if t' = t \<and> c' = c then (stored t c db)(s := map_option (item_at s) r) else stored t' c' db)"
  by (auto simp: stored_def fun_eq_iff)

lemma stored_alz [simp]: "stored t c (db\<lparr>alz_of := a\<rparr>) = stored t c db"
  by (simp add: stored_def)

lemma stored_skills [simp]: "stored t c (db\<lparr>skills_of := a\<rparr>) = stored t c db"
  by (simp add: stored_def)

lemma stored_columns [simp]: "stored t c (db\<lparr>columns := a\<rparr>) = stored t c db"
  by (simp add: stored_def)

lemma tables_stored: "tables db t c s = map_option row_of (stored t c db s)"
  by (cases "tables db t c s") (simp_all add: stored_def)

text \<open>
  Data-changing statements return the number of rows they changed, as the driver counts them, and
  \<open>None\<close> when the database refuses them: they violate the primary key or the range of a column.
\<close>

definition sql_insert :: "table \<Rightarrow> int32 \<Rightarrow> Item \<Rightarrow> Db \<Rightarrow> (nat \<times> Db) option" where
  "sql_insert t c it db =
     (if tables db t c (Slot it) \<noteq> None then None else Some (1, set_row t c (Slot it) (Some (row_of it)) db))"

text \<open>\<open>DELETE ... WHERE id = ? AND slot = ?\<close>, and the form that compares every column as well.\<close>

definition sql_delete :: "table \<Rightarrow> int32 \<Rightarrow> uint16 \<Rightarrow> Db \<Rightarrow> nat \<times> Db" where
  "sql_delete t c s db = (if tables db t c s = None then (0, db) else (1, set_row t c s None db))"

definition sql_delete_exact :: "table \<Rightarrow> int32 \<Rightarrow> Item \<Rightarrow> Db \<Rightarrow> nat \<times> Db" where
  "sql_delete_exact t c it db =
     (if tables db t c (Slot it) = Some (row_of it) then (1, set_row t c (Slot it) None db) else (0, db))"

text \<open>\<open>UPDATE ... SET slot = new WHERE id = ? AND slot = old\<close>.\<close>

definition sql_move :: "table \<Rightarrow> int32 \<Rightarrow> uint16 \<Rightarrow> uint16 \<Rightarrow> Db \<Rightarrow> (nat \<times> Db) option" where
  "sql_move t c old new db =
     (case tables db t c old of
        None \<Rightarrow> Some (0, db)
      | Some r \<Rightarrow>
          if new = old then Some (0, db)
          else if tables db t c new \<noteq> None then None
          else Some (1, set_row t c new (Some r) (set_row t c old None db)))"

text \<open>\<open>UPDATE ... SET kind = ?, opt = ? WHERE\<close> every column equals the given item.\<close>

definition sql_update_exact :: "table \<Rightarrow> int32 \<Rightarrow> Item \<Rightarrow> uint32 \<Rightarrow> int32 \<Rightarrow> Db \<Rightarrow> nat \<times> Db" where
  "sql_update_exact t c it kind opt db =
     (if tables db t c (Slot it) = Some (row_of it)
      then (if Kind it = kind \<and> Option it = opt then 0 else 1,
            set_row t c (Slot it) (Some ((row_of it)\<lparr>row_kind := kind, row_opt := opt\<rparr>)) db)
      else (0, db))"

section \<open>Transactions\<close>

text \<open>
  The body of a handler between \<open>Beginx\<close> and \<open>Commit\<close>: it returns an error, returns \<open>nil\<close> early with
  the response as it is, or goes on with a value. Both early exits run the deferred rollback.
\<close>

datatype ('r, 'a) tx = Fail string | Refuse 'r | Done 'a Db "bool list"

type_synonym ('r, 'a) stmt = "Db \<Rightarrow> bool list \<Rightarrow> ('r, 'a) tx"

definition return_tx :: "'a \<Rightarrow> ('r, 'a) stmt" where
  "return_tx a db io = Done a db io"

definition fail_tx :: "string \<Rightarrow> ('r, 'a) stmt" where
  "fail_tx e db io = Fail e"

definition refuse_tx :: "'r \<Rightarrow> ('r, 'a) stmt" where
  "refuse_tx r db io = Refuse r"

definition andThen :: "('r, 'a) stmt \<Rightarrow> ('a \<Rightarrow> ('r, 'b) stmt) \<Rightarrow> ('r, 'b) stmt" where
  "andThen m f db io = (case m db io of Fail e \<Rightarrow> Fail e | Refuse r \<Rightarrow> Refuse r | Done a db io \<Rightarrow> f a db io)"

text \<open>\<open>if cond \{ return nil \}\<close> and \<open>if cond \{ return err \}\<close>.\<close>

definition refuse_if :: "bool \<Rightarrow> 'r \<Rightarrow> ('r, unit) stmt" where
  "refuse_if b r = (if b then refuse_tx r else return_tx ())"

definition fail_if :: "bool \<Rightarrow> string \<Rightarrow> ('r, unit) stmt" where
  "fail_if b e = (if b then fail_tx e else return_tx ())"

text \<open>One database call, which fails when the next entry of \<open>io\<close> says so.\<close>

abbreviation db_error :: string where
  "db_error \<equiv> ''database error''"

definition faulty :: "bool list \<Rightarrow> bool" where
  "faulty io \<longleftrightarrow> io \<noteq> [] \<and> hd io"

definition query :: "(Db \<Rightarrow> 'a) \<Rightarrow> ('r, 'a) stmt" where
  "query f db io = (if faulty io then Fail db_error else Done (f db) db (tl io))"

definition exec :: "(Db \<Rightarrow> (nat \<times> Db) option) \<Rightarrow> ('r, nat) stmt" where
  "exec f db io =
     (if faulty io then Fail db_error
      else case f db of None \<Rightarrow> Fail ''statement refused'' | Some (n, db) \<Rightarrow> Done n db (tl io))"

text \<open>\<open>Beginx\<close>, the body, \<open>Commit\<close>; the response and the database the caller sees.\<close>

definition transaction :: "('r, 'r) stmt \<Rightarrow> bool list \<Rightarrow> Db \<Rightarrow> (string + 'r) \<times> Db" where
  "transaction body io db =
     (if faulty io then (Inl db_error, db)
      else case body db (tl io) of
        Fail e \<Rightarrow> (Inl e, db)
      | Refuse r \<Rightarrow> (Inr r, db)
      | Done r db' io \<Rightarrow> if faulty io then (Inl db_error, db) else (Inr r, db'))"

text \<open>
  \<open>db.MustExec\<close> outside a transaction panics when the statement fails: the first component is \<open>None\<close>.
\<close>

definition MustExec :: "bool list \<Rightarrow> (Db \<Rightarrow> (nat \<times> Db) option) \<Rightarrow> Db \<Rightarrow> nat option \<times> Db" where
  "MustExec io f db =
     (if faulty io then (None, db)
      else case f db of None \<Rightarrow> (None, db) | Some (n, db) \<Rightarrow> (Some n, db))"

lemma andThen_Done [simp]:
  "andThen m f db io = Done b db' io' \<longleftrightarrow> (\<exists>a d i. m db io = Done a d i \<and> f a d i = Done b db' io')"
  by (simp add: andThen_def split: tx.split)

lemma stmt_Done [simp]:
  "return_tx a db io = Done b db' io' \<longleftrightarrow> b = a \<and> db' = db \<and> io' = io"
  "\<not> fail_tx e db io = Done b db' io'"
  "\<not> refuse_tx r db io = Done b db' io'"
  "refuse_if c r db io = Done u db' io' \<longleftrightarrow> \<not> c \<and> db' = db \<and> io' = io"
  "fail_if c e db io = Done u db' io' \<longleftrightarrow> \<not> c \<and> db' = db \<and> io' = io"
  "query f db io = Done b db' io' \<longleftrightarrow> \<not> faulty io \<and> b = f db \<and> db' = db \<and> io' = tl io"
  "exec g db io = Done n db' io' \<longleftrightarrow> \<not> faulty io \<and> g db = Some (n, db') \<and> io' = tl io"
  by (auto simp: return_tx_def fail_tx_def refuse_tx_def refuse_if_def fail_if_def query_def exec_def
      split: option.splits)

text \<open>Early exits never carry a response the body would have committed with.\<close>

definition refuses :: "('r \<Rightarrow> bool) \<Rightarrow> ('r, 'a) stmt \<Rightarrow> bool" where
  "refuses P m \<longleftrightarrow> (\<forall>db io r. m db io = Refuse r \<longrightarrow> P r)"

named_theorems refuses_intro "rules for the responses of early exits"

lemma refuses_rules [refuses_intro]:
  "refuses P (return_tx a)"
  "refuses P (fail_tx e)"
  "P r \<Longrightarrow> refuses P (refuse_tx r)"
  "P r \<Longrightarrow> refuses P (refuse_if b r)"
  "refuses P (fail_if b e)"
  "refuses P (query f)"
  "refuses P (exec g)"
  by (auto simp: refuses_def return_tx_def fail_tx_def refuse_tx_def refuse_if_def fail_if_def query_def exec_def
      split: option.splits if_splits)

lemma refuses_andThen [refuses_intro]:
  "refuses P m \<Longrightarrow> (\<And>a. refuses P (f a)) \<Longrightarrow> refuses P (andThen m f)"
  by (fastforce simp: refuses_def andThen_def split: tx.splits)

lemma refuses_if [refuses_intro]: "refuses P m \<Longrightarrow> refuses P n \<Longrightarrow> refuses P (if b then m else n)"
  by simp

lemma refuses_option [refuses_intro]:
  "refuses P m \<Longrightarrow> (\<And>a. refuses P (f a)) \<Longrightarrow> refuses P (case x of None \<Rightarrow> m | Some a \<Rightarrow> f a)"
  by (simp split: option.split)

text \<open>
  All or nothing: a transaction that reports an error or a refusal has left the database alone, and
  one that reports success ran to its end.
\<close>

lemma transaction_cases:
  assumes "refuses P body"
  shows "(\<exists>e. transaction body io db = (Inl e, db)) \<or> (\<exists>r. P r \<and> transaction body io db = (Inr r, db)) \<or>
     (\<exists>r db' io'. body db (tl io) = Done r db' io' \<and> transaction body io db = (Inr r, db'))"
  using assms by (auto simp: transaction_def refuses_def split: tx.splits)

end
