(* ===== verification/Freya_Equipment.thy ===== *)
theory Freya_Equipment
  imports Freya_Inventory
begin

text \<open>
  The worn equipment of a character (\<open>share/models/inventory/equipment.go\<close>, \<open>enum.go\<close>) and the moves
  between it and the inventory. A move is two or more separate calls to the master server, with
  rollbacks in the code where it has them. The locale \<open>equipment_master\<close> extends the contract of the
  inventory by the equipment calls; under it both containers always equal the persisted rows, and
  each move has one of a few listed outcomes.
\<close>

section \<open>Equipment slots (enum.go)\<close>

definition eqTypes :: "(int \<times> string) list" where
  "eqTypes =
     [(0, ''helmet''), (1, ''suit''), (2, ''gloves''), (3, ''boots''), (4, ''right_hand''), (5, ''left_hand''),
      (6, ''epaulet''), (7, ''amulet''), (8, ''finger1''), (9, ''finger2''), (10, ''vehicle''), (11, ''pet''),
      (12, ''unk''), (13, ''left_ear''), (14, ''right_ear''), (15, ''left_bracelet''), (16, ''right_bracelet''),
      (17, ''finger3''), (18, ''finger4''), (19, ''belt'')]"

text \<open>The map is walked in an arbitrary order: \<open>entries\<close> are its pairs.\<close>

fun MapEquipment :: "(int \<times> string) list \<Rightarrow> string \<Rightarrow> uint16" where
  "MapEquipment [] name = 65535"
| "MapEquipment ((k, value) # entries) name = (if value = name then word_of_int k else MapEquipment entries name)"

section \<open>State\<close>

record 'm Equipment =
  Equip :: "int \<rightharpoonup> Item"
  eq_rpcHandler :: "'m Client option"
  eq_character :: int32
  eq_serverId :: byte

definition Equipment_Init :: "'m Equipment \<Rightarrow> 'm Equipment" where
  "Equipment_Init e = e\<lparr>Equip := Map.empty\<rparr>"

definition Equipment_Setup :: "'m Client option \<Rightarrow> int32 \<Rightarrow> byte \<Rightarrow> 'm Equipment \<Rightarrow> 'm Equipment" where
  "Equipment_Setup rpc i server e = e\<lparr>eq_rpcHandler := rpc, eq_character := i, eq_serverId := server\<rparr>"

definition Equipment_sync :: "string \<Rightarrow> Item \<Rightarrow> Item option \<Rightarrow> 'm Equipment \<Rightarrow> 'm \<Rightarrow> (bool \<times> err) \<times> 'm" where
  "Equipment_sync cmd old new e m =
     (if eq_character e = 0 \<and> eq_serverId e = 0 then ((True, nil), m)
      else case eq_rpcHandler e of
        None \<Rightarrow> ((False, errors_New not_ready), m)
      | Some rpc \<Rightarrow>
          let req = \<lparr>iServer = eq_serverId e, iId = eq_character e, iCommand = cmd, iItem = old, iNewItem = new\<rparr> in
          (case call_item rpc cmd req m of
             (Inl err, m) \<Rightarrow> ((False, errors_New err), m)
           | (Inr res, m) \<Rightarrow> ((iResult res, nil), m)))"

section \<open>Operations on one container (equipment.go)\<close>

type_synonym 'm eq_result = "(bool \<times> err) \<times> 'm Equipment \<times> 'm"

definition Equipment_Set :: "uint16 \<Rightarrow> Item \<Rightarrow> 'm Equipment \<Rightarrow> 'm \<Rightarrow> 'm eq_result" where
  "Equipment_Set slot item e m =
     (let item = item\<lparr>Slot := slot\<rparr>;
          ((ok, err), m) = Equipment_sync ''EquipItem'' item None e m in
      ((ok, err), (if err = nil \<and> ok then e\<lparr>Equip := (Equip e)(key slot \<mapsto> item)\<rparr> else e), m))"

definition Equipment_Get :: "uint16 \<Rightarrow> 'm Equipment \<Rightarrow> Item" where
  "Equipment_Get slot e = (case Equip e (key slot) of Some value \<Rightarrow> value | None \<Rightarrow> zero_Item)"

abbreviation not_equipped :: string where
  "not_equipped \<equiv> ''such item does not exist in the equipment''"

abbreviation equipped :: string where
  "equipped \<equiv> ''such item already exists in the equipment''"

definition Equipment_Remove :: "uint16 \<Rightarrow> 'm Equipment \<Rightarrow> 'm \<Rightarrow> 'm eq_result" where
  "Equipment_Remove slot e m =
     (case Equip e (key slot) of
        None \<Rightarrow> ((False, errors_New not_equipped), e, m)
      | Some item \<Rightarrow>
          let item = item\<lparr>Slot := slot\<rparr>;
              ((ok, err), m) = Equipment_sync ''UnEquipItem'' item None e m in
          ((ok, err), (if err = nil \<and> ok then e\<lparr>Equip := (Equip e)(key slot := None)\<rparr> else e), m))"

definition Equipment_Swap :: "uint16 \<Rightarrow> uint16 \<Rightarrow> 'm Equipment \<Rightarrow> 'm \<Rightarrow> 'm eq_result" where
  "Equipment_Swap old new e m =
     (case Equip e (key old) of
        None \<Rightarrow> ((False, errors_New not_equipped), e, m)
      | Some oldItem \<Rightarrow>
          (case Equip e (key new) of
             None \<Rightarrow> ((False, errors_New not_equipped), e, m)
           | Some newItem \<Rightarrow>
               let oldItem = oldItem\<lparr>Slot := new\<rparr>;
                   newItem = newItem\<lparr>Slot := old\<rparr>;
                   ((ok, err), m) = Equipment_sync ''SwapEquipmentItem'' oldItem (Some newItem) e m in
               ((ok, err),
                (if err = nil
                 then e\<lparr>Equip := ((((Equip e)(key old := None))(key new := None))(key (Slot oldItem) \<mapsto> oldItem))
                        (key (Slot newItem) \<mapsto> newItem)\<rparr>
                 else e), m)))"

definition Equipment_MoveItem :: "uint16 \<Rightarrow> uint16 \<Rightarrow> 'm Equipment \<Rightarrow> 'm \<Rightarrow> 'm eq_result" where
  "Equipment_MoveItem old new e m =
     (case Equip e (key old) of
        None \<Rightarrow> ((False, errors_New not_equipped), e, m)
      | Some oldItem \<Rightarrow>
          if Equip e (key new) \<noteq> None then ((False, errors_New equipped), e, m)
          else
            let oldItem = oldItem\<lparr>Slot := old\<rparr>;
                newItem = zero_Item\<lparr>Slot := new\<rparr>;
                ((ok, err), m) = Equipment_sync ''MoveEquipmentItem'' oldItem (Some newItem) e m in
            ((ok, err),
             (if err = nil \<and> ok
              then let oldItem = oldItem\<lparr>Slot := new\<rparr> in
                   e\<lparr>Equip := ((Equip e)(key old := None))(key (Slot oldItem) \<mapsto> oldItem)\<rparr>
              else e), m))"

section \<open>Moves between equipment and inventory (equipment.go)\<close>

text \<open>
  The result is \<open>None\<close> when the code panics: the rollback message calls \<open>Error()\<close> on both errors, and a
  refused call has none. The containers keep what was done before the panic.
\<close>

type_synonym 'm move_result = "(bool \<times> err) option \<times> 'm Equipment \<times> 'm Inventory \<times> 'm"

definition rollback_error :: "err \<Rightarrow> err \<Rightarrow> (bool \<times> err) option" where
  "rollback_error err err2 =
     (case (err, err2) of
        (Some a, Some b) \<Rightarrow> Some (False, errors_New (''unable to rollback: '' @ a @ '' and '' @ b))
      | _ \<Rightarrow> None)"

definition Equipment_EquipItem :: "uint16 \<Rightarrow> uint16 \<Rightarrow> 'm Equipment \<Rightarrow> 'm Inventory \<Rightarrow> 'm \<Rightarrow> 'm move_result" where
  "Equipment_EquipItem old new e i m =
     (let item = Inventory_Get old i in
      if Kind (Equipment_Get new e) \<noteq> 0 then (Some (False, errors_New equipped), e, i, m)
      else case Inventory_Remove old i m of ((ok, err), i, m) \<Rightarrow>
      if \<not> ok then (Some (ok, err), e, i, m)
      else case Equipment_Set new (item\<lparr>Slot := new\<rparr>) e m of ((ok, err), e, m) \<Rightarrow>
      if ok then (Some (ok, nil), e, i, m)
      else case Inventory_Set old (item\<lparr>Slot := old\<rparr>) i m of ((ok2, err2), i, m) \<Rightarrow>
      if \<not> ok2 then (rollback_error err err2, e, i, m)
      else (Some (ok, err), e, i, m))"

definition unEquipItem :: "uint16 \<Rightarrow> uint16 \<Rightarrow> 'm Equipment \<Rightarrow> 'm Inventory \<Rightarrow> 'm \<Rightarrow> 'm move_result" where
  "unEquipItem old new e i m =
     (case Equip e (key old) of
        None \<Rightarrow> (Some (False, errors_New not_equipped), e, i, m)
      | Some item \<Rightarrow>
          (case Equipment_Remove old e m of ((ok, err), e, m) \<Rightarrow>
           if \<not> ok then (Some (ok, err), e, i, m)
           else case Inventory_Set new (item\<lparr>Slot := new\<rparr>) i m of ((ok, err), i, m) \<Rightarrow>
           if ok then (Some (ok, nil), e, i, m)
           else case Inventory_Set old (item\<lparr>Slot := old\<rparr>) i m of ((ok2, err2), i, m) \<Rightarrow>
           if \<not> ok2 then (rollback_error err err2, e, i, m)
           else (Some (ok, err), e, i, m)))"

definition Equipment_UnEquipItem :: "uint16 \<Rightarrow> uint16 \<Rightarrow> 'm Equipment \<Rightarrow> 'm Inventory \<Rightarrow> 'm \<Rightarrow> 'm move_result" where
  "Equipment_UnEquipItem old new e i m = unEquipItem old new e i m"

definition SwapEquipItem :: "uint16 \<Rightarrow> uint16 \<Rightarrow> 'm Equipment \<Rightarrow> 'm Inventory \<Rightarrow> 'm \<Rightarrow> 'm move_result" where
  "SwapEquipItem old new e i m =
     (let oldItem = Equipment_Get new e; newItem = Inventory_Get old i in
      if Kind oldItem = 0 then (Some (False, errors_New not_equipped), e, i, m)
      else if Kind newItem = 0 then (Some (False, errors_New ''such item does not exist in the inventory''), e, i, m)
      else case Inventory_Remove old i m of ((ok, err), i, m) \<Rightarrow>
      if \<not> ok then (Some (ok, err), e, i, m)
      else case unEquipItem new old e i m of (res, e, i, m) \<Rightarrow>
      (case res of
         None \<Rightarrow> (None, e, i, m)
       | Some (ok, err) \<Rightarrow>
           if \<not> ok then (Some (ok, err), e, i, m)
           else case Equipment_Set new (newItem\<lparr>Slot := new\<rparr>) e m of ((ok, err), e, m) \<Rightarrow>
                (Some (ok, err), e, i, m)))"

text \<open>The loop of \<open>EquipAccessory\<close>: \<open>MoveItem(slots[i], slots[i+1])\<close> for \<open>i\<close> downwards, results ignored.\<close>

fun shift_slots :: "uint16 list \<Rightarrow> 'm Equipment \<Rightarrow> 'm \<Rightarrow> 'm Equipment \<times> 'm" where
  "shift_slots (a # b # slots) e m =
     (case shift_slots (b # slots) e m of (e, m) \<Rightarrow> snd (Equipment_MoveItem a b e m))"
| "shift_slots slots e m = (e, m)"

definition EquipAccessory :: "uint16 \<Rightarrow> int list \<Rightarrow> 'm Equipment \<Rightarrow> 'm Inventory \<Rightarrow> 'm \<Rightarrow> 'm move_result" where
  "EquipAccessory old slots e i m =
     (if slots = [] then (None, e, i, m)
      else
        let slots = map word_of_int slots; first = hd slots; lst = last slots in
        if Kind (Equipment_Get first e) = 0 then Equipment_EquipItem old first e i m
        else
          let item = Inventory_Get old i in
          case Inventory_Remove old i m of ((ok, err), i, m) \<Rightarrow>
          if \<not> ok then (Some (ok, err), e, i, m)
          else
            let finish = (\<lambda>e i m.
                  case shift_slots slots e m of (e, m) \<Rightarrow>
                  case Equipment_Set first (item\<lparr>Slot := first\<rparr>) e m of ((ok, err), e, m) \<Rightarrow>
                  (Some (ok, err), e, i, m)) in
            if Kind (Equipment_Get lst e) \<noteq> 0
            then case Equipment_UnEquipItem lst old e i m of (res, e, i, m) \<Rightarrow>
                 (case res of
                    None \<Rightarrow> (None, e, i, m)
                  | Some (ok, err) \<Rightarrow>
                      if \<not> ok
                      then (case Inventory_Set old item i m of ((ok2, err2), i, m) \<Rightarrow>
                            if \<not> ok2 then (rollback_error err err2, e, i, m) else (Some (ok, err), e, i, m))
                      else finish e i m)
            else finish e i m)"

section \<open>Serialisation (equipment.go)\<close>

definition Equipment_Serialize :: "int list \<Rightarrow> 'm Equipment \<Rightarrow> byte list \<times> nat" where
  "Equipment_Serialize ks e =
     foldl (\<lambda>(equip, len) value. (equip @ item_bytes (case Equip e value of Some it \<Rightarrow> it | None \<Rightarrow> zero_Item), len + 1))
       ([], 0) (sort ks)"

text \<open>\<open>SerializeKind\<close> ranges over the indexes of the sorted keys, not over the keys.\<close>

definition SerializeKind :: "'m Equipment \<Rightarrow> byte list" where
  "SerializeKind e =
     (let keys = sort (map fst eqTypes) in
      concat (map (\<lambda>k. le_bytes 4 (Kind (case Equip e (int k) of
          Some item \<Rightarrow> item | None \<Rightarrow> zero_Item\<lparr>Slot := word_of_nat k\<rparr>)))
        [0..<length keys]))"

definition SerializeEx :: "int list \<Rightarrow> 'm Equipment \<Rightarrow> byte list \<times> nat" where
  "SerializeEx ks e =
     foldl (\<lambda>(equip, len) value.
         let it = (case Equip e value of Some it \<Rightarrow> it | None \<Rightarrow> zero_Item) in
         (equip @ le_bytes 4 (Kind it) @ le_bytes 1 (ucast (Slot it) :: byte), len + 1))
       ([], 0) (sort ks)"

section \<open>What the equipment relies on of the master server\<close>

abbreviation inventory_commands :: "string set" where
  "inventory_commands \<equiv> {''AddItem'', ''RemoveItem'', ''MoveItem'', ''SwapItem'', ''ConsumeItem''}"

abbreviation equipment_commands :: "string set" where
  "equipment_commands \<equiv> {''EquipItem'', ''UnEquipItem'', ''MoveEquipmentItem'', ''SwapEquipmentItem''}"

text \<open>
  \<open>eqrows m c\<close> are the persisted equipment rows of character \<open>c\<close>. The equipment calls change them as
  described and leave the inventory rows alone, and the other way round.
\<close>

locale equipment_master = item_master rpc rows
  for rpc :: "'m Client" and rows :: "'m \<Rightarrow> int32 \<Rightarrow> uint16 \<rightharpoonup> Item" +
  fixes eqrows :: "'m \<Rightarrow> int32 \<Rightarrow> uint16 \<rightharpoonup> Item"
  assumes eqrows_Slot: "eqrows m c s = Some it \<Longrightarrow> Slot it = s"
    and eq_answers: "call_item rpc ''SwapEquipmentItem'' r m = (Inr p, m') \<Longrightarrow> iResult p"
    and equip: "call_item rpc ''EquipItem'' r m = (res, m') \<Longrightarrow> eqrows m' (iId r) =
      (if accepted iResult res then (eqrows m (iId r))(Slot (iItem r) \<mapsto> iItem r) else eqrows m (iId r))"
    and unequip: "call_item rpc ''UnEquipItem'' r m = (res, m') \<Longrightarrow> eqrows m' (iId r) =
      (if accepted iResult res then (eqrows m (iId r))(Slot (iItem r) := None) else eqrows m (iId r))"
    and eq_move: "call_item rpc ''MoveEquipmentItem'' r m = (res, m') \<Longrightarrow> iNewItem r = Some new \<Longrightarrow>
      eqrows m (iId r) (Slot (iItem r)) = Some it \<Longrightarrow> Slot new \<noteq> Slot (iItem r) \<Longrightarrow> eqrows m' (iId r) =
      (if accepted iResult res
       then (eqrows m (iId r))(Slot (iItem r) := None, Slot new \<mapsto> it\<lparr>Slot := Slot new\<rparr>) else eqrows m (iId r))"
    and eq_swap: "call_item rpc ''SwapEquipmentItem'' r m = (res, m') \<Longrightarrow> iNewItem r = Some new \<Longrightarrow>
      eqrows m (iId r) (Slot new) = Some a \<Longrightarrow> eqrows m (iId r) (Slot (iItem r)) = Some b \<Longrightarrow> eqrows m' (iId r) =
      (if accepted iResult res
       then (eqrows m (iId r))(Slot new \<mapsto> b\<lparr>Slot := Slot new\<rparr>, Slot (iItem r) \<mapsto> a\<lparr>Slot := Slot (iItem r)\<rparr>)
       else eqrows m (iId r))"
    and rows_frame: "cmd \<in> equipment_commands \<Longrightarrow> call_item rpc cmd r m = (res, m') \<Longrightarrow> rows m' = rows m"
    and eqrows_frame: "cmd \<in> inventory_commands \<Longrightarrow> call_item rpc cmd r m = (res, m') \<Longrightarrow> eqrows m' = eqrows m"
    and eqrows_frame_other:
      "call_purchase rpc pq m = (pres, m') \<Longrightarrow> eqrows m' = eqrows m"
      "call_sell rpc sq m = (sres, m') \<Longrightarrow> eqrows m' = eqrows m"
      "call_learn rpc lq m = (bres, m') \<Longrightarrow> eqrows m' = eqrows m"
      "call_enchant rpc eq m = (bres, m') \<Longrightarrow> eqrows m' = eqrows m"
      "call_attach rpc aq m = (bres, m') \<Longrightarrow> eqrows m' = eqrows m"

definition eq_coherent :: "'m Client \<Rightarrow> ('m \<Rightarrow> int32 \<Rightarrow> uint16 \<rightharpoonup> Item) \<Rightarrow> 'm Equipment \<Rightarrow> 'm \<Rightarrow> bool" where
  "eq_coherent rpc eqrows e m \<longleftrightarrow> eq_rpcHandler e = Some rpc \<and> \<not> (eq_character e = 0 \<and> eq_serverId e = 0) \<and>
     (\<forall>s. Equip e (key s) = eqrows m (eq_character e) s)"

lemma eq_coherent_update:
  "eq_coherent rpc eqrows e m \<Longrightarrow> (\<And>s. im (key s) = eqrows m' (eq_character e) s) \<Longrightarrow>
   eq_coherent rpc eqrows (e\<lparr>Equip := im\<rparr>) m'"
  by (simp add: eq_coherent_def)

lemma eq_coherent_same:
  "eq_coherent rpc eqrows e m \<Longrightarrow> eqrows m' (eq_character e) = eqrows m (eq_character e) \<Longrightarrow> eq_coherent rpc eqrows e m'"
  by (simp add: eq_coherent_def)

lemma eq_coherent_Equip: "eq_coherent rpc eqrows e m \<Longrightarrow> Equip e (key s) = eqrows m (eq_character e) s"
  by (simp add: eq_coherent_def)

text \<open>Both containers agree with the database.\<close>

definition in_step :: "'m Client \<Rightarrow> ('m \<Rightarrow> int32 \<Rightarrow> uint16 \<rightharpoonup> Item) \<Rightarrow> ('m \<Rightarrow> int32 \<Rightarrow> uint16 \<rightharpoonup> Item) \<Rightarrow>
    'm Equipment \<Rightarrow> 'm Inventory \<Rightarrow> 'm \<Rightarrow> bool" where
  "in_step rpc rows eqrows e i m \<longleftrightarrow> eq_coherent rpc eqrows e m \<and> coherent rpc rows i m"

text \<open>A call that comes back with true comes back without an error.\<close>

lemma sync_ok: "sync cmd old new i m = ((True, er), m') \<Longrightarrow> er = nil"
  by (auto simp: sync_def Let_def split: if_splits option.splits prod.splits sum.splits)

lemma Equipment_sync_ok: "Equipment_sync cmd old new e m = ((True, er), m') \<Longrightarrow> er = nil"
  by (auto simp: Equipment_sync_def Let_def split: if_splits option.splits prod.splits sum.splits)

lemma Inventory_Set_step:
  assumes "Inventory_Set slot item i m = ((ok, er), i', m')"
  shows "if ok then er = nil \<and> i' = i\<lparr>Inv := (Inv i)(key slot \<mapsto> item)\<rparr> else i' = i"
  using assms sync_ok by (fastforce simp: Inventory_Set_def split: prod.splits)

lemma Equipment_Set_step:
  assumes "Equipment_Set slot item e m = ((ok, er), e', m')"
  shows "if ok then er = nil \<and> e' = e\<lparr>Equip := (Equip e)(key slot \<mapsto> item\<lparr>Slot := slot\<rparr>)\<rparr> else e' = e"
  using assms Equipment_sync_ok by (fastforce simp: Equipment_Set_def Let_def split: prod.splits)

lemma Equipment_Remove_step:
  assumes "Equipment_Remove slot e m = ((ok, er), e', m')"
  shows "if ok then er = nil \<and> e' = e\<lparr>Equip := (Equip e)(key slot := None)\<rparr> \<and> Equip e (key slot) \<noteq> None else e' = e"
  using assms Equipment_sync_ok by (fastforce simp: Equipment_Remove_def Let_def split: prod.splits option.splits)

context equipment_master
begin

lemma Inventory_Remove_step:
  assumes "coherent rpc rows i m" "Inventory_Remove slot i m = ((ok, er), i', m')"
  shows "if ok then er = nil \<and> i' = i\<lparr>Inv := (Inv i)(key slot := None)\<rparr> \<and> Inv i (key slot) = Some (Inventory_Get slot i)
     else i' = i"
proof (cases "Inv i (key slot)")
  case None
  with assms show ?thesis by (simp add: Inventory_Remove_def)
next
  case (Some item)
  then obtain m2 where s: "sync ''RemoveItem'' item None i m = ((ok, er), m2)"
    and i': "i' = (if er = nil then i\<lparr>Inv := (Inv i)(key slot := None)\<rparr> else i)"
    using assms(2) by (auto simp: Inventory_Remove_def split: prod.splits)
  from sync_call [OF assms(1) s] obtain res where c: "call_item rpc ''RemoveItem''
      \<lparr>iServer = serverId i, iId = character i, iCommand = ''RemoveItem'', iItem = item, iNewItem = None\<rparr> m = (res, m2)"
    and ok: "ok \<and> er = nil \<longleftrightarrow> accepted iResult res" and er: "er = nil \<longleftrightarrow> (\<exists>p. res = Inr p)" .
  have "er = nil \<longleftrightarrow> ok"
  proof (cases res)
    case (Inl x)
    with er sync_ok [of _ _ _ _ _ er m2] s show ?thesis by (cases ok) auto
  next
    case (Inr p)
    with answers [OF _ c [unfolded Inr]] ok er show ?thesis by simp
  qed
  with i' Some show ?thesis by (auto simp: Inventory_Get_def)
qed

lemma Equipment_sync_call:
  assumes "eq_coherent rpc eqrows e m" "Equipment_sync cmd old new e m = ((ok, er), m')"
  obtains res where "call_item rpc cmd
      \<lparr>iServer = eq_serverId e, iId = eq_character e, iCommand = cmd, iItem = old, iNewItem = new\<rparr> m = (res, m')"
    "ok \<and> er = nil \<longleftrightarrow> accepted iResult res" "er = nil \<longleftrightarrow> (\<exists>p. res = Inr p)"
  using assms by (auto simp: eq_coherent_def Equipment_sync_def Let_def split: prod.splits sum.splits)

text \<open>The inventory operations leave the equipment rows alone.\<close>

lemma sync_frame:
  assumes "coherent rpc rows i m" "sync cmd old new i m = (r, m')" "cmd \<in> inventory_commands"
  shows "eqrows m' = eqrows m"
proof -
  obtain ok er where r: "r = (ok, er)" by (cases r)
  from sync_call [OF assms(1) assms(2) [unfolded r]] eqrows_frame [OF assms(3)] show ?thesis by metis
qed

lemma Inventory_Set_in_step:
  assumes "in_step rpc rows eqrows e i m" "Inventory_Set slot item i m = (r, i', m')" "Slot item = slot"
  shows "in_step rpc rows eqrows e i' m'"
proof -
  have i: "coherent rpc rows i m" and e: "eq_coherent rpc eqrows e m" using assms(1) by (simp_all add: in_step_def)
  obtain x where "sync ''AddItem'' item None i m = (x, m')"
    using assms(2) by (auto simp: Inventory_Set_def split: prod.splits)
  from sync_frame [OF i this] Set_coherent [OF i assms(3,2)] show ?thesis
    by (simp add: in_step_def eq_coherent_same [OF e])
qed

lemma Inventory_Remove_in_step:
  assumes "in_step rpc rows eqrows e i m" "Inventory_Remove slot i m = (r, i', m')"
  shows "in_step rpc rows eqrows e i' m'"
proof -
  have i: "coherent rpc rows i m" and e: "eq_coherent rpc eqrows e m" using assms(1) by (simp_all add: in_step_def)
  have "m' = m \<or> (\<exists>item x. sync ''RemoveItem'' item None i m = (x, m'))"
    using assms(2) by (auto simp: Inventory_Remove_def split: prod.splits option.splits)
  then have "eqrows m' = eqrows m" using sync_frame [OF i] by auto
  with Remove_coherent [OF i assms(2)] show ?thesis by (simp add: in_step_def eq_coherent_same [OF e])
qed

lemma Equipment_Set_in_step:
  assumes "in_step rpc rows eqrows e i m" "Equipment_Set slot item e m = (r, e', m')"
  shows "in_step rpc rows eqrows e' i m'"
proof -
  have i: "coherent rpc rows i m" and e: "eq_coherent rpc eqrows e m" using assms(1) by (simp_all add: in_step_def)
  obtain ok er where s: "Equipment_sync ''EquipItem'' (item\<lparr>Slot := slot\<rparr>) None e m = ((ok, er), m')"
    and e': "e' = (if er = nil \<and> ok then e\<lparr>Equip := (Equip e)(key slot \<mapsto> item\<lparr>Slot := slot\<rparr>)\<rparr> else e)"
    using assms(2) by (auto simp: Equipment_Set_def Let_def split: prod.splits)
  from Equipment_sync_call [OF e s] obtain res where c: "call_item rpc ''EquipItem'' \<lparr>iServer = eq_serverId e,
      iId = eq_character e, iCommand = ''EquipItem'', iItem = item\<lparr>Slot := slot\<rparr>, iNewItem = None\<rparr> m = (res, m')"
    and res: "ok \<and> er = nil \<longleftrightarrow> accepted iResult res" .
  from rows_frame [OF _ c] equip [OF c] res e' show ?thesis unfolding in_step_def
    by (auto intro!: eq_coherent_update [OF e] eq_coherent_same [OF e] coherent_same [OF i] simp: eq_coherent_Equip [OF e])
qed

lemma Equipment_Remove_in_step:
  assumes "in_step rpc rows eqrows e i m" "Equipment_Remove slot e m = (r, e', m')"
  shows "in_step rpc rows eqrows e' i m'"
proof (cases "Equip e (key slot)")
  case None
  with assms show ?thesis by (simp add: Equipment_Remove_def)
next
  case (Some item)
  have i: "coherent rpc rows i m" and e: "eq_coherent rpc eqrows e m" using assms(1) by (simp_all add: in_step_def)
  obtain ok er where s: "Equipment_sync ''UnEquipItem'' (item\<lparr>Slot := slot\<rparr>) None e m = ((ok, er), m')"
    and e': "e' = (if er = nil \<and> ok then e\<lparr>Equip := (Equip e)(key slot := None)\<rparr> else e)"
    using assms(2) Some by (auto simp: Equipment_Remove_def Let_def split: prod.splits)
  from Equipment_sync_call [OF e s] obtain res where c: "call_item rpc ''UnEquipItem'' \<lparr>iServer = eq_serverId e,
      iId = eq_character e, iCommand = ''UnEquipItem'', iItem = item\<lparr>Slot := slot\<rparr>, iNewItem = None\<rparr> m = (res, m')"
    and res: "ok \<and> er = nil \<longleftrightarrow> accepted iResult res" .
  from rows_frame [OF _ c] unequip [OF c] res e' show ?thesis unfolding in_step_def
    by (auto intro!: eq_coherent_update [OF e] eq_coherent_same [OF e] coherent_same [OF i] simp: eq_coherent_Equip [OF e])
qed

lemma Equipment_MoveItem_in_step:
  assumes "in_step rpc rows eqrows e i m" "Equipment_MoveItem old new e m = (r, e', m')"
  shows "in_step rpc rows eqrows e' i m'"
proof (cases "Equip e (key old) = None \<or> Equip e (key new) \<noteq> None")
  case True
  with assms show ?thesis by (auto simp: Equipment_MoveItem_def split: option.splits)
next
  case False
  have i: "coherent rpc rows i m" and e: "eq_coherent rpc eqrows e m" using assms(1) by (simp_all add: in_step_def)
  from False obtain item where item: "Equip e (key old) = Some item" and free: "Equip e (key new) = None" by auto
  then have ne: "new \<noteq> old" by auto
  let ?n = "zero_Item\<lparr>Slot := new\<rparr>"
  obtain ok er where s: "Equipment_sync ''MoveEquipmentItem'' (item\<lparr>Slot := old\<rparr>) (Some ?n) e m = ((ok, er), m')"
    and e': "e' = (if er = nil \<and> ok then e\<lparr>Equip := ((Equip e)(key old := None))(key new \<mapsto> item\<lparr>Slot := new\<rparr>)\<rparr> else e)"
    using assms(2) item free by (auto simp: Equipment_MoveItem_def Let_def split: prod.splits)
  from Equipment_sync_call [OF e s] obtain res where c: "call_item rpc ''MoveEquipmentItem'' \<lparr>iServer = eq_serverId e,
      iId = eq_character e, iCommand = ''MoveEquipmentItem'', iItem = item\<lparr>Slot := old\<rparr>, iNewItem = Some ?n\<rparr> m = (res, m')"
    and res: "ok \<and> er = nil \<longleftrightarrow> accepted iResult res" .
  have "eqrows m (eq_character e) old = Some item" using item eq_coherent_Equip [OF e] by metis
  with rows_frame [OF _ c] eq_move [OF c] res ne e' show ?thesis unfolding in_step_def
    by (auto intro!: eq_coherent_update [OF e] eq_coherent_same [OF e] coherent_same [OF i] simp: eq_coherent_Equip [OF e])
qed

lemma Equipment_Swap_in_step:
  assumes "in_step rpc rows eqrows e i m" "Equipment_Swap old new e m = (r, e', m')"
  shows "in_step rpc rows eqrows e' i m'"
proof (cases "Equip e (key old) = None \<or> Equip e (key new) = None")
  case True
  with assms show ?thesis by (auto simp: Equipment_Swap_def split: option.splits)
next
  case False
  have i: "coherent rpc rows i m" and e: "eq_coherent rpc eqrows e m" using assms(1) by (simp_all add: in_step_def)
  from False obtain a b where a: "Equip e (key old) = Some a" and b: "Equip e (key new) = Some b" by auto
  obtain ok er where s: "Equipment_sync ''SwapEquipmentItem'' (a\<lparr>Slot := new\<rparr>) (Some (b\<lparr>Slot := old\<rparr>)) e m = ((ok, er), m')"
    and e': "e' = (if er = nil then e\<lparr>Equip := ((((Equip e)(key old := None))(key new := None))(key new \<mapsto> a\<lparr>Slot := new\<rparr>))
                        (key old \<mapsto> b\<lparr>Slot := old\<rparr>)\<rparr> else e)"
    using assms(2) a b by (auto simp: Equipment_Swap_def Let_def split: prod.splits)
  from Equipment_sync_call [OF e s] obtain res where c: "call_item rpc ''SwapEquipmentItem'' \<lparr>iServer = eq_serverId e,
      iId = eq_character e, iCommand = ''SwapEquipmentItem'', iItem = a\<lparr>Slot := new\<rparr>, iNewItem = Some (b\<lparr>Slot := old\<rparr>)\<rparr> m
      = (res, m')" and "ok \<and> er = nil \<longleftrightarrow> accepted iResult res" "er = nil \<longleftrightarrow> (\<exists>p. res = Inr p)" .
  then have res: "er = nil \<longleftrightarrow> accepted iResult res" using eq_answers by (cases res) auto
  have rows: "eqrows m (eq_character e) old = Some a" "eqrows m (eq_character e) new = Some b"
    using a b eq_coherent_Equip [OF e] by metis+
  have "old = new \<Longrightarrow> a = b" using a b by simp
  with rows rows_frame [OF _ c] eq_swap [OF c] res e' show ?thesis unfolding in_step_def
    by (auto intro!: eq_coherent_update [OF e] eq_coherent_same [OF e] coherent_same [OF i] simp: eq_coherent_Equip [OF e])
qed

text \<open>
  Every move, whatever its outcome, leaves both containers in step with the database: a move is a
  chain of the operations above, and each has a rule that hands \<open>in_step\<close> on to the rest of the chain.
\<close>

definition kept :: "'m move_result \<Rightarrow> bool" where
  "kept x \<longleftrightarrow> (case x of (r, e, i, m) \<Rightarrow> in_step rpc rows eqrows e i m)"

lemma kept_return: "in_step rpc rows eqrows e i m \<Longrightarrow> kept (r, e, i, m)"
  by (simp add: kept_def)

lemma kept_if: "(b \<Longrightarrow> kept x) \<Longrightarrow> (\<not> b \<Longrightarrow> kept y) \<Longrightarrow> kept (if b then x else y)"
  by simp

lemma kept_Inventory_Remove:
  "in_step rpc rows eqrows e i m \<Longrightarrow> (\<And>ok err i m. in_step rpc rows eqrows e i m \<Longrightarrow> kept (f ok err i m)) \<Longrightarrow>
   kept (case Inventory_Remove slot i m of ((ok, err), i, m) \<Rightarrow> f ok err i m)"
  by (auto split: prod.split dest: Inventory_Remove_in_step)

lemma kept_Inventory_Set:
  "in_step rpc rows eqrows e i m \<Longrightarrow> Slot item = slot \<Longrightarrow>
   (\<And>ok err i m. in_step rpc rows eqrows e i m \<Longrightarrow> kept (f ok err i m)) \<Longrightarrow>
   kept (case Inventory_Set slot item i m of ((ok, err), i, m) \<Rightarrow> f ok err i m)"
  by (auto split: prod.split dest: Inventory_Set_in_step)

lemma kept_Equipment_Remove:
  "in_step rpc rows eqrows e i m \<Longrightarrow> (\<And>ok err e m. in_step rpc rows eqrows e i m \<Longrightarrow> kept (f ok err e m)) \<Longrightarrow>
   kept (case Equipment_Remove slot e m of ((ok, err), e, m) \<Rightarrow> f ok err e m)"
  by (auto split: prod.split dest: Equipment_Remove_in_step)

lemma kept_Equipment_Set:
  "in_step rpc rows eqrows e i m \<Longrightarrow> (\<And>ok err e m. in_step rpc rows eqrows e i m \<Longrightarrow> kept (f ok err e m)) \<Longrightarrow>
   kept (case Equipment_Set slot item e m of ((ok, err), e, m) \<Rightarrow> f ok err e m)"
  by (auto split: prod.split dest: Equipment_Set_in_step)

lemmas kept_rules = kept_if kept_Inventory_Remove kept_Inventory_Set kept_Equipment_Remove kept_Equipment_Set kept_return

lemma EquipItem_kept: "in_step rpc rows eqrows e i m \<Longrightarrow> kept (Equipment_EquipItem old new e i m)"
  unfolding Equipment_EquipItem_def Let_def by (intro kept_rules; assumption?) simp

lemma unEquipItem_kept: "in_step rpc rows eqrows e i m \<Longrightarrow> kept (unEquipItem old new e i m)"
  unfolding unEquipItem_def by (cases "Equip e (key old)"; simp only: option.case) (intro kept_rules; assumption?; simp)+

lemma kept_unEquipItem:
  "in_step rpc rows eqrows e i m \<Longrightarrow> (\<And>res e i m. in_step rpc rows eqrows e i m \<Longrightarrow> kept (f res e i m)) \<Longrightarrow>
   kept (case unEquipItem old new e i m of (res, e, i, m) \<Rightarrow> f res e i m)"
  using unEquipItem_kept [of e i m old new] by (cases "unEquipItem old new e i m") (simp add: kept_def [of "(_, _)"])

lemma kept_result:
  "(res = None \<Longrightarrow> kept x) \<Longrightarrow> (\<And>ok err. res = Some (ok, err) \<Longrightarrow> kept (f ok err)) \<Longrightarrow>
   kept (case res of None \<Rightarrow> x | Some (ok, err) \<Rightarrow> f ok err)"
  by (auto split: option.split prod.split)

lemma SwapEquipItem_kept: "in_step rpc rows eqrows e i m \<Longrightarrow> kept (SwapEquipItem old new e i m)"
  unfolding SwapEquipItem_def Let_def by (intro kept_rules kept_unEquipItem kept_result; assumption)

lemma shift_slots_in_step:
  "in_step rpc rows eqrows e i m \<Longrightarrow> shift_slots slots e m = (e', m') \<Longrightarrow> in_step rpc rows eqrows e' i m'"
proof (induction slots e m arbitrary: e' m' rule: shift_slots.induct)
  case (1 a b slots e m)
  obtain e1 m1 where 2: "shift_slots (b # slots) e m = (e1, m1)" by (cases "shift_slots (b # slots) e m")
  with 1 have "in_step rpc rows eqrows e1 i m1" "snd (Equipment_MoveItem a b e1 m1) = (e', m')" by simp_all
  then show ?case using Equipment_MoveItem_in_step by (metis prod.collapse)
qed simp_all

lemma kept_shift:
  "in_step rpc rows eqrows e i m \<Longrightarrow> (\<And>e m. in_step rpc rows eqrows e i m \<Longrightarrow> kept (f e m)) \<Longrightarrow>
   kept (case shift_slots slots e m of (e, m) \<Rightarrow> f e m)"
  using shift_slots_in_step [of e i m slots] by (cases "shift_slots slots e m") auto

lemma EquipAccessory_kept:
  assumes "in_step rpc rows eqrows e i m"
  shows "kept (EquipAccessory old slots e i m)"
proof (cases "Inv i (key old)")
  case None
  with assms show ?thesis
    by (auto simp: EquipAccessory_def Inventory_Remove_def Let_def intro!: kept_if kept_return EquipItem_kept)
next
  case (Some item)
  with assms rows_Slot have slot: "Slot (Inventory_Get old i) = old"
    unfolding in_step_def coherent_def Inventory_Get_def by (metis option.simps(5))
  show ?thesis
    unfolding EquipAccessory_def Equipment_UnEquipItem_def Let_def
    by (intro kept_rules kept_unEquipItem kept_result kept_shift EquipItem_kept slot; (rule assms | assumption)?)
qed

text \<open>
  The outcomes of a move. A success moved exactly the one item; a failure has changed nothing, or has
  lost the item between the two calls, or (when unequipping) has put it into the inventory slot with
  the number of the equipment slot.
\<close>

lemma EquipItem_outcome:
  assumes "coherent rpc rows i m" "Equipment_EquipItem old new e i m = (res, e', i', m')"
  shows "(res = Some (True, nil) \<and> Inv i (key old) = Some (Inventory_Get old i) \<and> Inv i' = (Inv i)(key old := None) \<and>
      Equip e' = (Equip e)(key new \<mapsto> (Inventory_Get old i)\<lparr>Slot := new\<rparr>)) \<or>
    (\<nexists>er. res = Some (True, er)) \<and> Equip e' = Equip e \<and>
      (Inv i' = Inv i \<or> Inv i' = (Inv i)(key old := None))"
proof (cases "Kind (Equipment_Get new e) \<noteq> 0")
  case True
  with assms(2) show ?thesis by (auto simp: Equipment_EquipItem_def Let_def)
next
  case False
  let ?it = "Inventory_Get old i"
  obtain ok1 er1 i1 m1 where 1: "Inventory_Remove old i m = ((ok1, er1), i1, m1)" by (metis prod.collapse)
  obtain ok2 er2 e2 m2 where 2: "Equipment_Set new (?it\<lparr>Slot := new\<rparr>) e m1 = ((ok2, er2), e2, m2)" by (metis prod.collapse)
  obtain ok3 er3 i3 m3 where 3: "Inventory_Set old (?it\<lparr>Slot := old\<rparr>) i1 m2 = ((ok3, er3), i3, m3)" by (metis prod.collapse)
  have eqs: "(res, e', i', m') = (if \<not> ok1 then (Some (ok1, er1), e, i1, m1) else if ok2 then (Some (ok2, nil), e2, i1, m2)
      else if \<not> ok3 then (rollback_error er2 er3, e2, i3, m3) else (Some (ok2, er2), e2, i3, m3))"
    using assms(2) False 1 2 3 by (simp add: Equipment_EquipItem_def Let_def cong: if_cong)
  have "rollback_error er2 er3 \<noteq> Some (True, er)" for er by (auto simp: rollback_error_def split: option.splits)
  moreover have "Inv i (key old) = Some it \<Longrightarrow> (Inv i)(key old \<mapsto> it\<lparr>Slot := old\<rparr>) = Inv i" for it
    using assms(1) rows_Slot [of m "character i" old it] by (simp add: coherent_def fun_upd_idem)
  ultimately show ?thesis
    using eqs Inventory_Remove_step [OF assms(1) 1] Equipment_Set_step [OF 2] Inventory_Set_step [OF 3]
    by (simp split: if_split_asm)
qed

lemma unEquipItem_outcome:
  assumes "Equipment_UnEquipItem old new e i m = (res, e', i', m')"
  shows "(\<exists>item. res = Some (True, nil) \<and> Equip e (key old) = Some item \<and> Equip e' = (Equip e)(key old := None) \<and>
      Inv i' = (Inv i)(key new \<mapsto> item\<lparr>Slot := new\<rparr>)) \<or>
    (\<nexists>er. res = Some (True, er)) \<and>
      ((Equip e' = Equip e \<and> Inv i' = Inv i) \<or>
       (\<exists>item. Equip e (key old) = Some item \<and> Equip e' = (Equip e)(key old := None) \<and>
         (Inv i' = Inv i \<or> Inv i' = (Inv i)(key old \<mapsto> item\<lparr>Slot := old\<rparr>))))"
proof (cases "Equip e (key old)")
  case None
  with assms show ?thesis by (auto simp: Equipment_UnEquipItem_def unEquipItem_def)
next
  case (Some item)
  obtain ok1 er1 e1 m1 where 1: "Equipment_Remove old e m = ((ok1, er1), e1, m1)" by (metis prod.collapse)
  obtain ok2 er2 i2 m2 where 2: "Inventory_Set new (item\<lparr>Slot := new\<rparr>) i m1 = ((ok2, er2), i2, m2)" by (metis prod.collapse)
  obtain ok3 er3 i3 m3 where 3: "Inventory_Set old (item\<lparr>Slot := old\<rparr>) i2 m2 = ((ok3, er3), i3, m3)" by (metis prod.collapse)
  have eqs: "(res, e', i', m') = (if \<not> ok1 then (Some (ok1, er1), e1, i, m1) else if ok2 then (Some (ok2, nil), e1, i2, m2)
      else if \<not> ok3 then (rollback_error er2 er3, e1, i3, m3) else (Some (ok2, er2), e1, i3, m3))"
    using assms Some 1 2 3 by (simp add: Equipment_UnEquipItem_def unEquipItem_def cong: if_cong)
  have "rollback_error er2 er3 \<noteq> Some (True, er)" for er by (auto simp: rollback_error_def split: option.splits)
  with eqs Equipment_Remove_step [OF 1] Inventory_Set_step [OF 2] Inventory_Set_step [OF 3] Some show ?thesis
    by (simp split: if_split_asm)
qed

end

section \<open>Sequences of operations\<close>

text \<open>What a client can trigger on the two containers, as the packet handlers call it.\<close>

datatype eq_op =
    EqEquip uint16 uint16 | EqUnEquip uint16 uint16 | EqSwapEquip uint16 uint16 | EqAccessory uint16 "int list"
  | EqSwap uint16 uint16 | EqMove uint16 uint16 | EqInv inv_op

fun run_eq_op :: "eq_op \<Rightarrow> 'm Equipment \<times> 'm Inventory \<times> 'm \<Rightarrow> 'm Equipment \<times> 'm Inventory \<times> 'm" where
  "run_eq_op (EqEquip a b) (e, i, m) = snd (Equipment_EquipItem a b e i m)"
| "run_eq_op (EqUnEquip a b) (e, i, m) = snd (Equipment_UnEquipItem a b e i m)"
| "run_eq_op (EqSwapEquip a b) (e, i, m) = snd (SwapEquipItem a b e i m)"
| "run_eq_op (EqAccessory a slots) (e, i, m) = snd (EquipAccessory a slots e i m)"
| "run_eq_op (EqSwap a b) (e, i, m) = (case Equipment_Swap a b e m of (r, e, m) \<Rightarrow> (e, i, m))"
| "run_eq_op (EqMove a b) (e, i, m) = (case Equipment_MoveItem a b e m of (r, e, m) \<Rightarrow> (e, i, m))"
| "run_eq_op (EqInv p) (e, i, m) = (e, run_op p (i, m))"

context equipment_master
begin

lemma frame_ops:
  assumes "rpcHandler i = Some rpc"
  shows "eqrows (snd (snd (Purchase item price i m))) = eqrows m"
    and "eqrows (snd (snd (Sell items price i m))) = eqrows m"
    and "eqrows (snd (snd (ConsumeSkillBook slot itemID skill i m))) = eqrows m"
    and "eqrows (snd (snd (Enchant t k cs i m))) = eqrows m"
    and "eqrows (snd (snd (attachLocked s t it i m))) = eqrows m"
  using assms eqrows_frame_other
  by (simp_all add: Purchase_def Sell_def ConsumeSkillBook_def Enchant_def attachLocked_def Let_def
      split: option.split prod.split sum.split)

lemma frame_sync_ops:
  assumes "coherent rpc rows i m"
  shows "eqrows (snd (snd (Inventory_Set slot item i m))) = eqrows m"
    and "eqrows (snd (snd (Inventory_Remove slot i m))) = eqrows m"
    and "eqrows (snd (snd (ConsumeOne slot i m))) = eqrows m"
    and "eqrows (snd (snd (Inventory_Swap a b i m))) = eqrows m"
    and "eqrows (snd (snd (Move a b i m))) = eqrows m"
  using sync_frame [OF assms]
  by (simp_all add: Inventory_Set_def Inventory_Remove_def ConsumeOne_def Inventory_Swap_def Move_def Let_def
      split: option.split prod.split)

lemma run_op_in_step:
  assumes "in_step rpc rows eqrows e i m" "run_op p (i, m) = (i', m')"
  shows "in_step rpc rows eqrows e i' m'"
proof -
  have i: "coherent rpc rows i m" and e: "eq_coherent rpc eqrows e m" using assms(1) by (simp_all add: in_step_def)
  have "eqrows (snd (run_op p (i, m))) = eqrows m"
    by (cases p) (simp_all add: frame_sync_ops [OF i] frame_ops [OF coherent_rpc [OF i]] Attach_def AttachWithTarget_def
        split: option.split)
  with assms(2) run_op_coherent [of "(i, m)" p] i e show ?thesis
    by (simp add: in_step_def eq_coherent_same)
qed

lemma kept_snd: "kept x \<Longrightarrow> snd x = (e, i, m) \<Longrightarrow> in_step rpc rows eqrows e i m"
  by (cases x) (simp add: kept_def)

lemma run_eq_op_in_step:
  assumes "in_step rpc rows eqrows e i m" "run_eq_op p (e, i, m) = (e', i', m')"
  shows "in_step rpc rows eqrows e' i' m'"
  using assms(2)
  by (cases p) (auto split: prod.splits intro: kept_snd assms(1) EquipItem_kept unEquipItem_kept SwapEquipItem_kept
      EquipAccessory_kept simp: Equipment_UnEquipItem_def dest: Equipment_Swap_in_step [OF assms(1)]
      Equipment_MoveItem_in_step [OF assms(1)] run_op_in_step [OF assms(1)])

lemma run_eq_ops_in_step:
  "in_step rpc rows eqrows e i m \<Longrightarrow> fold run_eq_op ps (e, i, m) = (e', i', m') \<Longrightarrow> in_step rpc rows eqrows e' i' m'"
proof (induction ps arbitrary: e i m)
  case (Cons p ps)
  obtain e1 i1 m1 where s: "run_eq_op p (e, i, m) = (e1, i1, m1)" by (metis prod.collapse)
  with Cons.IH [OF run_eq_op_in_step [OF Cons.prems(1) s]] Cons.prems(2) show ?case by simp
qed simp

end

section \<open>Serialisation\<close>

lemma eqTypes_keys: "map fst eqTypes = map int [0..<20]"
  by (simp add: eqTypes_def upt_rec numeral_eq_Suc)

lemma MapEquipment_map_of:
  "MapEquipment entries name = (case map_of (map prod.swap entries) name of Some k \<Rightarrow> word_of_int k | None \<Rightarrow> 65535)"
  by (induction entries name rule: MapEquipment.induct) auto

lemma map_of_cong_set:
  assumes "distinct (map fst ys)" "set xs = set ys"
  shows "map_of xs = map_of ys"
proof
  fix k
  show "map_of xs k = map_of ys k"
  proof (cases "map_of xs k")
    case None
    with assms(2) show ?thesis by (metis map_of_eq_None_iff image_set)
  next
    case (Some v)
    then have "(k, v) \<in> set ys" using assms(2) map_of_SomeD by fastforce
    with assms(1) Some show ?thesis by simp
  qed
qed

lemma Kind_default:
  "Kind (case x of None \<Rightarrow> it\<lparr>Slot := s\<rparr> | Some item \<Rightarrow> item) = Kind (case x of None \<Rightarrow> it | Some item \<Rightarrow> item)"
  by (simp split: option.split)

lemma serialize_equip:
  "foldl (\<lambda>(equip, len) v. (equip @ f v, len + 1)) (bs, n) ks = (bs @ concat (map f ks), n + length ks)"
  by (induction ks arbitrary: bs n) simp_all

text \<open>
  The three ways the equipment is written do not depend on the order in which maps are walked.
  \<open>Serialize\<close> decodes to the worn items in slot order; \<open>SerializeKind\<close>, which ranges over positions where it
  means the keys, writes the kinds of the twenty slots in order all the same, because the keys of
  \<open>eqTypes\<close> are the positions; and \<open>MapEquipment\<close> gives each name its slot and 65535 to any other.
\<close>

theorem equipment_serialised:
  assumes "distinct ks" and "set ks = dom (Equip e)" and "set entries = set eqTypes"
  shows "(case Equipment_Serialize ks e of (bs, n) \<Rightarrow>
       items_of_bytes n bs = map (\<lambda>k. the (Equip e k)) (sorted_list_of_set (dom (Equip e)))) \<and>
     SerializeKind e = concat (map (\<lambda>(k, _). le_bytes 4 (Kind (Equipment_Get (word_of_int k) e))) eqTypes) \<and>
     MapEquipment entries name = (case map_of (map prod.swap eqTypes) name of Some k \<Rightarrow> word_of_int k | None \<Rightarrow> 65535)"
proof (intro conjI)
  have ks: "sort ks = sorted_list_of_set (dom (Equip e))"
    using assms by (metis sorted_list_of_set.idem_if_sorted_distinct distinct_sort set_sort sorted_sort)
  let ?f = "\<lambda>v. case Equip e v of Some it \<Rightarrow> it | None \<Rightarrow> zero_Item"
  have "Equipment_Serialize ks e = (concat (map item_bytes (map ?f (sort ks))), length (map ?f (sort ks)))"
    using serialize_equip [of "\<lambda>v. item_bytes (?f v)" "[]" 0 "sort ks"] by (simp add: Equipment_Serialize_def comp_def)
  moreover have "map ?f (sort ks) = map (\<lambda>k. the (Equip e k)) (sort ks)" using assms(2) by (auto split: option.split)
  ultimately show "case Equipment_Serialize ks e of (bs, n) \<Rightarrow>
       items_of_bytes n bs = map (\<lambda>k. the (Equip e k)) (sorted_list_of_set (dom (Equip e)))"
    by (simp only: ks prod.case items_round_trip)
  show "SerializeKind e = concat (map (\<lambda>(k, _). le_bytes 4 (Kind (Equipment_Get (word_of_int k) e))) eqTypes)"
    by (simp add: SerializeKind_def eqTypes_def Equipment_Get_def upt_rec Kind_default)
  have "distinct (map fst (map prod.swap eqTypes))" by (simp add: eqTypes_def)
  from map_of_cong_set [OF this, of "map prod.swap entries"] assms(3)
  show "MapEquipment entries name = (case map_of (map prod.swap eqTypes) name of Some k \<Rightarrow> word_of_int k | None \<Rightarrow> 65535)"
    by (simp add: MapEquipment_map_of)
qed

theorem equipment_serialised_witness:
  "MapEquipment (rev eqTypes) ''belt'' = 19 \<and>
   (case Equipment_Serialize [4, 0] \<lparr>Equip = [0 \<mapsto> zero_Item\<lparr>Kind := 9\<rparr>, 4 \<mapsto> zero_Item\<lparr>Kind := 7, Slot := 4\<rparr>],
       eq_rpcHandler = None, eq_character = 1, eq_serverId = 1\<rparr> of (bs, n) \<Rightarrow>
     items_of_bytes n bs = [zero_Item\<lparr>Kind := 9\<rparr>, zero_Item\<lparr>Kind := 7, Slot := 4\<rparr>])"
proof -
  let ?e = "\<lparr>Equip = [0 \<mapsto> zero_Item\<lparr>Kind := 9\<rparr>, 4 \<mapsto> zero_Item\<lparr>Kind := 7, Slot := 4\<rparr>],
       eq_rpcHandler = None, eq_character = 1, eq_serverId = 1\<rparr>"
  have dom: "dom (Equip ?e) = {0, 4}" by auto
  have srt: "sorted_list_of_set {0, 4 :: int} = [0, 4]" by simp
  have belt: "map_of (map prod.swap eqTypes) ''belt'' = Some 19" by (simp add: eqTypes_def)
  have "distinct [4, 0 :: int]" "set [4, 0] = dom (Equip ?e)" "set (rev eqTypes) = set eqTypes"
    unfolding dom by auto
  note r = equipment_serialised [OF this, of "''belt''"]
  show ?thesis
    using conjunct1 [OF r] conjunct2 [OF conjunct2 [OF r]] unfolding dom srt belt by simp
qed

end
