(* ===== verification/Freya_Character.thy ===== *)
theory Freya_Character
  imports Freya_Equipment
begin

text \<open>
  The character of a player (\<open>share/models/character/character.go\<close>, \<open>style.go\<close>, \<open>hp.go\<close>, \<open>mp.go\<close>, \<open>sp.go\<close>,
  \<open>attack.go\<close>): its packed style, and the values the server derives from level, ranks and attributes.
  The arithmetic is that of the code, in 32-bit words where it uses \<open>uint32\<close>; the theorems show where it
  is exact and where it wraps.
\<close>

section \<open>Data (character.go, style.go)\<close>

record Style =
  BattleStyle :: byte
  MasteryLevel :: byte
  Face :: byte
  HairColor :: byte
  HairStyle :: byte
  Aura :: byte
  Gender :: bool
  Helmet :: bool

text \<open>The fields the modelled code reads; names are byte strings.\<close>

record 'm Character =
  CharId :: int32
  Name :: "byte list"
  cLevel :: uint16
  World :: byte
  X :: byte
  Y :: byte
  CharStyle :: Style
  LiveStyle :: int32
  Alz :: uint64
  Nation :: byte
  GuildNo :: uint32
  SwordRank :: byte
  MagicRank :: byte
  SwordExp :: uint16
  MagicExp :: uint16
  SwordPoint :: uint16
  MagicPoint :: uint16
  SwordRankExp :: uint16
  MagicRankExp :: uint16
  CurrentHP :: uint16
  MaxHP :: uint16
  CurrentMP :: uint16
  MaxMP :: uint16
  CurrentSP :: uint16
  MaxSP :: uint16
  CharSTR :: uint32
  CharINT :: uint32
  CharDEX :: uint32
  CharPNT :: uint32
  CharExp :: uint64
  PremiumService :: byte
  PremiumExpire :: uint64
  CharEquipment :: "'m Equipment"
  CharInventory :: "'m Inventory"
  CharSkills :: "uint16 \<rightharpoonup> Skill"
  BeginX :: int16
  BeginY :: int16
  EndX :: int16
  EndY :: int16

definition HasPremium :: "uint64 \<Rightarrow> 'm Character \<Rightarrow> bool" where
  "HasPremium now c \<longleftrightarrow> PremiumService c \<noteq> 0 \<and> now < PremiumExpire c"

section \<open>Style (style.go)\<close>

definition ClassRankForLevel :: "uint16 \<Rightarrow> byte" where
  "ClassRankForLevel level =
     (if level = 0 then 1
      else let rank = (ucast level :: uint32) div 10 + 1 in
           let rank = (if 31 < rank then 31 else rank) in ucast rank)"

definition Style_Set :: "uint32 \<Rightarrow> Style" where
  "Style_Set style = \<lparr>
     BattleStyle = ucast (style AND 0x07),
     MasteryLevel = ucast (drop_bit 3 style AND 0x1F),
     Face = ucast (drop_bit 8 style AND 0x1F),
     HairColor = ucast (drop_bit 13 style AND 0x0F),
     HairStyle = ucast (drop_bit 17 style AND 0x1F),
     Aura = ucast (drop_bit 22 style AND 0x0F),
     Gender = (drop_bit 26 style AND 0x01 = 0x01),
     Helmet = (drop_bit 27 style AND 0x01 = 0x01)\<rparr>"

definition Style_Get :: "Style \<Rightarrow> uint32" where
  "Style_Get s =
     (let style = ucast (BattleStyle s);
          style = style + push_bit 3 (ucast (MasteryLevel s));
          style = style + push_bit 8 (ucast (Face s));
          style = style + push_bit 13 (ucast (HairColor s));
          style = style + push_bit 17 (ucast (HairStyle s));
          style = style + push_bit 22 (ucast (Aura s));
          style = (if \<not> Gender s then style + push_bit 26 0 else style + push_bit 26 1);
          style = (if \<not> Helmet s then style + push_bit 27 0 else style + push_bit 27 1)
      in style)"

definition Style_Verify :: "Style \<Rightarrow> bool \<times> Style" where
  "Style_Verify s =
     (let s = s\<lparr>MasteryLevel := 1, Aura := 0, Helmet := False\<rparr> in
      if BattleStyle s < 1 \<or> 6 < BattleStyle s then (False, s)
      else if 3 < Face s \<or> 7 < HairColor s \<or> 6 < HairStyle s then (False, s)
      else (True, s))"

section \<open>Health and mana (hp.go, mp.go)\<close>

record hpFormula =
  initialHP :: uint32
  deltaHP :: uint32
  masteryBDelta :: uint32

definition hpFormulas :: "hpFormula list" where
  "hpFormulas =
     [\<lparr>initialHP = 0, deltaHP = 0, masteryBDelta = 0\<rparr>,
      \<lparr>initialHP = 50, deltaHP = 30, masteryBDelta = 500\<rparr>,
      \<lparr>initialHP = 50, deltaHP = 30, masteryBDelta = 389\<rparr>,
      \<lparr>initialHP = 40, deltaHP = 20, masteryBDelta = 79\<rparr>,
      \<lparr>initialHP = 40, deltaHP = 20, masteryBDelta = 184\<rparr>,
      \<lparr>initialHP = 45, deltaHP = 25, masteryBDelta = 310\<rparr>,
      \<lparr>initialHP = 45, deltaHP = 25, masteryBDelta = 310\<rparr>]"

record mpFormula =
  initialMP :: uint32
  deltaMP :: uint32

definition mpFormulas :: "mpFormula list" where
  "mpFormulas =
     [\<lparr>initialMP = 0, deltaMP = 0\<rparr>, \<lparr>initialMP = 20, deltaMP = 10\<rparr>, \<lparr>initialMP = 20, deltaMP = 10\<rparr>,
      \<lparr>initialMP = 30, deltaMP = 20\<rparr>, \<lparr>initialMP = 30, deltaMP = 20\<rparr>, \<lparr>initialMP = 25, deltaMP = 15\<rparr>,
      \<lparr>initialMP = 25, deltaMP = 15\<rparr>]"

text \<open>The loops of \<open>rankHPBonus\<close> and \<open>rankMPBonus\<close> over the ranks before the current one.\<close>

definition rankHPBonus :: "byte \<Rightarrow> bool \<Rightarrow> uint32" where
  "rankHPBonus rank sword =
     (if rank \<le> 1 then 0
      else fold (\<lambda>previousRank bonus. if sword then bonus + 10 * (word_of_nat previousRank + 1)
                                      else bonus + 5 * (word_of_nat previousRank + 1)) [1..<unat rank] 0)"

definition rankMPBonus :: "byte \<Rightarrow> bool \<Rightarrow> uint32" where
  "rankMPBonus rank sword =
     (if rank \<le> 1 then 0
      else fold (\<lambda>previousRank bonus. if sword then bonus + 5 * (word_of_nat previousRank + 1)
                                      else bonus + 10 * (word_of_nat previousRank + 1)) [1..<unat rank] 0)"

definition CalculateMaxHP :: "'m Character \<Rightarrow> uint16" where
  "CalculateMaxHP c =
     (let style = BattleStyle (CharStyle c) in
      if style = 0 \<or> length hpFormulas \<le> unat style then MaxHP c
      else
        let formula = hpFormulas ! unat style;
            level = ucast (cLevel c) :: uint32;
            level = (if level = 0 then 1 else level);
            maxHP = initialHP formula + deltaHP formula * (level - 1) div 10;
            maxHP = maxHP + rankHPBonus (SwordRank c) True;
            maxHP = maxHP + rankHPBonus (MagicRank c) False;
            masteryLevel = ucast (MasteryLevel (CharStyle c)) :: uint32;
            maxHP = (if 8 \<le> masteryLevel
                     then let masteryFactor = 5 * masteryLevel * masteryLevel - 14 * masteryLevel + 9
                          in maxHP + masteryBDelta formula * masteryFactor div 500
                     else maxHP)
        in if maxHP = 0 then 1 else if 65535 < maxHP then 65535 else ucast maxHP)"

definition CalculateMaxMP :: "'m Character \<Rightarrow> uint16" where
  "CalculateMaxMP c =
     (let style = BattleStyle (CharStyle c) in
      if style = 0 \<or> length mpFormulas \<le> unat style then MaxMP c
      else
        let formula = mpFormulas ! unat style;
            level = ucast (cLevel c) :: uint32;
            level = (if level = 0 then 1 else level);
            maxMP = initialMP formula + deltaMP formula * (level - 1) div 10;
            maxMP = maxMP + rankMPBonus (SwordRank c) True;
            maxMP = maxMP + rankMPBonus (MagicRank c) False
        in if maxMP = 0 then 1 else if 65535 < maxMP then 65535 else ucast maxMP)"

text \<open>The value kept in proportion when the maximum changes; \<open>RecalculateHP\<close> and \<open>RecalculateMP\<close> spell it out alike.\<close>

definition keep_share :: "uint16 \<Rightarrow> uint16 \<Rightarrow> uint16 \<Rightarrow> uint16" where
  "keep_share oldCurrent oldMax newMax =
     (if oldMax = 0 \<or> oldCurrent = 0 \<or> oldMax \<le> oldCurrent then newMax
      else let newCurrent = ucast ((ucast oldCurrent :: uint32) * ucast newMax div ucast oldMax) in
           if newCurrent = 0 then 1 else newCurrent)"

definition RecalculateHP :: "'m Character \<Rightarrow> bool \<times> 'm Character" where
  "RecalculateHP c =
     (let oldCurrentHP = CurrentHP c; oldMaxHP = MaxHP c; newMaxHP = CalculateMaxHP c;
          c = c\<lparr>MaxHP := newMaxHP, CurrentHP := keep_share oldCurrentHP oldMaxHP newMaxHP\<rparr>
      in (oldCurrentHP \<noteq> CurrentHP c \<or> oldMaxHP \<noteq> MaxHP c, c))"

definition RecalculateMP :: "'m Character \<Rightarrow> bool \<times> 'm Character" where
  "RecalculateMP c =
     (let oldCurrentMP = CurrentMP c; oldMaxMP = MaxMP c; newMaxMP = CalculateMaxMP c;
          c = c\<lparr>MaxMP := newMaxMP, CurrentMP := keep_share oldCurrentMP oldMaxMP newMaxMP\<rparr>
      in (oldCurrentMP \<noteq> CurrentMP c \<or> oldMaxMP \<noteq> MaxMP c, c))"

section \<open>Spirit points (sp.go)\<close>

definition SpiritPointsPerLamp :: uint16 where "SpiritPointsPerLamp = 5000"
definition maxSpiritLamps :: byte where "maxSpiritLamps = 5"

definition CalculateMaxSP :: "'m Character \<Rightarrow> uint16" where
  "CalculateMaxSP c =
     (if MasteryLevel (CharStyle c) < 2 then 0
      else let lamps = MasteryLevel (CharStyle c) - 1;
               lamps = (if maxSpiritLamps < lamps then maxSpiritLamps else lamps)
           in ucast lamps * SpiritPointsPerLamp)"

definition RecalculateSP :: "'m Character \<Rightarrow> bool \<times> 'm Character" where
  "RecalculateSP c =
     (let oldCurrentSP = CurrentSP c; oldMaxSP = MaxSP c;
          c = c\<lparr>MaxSP := CalculateMaxSP c\<rparr>;
          c = (if MaxSP c < CurrentSP c then c\<lparr>CurrentSP := MaxSP c\<rparr> else c)
      in (oldCurrentSP \<noteq> CurrentSP c \<or> oldMaxSP \<noteq> MaxSP c, c))"

definition AddSpiritPoints :: "uint32 \<Rightarrow> 'm Character \<Rightarrow> bool \<times> 'm Character" where
  "AddSpiritPoints amount c =
     (if amount = 0 \<or> MaxSP c \<le> CurrentSP c then (False, c)
      else
        let newCurrentSP = (ucast (CurrentSP c) :: uint32) + amount;
            newCurrentSP = (if ucast (MaxSP c) < newCurrentSP then ucast (MaxSP c) else newCurrentSP)
        in if newCurrentSP = ucast (CurrentSP c) then (False, c)
           else (True, c\<lparr>CurrentSP := ucast newCurrentSP\<rparr>))"

section \<open>Attack (attack.go)\<close>

record AttackStats =
  PhysicalMin :: int
  PhysicalMax :: int
  MagicAttack :: int

record attackStatCoefficient =
  coefStr :: int
  coefDex :: int
  intStat :: int
  masteryA :: int
  masteryB :: int
  magicStr :: int
  magicDex :: int
  magicInt :: int
  magicMasteryA :: int
  magicMasteryB :: int

definition attackStatCoefficients :: "attackStatCoefficient list" where
  "attackStatCoefficients =
    [\<lparr>coefStr = 0, coefDex = 0, intStat = 0, masteryA = 0, masteryB = 0, magicStr = 0, magicDex = 0, magicInt = 0, magicMasteryA = 0, magicMasteryB = 0\<rparr>,
     \<lparr>coefStr = 3000, coefDex = 2000, intStat = 0, masteryA = 8, masteryB = -5, magicStr = 1000, magicDex = 1000, magicInt = 3000, magicMasteryA = 5, magicMasteryB = -4\<rparr>,
     \<lparr>coefStr = 2500, coefDex = 2500, intStat = 0, masteryA = 7, masteryB = -4, magicStr = 1000, magicDex = 1000, magicInt = 3500, magicMasteryA = 5, magicMasteryB = -4\<rparr>,
     \<lparr>coefStr = 2000, coefDex = 1000, intStat = 1000, masteryA = 5, masteryB = -4, magicStr = 0, magicDex = 1000, magicInt = 3500, magicMasteryA = 8, magicMasteryB = -7\<rparr>,
     \<lparr>coefStr = 2000, coefDex = 1200, intStat = 1000, masteryA = 5, masteryB = -5, magicStr = 0, magicDex = 1800, magicInt = 3000, magicMasteryA = 6, magicMasteryB = -5\<rparr>,
     \<lparr>coefStr = 2500, coefDex = 2300, intStat = 1000, masteryA = 6, masteryB = -2, magicStr = 500, magicDex = 2500, magicInt = 2900, magicMasteryA = 5, magicMasteryB = -4\<rparr>,
     \<lparr>coefStr = 2400, coefDex = 2300, intStat = 1000, masteryA = 6, masteryB = -3, magicStr = 500, magicDex = 2500, magicInt = 2850, magicMasteryA = 5, magicMasteryB = -4\<rparr>]"

text \<open>All quantities divided here are nonnegative, where Go's division is \<open>div\<close>.\<close>

definition CalculateMagicAttack :: "'m Character \<Rightarrow> int" where
  "CalculateMagicAttack c =
     (let style = unat (BattleStyle (CharStyle c));
          style = (if style \<le> 0 \<or> length attackStatCoefficients \<le> style then 1 else style);
          coef = attackStatCoefficients ! style;
          magic = (magicStr coef * uint (CharSTR c) + magicDex coef * uint (CharDEX c) + magicInt coef * uint (CharINT c)) div 10000;
          magic = magic + (magicMasteryA coef * uint (MasteryLevel (CharStyle c)) + magicMasteryB coef)
      in if magic < 1 then 1 else magic)"

definition CalculateAttack :: "'m Character \<Rightarrow> AttackStats" where
  "CalculateAttack c =
     (let style = unat (BattleStyle (CharStyle c));
          style = (if style \<le> 0 \<or> length attackStatCoefficients \<le> style then 1 else style);
          coef = attackStatCoefficients ! style;
          ma = (coefStr coef * uint (CharSTR c) + coefDex coef * uint (CharDEX c) + intStat coef * uint (CharINT c)) div 10000;
          ma = ma + (masteryA coef * uint (MasteryLevel (CharStyle c)) + masteryB coef);
          ma = (if ma < 1 then 1 else ma);
          mi = ma * 4 div 5 + ma div 20;
          mi = (if mi < 1 then 1 else mi);
          mi = (if ma < mi then ma else mi)
      in \<lparr>PhysicalMin = mi, PhysicalMax = ma, MagicAttack = CalculateMagicAttack c\<rparr>)"

section \<open>The packed style\<close>

lemma ucast_nat: "(ucast (x :: 'a::len word) :: 'b::len word) = word_of_nat (unat x)"
  by simp

lemma unat_field: "unat (drop_bit k (w :: uint32) AND mask j) = unat w div 2 ^ k mod 2 ^ j"
proof -
  have "unat (take_bit j (drop_bit k w)) = take_bit j (drop_bit k (unat w))"
    by (simp only: unsigned_take_bit_eq unat_drop_bit_eq)
  then show ?thesis
    by (simp only: take_bit_eq_mask [where 'a = "32 word"] take_bit_eq_mod [where 'a = nat] drop_bit_eq_div [where 'a = nat])
qed

lemma field_of_word:
  fixes w :: uint32
  assumes "j \<le> 8"
  shows "unat (ucast (drop_bit k w AND mask j) :: byte) = unat w div 2 ^ k mod 2 ^ j"
proof -
  have "unat w div 2 ^ k mod 2 ^ j < 2 ^ j" by simp
  also have "(2 :: nat) ^ j \<le> 2 ^ 8" using assms by (intro power_increasing) simp_all
  finally have "unat w div 2 ^ k mod 2 ^ j < 2 ^ LENGTH(8)" by simp
  then show ?thesis by (simp only: ucast_nat unat_field unat_word_of_nat)
qed

lemma flag_of_word:
  fixes w :: uint32
  shows "drop_bit k w AND 1 = 1 \<longleftrightarrow> unat w div 2 ^ k mod 2 = 1"
proof -
  have "drop_bit k w AND 1 = 1 \<longleftrightarrow> unat (drop_bit k w AND mask 1) = 1" by (simp add: unat_1 word_unat_eq_iff)
  then show ?thesis by (simp only: unat_field power_one_right)
qed

lemma style_number:
  "Style_Get s = word_of_nat (unat (BattleStyle s) + 8 * (unat (MasteryLevel s) + 32 * (unat (Face s) + 32 *
     (unat (HairColor s) + 16 * (unat (HairStyle s) + 32 * (unat (Aura s) + 16 * (of_bool (Gender s) + 2 * of_bool (Helmet s))))))))"
  unfolding Style_Get_def Let_def push_bit_eq_mult ucast_nat by (simp add: algebra_simps)

lemma mask_values: "mask 3 = (7 :: uint32)" "mask 4 = (15 :: uint32)" "mask 5 = (31 :: uint32)"
  by (simp_all add: mask_eq_exp_minus_1)

lemmas field5 = field_of_word [of 5, unfolded mask_values] and field4 = field_of_word [of 4, unfolded mask_values]
  and field3 = field_of_word [of 3 0, unfolded mask_values drop_bit_0 id_apply]

lemma Style_Set_fields:
  fixes w :: uint32
  shows "unat (BattleStyle (Style_Set w)) = unat w mod 8"
    "unat (MasteryLevel (Style_Set w)) = unat w div 8 mod 32"
    "unat (Face (Style_Set w)) = unat w div 256 mod 32"
    "unat (HairColor (Style_Set w)) = unat w div 8192 mod 16"
    "unat (HairStyle (Style_Set w)) = unat w div 131072 mod 32"
    "unat (Aura (Style_Set w)) = unat w div 4194304 mod 16"
    "Gender (Style_Set w) = (unat w div 67108864 mod 2 = 1)"
    "Helmet (Style_Set w) = (unat w div 134217728 mod 2 = 1)"
proof -
  show "unat (BattleStyle (Style_Set w)) = unat w mod 8"
    unfolding Style_Set_def Style.simps by (rule trans [OF field3]) simp_all
  show "unat (MasteryLevel (Style_Set w)) = unat w div 8 mod 32"
    unfolding Style_Set_def Style.simps by (rule trans [OF field5]) simp_all
  show "unat (Face (Style_Set w)) = unat w div 256 mod 32"
    unfolding Style_Set_def Style.simps by (rule trans [OF field5]) simp_all
  show "unat (HairColor (Style_Set w)) = unat w div 8192 mod 16"
    unfolding Style_Set_def Style.simps by (rule trans [OF field4]) simp_all
  show "unat (HairStyle (Style_Set w)) = unat w div 131072 mod 32"
    unfolding Style_Set_def Style.simps by (rule trans [OF field5]) simp_all
  show "unat (Aura (Style_Set w)) = unat w div 4194304 mod 16"
    unfolding Style_Set_def Style.simps by (rule trans [OF field4]) simp_all
  show "Gender (Style_Set w) = (unat w div 67108864 mod 2 = 1)"
    unfolding Style_Set_def Style.simps by (rule trans [OF flag_of_word]) simp
  show "Helmet (Style_Set w) = (unat w div 134217728 mod 2 = 1)"
    unfolding Style_Set_def Style.simps by (rule trans [OF flag_of_word]) simp
qed

lemma split_28:
  "n mod 268435456 = n mod 8 + 8 * (n div 8 mod 32 + 32 * (n div 256 mod 32 + 32 *
     (n div 8192 mod 16 + 16 * (n div 131072 mod 32 + 32 * (n div 4194304 mod 16 + 16 *
     (n div 67108864 mod 2 + 2 * (n div 134217728 mod 2)))))))" for n :: nat
proof -
  have "n mod (8 * (32 * (32 * (16 * (32 * (16 * (2 * 2))))))) = n mod 8 + 8 * (n div 8 mod 32 + 32 * (n div 8 div 32 mod 32 + 32 *
     (n div 8 div 32 div 32 mod 16 + 16 * (n div 8 div 32 div 32 div 16 mod 32 + 32 * (n div 8 div 32 div 32 div 16 div 32 mod 16 + 16 *
     (n div 8 div 32 div 32 div 16 div 32 div 16 mod 2 + 2 * (n div 8 div 32 div 32 div 16 div 32 div 16 div 2 mod 2)))))))"
    by (simp only: mod_mult2_eq add.commute)
  then show ?thesis by (simp add: div_mult2_eq [symmetric])
qed

lemma Style_Get_Set: "Style_Get (Style_Set w) = take_bit 28 w"
proof -
  have "of_bool (n mod 2 = 1) = n mod 2" for n :: nat by (cases "even n") (simp_all add: odd_iff_mod_2_eq_one)
  then have "Style_Get (Style_Set w) = word_of_nat (unat w mod 268435456)"
    unfolding style_number Style_Set_fields split_28 [of "unat w"] by simp
  also have "unat w mod 268435456 = unat (take_bit 28 w)"
    by (simp add: unsigned_take_bit_eq take_bit_eq_mod [where 'a = nat] del: take_bit_eq_mod)
  finally show ?thesis by simp
qed

lemma digit: "b < k \<Longrightarrow> n = b + k * q \<Longrightarrow> n mod k = b \<and> n div k = (q :: nat)"
  by simp

lemma Style_Set_Get:
  assumes "BattleStyle s < 8" "MasteryLevel s < 32" "Face s < 32" "HairColor s < 16" "HairStyle s < 32" "Aura s < 16"
  shows "Style_Set (Style_Get s) = s"
proof -
  have b: "unat (BattleStyle s) < 8" "unat (MasteryLevel s) < 32" "unat (Face s) < 32" "unat (HairColor s) < 16"
    "unat (HairStyle s) < 32" "unat (Aura s) < 16"
    using assms by (simp_all add: word_less_nat_alt)
  define n7 where "n7 = of_bool (Gender s) + 2 * (of_bool (Helmet s) :: nat)"
  define n6 where "n6 = unat (Aura s) + 16 * n7"
  define n5 where "n5 = unat (HairStyle s) + 32 * n6"
  define n4 where "n4 = unat (HairColor s) + 16 * n5"
  define n3 where "n3 = unat (Face s) + 32 * n4"
  define n2 where "n2 = unat (MasteryLevel s) + 32 * n3"
  define n where "n = unat (BattleStyle s) + 8 * n2"
  note defs = n7_def n6_def n5_def n4_def n3_def n2_def n_def
  have "n7 < 4" by (simp add: n7_def)
  then have "n < 2 ^ LENGTH(32)" using b by (simp add: defs(2-))
  moreover have "Style_Get s = word_of_nat n" by (simp only: style_number defs)
  ultimately have n: "unat (Style_Get s) = n" by (simp only: unat_word_of_nat)
  note q = digit [OF b(1) n_def] digit [OF b(2) n2_def] digit [OF b(3) n3_def] digit [OF b(4) n4_def]
    digit [OF b(5) n5_def] digit [OF b(6) n6_def]
  have m: "n mod 8 = unat (BattleStyle s)" "n2 mod 32 = unat (MasteryLevel s)" "n3 mod 32 = unat (Face s)"
    "n4 mod 16 = unat (HairColor s)" "n5 mod 32 = unat (HairStyle s)" "n6 mod 16 = unat (Aura s)"
    using q by blast+
  have "n div 8 = n2" "n2 div 32 = n3" "n3 div 32 = n4" "n4 div 16 = n5" "n5 div 32 = n6" "n6 div 16 = n7"
    using q by blast+
  moreover have "n7 mod 2 = of_bool (Gender s)" "n7 div 2 = of_bool (Helmet s)" by (simp_all add: n7_def)
  ultimately have d: "n div 256 = n3" "n div 8192 = n4" "n div 131072 = n5" "n div 4194304 = n6" "n div 67108864 = n7"
    "n div 134217728 = of_bool (Helmet s)" "n div 8 = n2" "n7 mod 2 = of_bool (Gender s)"
    using div_mult2_eq [of n 8 32] div_mult2_eq [of n 256 32] div_mult2_eq [of n 8192 16] div_mult2_eq [of n 131072 32]
      div_mult2_eq [of n 4194304 16] div_mult2_eq [of n 67108864 2] by simp_all
  have "unat (BattleStyle (Style_Set (Style_Get s))) = unat (BattleStyle s)"
    "unat (MasteryLevel (Style_Set (Style_Get s))) = unat (MasteryLevel s)"
    "unat (Face (Style_Set (Style_Get s))) = unat (Face s)"
    "unat (HairColor (Style_Set (Style_Get s))) = unat (HairColor s)"
    "unat (HairStyle (Style_Set (Style_Get s))) = unat (HairStyle s)"
    "unat (Aura (Style_Set (Style_Get s))) = unat (Aura s)"
    "Gender (Style_Set (Style_Get s)) = Gender s" "Helmet (Style_Set (Style_Get s)) = Helmet s"
    by (simp_all only: Style_Set_fields n d m) simp_all
  then show ?thesis by (simp add: word_unat_eq_iff Style.equality)
qed

section \<open>The arithmetic of the maxima\<close>

text \<open>The bonus of the ranks in closed form: \<open>c\<close> times the sum of \<open>2 + ... + rank\<close>.\<close>

lemma fold_bonus: "fold (\<lambda>k b. b + word_of_nat c * (word_of_nat k + 1)) [1..<n] (0 :: uint32) = word_of_nat (c * (\<Sum>k = 1..<n. k + 1))"
proof (induction n)
  case (Suc n)
  then show ?case by (cases "n = 0") (simp_all add: algebra_simps)
qed simp

lemmas fold_bonus_values = fold_bonus [of 10, unfolded of_nat_numeral] fold_bonus [of 5, unfolded of_nat_numeral]

lemma rank_sum: "2 * (\<Sum>k = 1..<n. k + 1) + 2 = (if n = 0 then 2 else n * (n + 1))" for n :: nat
  by (induction n) (auto simp: algebra_simps)

definition rank_bonus :: "nat \<Rightarrow> byte \<Rightarrow> nat" where
  "rank_bonus c rank = c * ((unat rank * (unat rank + 1) div 2) - 1)"

lemma sum_rank_bonus: "(\<Sum>k = 1..<unat rank. k + 1) = unat rank * (unat rank + 1) div 2 - (1 :: nat)"
  using rank_sum [of "unat rank"] by (simp split: if_splits)

lemma rankHPBonus_eq: "rankHPBonus rank sword = word_of_nat (rank_bonus (if sword then 10 else 5) rank)"
proof (cases "rank \<le> 1")
  case True
  then have "unat rank = 0 \<or> unat rank = 1" by (simp add: word_le_nat_alt) linarith
  with True show ?thesis by (auto simp: rankHPBonus_def rank_bonus_def)
next
  case False
  then show ?thesis
    by (cases sword) (simp_all only: rankHPBonus_def rank_bonus_def sum_rank_bonus fold_bonus_values if_True if_False)
qed

lemma rankMPBonus_eq: "rankMPBonus rank sword = word_of_nat (rank_bonus (if sword then 5 else 10) rank)"
proof (cases "rank \<le> 1")
  case True
  then have "unat rank = 0 \<or> unat rank = 1" by (simp add: word_le_nat_alt) linarith
  with True show ?thesis by (auto simp: rankMPBonus_def rank_bonus_def)
next
  case False
  then show ?thesis
    by (cases sword) (simp_all only: rankMPBonus_def rank_bonus_def sum_rank_bonus fold_bonus_values if_True if_False)
qed

lemma byte_less: "unat (x :: byte) < 256" and uint16_less: "unat (y :: uint16) < 65536"
  using unsigned_less [of x] unsigned_less [of y] by simp_all

lemma rank_bonus_bound: "c \<le> 10 \<Longrightarrow> rank_bonus c rank \<le> 326390"
proof -
  assume "c \<le> 10"
  have "unat rank * (unat rank + 1) \<le> 255 * 256" using byte_less [of rank] by (intro mult_le_mono) simp_all
  then have "unat rank * (unat rank + 1) div 2 - 1 \<le> 32639" by linarith
  with \<open>c \<le> 10\<close> have "c * (unat rank * (unat rank + 1) div 2 - 1) \<le> 10 * 32639" by (intro mult_le_mono)
  then show ?thesis by (simp add: rank_bonus_def)
qed

definition level_of :: "'m Character \<Rightarrow> nat" where
  "level_of c = max 1 (unat (cLevel c))"

definition mastery_bonus :: "nat \<Rightarrow> nat \<Rightarrow> nat" where
  "mastery_bonus d m = (if m < 8 then 0 else d * (5 * m * m + 9 - 14 * m) div 500)"

definition clamp16 :: "nat \<Rightarrow> uint16" where
  "clamp16 n = word_of_nat (max 1 (min 65535 n))"

lemma clamp_word:
  assumes "n < 2 ^ 32"
  shows "(if (word_of_nat n :: uint32) = 0 then 1 else if 65535 < (word_of_nat n :: uint32) then 65535 else ucast (word_of_nat n :: uint32)) = clamp16 n"
proof -
  have u: "unat (word_of_nat n :: uint32) = n" using assms by (simp add: unat_word_of_nat)
  have "(word_of_nat n :: uint32) = 0 \<longleftrightarrow> n = 0" using u by (metis unat_0 unat_eq_zero of_nat_0)
  moreover have "65535 < (word_of_nat n :: uint32) \<longleftrightarrow> 65535 < n" using u by (simp add: word_less_nat_alt)
  moreover have "ucast (word_of_nat n :: uint32) = (word_of_nat n :: uint16)" using ucast_nat [of "word_of_nat n :: uint32"] u by simp
  ultimately show ?thesis by (auto simp: clamp16_def max_def min_def)
qed

lemma word_div32: "a < 2 ^ 32 \<Longrightarrow> b < 2 ^ 32 \<Longrightarrow> (word_of_nat a :: uint32) div word_of_nat b = word_of_nat (a div b)"
  by (simp add: word_arith_nat_div unat_word_of_nat)

lemma word_div10: "a < 2 ^ 32 \<Longrightarrow> (word_of_nat a :: uint32) div 10 = word_of_nat (a div 10)"
  using word_div32 [of a 10] by simp

lemma word_div500: "a < 2 ^ 32 \<Longrightarrow> (word_of_nat a :: uint32) div 500 = word_of_nat (a div 500)"
  using word_div32 [of a 500] by simp

lemma unat_id: "word_of_nat (unat x) = (x :: 'a::len word)"
  by simp

lemma unat_up: "unat (ucast (m :: byte) :: uint32) = unat m" "unat (ucast (l :: uint16) :: uint32) = unat l"
proof -
  have "unat m < 2 ^ LENGTH(32)" "unat l < 2 ^ LENGTH(32)" using byte_less [of m] uint16_less [of l] by simp_all
  then show "unat (ucast m :: uint32) = unat m" "unat (ucast l :: uint32) = unat l"
    by (simp_all only: ucast_nat unat_word_of_nat)
qed

lemma level_part:
  assumes "d \<le> 30"
  shows "(word_of_nat d :: uint32) * ((if (ucast l :: uint32) = 0 then 1 else ucast l) - 1) div 10 =
     word_of_nat (d * (max 1 (unat (l :: uint16)) - 1) div 10)"
proof -
  have n0: "(ucast l :: uint32) = 0 \<longleftrightarrow> l = 0" by (metis unat_up(2) unat_eq_zero)
  have "(if (ucast l :: uint32) = 0 then 1 else ucast l) - 1 = (word_of_nat (max 1 (unat l) - 1) :: uint32)"
  proof (cases "l = 0")
    case False
    then have "1 \<le> unat l" by (simp add: Suc_leI word_neq_0_conv unat_gt_0)
    with False have "word_of_nat (max 1 (unat l) - 1) = (ucast l - 1 :: uint32)" unfolding ucast_nat by (simp add: of_nat_diff)
    with False show ?thesis unfolding n0 by simp
  qed simp
  then have "(word_of_nat d :: uint32) * ((if (ucast l :: uint32) = 0 then 1 else ucast l) - 1)
      = word_of_nat (d * (max 1 (unat l) - 1))" by simp
  moreover have "d * (max 1 (unat l) - 1) \<le> 30 * 65535" using assms uint16_less [of l] by (intro mult_le_mono) auto
  then have "d * (max 1 (unat l) - 1) < 2 ^ 32" by simp
  ultimately show ?thesis by (simp only: word_div10)
qed

lemma mastery_bound: "(d :: nat) \<le> 500 \<Longrightarrow> m < 256 \<Longrightarrow> d * (5 * m * m + 9 - 14 * m) \<le> 500 * 327684"
proof (rule mult_le_mono)
  assume "m < 256"
  then have "5 * m * m \<le> 5 * 255 * 255" by (intro mult_le_mono) simp_all
  then show "5 * m * m + 9 - 14 * m \<le> 327684" by linarith
qed

lemma mastery_part:
  assumes "d \<le> 500"
  shows "(if 8 \<le> (ucast (m :: byte) :: uint32)
     then x + word_of_nat d * (5 * ucast m * ucast m - 14 * ucast m + 9) div 500 else x) = (x :: uint32) + word_of_nat (mastery_bonus d (unat m))"
proof -
  have le: "8 \<le> (ucast m :: uint32) \<longleftrightarrow> 8 \<le> unat m"
    by (simp add: word_le_nat_alt unat_up)
  show ?thesis
  proof (cases "8 \<le> unat m")
    case False
    then show ?thesis unfolding le by (simp add: mastery_bonus_def)
  next
    case True
    then have "14 \<le> 5 * unat m" by simp
    from mult_le_mono1 [OF this, of "unat m"] have "14 * unat m \<le> 5 * unat m * unat m + 9" by linarith
    then have "(5 * ucast m * ucast m - 14 * ucast m + 9 :: uint32) = word_of_nat (5 * unat m * unat m + 9 - 14 * unat m)"
      unfolding ucast_nat by (simp add: of_nat_diff)
    then have "(word_of_nat d :: uint32) * (5 * ucast m * ucast m - 14 * ucast m + 9) = word_of_nat (d * (5 * unat m * unat m + 9 - 14 * unat m))"
      by simp
    moreover have "d * (5 * unat m * unat m + 9 - 14 * unat m) < 2 ^ 32"
      using mastery_bound [OF assms byte_less [of m]] by simp
    ultimately have "(word_of_nat d :: uint32) * (5 * ucast m * ucast m - 14 * ucast m + 9) div 500 =
        word_of_nat (d * (5 * unat m * unat m + 9 - 14 * unat m) div 500)"
      by (simp only: word_div500)
    with True show ?thesis unfolding le by (simp add: mastery_bonus_def del: of_nat_mult)
  qed
qed

definition hp_spec :: "'m Character \<Rightarrow> nat" where
  "hp_spec c =
     (let f = hpFormulas ! unat (BattleStyle (CharStyle c)) in
      unat (initialHP f) + unat (deltaHP f) * (level_of c - 1) div 10 + rank_bonus 10 (SwordRank c) +
      rank_bonus 5 (MagicRank c) + mastery_bonus (unat (masteryBDelta f)) (unat (MasteryLevel (CharStyle c))))"

definition mp_spec :: "'m Character \<Rightarrow> nat" where
  "mp_spec c =
     (let f = mpFormulas ! unat (BattleStyle (CharStyle c)) in
      unat (initialMP f) + unat (deltaMP f) * (level_of c - 1) div 10 + rank_bonus 5 (SwordRank c) +
      rank_bonus 10 (MagicRank c))"

lemma hpFormulas_bounds: "f \<in> set hpFormulas \<Longrightarrow> unat (initialHP f) \<le> 50 \<and> unat (deltaHP f) \<le> 30 \<and> unat (masteryBDelta f) \<le> 500"
  by (auto simp: hpFormulas_def)

lemma mpFormulas_bounds: "f \<in> set mpFormulas \<Longrightarrow> unat (initialMP f) \<le> 30 \<and> unat (deltaMP f) \<le> 20"
  by (auto simp: mpFormulas_def)

lemma CalculateMaxHP_eq:
  assumes "BattleStyle (CharStyle c) \<noteq> 0" "unat (BattleStyle (CharStyle c)) < length hpFormulas"
  shows "CalculateMaxHP c = clamp16 (hp_spec c)"
proof -
  let ?f = "hpFormulas ! unat (BattleStyle (CharStyle c))"
  have b: "unat (initialHP ?f) \<le> 50" "unat (deltaHP ?f) \<le> 30" "unat (masteryBDelta ?f) \<le> 500"
    using hpFormulas_bounds [OF nth_mem [OF assms(2)]] by simp_all
  have "CalculateMaxHP c = (let maxHP = word_of_nat (hp_spec c) :: uint32 in
      if maxHP = 0 then 1 else if 65535 < maxHP then 65535 else ucast maxHP)"
  proof -
    have ns: "\<not> (BattleStyle (CharStyle c) = 0 \<or> length hpFormulas \<le> unat (BattleStyle (CharStyle c)))" using assms by simp
    note L = level_part [OF b(2), unfolded unat_id] and M = mastery_part [OF b(3), unfolded unat_id]
    show ?thesis
      unfolding CalculateMaxHP_def Let_def if_not_P [OF ns] L M rankHPBonus_eq if_True if_False
      by (simp add: hp_spec_def Let_def level_of_def)
  qed
  moreover have "hp_spec c < 2 ^ 32"
  proof -
    have "unat (deltaHP ?f) * (level_of c - 1) \<le> 30 * 65535"
      using b uint16_less [of "cLevel c"] by (intro mult_le_mono) (auto simp: level_of_def)
    then have "unat (deltaHP ?f) * (level_of c - 1) div 10 \<le> 30 * 65535" by (rule le_trans [OF div_le_dividend])
    moreover have "mastery_bonus (unat (masteryBDelta ?f)) (unat (MasteryLevel (CharStyle c))) \<le> 327684"
      using mastery_bound [OF b(3) byte_less, of "MasteryLevel (CharStyle c)"] by (simp add: mastery_bonus_def) linarith
    moreover have "rank_bonus 10 (SwordRank c) \<le> 326390" "rank_bonus 5 (MagicRank c) \<le> 326390" by (simp_all add: rank_bonus_bound)
    moreover note b(1)
    ultimately have "hp_spec c \<le> 50 + 30 * 65535 + 326390 + 326390 + 327684"
      unfolding hp_spec_def Let_def by (intro add_mono)
    then show ?thesis by simp
  qed
  ultimately show ?thesis using clamp_word [of "hp_spec c"] by (simp only: Let_def)
qed

lemma CalculateMaxMP_eq:
  assumes "BattleStyle (CharStyle c) \<noteq> 0" "unat (BattleStyle (CharStyle c)) < length mpFormulas"
  shows "CalculateMaxMP c = clamp16 (mp_spec c)"
proof -
  let ?f = "mpFormulas ! unat (BattleStyle (CharStyle c))"
  have b: "unat (initialMP ?f) \<le> 30" "unat (deltaMP ?f) \<le> 30"
    using mpFormulas_bounds [OF nth_mem [OF assms(2)]] by simp_all
  have "CalculateMaxMP c = (let maxMP = word_of_nat (mp_spec c) :: uint32 in
      if maxMP = 0 then 1 else if 65535 < maxMP then 65535 else ucast maxMP)"
  proof -
    have ns: "\<not> (BattleStyle (CharStyle c) = 0 \<or> length mpFormulas \<le> unat (BattleStyle (CharStyle c)))" using assms by simp
    note L = level_part [OF b(2), unfolded unat_id]
    show ?thesis
      unfolding CalculateMaxMP_def Let_def if_not_P [OF ns] L rankMPBonus_eq if_True if_False
      by (simp add: mp_spec_def Let_def level_of_def)
  qed
  moreover have "mp_spec c < 2 ^ 32"
  proof -
    have "unat (deltaMP ?f) * (level_of c - 1) \<le> 30 * 65535"
      using b uint16_less [of "cLevel c"] by (intro mult_le_mono) (auto simp: level_of_def)
    then have "unat (deltaMP ?f) * (level_of c - 1) div 10 \<le> 30 * 65535" by (rule le_trans [OF div_le_dividend])
    moreover have "rank_bonus 5 (SwordRank c) \<le> 326390" "rank_bonus 10 (MagicRank c) \<le> 326390" by (simp_all add: rank_bonus_bound)
    moreover note b(1)
    ultimately have "mp_spec c \<le> 30 + 30 * 65535 + 326390 + 326390"
      unfolding mp_spec_def Let_def by (intro add_mono)
    then show ?thesis by simp
  qed
  ultimately show ?thesis using clamp_word [of "mp_spec c"] by (simp only: Let_def)
qed

section \<open>Properties\<close>

lemma keep_share_value:
  assumes "oldMax \<noteq> 0" "cur \<noteq> 0" "cur < oldMax"
  shows "unat (keep_share cur oldMax newMax) = max 1 (unat cur * unat newMax div unat oldMax)"
proof -
  have lt: "unat cur < unat oldMax" using assms(3) by (simp add: word_less_nat_alt)
  have "unat cur * unat newMax \<le> 65535 * 65535" using uint16_less [of cur] uint16_less [of newMax] by (intro mult_le_mono) auto
  then have m: "unat cur * unat newMax < 2 ^ 32" by simp
  have "unat oldMax < 2 ^ 32" using uint16_less [of oldMax] by simp
  with m have e: "(ucast cur :: uint32) * ucast newMax div ucast oldMax = word_of_nat (unat cur * unat newMax div unat oldMax)"
    unfolding ucast_nat of_nat_mult [symmetric] by (rule word_div32)
  have q: "unat cur * unat newMax div unat oldMax \<le> unat newMax"
    using lt by (metis div_le_mono div_mult_self1_is_m less_imp_le_nat mult_le_mono1 less_nat_zero_code neq0_conv)
  then have q': "unat cur * unat newMax div unat oldMax < 2 ^ LENGTH(32)" "unat cur * unat newMax div unat oldMax < 2 ^ LENGTH(16)"
    using uint16_less [of newMax] by simp_all
  have "unat (ucast (word_of_nat (unat cur * unat newMax div unat oldMax) :: uint32) :: uint16)
      = unat cur * unat newMax div unat oldMax"
    by (simp only: ucast_nat [of "word_of_nat _"] unat_word_of_nat [OF q'(1)] unat_word_of_nat [OF q'(2)])
  then have "unat (ucast ((ucast cur :: uint32) * ucast newMax div ucast oldMax) :: uint16) = unat cur * unat newMax div unat oldMax"
    by (simp only: e)
  moreover have "keep_share cur oldMax newMax = (let w = ucast ((ucast cur :: uint32) * ucast newMax div ucast oldMax) in
      if w = 0 then 1 else w)"
    using assms by (auto simp: keep_share_def not_le)
  ultimately show ?thesis
    by (cases "unat cur * unat newMax div unat oldMax = 0") (simp_all only: Let_def unat_eq_zero [symmetric] if_True if_False unat_1, simp_all)
qed

lemma keep_share_bounds:
  assumes "newMax \<noteq> 0"
  shows "keep_share cur oldMax newMax \<noteq> 0 \<and> keep_share cur oldMax newMax \<le> newMax"
proof (cases "oldMax \<noteq> 0 \<and> cur \<noteq> 0 \<and> cur < oldMax")
  case False
  with assms show ?thesis by (auto simp: keep_share_def)
next
  case True
  then have lt: "unat cur < unat oldMax" by (simp add: word_less_nat_alt)
  then have "unat cur * unat newMax div unat oldMax \<le> unat newMax"
    by (metis div_le_mono div_mult_self1_is_m less_imp_le_nat mult_le_mono1 less_nat_zero_code neq0_conv)
  moreover have "1 \<le> unat newMax" using assms by (metis Suc_leI One_nat_def unat_gt_0)
  ultimately have "1 \<le> unat (keep_share cur oldMax newMax)" "unat (keep_share cur oldMax newMax) \<le> unat newMax"
    using keep_share_value [of oldMax cur newMax] True by simp_all
  then show ?thesis by (auto simp: word_le_nat_alt)
qed

lemma keep_share_again:
  assumes "newMax \<noteq> 0" "cur \<noteq> 0" "cur \<le> newMax"
  shows "keep_share cur newMax newMax = cur"
proof (cases "cur < newMax")
  case True
  have "unat (keep_share cur newMax newMax) = max 1 (unat cur)"
    using keep_share_value [OF assms(1,2) True, of newMax] assms(1) by (simp add: unat_gt_0)
  moreover have "1 \<le> unat cur" using assms(2) by (metis Suc_leI One_nat_def unat_gt_0)
  ultimately show ?thesis by (simp add: word_unat_eq_iff)
qed (use assms in \<open>auto simp: keep_share_def\<close>)

lemma clamp16_bounds: "clamp16 n \<noteq> 0"
proof -
  have "unat (clamp16 n) = max 1 (min 65535 n)" unfolding clamp16_def by (rule unat_word_of_nat) auto
  then show ?thesis by auto
qed

text \<open>
  C27: The style packs into 28 bits without loss: packing what was unpacked gives the low 28 bits back,
  and unpacking what was packed gives the style back whenever its fields fit their bits, which holds of
  every style \<open>Verify\<close> accepts.
\<close>

theorem Style_round_trip:
  "Style_Get (Style_Set w) = take_bit 28 w \<and>
   (BattleStyle s < 8 \<and> MasteryLevel s < 32 \<and> Face s < 32 \<and> HairColor s < 16 \<and> HairStyle s < 32 \<and> Aura s < 16 \<longrightarrow>
     Style_Set (Style_Get s) = s) \<and>
   (fst (Style_Verify s) \<longrightarrow> Style_Set (Style_Get (snd (Style_Verify s))) = snd (Style_Verify s))"
proof (intro conjI impI)
  assume v: "fst (Style_Verify s)"
  have "BattleStyle (snd (Style_Verify s)) < 8 \<and> MasteryLevel (snd (Style_Verify s)) < 32 \<and> Face (snd (Style_Verify s)) < 32 \<and>
      HairColor (snd (Style_Verify s)) < 16 \<and> HairStyle (snd (Style_Verify s)) < 32 \<and> Aura (snd (Style_Verify s)) < 16"
    using v by (auto simp: Style_Verify_def Let_def word_less_nat_alt not_less word_le_nat_alt split: if_splits)
  then show "Style_Set (Style_Get (snd (Style_Verify s))) = snd (Style_Verify s)" by (intro Style_Set_Get) simp_all
qed (simp_all add: Style_Get_Set Style_Set_Get)

definition sample_style :: Style where
  "sample_style = \<lparr>BattleStyle = 3, MasteryLevel = 12, Face = 2, HairColor = 5, HairStyle = 6, Aura = 1, Gender = True, Helmet = False\<rparr>"

theorem Style_round_trip_witness: "Style_Set (Style_Get sample_style) = sample_style"
  using Style_round_trip [of 0 sample_style] by (simp add: sample_style_def)

lemma at_least_1: "1 \<le> (if a < 1 then 1 else a :: int)"
  by simp

lemma attack_min: "1 \<le> (if (if a < 1 then 1 else a) < (if b < 1 then 1 else b) then (if a < 1 then 1 else a)
    else (if b < 1 then 1 else b :: int))"
  by simp

lemma attack_le: "(if a < b then a else b) \<le> (a :: int)"
  by simp

text \<open>
  C28: The 32-bit arithmetic behind the maxima never wraps: for each of the six battle styles the maxima of
  health and mana are the values of the formulas over the natural numbers, kept between 1 and 65535;
  the spirit maximum is 5000 for each of at most five ranks above the first; and the attack range is
  never empty, reversed or below 1.
\<close>

theorem max_vitals_exact:
  assumes "BattleStyle (CharStyle c) \<in> {1, 2, 3, 4, 5, 6}"
  shows "CalculateMaxHP c = clamp16 (hp_spec c) \<and> CalculateMaxMP c = clamp16 (mp_spec c) \<and>
     unat (CalculateMaxSP c) = 5000 * min 5 (unat (MasteryLevel (CharStyle c)) - 1) \<and>
     1 \<le> PhysicalMin (CalculateAttack c) \<and> PhysicalMin (CalculateAttack c) \<le> PhysicalMax (CalculateAttack c) \<and>
     1 \<le> MagicAttack (CalculateAttack c)"
proof (intro conjI)
  have l: "BattleStyle (CharStyle c) \<noteq> 0" "unat (BattleStyle (CharStyle c)) < length hpFormulas"
    "unat (BattleStyle (CharStyle c)) < length mpFormulas"
    using assms by (auto simp: hpFormulas_def mpFormulas_def)
  show "CalculateMaxHP c = clamp16 (hp_spec c)" using l by (intro CalculateMaxHP_eq)
  show "CalculateMaxMP c = clamp16 (mp_spec c)" using l by (intro CalculateMaxMP_eq)
  let ?m = "MasteryLevel (CharStyle c)"
  show "unat (CalculateMaxSP c) = 5000 * min 5 (unat ?m - 1)"
  proof (cases "?m < 2")
    case True
    then have "unat ?m \<le> 1" by (simp add: word_less_nat_alt)
    with True show ?thesis by (simp add: CalculateMaxSP_def)
  next
    case False
    then have m: "2 \<le> unat ?m" by (simp add: word_less_nat_alt not_less)
    then have "?m \<noteq> 0" by auto
    then have u: "unat (?m - 1) = unat ?m - 1" by (metis unat_minus_one)
    have "(if maxSpiritLamps < ?m - 1 then maxSpiritLamps else ?m - 1) = (word_of_nat (min 5 (unat ?m - 1)) :: byte)"
      using u by (auto simp: maxSpiritLamps_def word_less_nat_alt min_def) (metis unat_id)+
    then have "CalculateMaxSP c = ucast (word_of_nat (min 5 (unat ?m - 1)) :: byte) * 5000"
      using False by (simp add: CalculateMaxSP_def SpiritPointsPerLamp_def Let_def)
    also have "ucast (word_of_nat (min 5 (unat ?m - 1)) :: byte) = (word_of_nat (min 5 (unat ?m - 1)) :: uint16)"
    proof -
      have "min 5 (unat ?m - 1) < 2 ^ LENGTH(8)" by simp
      then show ?thesis by (simp only: ucast_nat unat_word_of_nat)
    qed
    also have "word_of_nat (min 5 (unat ?m - 1)) * 5000 = (word_of_nat (5000 * min 5 (unat ?m - 1)) :: uint16)"
      by (simp add: mult.commute)
    finally have "CalculateMaxSP c = word_of_nat (5000 * min 5 (unat ?m - 1))" .
    moreover have "5000 * min 5 (unat ?m - 1) < 2 ^ LENGTH(16)" by simp
    ultimately show ?thesis by (simp only: unat_word_of_nat)
  qed
  show "1 \<le> PhysicalMin (CalculateAttack c)" "PhysicalMin (CalculateAttack c) \<le> PhysicalMax (CalculateAttack c)"
    "1 \<le> MagicAttack (CalculateAttack c)"
    unfolding CalculateAttack_def CalculateMagicAttack_def Let_def AttackStats.simps
    by (rule attack_min attack_le at_least_1)+
qed

definition sample_char :: "unit Character" where
  "sample_char = \<lparr>CharId = 7, Name = [], cLevel = 45, World = 1, X = 10, Y = 20, CharStyle = sample_style, LiveStyle = 0,
     Alz = 100, Nation = 0, GuildNo = 0, SwordRank = 3, MagicRank = 9, SwordExp = 0, MagicExp = 0,
     SwordPoint = 0, MagicPoint = 0, SwordRankExp = 0, MagicRankExp = 0, CurrentHP = 100, MaxHP = 300, CurrentMP = 0, MaxMP = 10, CurrentSP = 400, MaxSP = 5000,
     CharSTR = 20, CharINT = 90, CharDEX = 30, CharPNT = 0, CharExp = 0, PremiumService = 0, PremiumExpire = 0,
     CharEquipment = \<lparr>Equip = Map.empty, eq_rpcHandler = None, eq_character = 7, eq_serverId = 1\<rparr>,
     CharInventory = \<lparr>Inv = Map.empty, rpcHandler = None, character = 7, serverId = 1\<rparr>,
     CharSkills = Map.empty, BeginX = 10, BeginY = 20, EndX = 10, EndY = 20\<rparr>"

theorem max_vitals_exact_witness:
  "BattleStyle (CharStyle sample_char) = 3 \<and> CalculateMaxHP sample_char = clamp16 (hp_spec sample_char) \<and>
   hp_spec sample_char = 486"
proof -
  have "BattleStyle (CharStyle sample_char) = 3" by (simp add: sample_char_def sample_style_def)
  with max_vitals_exact [of sample_char] show ?thesis
    by (simp add: hp_spec_def sample_char_def sample_style_def hpFormulas_def level_of_def rank_bonus_def mastery_bonus_def)
qed

text \<open>
  Recalculating health, mana or spirit leaves a current value within its maximum, above zero for
  health and mana, and doing it again changes nothing and reports no change.
\<close>

theorem recalculate_vitals:
  assumes "BattleStyle (CharStyle c) \<in> {1, 2, 3, 4, 5, 6}"
  shows "(case RecalculateHP c of (_, d) \<Rightarrow> CurrentHP d \<noteq> 0 \<and> CurrentHP d \<le> MaxHP d \<and> RecalculateHP d = (False, d)) \<and>
     (case RecalculateMP c of (_, d) \<Rightarrow> CurrentMP d \<noteq> 0 \<and> CurrentMP d \<le> MaxMP d \<and> RecalculateMP d = (False, d)) \<and>
     (case RecalculateSP c of (_, d) \<Rightarrow> CurrentSP d \<le> MaxSP d \<and> RecalculateSP d = (False, d))"
proof (intro conjI)
  have l: "BattleStyle (CharStyle c) \<noteq> 0" "unat (BattleStyle (CharStyle c)) < length hpFormulas"
    "unat (BattleStyle (CharStyle c)) < length mpFormulas"
    using assms by (auto simp: hpFormulas_def mpFormulas_def)
  have hp: "CalculateMaxHP c \<noteq> 0" and mp: "CalculateMaxMP c \<noteq> 0"
    using CalculateMaxHP_eq [OF l(1,2)] CalculateMaxMP_eq [OF l(1,3)] clamp16_bounds by simp_all
  have same: "CalculateMaxHP (c\<lparr>MaxHP := m, CurrentHP := v\<rparr>) = CalculateMaxHP c"
    "CalculateMaxMP (c\<lparr>MaxMP := m, CurrentMP := v\<rparr>) = CalculateMaxMP c" for m v
    using l by (simp_all add: CalculateMaxHP_def CalculateMaxMP_def Let_def not_le)
  note kb = keep_share_bounds [OF hp, of "CurrentHP c" "MaxHP c"] and kb' = keep_share_bounds [OF mp, of "CurrentMP c" "MaxMP c"]
  show "case RecalculateHP c of (_, d) \<Rightarrow> CurrentHP d \<noteq> 0 \<and> CurrentHP d \<le> MaxHP d \<and> RecalculateHP d = (False, d)"
    using kb keep_share_again [OF hp, of "keep_share (CurrentHP c) (MaxHP c) (CalculateMaxHP c)"]
    by (simp add: RecalculateHP_def same Let_def)
  show "case RecalculateMP c of (_, d) \<Rightarrow> CurrentMP d \<noteq> 0 \<and> CurrentMP d \<le> MaxMP d \<and> RecalculateMP d = (False, d)"
    using kb' keep_share_again [OF mp, of "keep_share (CurrentMP c) (MaxMP c) (CalculateMaxMP c)"]
    by (simp add: RecalculateMP_def same Let_def)
  show "case RecalculateSP c of (_, d) \<Rightarrow> CurrentSP d \<le> MaxSP d \<and> RecalculateSP d = (False, d)"
    by (auto simp: RecalculateSP_def CalculateMaxSP_def Let_def word_gt_0)
qed

theorem recalculate_vitals_witness:
  "case RecalculateHP sample_char of (_, d) \<Rightarrow> CurrentHP d \<noteq> 0 \<and> CurrentHP d \<le> MaxHP d \<and> RecalculateHP d = (False, d)"
  using recalculate_vitals [of sample_char] by (simp add: sample_char_def sample_style_def)

text \<open>
  Adding spirit points never exceeds the maximum and adds the full amount up to it, as long as the
  32-bit sum does not wrap; an amount that wraps it takes points away and reports a change.
\<close>

theorem AddSpiritPoints_bounds:
  assumes "CurrentSP c \<le> MaxSP c"
  shows "case AddSpiritPoints amount c of (changed, d) \<Rightarrow>
     CurrentSP d \<le> MaxSP c \<and> (changed \<longleftrightarrow> CurrentSP d \<noteq> CurrentSP c) \<and>
     (unat (CurrentSP c) + unat amount < 2 ^ 32 \<longrightarrow> unat (CurrentSP d) = min (unat (CurrentSP c) + unat amount) (unat (MaxSP c))) \<and>
     (amount = - 1 \<and> CurrentSP c \<noteq> 0 \<and> CurrentSP c < MaxSP c \<longrightarrow> CurrentSP d = CurrentSP c - 1)"
proof (cases "amount = 0 \<or> MaxSP c \<le> CurrentSP c")
  case True
  with assms show ?thesis by (auto simp: AddSpiritPoints_def word_le_nat_alt word_less_nat_alt)
next
  case False
  let ?cur = "CurrentSP c" and ?max = "MaxSP c"
  let ?s = "(ucast ?cur :: uint32) + amount"
  let ?n = "if ucast ?max < ?s then ucast ?max else ?s"
  have lt: "unat ?cur < unat ?max" "amount \<noteq> 0" using False by (simp_all add: word_less_nat_alt not_le)
  have n: "unat ?n = min (unat ?s) (unat ?max)" by (auto simp: word_less_nat_alt unat_up min_def)
  then have small: "unat ?n \<le> unat ?max" by simp
  then have "unat ?n < 2 ^ LENGTH(16)" using uint16_less [of ?max] by simp
  then have down: "unat (ucast ?n :: uint16) = unat ?n" by (simp only: ucast_nat unat_word_of_nat)
  have res: "AddSpiritPoints amount c = (if ?n = ucast ?cur then (False, c) else (True, c\<lparr>CurrentSP := ucast ?n\<rparr>))"
    using False by (simp only: AddSpiritPoints_def Let_def if_False)
  have val: "unat (CurrentSP (snd (AddSpiritPoints amount c))) = min (unat ?s) (unat ?max)"
  proof (cases "?n = ucast ?cur")
    case True
    then have "unat ?n = unat ?cur" by (simp only: unat_up)
    with True show ?thesis using n by (simp add: res)
  next
    case False
    have "CurrentSP (c\<lparr>CurrentSP := v\<rparr>) = v" for v by simp
    then show ?thesis by (simp only: res if_not_P [OF False] snd_conv down n)
  qed
  have changed: "fst (AddSpiritPoints amount c) \<longleftrightarrow> CurrentSP (snd (AddSpiritPoints amount c)) \<noteq> ?cur"
  proof (cases "?n = ucast ?cur")
    case False
    have "unat ?n \<noteq> unat (ucast ?cur :: uint32)" using False unfolding word_unat_eq_iff .
    then have "unat ?n \<noteq> unat ?cur" by (simp only: unat_up not_False_eq_True)
    then have "(ucast ?n :: uint16) \<noteq> ?cur" unfolding word_unat_eq_iff down .
    moreover have "CurrentSP (c\<lparr>CurrentSP := v\<rparr>) = v" for v by simp
    ultimately show ?thesis by (simp only: res if_not_P [OF False] fst_conv snd_conv not_False_eq_True)
  qed (simp only: res if_True fst_conv snd_conv simp_thms)
  have minus: "unat ?s = unat ?cur - 1" if am: "amount = - 1" and nz: "?cur \<noteq> 0"
  proof -
    have "unat (ucast ?cur :: uint32) \<noteq> 0" using nz unfolding unat_up unat_eq_zero .
    then have nz': "(ucast ?cur :: uint32) \<noteq> 0" unfolding unat_eq_zero .
    have "?s = (ucast ?cur :: uint32) - 1" using am by simp
    then show ?thesis using unat_minus_one [OF nz'] by (simp only: unat_up)
  qed
  show ?thesis unfolding case_prod_beta
  proof (intro conjI impI)
    show "CurrentSP (snd (AddSpiritPoints amount c)) \<le> ?max" unfolding word_le_nat_alt val by simp
    show "fst (AddSpiritPoints amount c) \<longleftrightarrow> CurrentSP (snd (AddSpiritPoints amount c)) \<noteq> ?cur" by (rule changed)
    show "unat (CurrentSP (snd (AddSpiritPoints amount c))) = min (unat ?cur + unat amount) (unat ?max)"
      if "unat ?cur + unat amount < 2 ^ 32"
      unfolding val using that by (simp add: unat_word_ariths unat_up)
    show "CurrentSP (snd (AddSpiritPoints amount c)) = ?cur - 1" if "amount = - 1 \<and> ?cur \<noteq> 0 \<and> ?cur < ?max"
    proof -
      have "unat (?cur - 1) = unat ?cur - 1" using that by (intro unat_minus_one) simp
      moreover have "min (unat ?cur - 1) (unat ?max) = unat ?cur - 1" using lt by simp
      moreover note minus [OF conjunct1 [OF that] conjunct1 [OF conjunct2 [OF that]]]
      ultimately show ?thesis unfolding word_unat_eq_iff val by (simp only:)
    qed
  qed
qed

theorem AddSpiritPoints_bounds_witness:
  "case AddSpiritPoints (- 1) sample_char of (changed, d) \<Rightarrow> changed \<and> CurrentSP d = 399"
proof -
  have c: "CurrentSP sample_char = 400" "MaxSP sample_char = 5000" by (simp_all add: sample_char_def)
  then have "CurrentSP sample_char \<le> MaxSP sample_char" by simp
  from AddSpiritPoints_bounds [OF this, of "- 1"] c show ?thesis by (auto split: prod.splits)
qed

end
