(* ===== verification/Freya_Master_Values.thy ===== *)
theory Freya_Master_Values
  imports Freya_Db Freya_Character
begin

text \<open>
  The handlers of the master server that write the values of a character: \<open>SaveExperience\<close>, \<open>SaveVitals\<close>,
  \<open>SaveStat\<close>, \<open>SaveStatDistribution\<close> and \<open>SavePosition\<close> (\<open>cmd/masterserver/rpc/character.go\<close>) and
  \<open>SaveSkillExperience\<close> (\<open>skill_experience.go\<close>). The database is the one configured for the request's server.
\<close>

section \<open>Statements\<close>

text \<open>
  \<open>UPDATE characters SET ... WHERE id = ? AND ...\<close>: the number of rows that changed, as the driver counts
  them, and \<open>None\<close> when a value leaves the range of its column, which the server refuses.
\<close>

definition sql_update_character ::
    "int32 \<Rightarrow> (CharRow \<Rightarrow> bool) \<Rightarrow> (CharRow \<Rightarrow> CharRow option) \<Rightarrow> Db \<Rightarrow> (nat \<times> Db) option" where
  "sql_update_character c P f db =
     (if alz_of db c = None \<or> \<not> P (columns db c) then Some (0, db)
      else case f (columns db c) of
        None \<Rightarrow> None
      | Some r \<Rightarrow> Some (if r = columns db c then 0 else 1, db\<lparr>columns := (columns db)(c := r)\<rparr>))"

text \<open>\<open>db.Exec\<close> outside a transaction returns an error.\<close>

definition Exec :: "bool list \<Rightarrow> (Db \<Rightarrow> (nat \<times> Db) option) \<Rightarrow> Db \<Rightarrow> (string + nat) \<times> Db" where
  "Exec io f db =
     (if faulty io then (Inl db_error, db)
      else case f db of None \<Rightarrow> (Inl ''out of range value'', db) | Some (n, db) \<Rightarrow> (Inr n, db))"

definition checked_add :: "uint32 \<Rightarrow> uint32 \<Rightarrow> uint32 option" where
  "checked_add a b = (if unat a + unat b < 2 ^ 32 then Some (a + b) else None)"

definition checked_sub :: "uint32 \<Rightarrow> uint32 \<Rightarrow> uint32 option" where
  "checked_sub a b = (if b \<le> a then Some (a - b) else None)"

section \<open>Experience (character.go, skill_experience.go)\<close>

definition SaveExperience :: "bool list \<Rightarrow> ExperienceReq \<Rightarrow> Db \<Rightarrow> (string + bool) option \<times> Db" where
  "SaveExperience io r db =
     (if sint (xCharacter r) \<le> 0 \<or> xLevel r = 0 \<or> xLevel r < ExpectedLevel r \<or> xExp r < ExpectedExp r
      then (Some (Inl ''invalid experience update''), db)
      else let hasVitals = (xMaxHP r \<noteq> 0 \<or> xMaxMP r \<noteq> 0 \<or> xMaxSP r \<noteq> 0) in
      if hasVitals \<and> (xMaxHP r = 0 \<or> xMaxHP r < xCurrentHP r \<or> xMaxMP r = 0 \<or> xMaxMP r < xCurrentMP r \<or>
                      xMaxSP r < xCurrentSP r)
      then (Some (Inl ''invalid vitals update''), db)
      else
        let classRank = ClassRankForLevel (xLevel r);
            change = (\<lambda>row. map_option (\<lambda>pnt.
                let row = row\<lparr>col_exp := xExp r, col_level := xLevel r, col_rank := classRank, pnt_stat := pnt\<rparr> in
                if xMaxHP r \<noteq> 0
                then row\<lparr>col_current_hp := xCurrentHP r, col_max_hp := xMaxHP r, col_current_mp := xCurrentMP r,
                         col_max_mp := xMaxMP r, col_current_sp := xCurrentSP r, col_max_sp := xMaxSP r\<rparr>
                else row)
              (checked_add (pnt_stat row) (StatPoints r)));
            same = (\<lambda>row. col_exp row = ExpectedExp r \<and> col_level row = ExpectedLevel r) in
        (case Exec io (sql_update_character (xCharacter r) same change) db of
           (Inl err, db) \<Rightarrow> (Some (Inl err), db)
         | (Inr rows, db) \<Rightarrow> (Some (Inr (rows = 1)), db)))"

text \<open>The columns a skill experience update reads and writes.\<close>

definition progress_of :: "CharRow \<Rightarrow> SkillProgress" where
  "progress_of row = \<lparr>pgSwordRank = sword_rank row, pgMagicRank = magic_rank row, pgSwordExp = sword_exp row,
     pgMagicExp = magic_exp row, pgSwordPoint = sword_point row, pgMagicPoint = magic_point row,
     pgSwordRankExp = sword_rank_exp row, pgMagicRankExp = magic_rank_exp row, pgSTR = str_stat row,
     pgDEX = dex_stat row, pgINT = int_stat row, pgCurrentHP = col_current_hp row, pgMaxHP = col_max_hp row,
     pgCurrentMP = col_current_mp row, pgMaxMP = col_max_mp row\<rparr>"

definition set_progress :: "SkillProgress \<Rightarrow> CharRow \<Rightarrow> CharRow" where
  "set_progress n row = row\<lparr>sword_rank := pgSwordRank n, magic_rank := pgMagicRank n, sword_exp := pgSwordExp n,
     magic_exp := pgMagicExp n, sword_point := pgSwordPoint n, magic_point := pgMagicPoint n,
     sword_rank_exp := pgSwordRankExp n, magic_rank_exp := pgMagicRankExp n, str_stat := pgSTR n,
     dex_stat := pgDEX n, int_stat := pgINT n, col_current_hp := pgCurrentHP n, col_max_hp := pgMaxHP n,
     col_current_mp := pgCurrentMP n, col_max_mp := pgMaxMP n\<rparr>"

definition SaveSkillExperience :: "bool list \<Rightarrow> SkillExperienceReq \<Rightarrow> Db \<Rightarrow> (string + bool) option \<times> Db" where
  "SaveSkillExperience io r db =
     (let old = Expected r; n = New r in
      if sint (seCharacter r) \<le> 0 \<or> pgSwordRank n = 0 \<or> 10 < pgSwordRank n \<or> pgMagicRank n = 0 \<or> 10 < pgMagicRank n \<or>
         pgSwordRank n < pgSwordRank old \<or> pgMagicRank n < pgMagicRank old \<or> pgSwordPoint n < pgSwordPoint old \<or>
         pgMagicPoint n < pgMagicPoint old \<or> pgSTR n < pgSTR old \<or> pgDEX n < pgDEX old \<or> pgINT n < pgINT old \<or>
         pgMaxHP n = 0 \<or> pgMaxHP n < pgCurrentHP n \<or> pgMaxMP n = 0 \<or> pgMaxMP n < pgCurrentMP n
      then (Some (Inl ''invalid skill experience update''), db)
      else
        (case Exec io (sql_update_character (seCharacter r) (\<lambda>row. progress_of row = old) (\<lambda>row. Some (set_progress n row))) db of
           (Inl err, db) \<Rightarrow> (Some (Inl err), db)
         | (Inr rows, db) \<Rightarrow> (Some (Inr (rows = 1)), db)))"

section \<open>Health, position (character.go)\<close>

definition SaveVitals :: "bool list \<Rightarrow> VitalsRequest \<Rightarrow> Db \<Rightarrow> (string + bool) option \<times> Db" where
  "SaveVitals io r db =
     (if sint (vCharacter r) \<le> 0 \<or> vMaxHP r = 0 \<or> vMaxHP r < vCurrentHP r \<or> vMaxMP r = 0 \<or> vMaxMP r < vCurrentMP r \<or>
         vMaxSP r < vCurrentSP r
      then (Some (Inl ''invalid character vitals update''), db)
      else
        (case Exec io (sql_update_character (vCharacter r) (\<lambda>_. True) (\<lambda>row. Some (row\<lparr>
             col_current_hp := vCurrentHP r, col_max_hp := vMaxHP r, col_current_mp := vCurrentMP r,
             col_max_mp := vMaxMP r, col_current_sp := vCurrentSP r, col_max_sp := vMaxSP r\<rparr>))) db of
           (Inl err, db) \<Rightarrow> (Some (Inl err), db)
         | (Inr _, db) \<Rightarrow> (Some (Inr True), db)))"

definition SavePosition :: "bool list \<Rightarrow> PositionReq \<Rightarrow> Db \<Rightarrow> (string + bool) option \<times> Db" where
  "SavePosition io r db =
     (if sint (poCharacter r) \<le> 0 then (Some (Inl ''invalid character position update''), db)
      else
        (case Exec io (sql_update_character (poCharacter r) (\<lambda>_. True) (\<lambda>row. Some (row\<lparr>
             col_world := poWorld r, col_x := poX r, col_y := poY r\<rparr>))) db of
           (Inl err, db) \<Rightarrow> (Some (Inl err), db)
         | (Inr _, db) \<Rightarrow> (Some (Inr True), db)))"

section \<open>Stat points (character.go)\<close>

definition select_stats :: "int32 \<Rightarrow> ('r, CharRow) stmt" where
  "select_stats c =
     andThen (query (\<lambda>db. if alz_of db c = None then None else Some (columns db c))) (\<lambda>row.
     case row of None \<Rightarrow> fail_tx ''sql: no rows in result set'' | Some current \<Rightarrow> return_tx current)"

text \<open>The statement adds one to the column the request names and takes one from \<open>pnt_stat\<close>.\<close>

definition spend_stat :: "byte \<Rightarrow> CharRow \<Rightarrow> CharRow option" where
  "spend_stat stat row = do {
     pnt \<leftarrow> checked_sub (pnt_stat row) 1;
     if stat = 0 then map_option (\<lambda>v. row\<lparr>str_stat := v, pnt_stat := pnt\<rparr>) (checked_add (str_stat row) 1)
     else if stat = 1 then map_option (\<lambda>v. row\<lparr>dex_stat := v, pnt_stat := pnt\<rparr>) (checked_add (dex_stat row) 1)
     else map_option (\<lambda>v. row\<lparr>int_stat := v, pnt_stat := pnt\<rparr>) (checked_add (int_stat row) 1) }"

definition stat_response :: "bool \<Rightarrow> CharRow \<Rightarrow> StatResponse" where
  "stat_response ok row = \<lparr>srResult = ok, srSTR = str_stat row, srDEX = dex_stat row, srINT = int_stat row,
     srPNT = pnt_stat row\<rparr>"

definition SaveStat_tx :: "StatRequest \<Rightarrow> (StatResponse, StatResponse) stmt" where
  "SaveStat_tx r =
     andThen (select_stats (stCharacter r)) (\<lambda>current.
     andThen (refuse_if (pnt_stat current = 0 \<or> pnt_stat current \<noteq> stExpectedPNT r) (stat_response False current)) (\<lambda>_.
     andThen (exec (sql_update_character (stCharacter r) (\<lambda>_. True) (spend_stat (Stat r)))) (\<lambda>_.
     let s = stat_response True current;
         s = (if Stat r = 0 then s\<lparr>srSTR := srSTR s + 1\<rparr> else if Stat r = 1 then s\<lparr>srDEX := srDEX s + 1\<rparr>
              else s\<lparr>srINT := srINT s + 1\<rparr>) in
     return_tx (s\<lparr>srPNT := srPNT s - 1\<rparr>))))"

definition SaveStat :: "bool list \<Rightarrow> StatRequest \<Rightarrow> Db \<Rightarrow> (string + StatResponse) option \<times> Db" where
  "SaveStat io r db =
     (if sint (stCharacter r) \<le> 0 \<or> 2 < Stat r then (Some (Inl ''invalid stat update''), db)
      else apfst Some (transaction (SaveStat_tx r) io db))"

abbreviation no_stats :: StatResponse where
  "no_stats \<equiv> \<lparr>srResult = False, srSTR = 0, srDEX = 0, srINT = 0, srPNT = 0\<rparr>"

text \<open>The \<open>UPDATE\<close> of the distribution; \<open>distributed\<close> is the sum of the three amounts.\<close>

definition spend_stats :: "StatDistributionRequest \<Rightarrow> nat \<Rightarrow> CharRow \<Rightarrow> CharRow option" where
  "spend_stats r distributed row = do {
     str \<leftarrow> checked_add (str_stat row) (dSTR r);
     dex \<leftarrow> checked_add (dex_stat row) (dDEX r);
     int \<leftarrow> checked_add (int_stat row) (dINT r);
     pnt \<leftarrow> checked_sub (pnt_stat row) (word_of_nat distributed);
     Some (row\<lparr>str_stat := str, dex_stat := dex, int_stat := int, pnt_stat := pnt\<rparr>) }"

definition SaveStatDistribution_tx :: "StatDistributionRequest \<Rightarrow> nat \<Rightarrow> (StatResponse, StatResponse) stmt" where
  "SaveStatDistribution_tx r distributed =
     andThen (select_stats (dCharacter r)) (\<lambda>current.
     andThen (refuse_if (pnt_stat current \<noteq> dExpectedPNT r \<or> unat (pnt_stat current) < distributed) no_stats) (\<lambda>_.
     andThen (fail_if (unat (str_stat current) + unat (dSTR r) > 2 ^ 32 - 1 \<or>
         unat (dex_stat current) + unat (dDEX r) > 2 ^ 32 - 1 \<or>
         unat (int_stat current) + unat (dINT r) > 2 ^ 32 - 1) ''stat value overflow'') (\<lambda>_.
     andThen (exec (sql_update_character (dCharacter r) (\<lambda>row. pnt_stat row = dExpectedPNT r)
         (spend_stats r distributed))) (\<lambda>rows.
     andThen (refuse_if (rows \<noteq> 1) no_stats) (\<lambda>_.
     return_tx \<lparr>srResult = True, srSTR = str_stat current + dSTR r, srDEX = dex_stat current + dDEX r,
       srINT = int_stat current + dINT r, srPNT = pnt_stat current - word_of_nat distributed\<rparr>)))))"

definition SaveStatDistribution ::
    "bool list \<Rightarrow> StatDistributionRequest \<Rightarrow> Db \<Rightarrow> (string + StatResponse) option \<times> Db" where
  "SaveStatDistribution io r db =
     (if sint (dCharacter r) \<le> 0 \<or> dSTR r = 0 \<and> dDEX r = 0 \<and> dINT r = 0
      then (Some (Inl ''invalid stat distribution''), db)
      else let distributed = unat (dSTR r) + unat (dDEX r) + unat (dINT r) in
      if distributed > 2 ^ 32 - 1 then (Some (Inl ''invalid stat distribution amount''), db)
      else apfst Some (transaction (SaveStatDistribution_tx r distributed) io db))"

end
