(* ===== verification/Freya_Master.thy ===== *)
theory Freya_Master
  imports Freya_Master_Values
begin

text \<open>
  The inventory handlers of the master server (\<open>cmd/masterserver/rpc/inventory.go\<close>, \<open>enchant.go\<close>,
  \<open>forcecore.go\<close>, \<open>attach.go\<close>, and \<open>LearnSkill\<close> of \<open>skill.go\<close>) on the database of \<open>Freya_Db\<close>. \<open>io\<close> are the
  faults of the handler's database calls; the database is the one configured for the request's server.
  A handler returns its response or error, and \<open>None\<close> when it panics.
\<close>

section \<open>Single statements (inventory.go)\<close>

type_synonym item_handler = "bool list \<Rightarrow> ItemRequest \<Rightarrow> Db \<Rightarrow> (string + ItemResponse) option \<times> Db"

abbreviation item_ok :: "(string + ItemResponse) option" where
  "item_ok \<equiv> Some (Inr \<lparr>iResult = True\<rparr>)"

definition EquipItem :: item_handler where
  "EquipItem io r db =
     (case MustExec io (sql_insert characters_equipment (iId r) (iItem r)) db of
        (None, db) \<Rightarrow> (None, db) | (Some _, db) \<Rightarrow> (item_ok, db))"

definition UnEquipItem :: item_handler where
  "UnEquipItem io r db =
     (case MustExec io (\<lambda>db. Some (sql_delete characters_equipment (iId r) (Slot (iItem r)) db)) db of
        (None, db) \<Rightarrow> (None, db)
      | (Some result, db) \<Rightarrow>
          if result = 0 then (Some (Inl ''equipment item was not found''), db) else (item_ok, db))"

text \<open>
  The three updates of \<open>SwapItem\<close> and \<open>SwapEquipmentItem\<close>, by way of slot 65535, which both functions
  spell out alike but for the table.
\<close>

definition tempSlot :: uint16 where
  "tempSlot = 65535"

definition swap_slots :: "table \<Rightarrow> ItemRequest \<Rightarrow> Item \<Rightarrow> (ItemResponse, ItemResponse) stmt" where
  "swap_slots t r newItem =
     (let newSlot = Slot (iItem r); oldSlot = Slot newItem in
      andThen (exec (sql_move t (iId r) oldSlot tempSlot)) (\<lambda>_.
      andThen (exec (sql_move t (iId r) newSlot oldSlot)) (\<lambda>_.
      andThen (exec (sql_move t (iId r) tempSlot newSlot)) (\<lambda>_.
      return_tx \<lparr>iResult = True\<rparr>))))"

definition SwapEquipmentItem :: item_handler where
  "SwapEquipmentItem io r db =
     (case iNewItem r of
        None \<Rightarrow> (Some (Inl ''target item is not set''), db)
      | Some newItem \<Rightarrow> apfst Some (transaction (swap_slots characters_equipment r newItem) io db))"

text \<open>A nil \<open>NewItem\<close> is dereferenced here.\<close>

definition MoveEquipmentItem :: item_handler where
  "MoveEquipmentItem io r db =
     (case iNewItem r of
        None \<Rightarrow> (None, db)
      | Some newItem \<Rightarrow>
          (case MustExec io (sql_move characters_equipment (iId r) (Slot (iItem r)) (Slot newItem)) db of
             (None, db) \<Rightarrow> (None, db)
           | (Some result, db) \<Rightarrow>
               if result = 0 then (Some (Inl ''equipment item was not found''), db) else (item_ok, db)))"

definition AddItem :: item_handler where
  "AddItem io r db =
     (case MustExec io (sql_insert characters_inventory (iId r) (iItem r)) db of
        (None, db) \<Rightarrow> (None, db) | (Some _, db) \<Rightarrow> (item_ok, db))"

text \<open>\<open>StackItem\<close> updates every row of the character with the item's kind.\<close>

definition sql_stack :: "int32 \<Rightarrow> uint32 \<Rightarrow> int32 \<Rightarrow> Db \<Rightarrow> Db" where
  "sql_stack c kind opt db =
     db\<lparr>tables := (tables db)(characters_inventory := (tables db characters_inventory)(c :=
        (\<lambda>s. map_option (\<lambda>r. if row_kind r = kind then r\<lparr>row_opt := opt\<rparr> else r)
          (tables db characters_inventory c s))))\<rparr>"

definition StackItem :: item_handler where
  "StackItem io r db =
     (case MustExec io (\<lambda>db. Some (0, sql_stack (iId r) (Kind (iItem r)) (Option (iItem r)) db)) db of
        (None, db) \<Rightarrow> (None, db) | (Some _, db) \<Rightarrow> (item_ok, db))"

text \<open>The \<open>SELECT ... FOR UPDATE\<close> of a row that must match in every column; \<open>return nil\<close> when there is none.\<close>

definition select_exact :: "int32 \<Rightarrow> Item \<Rightarrow> 'r \<Rightarrow> ('r, unit) stmt" where
  "select_exact c it r =
     andThen (query (\<lambda>db. tables db characters_inventory c (Slot it))) (\<lambda>row.
     refuse_if (row \<noteq> Some (row_of it)) r)"

definition ConsumeItem_tx :: "Item \<Rightarrow> ItemRequest \<Rightarrow> (ItemResponse, ItemResponse) stmt" where
  "ConsumeItem_tx newItem r =
     andThen (select_exact (iId r) (iItem r) \<lparr>iResult = False\<rparr>) (\<lambda>_.
     andThen (if Option newItem = 0
              then exec (\<lambda>db. Some (sql_delete_exact characters_inventory (iId r) (iItem r) db))
              else exec (\<lambda>db. Some (sql_update_exact characters_inventory (iId r) (iItem r)
                     (Kind (iItem r)) (Option newItem) db))) (\<lambda>_.
     return_tx \<lparr>iResult = True\<rparr>))"

definition ConsumeItem :: item_handler where
  "ConsumeItem io r db =
     (case iNewItem r of
        None \<Rightarrow> (Some (Inr \<lparr>iResult = False\<rparr>), db)
      | Some newItem \<Rightarrow>
          if sint (iId r) \<le> 0 \<or> Kind (iItem r) = 0 \<or> sint (Option (iItem r)) \<le> 0 \<or>
             Option newItem \<noteq> Option (iItem r) - 1
          then (Some (Inr \<lparr>iResult = False\<rparr>), db)
          else apfst Some (transaction (ConsumeItem_tx newItem r) io db))"

definition RemoveItem :: item_handler where
  "RemoveItem io r db =
     (case MustExec io (\<lambda>db. Some (sql_delete characters_inventory (iId r) (Slot (iItem r)) db)) db of
        (None, db) \<Rightarrow> (None, db) | (Some _, db) \<Rightarrow> (item_ok, db))"

definition SwapItem :: item_handler where
  "SwapItem io r db =
     (case iNewItem r of
        None \<Rightarrow> (Some (Inl ''target item is not set!''), db)
      | Some newItem \<Rightarrow> apfst Some (transaction (swap_slots characters_inventory r newItem) io db))"

definition MoveItem :: item_handler where
  "MoveItem io r db =
     (case iNewItem r of
        None \<Rightarrow> (None, db)
      | Some newItem \<Rightarrow>
          (case MustExec io (sql_move characters_inventory (iId r) (Slot (iItem r)) (Slot newItem)) db of
             (None, db) \<Rightarrow> (None, db) | (Some _, db) \<Rightarrow> (item_ok, db)))"

section \<open>Alz\<close>

definition select_alz :: "int32 \<Rightarrow> ('r, uint64) stmt" where
  "select_alz c =
     andThen (query (\<lambda>db. alz_of db c)) (\<lambda>a.
     case a of None \<Rightarrow> fail_tx ''sql: no rows in result set'' | Some alz \<Rightarrow> return_tx alz)"

text \<open>\<open>UPDATE characters SET alz = ? WHERE id = ?\<close>.\<close>

definition update_alz :: "int32 \<Rightarrow> (uint64 \<Rightarrow> uint64) \<Rightarrow> Db \<Rightarrow> (nat \<times> Db) option" where
  "update_alz c f db = Some (1, db\<lparr>alz_of := (alz_of db)(c := map_option f (alz_of db c))\<rparr>)"

definition PurchaseItem_tx :: "PurchaseRequest \<Rightarrow> (PurchaseResponse, PurchaseResponse) stmt" where
  "PurchaseItem_tx r =
     andThen (select_alz (pCharacter r)) (\<lambda>alz.
     andThen (refuse_if (alz < pPrice r) \<lparr>pResult = False, pAlz = alz\<rparr>) (\<lambda>_.
     andThen (query (\<lambda>db. tables db characters_inventory (pCharacter r) (Slot (pItem r)))) (\<lambda>occupied.
     andThen (refuse_if (occupied \<noteq> None) \<lparr>pResult = False, pAlz = alz\<rparr>) (\<lambda>_.
     andThen (exec (sql_insert characters_inventory (pCharacter r) (pItem r))) (\<lambda>_.
     andThen (exec (update_alz (pCharacter r) (\<lambda>a. a - pPrice r))) (\<lambda>_.
     return_tx \<lparr>pResult = True, pAlz = alz - pPrice r\<rparr>))))))"

definition PurchaseItem :: "bool list \<Rightarrow> PurchaseRequest \<Rightarrow> Db \<Rightarrow> (string + PurchaseResponse) option \<times> Db" where
  "PurchaseItem io r db =
     (if pPrice r = 0 \<or> Kind (pItem r) = 0 then (Some (Inr \<lparr>pResult = False, pAlz = 0\<rparr>), db)
      else apfst Some (transaction (PurchaseItem_tx r) io db))"

text \<open>The loop of \<open>SellItems\<close>; \<open>no\<close> is the response of its early exits.\<close>

primrec sell_loop :: "int32 \<Rightarrow> 'r \<Rightarrow> uint16 set \<Rightarrow> Item list \<Rightarrow> ('r, unit) stmt" where
  "sell_loop c no seenSlots [] = return_tx ()"
| "sell_loop c no seenSlots (item # items) =
     andThen (refuse_if (Kind item = 0) no) (\<lambda>_.
     andThen (refuse_if (Slot item \<in> seenSlots) no) (\<lambda>_.
     andThen (select_exact c item no) (\<lambda>_.
     andThen (exec (\<lambda>db. Some (sql_delete_exact characters_inventory c item db))) (\<lambda>rows.
     andThen (refuse_if (rows \<noteq> 1) no) (\<lambda>_.
     sell_loop c no (insert (Slot item) seenSlots) items)))))"

definition SellItems_tx :: "SellRequest \<Rightarrow> (SellResponse, SellResponse) stmt" where
  "SellItems_tx r =
     andThen (select_alz (sCharacter r)) (\<lambda>alz.
     andThen (refuse_if (- 1 - alz < sPrice r) \<lparr>sResult = False, sAlz = alz\<rparr>) (\<lambda>_.
     andThen (sell_loop (sCharacter r) \<lparr>sResult = False, sAlz = alz\<rparr> {} (sItems r)) (\<lambda>_.
     andThen (exec (update_alz (sCharacter r) (\<lambda>_. alz + sPrice r))) (\<lambda>_.
     return_tx \<lparr>sResult = True, sAlz = alz + sPrice r\<rparr>))))"

definition SellItems :: "bool list \<Rightarrow> SellRequest \<Rightarrow> Db \<Rightarrow> (string + SellResponse) option \<times> Db" where
  "SellItems io r db =
     (if sint (sCharacter r) \<le> 0 then (Some (Inl ''invalid sell request''), db)
      else if sPrice r = 0 \<or> sItems r = [] then (Some (Inr \<lparr>sResult = False, sAlz = 0\<rparr>), db)
      else apfst Some (transaction (SellItems_tx r) io db))"

section \<open>Storage (inventory.go)\<close>

definition storageTable :: "byte \<Rightarrow> table option" where
  "storageTable storageType =
     (if storageType = 0 then Some characters_inventory
      else if storageType = 2 then Some characters_warehouse else None)"

definition StorageMove_tx :: "table \<Rightarrow> table \<Rightarrow> StorageMoveRequest \<Rightarrow> (bool, bool) stmt" where
  "StorageMove_tx sourceTable targetTable r =
     andThen (query (\<lambda>db. stored sourceTable (smCharacter r) db (SourceSlot r))) (\<lambda>it.
     case it of None \<Rightarrow> refuse_tx False | Some item \<Rightarrow>
     andThen (query (\<lambda>db. tables db targetTable (smCharacter r) (smTargetSlot r))) (\<lambda>occupied.
     andThen (refuse_if (occupied \<noteq> None) False) (\<lambda>_.
     andThen (if sourceTable = targetTable
       then andThen (exec (sql_move sourceTable (smCharacter r) (SourceSlot r) (smTargetSlot r))) (\<lambda>rows.
            refuse_if (rows \<noteq> 1) False)
       else andThen (exec (sql_insert targetTable (smCharacter r) (item\<lparr>Slot := smTargetSlot r\<rparr>))) (\<lambda>_.
            andThen (exec (\<lambda>db. Some (sql_delete sourceTable (smCharacter r) (SourceSlot r) db))) (\<lambda>rows.
            fail_if (rows \<noteq> 1) ''source storage item disappeared during move''))) (\<lambda>_.
     return_tx True))))"

definition StorageMove :: "bool list \<Rightarrow> StorageMoveRequest \<Rightarrow> Db \<Rightarrow> (string + bool) option \<times> Db" where
  "StorageMove io r db =
     (if sint (smCharacter r) \<le> 0 then (Some (Inl ''invalid storage move request''), db)
      else case storageTable (SourceType r) of
        None \<Rightarrow> (Some (Inl ''invalid source storage type''), db)
      | Some sourceTable \<Rightarrow>
          (case storageTable (TargetType r) of
             None \<Rightarrow> (Some (Inl ''invalid target storage type''), db)
           | Some targetTable \<Rightarrow>
               if SourceType r = TargetType r \<and> SourceSlot r = smTargetSlot r then (Some (Inr True), db)
               else apfst Some (transaction (StorageMove_tx sourceTable targetTable r) io db)))"

section \<open>Trade (inventory.go)\<close>

text \<open>A query whose error the code treats like a mismatch.\<close>

definition query_or :: "'a \<Rightarrow> (Db \<Rightarrow> 'a) \<Rightarrow> ('r, 'a) stmt" where
  "query_or d f db io = (if faulty io then Done d db (tl io) else Done (f db) db (tl io))"

primrec validateTradeTransfers ::
    "int32 \<Rightarrow> int32 \<Rightarrow> uint16 set \<Rightarrow> uint16 set \<Rightarrow> TradeItemTransfer list \<Rightarrow> ('r, bool) stmt" where
  "validateTradeTransfers source target sourceSlots targetSlots [] = return_tx True"
| "validateTradeTransfers source target sourceSlots targetSlots (transfer # transfers) =
     (let item = tItem transfer in
      if Kind item = 0 \<or> Slot item = TargetSlot transfer then return_tx False
      else if Slot item \<in> sourceSlots then return_tx False
      else if TargetSlot transfer \<in> targetSlots then return_tx False
      else
        andThen (query_or False (\<lambda>db. stored characters_inventory source db (Slot item) = Some item)) (\<lambda>same.
        if \<not> same then return_tx False else
        andThen (query_or False (\<lambda>db. tables db characters_inventory target (TargetSlot transfer) = None)) (\<lambda>free.
        if \<not> free then return_tx False else
        validateTradeTransfers source target (insert (Slot item) sourceSlots)
          (insert (TargetSlot transfer) targetSlots) transfers)))"

primrec applyTradeTransfers :: "int32 \<Rightarrow> int32 \<Rightarrow> TradeItemTransfer list \<Rightarrow> ('r, unit) stmt" where
  "applyTradeTransfers source target [] = return_tx ()"
| "applyTradeTransfers source target (transfer # transfers) =
     (let item = tItem transfer in
      andThen (exec (\<lambda>db. Some (sql_delete_exact characters_inventory source item db))) (\<lambda>rows.
      andThen (fail_if (rows \<noteq> 1) ''trade source item disappeared during exchange'') (\<lambda>_.
      andThen (exec (sql_insert characters_inventory target (item\<lparr>Slot := TargetSlot transfer\<rparr>))) (\<lambda>_.
      applyTradeTransfers source target transfers))))"

abbreviation no_trade :: TradeResponse where
  "no_trade \<equiv> \<lparr>tResult = False, tFirstAlz = 0, tSecondAlz = 0\<rparr>"

text \<open>Both balances, locked in the order of the ids.\<close>

definition lock_alz :: "int32 \<Rightarrow> int32 \<Rightarrow> ('r, uint64 \<times> uint64) stmt" where
  "lock_alz first second =
     (if first <s second
      then andThen (select_alz first) (\<lambda>firstAlz.
           andThen (select_alz second) (\<lambda>secondAlz. return_tx (firstAlz, secondAlz)))
      else andThen (select_alz second) (\<lambda>secondAlz.
           andThen (select_alz first) (\<lambda>firstAlz. return_tx (firstAlz, secondAlz))))"

definition TradeItems_tx :: "TradeRequest \<Rightarrow> (TradeResponse, TradeResponse) stmt" where
  "TradeItems_tx r =
     andThen (lock_alz (FirstCharacter r) (SecondCharacter r)) (\<lambda>(firstAlz, secondAlz).
     andThen (refuse_if (FirstAlz r > firstAlz \<or> SecondAlz r > secondAlz) no_trade) (\<lambda>_.
     andThen (validateTradeTransfers (FirstCharacter r) (SecondCharacter r) {} {} (FirstItems r)) (\<lambda>ok.
     andThen (refuse_if (\<not> ok) no_trade) (\<lambda>_.
     andThen (validateTradeTransfers (SecondCharacter r) (FirstCharacter r) {} {} (SecondItems r)) (\<lambda>ok.
     andThen (refuse_if (\<not> ok) no_trade) (\<lambda>_.
     let newFirstAlz = firstAlz - FirstAlz r; newSecondAlz = secondAlz - SecondAlz r in
     andThen (refuse_if (- 1 - newFirstAlz < SecondAlz r) no_trade) (\<lambda>_.
     andThen (refuse_if (- 1 - newSecondAlz < FirstAlz r) no_trade) (\<lambda>_.
     let newFirstAlz = newFirstAlz + SecondAlz r; newSecondAlz = newSecondAlz + FirstAlz r in
     andThen (applyTradeTransfers (FirstCharacter r) (SecondCharacter r) (FirstItems r)) (\<lambda>_.
     andThen (applyTradeTransfers (SecondCharacter r) (FirstCharacter r) (SecondItems r)) (\<lambda>_.
     andThen (exec (update_alz (FirstCharacter r) (\<lambda>_. newFirstAlz))) (\<lambda>_.
     andThen (exec (update_alz (SecondCharacter r) (\<lambda>_. newSecondAlz))) (\<lambda>_.
     return_tx \<lparr>tResult = True, tFirstAlz = newFirstAlz, tSecondAlz = newSecondAlz\<rparr>))))))))))))"

definition TradeItems :: "bool list \<Rightarrow> TradeRequest \<Rightarrow> Db \<Rightarrow> (string + TradeResponse) option \<times> Db" where
  "TradeItems io r db =
     (if sint (FirstCharacter r) \<le> 0 \<or> sint (SecondCharacter r) \<le> 0 \<or> FirstCharacter r = SecondCharacter r
      then (Some (Inl ''invalid trade request''), db)
      else apfst Some (transaction (TradeItems_tx r) io db))"

section \<open>Enchanting (enchant.go, forcecore.go, attach.go)\<close>

definition upgradeCoreShift :: nat where "upgradeCoreShift = 13"
definition upgradeCoreMask :: uint32 where "upgradeCoreMask = 0x0001E000"
definition maxUpgradeLevel :: uint32 where "maxUpgradeLevel = 15"

text \<open>The rows of the cores, locked and compared.\<close>

primrec check_cores :: "int32 \<Rightarrow> Item \<Rightarrow> uint16 set \<Rightarrow> Item list \<Rightarrow> (bool, unit) stmt" where
  "check_cores c target seenSlots [] = return_tx ()"
| "check_cores c target seenSlots (core # cores) =
     andThen (refuse_if (Kind core = 0 \<or> Slot core = Slot target) False) (\<lambda>_.
     andThen (refuse_if (Slot core \<in> seenSlots) False) (\<lambda>_.
     andThen (query (\<lambda>db. stored characters_inventory c db (Slot core))) (\<lambda>storedCore.
     andThen (refuse_if (storedCore \<noteq> Some core) False) (\<lambda>_.
     check_cores c target (insert (Slot core) seenSlots) cores))))"

text \<open>Deleting rows that must be there.\<close>

primrec delete_all :: "int32 \<Rightarrow> Item list \<Rightarrow> (bool, unit) stmt" where
  "delete_all c [] = return_tx ()"
| "delete_all c (core # cores) =
     andThen (exec (\<lambda>db. Some (sql_delete_exact characters_inventory c core db))) (\<lambda>rows.
     andThen (refuse_if (rows \<noteq> 1) False) (\<lambda>_.
     delete_all c cores))"

definition EnchantItem_tx :: "EnchantRequest \<Rightarrow> (bool, bool) stmt" where
  "EnchantItem_tx r =
     andThen (query (\<lambda>db. stored characters_inventory (eCharacter r) db (Slot (eTarget r)))) (\<lambda>storedTarget.
     andThen (refuse_if (storedTarget \<noteq> Some (eTarget r)) False) (\<lambda>_.
     andThen (check_cores (eCharacter r) (eTarget r) {} (eCores r)) (\<lambda>_.
     andThen (exec (\<lambda>db. Some (sql_update_exact characters_inventory (eCharacter r) (eTarget r) (eNewKind r)
         (Option (eTarget r)) db))) (\<lambda>rows.
     andThen (refuse_if (rows \<noteq> 1) False) (\<lambda>_.
     andThen (delete_all (eCharacter r) (eCores r)) (\<lambda>_.
     return_tx True))))))"

definition EnchantItem :: "bool list \<Rightarrow> EnchantRequest \<Rightarrow> Db \<Rightarrow> (string + bool) option \<times> Db" where
  "EnchantItem io r db =
     (if sint (eCharacter r) \<le> 0 \<or> Kind (eTarget r) = 0 \<or> eNewKind r = 0 \<or> eCores r = []
      then (Some (Inr False), db)
      else let oldLevel = drop_bit upgradeCoreShift (Kind (eTarget r) AND upgradeCoreMask) in
      if maxUpgradeLevel \<le> oldLevel then (Some (Inr False), db)
      else let expectedKind = (Kind (eTarget r) AND NOT upgradeCoreMask) OR push_bit upgradeCoreShift (oldLevel + 1) in
      if eNewKind r \<noteq> expectedKind then (Some (Inr False), db)
      else apfst Some (transaction (EnchantItem_tx r) io db))"

text \<open>The checks of the request before the transaction, and the rows locked in slot order.\<close>

primrec distinct_materials :: "uint16 set \<Rightarrow> Item list \<Rightarrow> bool" where
  "distinct_materials seen [] = True"
| "distinct_materials seen (material # ms) =
     (Kind material \<noteq> 0 \<and> Slot material \<notin> seen \<and> distinct_materials (insert (Slot material) seen) ms)"

primrec lock_rows :: "int32 \<Rightarrow> Item list \<Rightarrow> (bool, unit) stmt" where
  "lock_rows c [] = return_tx ()"
| "lock_rows c (expected # rest) =
     andThen (query (\<lambda>db. stored characters_inventory c db (Slot expected))) (\<lambda>actual.
     andThen (refuse_if (actual \<noteq> Some expected) False) (\<lambda>_.
     lock_rows c rest))"

primrec spend_rows :: "int32 \<Rightarrow> uint16 set \<Rightarrow> Item list \<Rightarrow> (bool, unit) stmt" where
  "spend_rows c coreSlots [] = return_tx ()"
| "spend_rows c coreSlots (material # ms) =
     andThen (if Slot material \<in> coreSlots
              then exec (\<lambda>db. Some (sql_delete_exact characters_inventory c material db))
              else if 0 < sint (Option material)
              then exec (\<lambda>db. Some (sql_update_exact characters_inventory c material (Kind material) (Option material - 1) db))
              else exec (\<lambda>db. Some (sql_delete_exact characters_inventory c material db))) (\<lambda>rows.
     andThen (refuse_if (rows \<noteq> 1) False) (\<lambda>_.
     spend_rows c coreSlots ms))"

definition Master_ForceCoreEnchant_tx :: "Item list \<Rightarrow> uint16 set \<Rightarrow> ForceCoreEnchantRequest \<Rightarrow> (bool, bool) stmt" where
  "Master_ForceCoreEnchant_tx materials coreSlots r =
     andThen (lock_rows (fCharacter r) (sort_key (\<lambda>it. unat (Slot it)) (fTarget r # materials))) (\<lambda>_.
     andThen (if Option (fNewTarget r) \<noteq> Option (fTarget r)
       then andThen (exec (\<lambda>db. Some (sql_update_exact characters_inventory (fCharacter r) (fTarget r)
               (Kind (fTarget r)) (Option (fNewTarget r)) db))) (\<lambda>rows.
            refuse_if (rows \<noteq> 1) False)
       else return_tx ()) (\<lambda>_.
     andThen (spend_rows (fCharacter r) coreSlots materials) (\<lambda>_.
     return_tx True)))"

definition Master_ForceCoreEnchant ::
    "bool list \<Rightarrow> ForceCoreEnchantRequest \<Rightarrow> Db \<Rightarrow> (string + bool) option \<times> Db" where
  "Master_ForceCoreEnchant io r db =
     (if sint (fCharacter r) \<le> 0 \<or> Kind (fTarget r) = 0 \<or> Kind (fNewTarget r) = 0 \<or>
         Slot (fTarget r) \<noteq> Slot (fNewTarget r) \<or> Kind (fTarget r) \<noteq> Kind (fNewTarget r) \<or>
         Serials (fTarget r) \<noteq> Serials (fNewTarget r) \<or> Expire (fTarget r) \<noteq> Expire (fNewTarget r) \<or> fCores r = []
      then (Some (Inr False), db)
      else
        let materials = (case RandomScroll r of None \<Rightarrow> [] | Some a \<Rightarrow> [a]) @
              (case SpecificScroll r of None \<Rightarrow> [] | Some a \<Rightarrow> [a]) @ fCores r;
            coreSlots = Slot ` set (fCores r) in
        if \<not> distinct_materials {Slot (fTarget r)} materials then (Some (Inr False), db)
        else apfst Some (transaction (Master_ForceCoreEnchant_tx materials coreSlots r) io db))"

definition AttachItem_tx :: "Item \<Rightarrow> Item \<Rightarrow> Item \<Rightarrow> AttachRequest \<Rightarrow> (bool, bool) stmt" where
  "AttachItem_tx newTarget first second r =
     andThen (query (\<lambda>db. stored characters_inventory (aCharacter r) db (Slot first))) (\<lambda>firstActual.
     andThen (refuse_if (firstActual \<noteq> Some first) False) (\<lambda>_.
     andThen (query (\<lambda>db. stored characters_inventory (aCharacter r) db (Slot second))) (\<lambda>secondActual.
     andThen (refuse_if (secondActual \<noteq> Some second) False) (\<lambda>_.
     andThen (refuse_if (if Slot first = Slot (aSource r)
         then firstActual \<noteq> Some (aSource r) \<or> secondActual \<noteq> Some (aTarget r)
         else firstActual \<noteq> Some (aTarget r) \<or> secondActual \<noteq> Some (aSource r)) False) (\<lambda>_.
     andThen (exec (\<lambda>db. Some (sql_update_exact characters_inventory (aCharacter r) (aTarget r) (Kind newTarget)
         (Option newTarget) db))) (\<lambda>rows.
     andThen (refuse_if (rows \<noteq> 1) False) (\<lambda>_.
     andThen (exec (\<lambda>db. Some (sql_delete_exact characters_inventory (aCharacter r) (aSource r) db))) (\<lambda>rows.
     andThen (refuse_if (rows \<noteq> 1) False) (\<lambda>_.
     return_tx True)))))))))"

definition AttachItem :: "bool list \<Rightarrow> AttachRequest \<Rightarrow> Db \<Rightarrow> (string + bool) option \<times> Db" where
  "AttachItem io r db =
     (if sint (aCharacter r) \<le> 0 \<or> Kind (aSource r) = 0 \<or> Kind (aTarget r) = 0 \<or> Slot (aSource r) = Slot (aTarget r)
      then (Some (Inr False), db)
      else if aNewTarget r = None \<and> aNewKind r = 0 then (Some (Inr False), db)
      else let newTarget = (case aNewTarget r of Some t \<Rightarrow> t | None \<Rightarrow> (aTarget r)\<lparr>Kind := aNewKind r\<rparr>) in
      if Kind newTarget = 0 \<or> Slot newTarget \<noteq> Slot (aTarget r) \<or> Serials newTarget \<noteq> Serials (aTarget r) \<or>
         Expire newTarget \<noteq> Expire (aTarget r)
      then (Some (Inr False), db)
      else
        let (first, second) = (if Slot (aTarget r) < Slot (aSource r) then (aTarget r, aSource r) else (aSource r, aTarget r))
        in apfst Some (transaction (AttachItem_tx newTarget first second r) io db))"

section \<open>Skill books (skill.go)\<close>

definition LearnSkill_tx :: "LearnRequest \<Rightarrow> (bool, bool) stmt" where
  "LearnSkill_tx r =
     andThen (query (\<lambda>db. stored characters_inventory (lCharacter r) db (lInventorySlot r))) (\<lambda>it.
     andThen (refuse_if (map_option Kind it \<noteq> Some (lItemID r)) False) (\<lambda>_.
     andThen (query (\<lambda>db. skills_of db (lCharacter r))) (\<lambda>sk.
     andThen (refuse_if (SkillSlot (lSkill r) \<in> dom sk \<or> SkillId (lSkill r) \<in> fst ` ran sk) False) (\<lambda>_.
     andThen (exec (\<lambda>db. Some (sql_delete characters_inventory (lCharacter r) (lInventorySlot r) db))) (\<lambda>rows.
     andThen (refuse_if (rows \<noteq> 1) False) (\<lambda>_.
     andThen (exec (\<lambda>db. Some (1, db\<lparr>skills_of := (skills_of db)(lCharacter r := (skills_of db (lCharacter r))
         (SkillSlot (lSkill r) \<mapsto> (SkillId (lSkill r), Level (lSkill r))))\<rparr>))) (\<lambda>_.
     return_tx True)))))))"

definition LearnSkill :: "bool list \<Rightarrow> LearnRequest \<Rightarrow> Db \<Rightarrow> (string + bool) option \<times> Db" where
  "LearnSkill io r db =
     (if sint (lCharacter r) \<le> 0 \<or> lItemID r = 0 \<or> SkillId (lSkill r) = 0 \<or> Level (lSkill r) = 0
      then (Some (Inl ''invalid learn skill request''), db)
      else apfst Some (transaction (LearnSkill_tx r) io db))"

section \<open>The client of the game server\<close>

text \<open>
  The remote state of a game server: the database, whether the master process runs, and for each
  coming call whether the process has been started again before it and the faults of its statements. A
  panic in a handler is not recovered and ends the process, which every caller sees as an error until
  the restart. Requests and responses are delivered while the process runs.
\<close>

record world =
  database :: Db
  up :: bool
  calls :: "(bool \<times> bool list) list"

definition next_call :: "world \<Rightarrow> bool \<times> bool list" where
  "next_call w = (case calls w of [] \<Rightarrow> (False, []) | c # _ \<Rightarrow> c)"

definition serve :: "(bool list \<Rightarrow> 'q \<Rightarrow> Db \<Rightarrow> (string + 'r) option \<times> Db) \<Rightarrow> 'q \<Rightarrow> world \<Rightarrow> (string + 'r) \<times> world" where
  "serve h q w =
     (let (restarted, io) = next_call w in
      if \<not> up w \<and> \<not> restarted then (Inl ''connection is shut down'', w\<lparr>calls := tl (calls w)\<rparr>)
      else let (res, db) = h io q (database w) in
        (case res of
           None \<Rightarrow> (Inl ''unexpected EOF'', w\<lparr>database := db, up := False, calls := tl (calls w)\<rparr>)
         | Some r \<Rightarrow> (r, w\<lparr>database := db, up := True, calls := tl (calls w)\<rparr>)))"

definition item_handlers :: "string \<Rightarrow> item_handler" where
  "item_handlers cmd =
     (if cmd = ''EquipItem'' then EquipItem
      else if cmd = ''UnEquipItem'' then UnEquipItem
      else if cmd = ''SwapEquipmentItem'' then SwapEquipmentItem
      else if cmd = ''MoveEquipmentItem'' then MoveEquipmentItem
      else if cmd = ''AddItem'' then AddItem
      else if cmd = ''StackItem'' then StackItem
      else if cmd = ''ConsumeItem'' then ConsumeItem
      else if cmd = ''RemoveItem'' then RemoveItem
      else if cmd = ''SwapItem'' then SwapItem
      else if cmd = ''MoveItem'' then MoveItem
      else (\<lambda>io r db. (Some (Inl (''rpc: can't find method '' @ cmd)), db)))"

definition master :: "world Client" where
  "master = \<lparr>call_item = (\<lambda>cmd. serve (item_handlers cmd)), call_purchase = serve PurchaseItem,
     call_sell = serve SellItems, call_learn = serve LearnSkill, call_enchant = serve EnchantItem,
     call_forcecore = serve Master_ForceCoreEnchant, call_attach = serve AttachItem,
     call_storage = serve StorageMove, call_trade = serve TradeItems,
     call_experience = serve SaveExperience, call_skill_experience = serve SaveSkillExperience,
     call_vitals = serve SaveVitals, call_stat = serve SaveStat, call_distribution = serve SaveStatDistribution,
     call_position = serve SavePosition\<rparr>"

end
