(* ===== verification/Freya_Master_Laws.thy ===== *)
theory Freya_Master_Laws
  imports Freya_Master
begin

text \<open>
  What the handlers of \<open>Freya_Master\<close> do to the database: for each of them, either it reports success
  and the rows change in exactly one described way, or the database is as before, whatever database
  call fails and whenever. Trades conserve rows and Alz.
\<close>

section \<open>All or nothing\<close>

text \<open>The transactional handlers: an error or a refusal leaves the database as it was.\<close>

lemma refuses_query_or [refuses_intro]: "refuses P (query_or d f)"
  by (simp add: refuses_def query_or_def)

lemma refuses_select [refuses_intro]: "P r \<Longrightarrow> refuses P (select_exact c it r)" "refuses P (select_alz c)"
  unfolding select_exact_def select_alz_def by (intro refuses_intro; assumption?)+

lemma refuses_validate [refuses_intro]: "refuses P (validateTradeTransfers s t A B ts)"
  by (induction ts arbitrary: A B) (auto simp: Let_def intro!: refuses_intro)

lemma refuses_apply [refuses_intro]: "refuses P (applyTradeTransfers s t ts)"
  by (induction ts) (auto simp: Let_def intro!: refuses_intro)

lemma refuses_loops [refuses_intro]:
  "P no \<Longrightarrow> refuses P (sell_loop c no A items)"
  "Q False \<Longrightarrow> refuses Q (check_cores c t A items)"
  "Q False \<Longrightarrow> refuses Q (delete_all c items)"
  "Q False \<Longrightarrow> refuses Q (lock_rows c items)"
  "Q False \<Longrightarrow> refuses Q (spend_rows c S items)"
  by (induction items arbitrary: A) (auto intro!: refuses_intro)

text \<open>Whether a response reports success.\<close>

definition success :: "('r \<Rightarrow> bool) \<Rightarrow> (string + 'r) option \<Rightarrow> bool" where
  "success f res = (case res of Some (Inr r) \<Rightarrow> f r | _ \<Rightarrow> False)"

lemma success_simps [simp]:
  "success f (Some (Inr r)) = f r" "\<not> success f (Some (Inl e))" "\<not> success f None"
  by (simp_all add: success_def)

lemma transaction_effect:
  assumes "refuses (\<lambda>r. \<not> f r) body" "apfst Some (transaction body io db) = (res, db')"
    and "\<And>r d i. body db (tl io) = Done r d i \<Longrightarrow> f r \<and> Q r d"
  shows "if success f res then \<exists>r. res = Some (Inr r) \<and> Q r db' else db' = db"
  using assms(2,3) transaction_cases [OF assms(1), of io db] by (auto simp: apfst_def map_prod_def)

text \<open>The database commands of the handlers, seen from a finished transaction.\<close>

abbreviation inv_rows :: "Db \<Rightarrow> int32 \<Rightarrow> uint16 \<rightharpoonup> Item" where
  "inv_rows db c \<equiv> stored characters_inventory c db"

lemma select_Done [simp]:
  "select_exact c it r db io = Done u db' io' \<longleftrightarrow>
     \<not> faulty io \<and> inv_rows db c (Slot it) = Some it \<and> db' = db \<and> io' = tl io"
  "select_alz c db io = Done a db' io' \<longleftrightarrow> \<not> faulty io \<and> alz_of db c = Some a \<and> db' = db \<and> io' = tl io"
  by (auto simp: select_exact_def select_alz_def stored_def item_at_eq_iff split: option.splits)

lemma sql_delete_exact_1 [simp]:
  "sql_delete_exact t c it db = (Suc 0, db') \<longleftrightarrow>
     stored t c db (Slot it) = Some it \<and> db' = set_row t c (Slot it) None db"
  by (auto simp: sql_delete_exact_def stored_def item_at_eq_iff)

lemma sql_insert_Some [simp]:
  "sql_insert t c it db = Some (n, db') \<longleftrightarrow>
     stored t c db (Slot it) = None \<and> n = 1 \<and> db' = set_row t c (Slot it) (Some (row_of it)) db"
  by (auto simp: sql_insert_def stored_def)

lemma row_of_update [simp]: "(row_of it)\<lparr>row_kind := k, row_opt := p\<rparr> = row_of (it\<lparr>Kind := k, Option := p\<rparr>)"
  by (simp add: row_of_def)

lemma sql_update_exact_1:
  "sql_update_exact t c it k p db = (Suc 0, db') \<Longrightarrow>
     stored t c db (Slot it) = Some it \<and>
     db' = set_row t c (Slot it) (Some (row_of (it\<lparr>Kind := k, Option := p\<rparr>))) db"
  by (auto simp: sql_update_exact_def stored_def item_at_eq_iff split: if_splits)

lemma update_alz_Some [simp]:
  "update_alz c f db = Some (n, db') \<longleftrightarrow> n = 1 \<and> db' = db\<lparr>alz_of := (alz_of db)(c := map_option f (alz_of db c))\<rparr>"
  by (auto simp: update_alz_def)

text \<open>What a handler may do to the items: replace the inventory of one character.\<close>

abbreviation replaces :: "int32 \<Rightarrow> (uint16 \<rightharpoonup> Item) \<Rightarrow> Db \<Rightarrow> Db \<Rightarrow> bool" where
  "replaces c m db db' \<equiv> (\<forall>d. inv_rows db' d = (if d = c then m else inv_rows db d))"

lemma PurchaseItem_effect:
  assumes "PurchaseItem io r db = (res, db')"
  shows "if success pResult res
     then \<exists>alz. alz_of db (pCharacter r) = Some alz \<and> pPrice r \<le> alz \<and>
        inv_rows db (pCharacter r) (Slot (pItem r)) = None \<and>
        res = Some (Inr \<lparr>pResult = True, pAlz = alz - pPrice r\<rparr>) \<and>
        alz_of db' = (alz_of db)(pCharacter r \<mapsto> alz - pPrice r) \<and>
        replaces (pCharacter r) ((inv_rows db (pCharacter r))(Slot (pItem r) \<mapsto> pItem r)) db db'
     else db' = db"
proof (cases "pPrice r = 0 \<or> Kind (pItem r) = 0")
  case True
  with assms show ?thesis by (auto simp: PurchaseItem_def)
next
  case False
  with assms have *: "apfst Some (transaction (PurchaseItem_tx r) io db) = (res, db')"
    by (auto simp: PurchaseItem_def)
  have "refuses (\<lambda>r. \<not> pResult r) (PurchaseItem_tx r)"
    unfolding PurchaseItem_tx_def by (intro refuses_intro) simp_all
  then have "if success pResult res then \<exists>p. res = Some (Inr p) \<and>
      (\<exists>alz. alz_of db (pCharacter r) = Some alz \<and> pPrice r \<le> alz \<and>
        inv_rows db (pCharacter r) (Slot (pItem r)) = None \<and> p = \<lparr>pResult = True, pAlz = alz - pPrice r\<rparr> \<and>
        alz_of db' = (alz_of db)(pCharacter r \<mapsto> alz - pPrice r) \<and>
        replaces (pCharacter r) ((inv_rows db (pCharacter r))(Slot (pItem r) \<mapsto> pItem r)) db db') else db' = db"
    by (rule transaction_effect [OF _ *]) (auto simp: PurchaseItem_tx_def not_less fun_eq_iff)
  then show ?thesis
    by (auto split: if_splits)
qed

text \<open>The loops that delete rows which must be there.\<close>

lemma sell_loop_Done:
  "sell_loop c no A items db io = Done u db' io' \<Longrightarrow>
     replaces c (inv_rows db c |` (- Slot ` set items)) db db' \<and> alz_of db' = alz_of db \<and>
     (\<forall>it\<in>set items. inv_rows db c (Slot it) = Some it) \<and> distinct (map Slot items) \<and> A \<inter> Slot ` set items = {}"
proof (induction items arbitrary: A db io)
  case (Cons it items)
  then obtain io1 where "inv_rows db c (Slot it) = Some it" "Slot it \<notin> A"
    and rest: "sell_loop c no (insert (Slot it) A) items (set_row characters_inventory c (Slot it) None db) io1 = Done u db' io'"
    by auto
  with Cons.IH [OF rest] show ?case
    by (auto simp: restrict_map_def fun_eq_iff split: if_splits)
qed (simp add: restrict_map_def)

lemma SellItems_effect:
  assumes "SellItems io r db = (res, db')"
  shows "if success sResult res
     then \<exists>alz. alz_of db (sCharacter r) = Some alz \<and> unat alz + unat (sPrice r) < 2 ^ 64 \<and>
        res = Some (Inr \<lparr>sResult = True, sAlz = alz + sPrice r\<rparr>) \<and>
        alz_of db' = (alz_of db)(sCharacter r \<mapsto> alz + sPrice r) \<and>
        set (sItems r) \<subseteq> {it. inv_rows db (sCharacter r) (Slot it) = Some it} \<and> distinct (map Slot (sItems r)) \<and>
        replaces (sCharacter r) (inv_rows db (sCharacter r) |` (- Slot ` set (sItems r))) db db'
     else db' = db"
proof (cases "sint (sCharacter r) \<le> 0 \<or> sPrice r = 0 \<or> sItems r = []")
  case True
  with assms show ?thesis by (auto simp: SellItems_def split: if_splits)
next
  case False
  with assms have *: "apfst Some (transaction (SellItems_tx r) io db) = (res, db')"
    by (auto simp: SellItems_def)
  have "refuses (\<lambda>r. \<not> sResult r) (SellItems_tx r)"
    unfolding SellItems_tx_def by (intro refuses_intro) simp_all
  then have "if success sResult res then \<exists>p. res = Some (Inr p) \<and>
      (\<exists>alz. alz_of db (sCharacter r) = Some alz \<and> unat alz + unat (sPrice r) < 2 ^ 64 \<and>
        p = \<lparr>sResult = True, sAlz = alz + sPrice r\<rparr> \<and>
        alz_of db' = (alz_of db)(sCharacter r \<mapsto> alz + sPrice r) \<and>
        set (sItems r) \<subseteq> {it. inv_rows db (sCharacter r) (Slot it) = Some it} \<and> distinct (map Slot (sItems r)) \<and>
        replaces (sCharacter r) (inv_rows db (sCharacter r) |` (- Slot ` set (sItems r))) db db') else db' = db"
    by (rule transaction_effect [OF _ *])
      (auto simp: SellItems_tx_def not_less fun_eq_iff dest!: unat_add_no_wrap(1) dest!: sell_loop_Done)
  then show ?thesis
    by (auto split: if_splits)
qed

lemma MustExec_cases:
  "MustExec io f db = (n, db') \<Longrightarrow> (n = None \<and> db' = db) \<or> (\<exists>k. n = Some k \<and> f db = Some (k, db'))"
  by (auto simp: MustExec_def split: if_splits option.splits)

lemma AddItem_effect:
  "AddItem io r db = (res, db') \<Longrightarrow>
   if success iResult res then inv_rows db (iId r) (Slot (iItem r)) = None \<and>
       replaces (iId r) ((inv_rows db (iId r))(Slot (iItem r) \<mapsto> iItem r)) db db'
   else db' = db"
  by (auto simp: AddItem_def dest!: MustExec_cases split: prod.splits option.splits)

lemma sql_delete_stored:
  "sql_delete characters_inventory c s db = (n, db') \<Longrightarrow> replaces c ((inv_rows db c)(s := None)) db db'"
  by (auto simp: sql_delete_def stored_def fun_eq_iff split: if_splits)

lemma RemoveItem_effect:
  "RemoveItem io r db = (res, db') \<Longrightarrow>
   if success iResult res then replaces (iId r) ((inv_rows db (iId r))(Slot (iItem r) := None)) db db' else db' = db"
  by (auto simp: RemoveItem_def dest!: MustExec_cases sql_delete_stored split: prod.splits option.splits)

lemma sql_move_Some:
  assumes "sql_move t c old new db = Some (n, db')" "stored t c db old = Some it" "new \<noteq> old"
  shows "stored t c db new = None \<and> n = 1 \<and> db' = set_row t c new (Some (row_of it)) (set_row t c old None db)"
  using assms by (auto simp: sql_move_def stored_def split: option.splits if_splits)

lemma MoveItem_effect:
  assumes "MoveItem io r db = (res, db')" "iNewItem r = Some new" "inv_rows db (iId r) (Slot (iItem r)) = Some it"
    "Slot new \<noteq> Slot (iItem r)"
  shows "if success iResult res
     then inv_rows db (iId r) (Slot new) = None \<and>
       replaces (iId r) ((inv_rows db (iId r))(Slot (iItem r) := None, Slot new \<mapsto> it\<lparr>Slot := Slot new\<rparr>)) db db'
     else db' = db"
  using assms
  by (auto simp: MoveItem_def item_at_row_of dest!: MustExec_cases dest: sql_move_Some split: prod.splits option.splits)

text \<open>The three updates of a swap, when both rows exist.\<close>

lemma swap_slots_Done:
  assumes "swap_slots t r newItem db io = Done res db' io'"
    and a: "stored t (iId r) db (Slot newItem) = Some a" and b: "stored t (iId r) db (Slot (iItem r)) = Some b"
  shows "res = \<lparr>iResult = True\<rparr> \<and> (\<forall>d. stored t d db' = (if d = iId r then (stored t d db)
     (Slot newItem \<mapsto> b\<lparr>Slot := Slot newItem\<rparr>, Slot (iItem r) \<mapsto> a\<lparr>Slot := Slot (iItem r)\<rparr>) else stored t d db))"
proof -
  let ?c = "iId r" and ?old = "Slot newItem" and ?new = "Slot (iItem r)" and ?t = t
  obtain n1 n2 n3 d1 d2 where m: "sql_move ?t ?c ?old tempSlot db = Some (n1, d1)"
     "sql_move ?t ?c ?new ?old d1 = Some (n2, d2)" "sql_move ?t ?c tempSlot ?new d2 = Some (n3, db')"
     "res = \<lparr>iResult = True\<rparr>"
    using assms(1) by (auto simp: swap_slots_def Let_def)
  have a': "tables db ?t ?c ?old = Some (row_of a)" "Slot a = ?old"
    and b': "tables db ?t ?c ?new = Some (row_of b)" "Slot b = ?new"
    using a b by (auto simp: tables_stored dest: stored_Slot)
  show ?thesis
  proof (cases "?old = ?new")
    case True
    with a b a' b' have "a = b" "b\<lparr>Slot := ?new\<rparr> = b" by auto
    have "db' = db \<or> (tempSlot \<noteq> ?old \<and> db' = set_row ?t ?c ?old (Some (row_of a)) (set_row ?t ?c tempSlot None
        (set_row ?t ?c tempSlot (Some (row_of a)) (set_row ?t ?c ?old None db))) \<and> tables db ?t ?c tempSlot = None)"
      using m a' b' True by (auto simp: sql_move_def split: option.splits if_splits)
    with True a b \<open>a = b\<close> \<open>b\<lparr>Slot := ?new\<rparr> = b\<close> m(4) show ?thesis
      by (auto simp: fun_eq_iff item_at_row_of stored_def)
  next
    case False
    with m a' b' have "tempSlot \<noteq> ?old" "tempSlot \<noteq> ?new" "tables db ?t ?c tempSlot = None"
      by (auto simp: sql_move_def split: option.splits if_splits)
    with False m a' b' have "db' = set_row ?t ?c ?new (Some (row_of a)) (set_row ?t ?c tempSlot None
        (set_row ?t ?c ?old (Some (row_of b)) (set_row ?t ?c ?new None
        (set_row ?t ?c tempSlot (Some (row_of a)) (set_row ?t ?c ?old None db)))))"
      by (auto simp: sql_move_def split: option.splits if_splits)
    moreover have "stored t ?c db tempSlot = None" using \<open>tables db ?t ?c tempSlot = None\<close> by (simp add: stored_def)
    ultimately show ?thesis
      using False m(4) \<open>tempSlot \<noteq> ?old\<close> \<open>tempSlot \<noteq> ?new\<close> by (auto simp: fun_eq_iff item_at_row_of)
  qed
qed

lemma refuses_swap [refuses_intro]: "refuses P (swap_slots t r n)"
  unfolding swap_slots_def Let_def by (intro refuses_intro)

lemma SwapItem_effect:
  assumes "SwapItem io r db = (res, db')" "iNewItem r = Some newItem"
    and a: "inv_rows db (iId r) (Slot newItem) = Some a" and b: "inv_rows db (iId r) (Slot (iItem r)) = Some b"
  shows "if success iResult res
     then replaces (iId r) ((inv_rows db (iId r))
       (Slot newItem \<mapsto> b\<lparr>Slot := Slot newItem\<rparr>, Slot (iItem r) \<mapsto> a\<lparr>Slot := Slot (iItem r)\<rparr>)) db db'
     else db' = db"
proof -
  have *: "apfst Some (transaction (swap_slots characters_inventory r newItem) io db) = (res, db')"
    using assms(1,2) by (simp add: SwapItem_def)
  have "if success iResult res then \<exists>p. res = Some (Inr p) \<and> replaces (iId r) ((inv_rows db (iId r))
       (Slot newItem \<mapsto> b\<lparr>Slot := Slot newItem\<rparr>, Slot (iItem r) \<mapsto> a\<lparr>Slot := Slot (iItem r)\<rparr>)) db db' else db' = db"
    using refuses_swap
  proof (rule transaction_effect [OF _ *])
    fix p d i
    assume "swap_slots characters_inventory r newItem db (tl io) = Done p d i"
    from swap_slots_Done [OF this a b] show "iResult p \<and> replaces (iId r) ((inv_rows db (iId r))
       (Slot newItem \<mapsto> b\<lparr>Slot := Slot newItem\<rparr>, Slot (iItem r) \<mapsto> a\<lparr>Slot := Slot (iItem r)\<rparr>)) db d"
      by simp
  qed
  then show ?thesis by (auto split: if_splits)
qed

lemma inv_rows_stack: "inv_rows (sql_stack c k p db) d =
    (if d = c then (\<lambda>s. map_option (\<lambda>it. if Kind it = k then it\<lparr>Option := p\<rparr> else it) (inv_rows db c s))
     else inv_rows db d)"
proof (rule ext)
  fix s
  show "inv_rows (sql_stack c k p db) d s =
    (if d = c then (\<lambda>s. map_option (\<lambda>it. if Kind it = k then it\<lparr>Option := p\<rparr> else it) (inv_rows db c s))
     else inv_rows db d) s"
    by (cases "tables db characters_inventory c s") (simp_all add: stored_def sql_stack_def item_at_def)
qed

lemma StackItem_effect:
  "StackItem io r db = (res, db') \<Longrightarrow>
   if success iResult res
   then replaces (iId r) (\<lambda>s. map_option (\<lambda>it. if Kind it = Kind (iItem r) then it\<lparr>Option := Option (iItem r)\<rparr> else it)
       (inv_rows db (iId r) s)) db db'
   else db' = db"
  by (auto simp: StackItem_def inv_rows_stack dest!: MustExec_cases split: prod.splits option.splits)

lemma ConsumeItem_effect:
  assumes "ConsumeItem io r db = (res, db')"
  shows "if success iResult res
     then \<exists>new. iNewItem r = Some new \<and> inv_rows db (iId r) (Slot (iItem r)) = Some (iItem r) \<and>
       Option new = Option (iItem r) - 1 \<and> replaces (iId r) ((inv_rows db (iId r))(Slot (iItem r) :=
         (if Option new = 0 then None else Some ((iItem r)\<lparr>Option := Option new\<rparr>)))) db db'
     else db' = db"
proof (cases "\<exists>new. iNewItem r = Some new \<and> \<not> (sint (iId r) \<le> 0 \<or> Kind (iItem r) = 0 \<or> sint (Option (iItem r)) \<le> 0 \<or>
             Option new \<noteq> Option (iItem r) - 1)")
  case False
  with assms show ?thesis by (auto simp: ConsumeItem_def split: option.splits if_splits)
next
  case True
  then obtain new where new: "iNewItem r = Some new" "Option new = Option (iItem r) - 1"
    and *: "apfst Some (transaction (ConsumeItem_tx new r) io db) = (res, db')"
    using assms by (auto simp: ConsumeItem_def)
  have "refuses (\<lambda>r. \<not> iResult r) (ConsumeItem_tx new r)"
    unfolding ConsumeItem_tx_def by (intro refuses_intro) simp_all
  then have "if success iResult res then \<exists>p. res = Some (Inr p) \<and> inv_rows db (iId r) (Slot (iItem r)) = Some (iItem r) \<and>
       replaces (iId r) ((inv_rows db (iId r))(Slot (iItem r) :=
         (if Option new = 0 then None else Some ((iItem r)\<lparr>Option := Option new\<rparr>)))) db db'
     else db' = db"
    by (rule transaction_effect [OF _ *])
      (auto simp: ConsumeItem_tx_def sql_delete_exact_def sql_update_exact_def tables_stored item_at_row_of
        split: if_splits)
  with new show ?thesis by (auto split: if_splits)
qed

text \<open>Loops that only look at rows.\<close>

lemma check_cores_Done:
  "check_cores c target A cores db io = Done u db' io' \<Longrightarrow>
     db' = db \<and> (\<forall>core\<in>set cores. inv_rows db c (Slot core) = Some core \<and> Slot core \<noteq> Slot target) \<and>
     distinct (map Slot cores) \<and> A \<inter> Slot ` set cores = {}"
proof (induction cores arbitrary: A io)
  case (Cons it items)
  then obtain io1 where "inv_rows db c (Slot it) = Some it" "Slot it \<noteq> Slot target" "Slot it \<notin> A"
    and rest: "check_cores c target (insert (Slot it) A) items db io1 = Done u db' io'"
    by auto
  with Cons.IH [OF rest] show ?case by auto
qed simp

lemma lock_rows_Done:
  "lock_rows c its db io = Done u db' io' \<Longrightarrow> db' = db \<and> (\<forall>it\<in>set its. inv_rows db c (Slot it) = Some it)"
  by (induction its arbitrary: io) auto

lemma delete_all_Done:
  "delete_all c cores db io = Done u db' io' \<Longrightarrow> replaces c (inv_rows db c |` (- Slot ` set cores)) db db'"
proof (induction cores arbitrary: db io)
  case (Cons it items)
  then obtain io1 where "inv_rows db c (Slot it) = Some it"
    and rest: "delete_all c items (set_row characters_inventory c (Slot it) None db) io1 = Done u db' io'"
    by auto
  with Cons.IH [OF rest] show ?case
    by (auto simp: restrict_map_def fun_eq_iff split: if_splits)
qed (simp add: restrict_map_def)

lemma if_response: "(if b then \<exists>p. res = Some (Inr p) \<and> A else B) \<Longrightarrow> (if b then A else B)"
  by (auto split: if_splits)

lemma EnchantItem_tx_Done:
  assumes "EnchantItem_tx r db io = Done res db' io'"
  shows "res \<and> inv_rows db (eCharacter r) (Slot (eTarget r)) = Some (eTarget r) \<and>
       (\<forall>core\<in>set (eCores r). inv_rows db (eCharacter r) (Slot core) = Some core \<and> Slot core \<noteq> Slot (eTarget r)) \<and>
       distinct (map Slot (eCores r)) \<and>
       replaces (eCharacter r) (((inv_rows db (eCharacter r))(Slot (eTarget r) \<mapsto> (eTarget r)\<lparr>Kind := eNewKind r\<rparr>))
          |` (- Slot ` set (eCores r))) db db'"
proof -
  obtain io1 io2 io3 db2 db3 where t: "inv_rows db (eCharacter r) (Slot (eTarget r)) = Some (eTarget r)" "res"
    and c: "check_cores (eCharacter r) (eTarget r) {} (eCores r) db io1 = Done () db2 io2"
    and u: "sql_update_exact characters_inventory (eCharacter r) (eTarget r) (eNewKind r) (Option (eTarget r)) db2 = (Suc 0, db3)"
    and d: "delete_all (eCharacter r) (eCores r) db3 io3 = Done () db' io'"
    using assms by (auto simp: EnchantItem_tx_def)
  note c' = check_cores_Done [OF c] and u' = sql_update_exact_1 [OF u] and d' = delete_all_Done [OF d]
  from c' u' have "replaces (eCharacter r) ((inv_rows db (eCharacter r))(Slot (eTarget r) \<mapsto> (eTarget r)\<lparr>Kind := eNewKind r\<rparr>)) db db3"
    by (simp add: item_at_row_of)
  with t c' d' show ?thesis by simp
qed

lemma EnchantItem_effect:
  assumes "EnchantItem io r db = (res, db')"
  shows "if success id res
     then inv_rows db (eCharacter r) (Slot (eTarget r)) = Some (eTarget r) \<and>
       (\<forall>core\<in>set (eCores r). inv_rows db (eCharacter r) (Slot core) = Some core \<and> Slot core \<noteq> Slot (eTarget r)) \<and>
       distinct (map Slot (eCores r)) \<and>
       replaces (eCharacter r) (((inv_rows db (eCharacter r))(Slot (eTarget r) \<mapsto> (eTarget r)\<lparr>Kind := eNewKind r\<rparr>))
          |` (- Slot ` set (eCores r))) db db'
     else db' = db"
proof -
  have "(res = Some (Inr False) \<and> db' = db) \<or> apfst Some (transaction (EnchantItem_tx r) io db) = (res, db')"
    using assms unfolding EnchantItem_def Let_def by (simp split: if_split_asm)
  then show ?thesis
  proof
    assume yes: "apfst Some (transaction (EnchantItem_tx r) io db) = (res, db')"
    have "refuses (\<lambda>r. \<not> id r) (EnchantItem_tx r)"
      unfolding EnchantItem_tx_def by (intro refuses_intro) simp_all
    then have "if success id res then \<exists>p. res = Some (Inr p) \<and>
       (inv_rows db (eCharacter r) (Slot (eTarget r)) = Some (eTarget r) \<and>
       (\<forall>core\<in>set (eCores r). inv_rows db (eCharacter r) (Slot core) = Some core \<and> Slot core \<noteq> Slot (eTarget r)) \<and>
       distinct (map Slot (eCores r)) \<and>
       replaces (eCharacter r) (((inv_rows db (eCharacter r))(Slot (eTarget r) \<mapsto> (eTarget r)\<lparr>Kind := eNewKind r\<rparr>))
          |` (- Slot ` set (eCores r))) db db')
     else db' = db"
      by (rule transaction_effect [OF _ yes]) (drule EnchantItem_tx_Done, unfold id_apply, assumption)
    then show ?thesis by (rule if_response)
  qed simp
qed

lemma AttachItem_tx_Done:
  assumes "AttachItem_tx new first second r db io = Done res db' io'"
    and "first = aSource r \<and> second = aTarget r \<or> first = aTarget r \<and> second = aSource r"
    and "Slot (aSource r) \<noteq> Slot (aTarget r)"
    and "Slot new = Slot (aTarget r)" "Serials new = Serials (aTarget r)" "Expire new = Expire (aTarget r)"
  shows "res \<and> inv_rows db (aCharacter r) (Slot (aSource r)) = Some (aSource r) \<and>
       inv_rows db (aCharacter r) (Slot (aTarget r)) = Some (aTarget r) \<and>
       replaces (aCharacter r) ((inv_rows db (aCharacter r))(Slot (aSource r) := None, Slot (aTarget r) \<mapsto> new)) db db'"
proof -
  obtain db1 where "res"
    and st: "inv_rows db (aCharacter r) (Slot first) = Some first" "inv_rows db (aCharacter r) (Slot second) = Some second"
    and u: "sql_update_exact characters_inventory (aCharacter r) (aTarget r) (Kind new) (Option new) db = (Suc 0, db1)"
    and d: "db' = set_row characters_inventory (aCharacter r) (Slot (aSource r)) None db1"
    using assms(1) by (auto simp: AttachItem_tx_def)
  have "(aTarget r)\<lparr>Kind := Kind new, Option := Option new\<rparr> = new"
    using assms(4-6) by simp
  with sql_update_exact_1 [OF u] assms(4) have "db1 = set_row characters_inventory (aCharacter r) (Slot (aTarget r)) (Some (row_of new)) db"
    by simp
  with d \<open>res\<close> st assms(2-4) show ?thesis by (auto simp: item_at_row_of fun_eq_iff)
qed

lemma AttachItem_effect:
  assumes "AttachItem io r db = (res, db')" "aNewTarget r = Some new"
  shows "if success id res
     then inv_rows db (aCharacter r) (Slot (aSource r)) = Some (aSource r) \<and>
       inv_rows db (aCharacter r) (Slot (aTarget r)) = Some (aTarget r) \<and>
       replaces (aCharacter r) ((inv_rows db (aCharacter r))(Slot (aSource r) := None, Slot (aTarget r) \<mapsto> new)) db db'
     else db' = db"
proof -
  have "(res = Some (Inr False) \<and> db' = db) \<or> (\<exists>first second. apfst Some (transaction (AttachItem_tx new first second r) io db) = (res, db') \<and>
      (first = aSource r \<and> second = aTarget r \<or> first = aTarget r \<and> second = aSource r) \<and>
      Slot (aSource r) \<noteq> Slot (aTarget r) \<and>
      Slot new = Slot (aTarget r) \<and> Serials new = Serials (aTarget r) \<and> Expire new = Expire (aTarget r))"
    using assms unfolding AttachItem_def Let_def by (simp split: if_split_asm) blast+
  then show ?thesis
  proof (elim disjE exE)
    fix first second
    assume "apfst Some (transaction (AttachItem_tx new first second r) io db) = (res, db') \<and>
      (first = aSource r \<and> second = aTarget r \<or> first = aTarget r \<and> second = aSource r) \<and>
      Slot (aSource r) \<noteq> Slot (aTarget r) \<and>
      Slot new = Slot (aTarget r) \<and> Serials new = Serials (aTarget r) \<and> Expire new = Expire (aTarget r)"
    then have yes: "apfst Some (transaction (AttachItem_tx new first second r) io db) = (res, db')"
      "first = aSource r \<and> second = aTarget r \<or> first = aTarget r \<and> second = aSource r"
      "Slot (aSource r) \<noteq> Slot (aTarget r)"
      "Slot new = Slot (aTarget r)" "Serials new = Serials (aTarget r)" "Expire new = Expire (aTarget r)"
      by blast+
    have "refuses (\<lambda>r. \<not> id r) (AttachItem_tx new first second r)"
      unfolding AttachItem_tx_def by (intro refuses_intro) simp_all
    then have "if success id res then \<exists>p. res = Some (Inr p) \<and>
       (inv_rows db (aCharacter r) (Slot (aSource r)) = Some (aSource r) \<and>
       inv_rows db (aCharacter r) (Slot (aTarget r)) = Some (aTarget r) \<and>
       replaces (aCharacter r) ((inv_rows db (aCharacter r))(Slot (aSource r) := None, Slot (aTarget r) \<mapsto> new)) db db')
     else db' = db"
      by (rule transaction_effect [OF _ yes(1)]) (drule AttachItem_tx_Done [OF _ yes(2-6)], unfold id_apply, assumption)
    then show ?thesis by (rule if_response)
  qed simp
qed

lemma LearnSkill_effect:
  assumes "LearnSkill io r db = (res, db')"
  shows "if success id res
     then \<exists>book. inv_rows db (lCharacter r) (lInventorySlot r) = Some book \<and> Kind book = lItemID r \<and>
       SkillId (lSkill r) \<notin> fst ` ran (skills_of db (lCharacter r)) \<and>
       skills_of db (lCharacter r) (SkillSlot (lSkill r)) = None \<and>
       skills_of db' = (skills_of db)(lCharacter r := (skills_of db (lCharacter r))
         (SkillSlot (lSkill r) \<mapsto> (SkillId (lSkill r), Level (lSkill r)))) \<and>
       replaces (lCharacter r) ((inv_rows db (lCharacter r))(lInventorySlot r := None)) db db'
     else db' = db"
proof -
  have "(res = Some (Inl ''invalid learn skill request'') \<and> db' = db) \<or>
      apfst Some (transaction (LearnSkill_tx r) io db) = (res, db')"
    using assms unfolding LearnSkill_def by (simp split: if_split_asm)
  then show ?thesis
  proof
    assume yes: "apfst Some (transaction (LearnSkill_tx r) io db) = (res, db')"
    have "refuses (\<lambda>r. \<not> id r) (LearnSkill_tx r)"
      unfolding LearnSkill_tx_def by (intro refuses_intro) simp_all
    then have "if success id res then \<exists>p. res = Some (Inr p) \<and>
      (\<exists>book. inv_rows db (lCharacter r) (lInventorySlot r) = Some book \<and> Kind book = lItemID r \<and>
       SkillId (lSkill r) \<notin> fst ` ran (skills_of db (lCharacter r)) \<and>
       skills_of db (lCharacter r) (SkillSlot (lSkill r)) = None \<and>
       skills_of db' = (skills_of db)(lCharacter r := (skills_of db (lCharacter r))
         (SkillSlot (lSkill r) \<mapsto> (SkillId (lSkill r), Level (lSkill r)))) \<and>
       replaces (lCharacter r) ((inv_rows db (lCharacter r))(lInventorySlot r := None)) db db')
     else db' = db"
      by (rule transaction_effect [OF _ yes])
        (auto simp: LearnSkill_tx_def sql_delete_def domIff simp del: split_paired_All fun_upd_apply split: if_splits)
    then show ?thesis by (rule if_response)
  qed simp
qed

text \<open>What the master leaves of one material of a force-core enchant.\<close>

definition spend_row :: "uint16 set \<Rightarrow> Item \<Rightarrow> (uint16 \<rightharpoonup> Item) \<Rightarrow> (uint16 \<rightharpoonup> Item)" where
  "spend_row coreSlots material m =
     (if Slot material \<notin> coreSlots \<and> 0 < sint (Option material)
      then m(Slot material \<mapsto> material\<lparr>Option := Option material - 1\<rparr>) else m(Slot material := None))"

lemma spend_rows_Done:
  "spend_rows c S ms db io = Done u db' io' \<Longrightarrow> replaces c (fold (spend_row S) ms (inv_rows db c)) db db'"
proof (induction ms arbitrary: db io)
  case (Cons it ms)
  obtain db1 io1 where rest: "spend_rows c S ms db1 io1 = Done u db' io'"
    and one: "if Slot it \<notin> S \<and> 0 < sint (Option it)
      then sql_update_exact characters_inventory c it (Kind it) (Option it - 1) db = (Suc 0, db1)
      else db1 = set_row characters_inventory c (Slot it) None db"
    using Cons.prems by (auto split: if_splits)
  have "replaces c (spend_row S it (inv_rows db c)) db db1"
    using one by (auto simp: spend_row_def item_at_row_of dest!: sql_update_exact_1 split: if_splits)
  with Cons.IH [OF rest] show ?case by simp
qed simp

lemma ForceCore_tx_Done:
  assumes "Master_ForceCoreEnchant_tx materials coreSlots r db io = Done res db' io'"
    and "Slot (fNewTarget r) = Slot (fTarget r)" "Kind (fNewTarget r) = Kind (fTarget r)"
      "Serials (fNewTarget r) = Serials (fTarget r)" "Expire (fNewTarget r) = Expire (fTarget r)"
  shows "res \<and> (\<forall>it\<in>set (fTarget r # materials). inv_rows db (fCharacter r) (Slot it) = Some it) \<and>
    replaces (fCharacter r) (fold (spend_row coreSlots) materials
      ((inv_rows db (fCharacter r))(Slot (fTarget r) \<mapsto> fNewTarget r))) db db'"
proof -
  let ?c = "fCharacter r" and ?t = "fTarget r" and ?n = "fNewTarget r"
  obtain db0 io1 where l: "lock_rows ?c (sort_key (\<lambda>it. unat (Slot it)) (?t # materials)) db io = Done () db0 io1"
    using assms(1) by (auto simp: Master_ForceCoreEnchant_tx_def)
  then have "db0 = db" by (auto dest: lock_rows_Done)
  with l assms(1) obtain io2 db1 io3 where "res"
    and u: "Option ?n \<noteq> Option ?t \<longrightarrow>
      sql_update_exact characters_inventory ?c ?t (Kind ?t) (Option ?n) db = (Suc 0, db1)"
    and n: "Option ?n = Option ?t \<longrightarrow> db1 = db"
    and s: "spend_rows ?c coreSlots materials db1 io2 = Done () db' io3"
    by (cases "Option ?n = Option ?t") (auto simp: Master_ForceCoreEnchant_tx_def)
  have st: "\<forall>it\<in>set (?t # materials). inv_rows db ?c (Slot it) = Some it"
    using lock_rows_Done [OF l] by (simp add: set_insort_key)
  have new: "?t\<lparr>Kind := Kind ?t, Option := Option ?n\<rparr> = ?n" using assms(2-5) by simp
  have "replaces ?c ((inv_rows db ?c)(Slot ?t \<mapsto> ?n)) db db1"
  proof (cases "Option ?n = Option ?t")
    case True
    with assms(2-5) have "?n = ?t" by simp
    with True n st show ?thesis by (auto simp: fun_eq_iff)
  next
    case False
    with u sql_update_exact_1 have "db1 = set_row characters_inventory ?c (Slot ?t) (Some (row_of ?n)) db"
      by (metis new)
    with item_at_row_of_slot [of ?n] assms(2) show ?thesis by simp
  qed
  with spend_rows_Done [OF s] \<open>res\<close> st show ?thesis by simp
qed

lemma ForceCore_effect:
  assumes "Master_ForceCoreEnchant io r db = (res, db')"
    and "ms = (case RandomScroll r of None \<Rightarrow> [] | Some a \<Rightarrow> [a]) @
          (case SpecificScroll r of None \<Rightarrow> [] | Some a \<Rightarrow> [a]) @ fCores r"
  shows "if success id res
     then (\<forall>it\<in>set (fTarget r # ms). inv_rows db (fCharacter r) (Slot it) = Some it) \<and>
       replaces (fCharacter r) (fold (spend_row (Slot ` set (fCores r))) ms
         ((inv_rows db (fCharacter r))(Slot (fTarget r) \<mapsto> fNewTarget r))) db db'
     else db' = db"
proof -
  have "(res = Some (Inr False) \<and> db' = db) \<or>
     (apfst Some (transaction (Master_ForceCoreEnchant_tx ms (Slot ` set (fCores r)) r) io db) = (res, db') \<and>
      Slot (fNewTarget r) = Slot (fTarget r) \<and> Kind (fNewTarget r) = Kind (fTarget r) \<and>
      Serials (fNewTarget r) = Serials (fTarget r) \<and> Expire (fNewTarget r) = Expire (fTarget r))"
    using assms(1) unfolding Master_ForceCoreEnchant_def Let_def assms(2) by (simp split: if_split_asm)
  then show ?thesis
  proof (elim disjE conjE)
    assume yes: "apfst Some (transaction (Master_ForceCoreEnchant_tx ms (Slot ` set (fCores r)) r) io db) = (res, db')"
      and eqs: "Slot (fNewTarget r) = Slot (fTarget r)" "Kind (fNewTarget r) = Kind (fTarget r)"
      "Serials (fNewTarget r) = Serials (fTarget r)" "Expire (fNewTarget r) = Expire (fTarget r)"
    have "refuses (\<lambda>r. \<not> id r) (Master_ForceCoreEnchant_tx ms (Slot ` set (fCores r)) r)"
      unfolding Master_ForceCoreEnchant_tx_def by (intro refuses_intro) simp_all
    then have "if success id res then \<exists>p. res = Some (Inr p) \<and>
       ((\<forall>it\<in>set (fTarget r # ms). inv_rows db (fCharacter r) (Slot it) = Some it) \<and>
       replaces (fCharacter r) (fold (spend_row (Slot ` set (fCores r))) ms
         ((inv_rows db (fCharacter r))(Slot (fTarget r) \<mapsto> fNewTarget r))) db db')
     else db' = db"
      by (rule transaction_effect [OF _ yes]) (drule ForceCore_tx_Done [OF _ eqs], unfold id_apply, assumption)
    then show ?thesis by (rule if_response)
  qed simp
qed

section \<open>Trade\<close>

definition copies :: "Db \<Rightarrow> int32 \<Rightarrow> Row \<Rightarrow> nat" where
  "copies db c r = card {s. tables db characters_inventory c s = Some r}"

lemma copies_delete:
  assumes "inv_rows db c (Slot it) = Some it"
  shows "copies (set_row characters_inventory c (Slot it) None db) d r + (if d = c \<and> r = row_of it then 1 else 0) = copies db d r"
proof -
  let ?A = "{s. tables db characters_inventory c s = Some r}"
  have t: "tables db characters_inventory c (Slot it) = Some (row_of it)"
    using assms by (simp add: tables_stored)
  have "{s. tables (set_row characters_inventory c (Slot it) None db) characters_inventory c s = Some r} = ?A - {Slot it}"
    by auto
  moreover have "card (?A - {Slot it}) + (if r = row_of it then 1 else 0) = card ?A"
    using t card_Suc_Diff1 [of ?A "Slot it"]
    by (cases "r = row_of it") (simp_all del: card_Diff_singleton card_Diff_insert)
  ultimately have "copies (set_row characters_inventory c (Slot it) None db) c r + (if r = row_of it then 1 else 0) = copies db c r"
    unfolding copies_def by (simp only:)
  then show ?thesis by (cases "d = c") (simp_all add: copies_def)
qed

lemma copies_insert:
  assumes "inv_rows db c (Slot it) = None"
  shows "copies (set_row characters_inventory c (Slot it) (Some (row_of it)) db) d r =
     copies db d r + (if d = c \<and> r = row_of it then 1 else 0)"
proof -
  let ?A = "{s. tables db characters_inventory c s = Some r}"
  have t: "tables db characters_inventory c (Slot it) = None"
    using assms by (simp add: tables_stored)
  have "{s. tables (set_row characters_inventory c (Slot it) (Some (row_of it)) db) characters_inventory c s = Some r} =
      (if r = row_of it then insert (Slot it) ?A else ?A)" using t by auto
  moreover have "Slot it \<notin> ?A" using t by simp
  ultimately have "copies (set_row characters_inventory c (Slot it) (Some (row_of it)) db) c r =
     copies db c r + (if r = row_of it then 1 else 0)"
    unfolding copies_def by (simp only: split: if_split) (simp add: t)
  then show ?thesis by (cases "d = c") (simp_all add: copies_def)
qed

definition give :: "TradeItemTransfer list \<Rightarrow> (uint16 \<rightharpoonup> Item) \<Rightarrow> (uint16 \<rightharpoonup> Item)" where
  "give ts m = m |` (- (\<lambda>t. Slot (tItem t)) ` set ts)"

definition receive :: "TradeItemTransfer list \<Rightarrow> (uint16 \<rightharpoonup> Item) \<Rightarrow> (uint16 \<rightharpoonup> Item)" where
  "receive ts m = fold (\<lambda>t m. m(TargetSlot t \<mapsto> (tItem t)\<lparr>Slot := TargetSlot t\<rparr>)) ts m"

lemma applyTradeTransfers_Done:
  assumes "applyTradeTransfers a b ts db io = (Done u db' io' :: ('r, unit) tx)" "a \<noteq> b"
  shows "inv_rows db' a = give ts (inv_rows db a) \<and> inv_rows db' b = receive ts (inv_rows db b) \<and>
     (\<forall>d. d \<noteq> a \<longrightarrow> d \<noteq> b \<longrightarrow> inv_rows db' d = inv_rows db d) \<and> alz_of db' = alz_of db \<and>
     (\<forall>r. copies db' a r + copies db' b r = copies db a r + copies db b r)"
  using assms(1)
proof (induction ts arbitrary: db io)
  case Nil
  then show ?case by (simp add: give_def receive_def restrict_map_def)
next
  case (Cons t ts)
  let ?i = "tItem t"
  let ?j = "?i\<lparr>Slot := TargetSlot t\<rparr>"
  define db1 where "db1 = set_row characters_inventory a (Slot ?i) None db"
  define db2 where "db2 = set_row characters_inventory b (Slot ?j) (Some (row_of ?j)) db1"
  obtain io1 where del: "inv_rows db a (Slot ?i) = Some ?i" and ins: "inv_rows db1 b (Slot ?j) = None"
    and rest: "applyTradeTransfers a b ts db2 io1 = (Done u db' io' :: ('r, unit) tx)"
    using Cons.prems assms(2) by (auto simp: Let_def db1_def db2_def)
  have same: "row_of ?j = row_of ?i" by (simp add: row_of_def)
  have "copies db2 a r + copies db2 b r = copies db a r + copies db b r" for r
    using copies_delete [OF del, of a r, folded db1_def] copies_delete [OF del, of b r, folded db1_def]
      copies_insert [OF ins, of a r, folded db2_def] copies_insert [OF ins, of b r, folded db2_def] assms(2) same
    by (cases "r = row_of ?i") simp_all
  moreover have "give ts (inv_rows db2 a) = give (t # ts) (inv_rows db a)"
    using assms(2) by (auto simp: db1_def db2_def give_def restrict_map_def fun_eq_iff)
  moreover have "receive ts (inv_rows db2 b) = receive (t # ts) (inv_rows db b)"
    using assms(2) by (simp add: db1_def db2_def receive_def item_at_row_of)
  moreover have "inv_rows db2 d = inv_rows db d" if "d \<noteq> a" "d \<noteq> b" for d
    using that by (simp add: db1_def db2_def)
  moreover have "alz_of db2 = alz_of db" by (simp add: db1_def db2_def)
  ultimately show ?case
    using Cons.IH [OF rest] by simp
qed


lemma validateTradeTransfers_Done:
  "validateTradeTransfers a b A B ts db io = Done ok db' io' \<Longrightarrow> db' = db"
  by (induction ts arbitrary: A B io) (auto simp: Let_def query_or_def split: if_splits)

text \<open>The Alz of the two parties after the exchange, without overflow.\<close>

lemma alz_exchange:
  fixes a b x y :: uint64
  assumes "x \<le> a" "y \<le> b" "y \<le> - 1 - (a - x)" "x \<le> - 1 - (b - y)"
  shows "unat (a - x + y) + unat x = unat a + unat y" "unat (b - y + x) + unat y = unat b + unat x"
  using assms unat_add_no_wrap(2) [OF assms(3)] unat_add_no_wrap(2) [OF assms(4)]
  by (simp_all add: unat_sub word_le_nat_alt)

text \<open>What is listed was there, and goes to slots that were free.\<close>

definition offered :: "TradeItemTransfer list \<Rightarrow> (uint16 \<rightharpoonup> Item) \<Rightarrow> (uint16 \<rightharpoonup> Item) \<Rightarrow> bool" where
  "offered ts m m' \<longleftrightarrow> (\<forall>t\<in>set ts. m (Slot (tItem t)) = Some (tItem t) \<and> m' (TargetSlot t) = None)"

lemma validateTradeTransfers_offered:
  "validateTradeTransfers a b A B ts db io = Done True db' io' \<Longrightarrow> offered ts (inv_rows db a) (inv_rows db b)"
  by (induction ts arbitrary: A B io) (auto simp: offered_def stored_def Let_def query_or_def split: if_splits)

definition traded :: "TradeRequest \<Rightarrow> TradeResponse \<Rightarrow> Db \<Rightarrow> Db \<Rightarrow> bool" where
  "traded r res db db' \<longleftrightarrow>
     (\<exists>a b a' b'. alz_of db (FirstCharacter r) = Some a \<and> alz_of db (SecondCharacter r) = Some b \<and>
        alz_of db' = (alz_of db)(FirstCharacter r \<mapsto> a', SecondCharacter r \<mapsto> b') \<and>
        unat a' + unat (FirstAlz r) = unat a + unat (SecondAlz r) \<and>
        unat b' + unat (SecondAlz r) = unat b + unat (FirstAlz r) \<and>
        res = \<lparr>tResult = True, tFirstAlz = a', tSecondAlz = b'\<rparr>) \<and>
     inv_rows db' (FirstCharacter r) = receive (SecondItems r) (give (FirstItems r) (inv_rows db (FirstCharacter r))) \<and>
     inv_rows db' (SecondCharacter r) = give (SecondItems r) (receive (FirstItems r) (inv_rows db (SecondCharacter r))) \<and>
     (\<forall>c. c = FirstCharacter r \<or> c = SecondCharacter r \<or> inv_rows db' c = inv_rows db c) \<and>
     (\<forall>row. copies db' (FirstCharacter r) row + copies db' (SecondCharacter r) row =
        copies db (FirstCharacter r) row + copies db (SecondCharacter r) row) \<and>
     offered (FirstItems r) (inv_rows db (FirstCharacter r)) (inv_rows db (SecondCharacter r)) \<and>
     offered (SecondItems r) (inv_rows db (SecondCharacter r)) (inv_rows db (FirstCharacter r))"

lemma lock_alz_Done: "lock_alz f s db io = Done x db' io' \<Longrightarrow>
    db' = db \<and> alz_of db f = Some (fst x) \<and> alz_of db s = Some (snd x)"
  by (auto simp: lock_alz_def split: if_splits)

lemma TradeItems_tx_Done:
  assumes "TradeItems_tx r db io = Done res db' io'" "FirstCharacter r \<noteq> SecondCharacter r"
  shows "traded r res db db'"
proof -
  let ?f = "FirstCharacter r" and ?s = "SecondCharacter r"
  obtain x d0 d1 d2 d3 d4 d5 i0 i2 i4 i6 i7 n m
    where l: "(lock_alz ?f ?s :: (TradeResponse, _) stmt) db io = Done x d0 i0"
    and le: "\<not> (FirstAlz r > fst x \<or> SecondAlz r > snd x)" "\<not> - 1 - (fst x - FirstAlz r) < SecondAlz r"
      "\<not> - 1 - (snd x - SecondAlz r) < FirstAlz r"
    and v1: "(validateTradeTransfers ?f ?s {} {} (FirstItems r) :: (TradeResponse, _) stmt) d0 i0 = Done True d1 i2"
    and v2: "(validateTradeTransfers ?s ?f {} {} (SecondItems r) :: (TradeResponse, _) stmt) d1 i2 = Done True d2 i4"
    and a1: "(applyTradeTransfers ?f ?s (FirstItems r) :: (TradeResponse, _) stmt) d2 i4 = Done () d3 i6"
    and a2: "(applyTradeTransfers ?s ?f (SecondItems r) :: (TradeResponse, _) stmt) d3 i6 = Done () d4 i7"
    and u: "update_alz ?f (\<lambda>_. fst x - FirstAlz r + SecondAlz r) d4 = Some (n, d5)"
      "update_alz ?s (\<lambda>_. snd x - SecondAlz r + FirstAlz r) d5 = Some (m, db')"
    and res: "res = \<lparr>tResult = True, tFirstAlz = fst x - FirstAlz r + SecondAlz r,
      tSecondAlz = snd x - SecondAlz r + FirstAlz r\<rparr>"
    using assms(1) unfolding TradeItems_tx_def Let_def andThen_Done stmt_Done case_prod_beta by auto
  have db: "d2 = db" "alz_of db ?f = Some (fst x)" "alz_of db ?s = Some (snd x)"
    using lock_alz_Done [OF l] validateTradeTransfers_Done [OF v1] validateTradeTransfers_Done [OF v2] by simp_all
  have db': "inv_rows db' c = inv_rows d4 c" "tables db' = tables d4"
      "alz_of db' = (alz_of d4)(?f := map_option (\<lambda>_. fst x - FirstAlz r + SecondAlz r) (alz_of d4 ?f),
         ?s := map_option (\<lambda>_. snd x - SecondAlz r + FirstAlz r) (alz_of d4 ?s))" for c
    using u assms(2) by (auto simp: stored_def)
  note ok = validateTradeTransfers_offered [OF v1] validateTradeTransfers_offered [OF v2]
  have d01: "d0 = db" "d1 = db" using lock_alz_Done [OF l] validateTradeTransfers_Done [OF v1] by simp_all
  note A1 = applyTradeTransfers_Done [OF a1 assms(2)] and A2 = applyTradeTransfers_Done [OF a2 assms(2) [symmetric]]
  have "copies db' c row = copies d4 c row" for c row by (simp add: copies_def db'(2))
  moreover have "alz_of d4 = alz_of db" using A1 A2 db(1) by simp
  moreover have "FirstAlz r \<le> fst x" "SecondAlz r \<le> snd x" "SecondAlz r \<le> - 1 - (fst x - FirstAlz r)"
      "FirstAlz r \<le> - 1 - (snd x - SecondAlz r)"
    using le by (simp_all add: not_less)
  note alz_exchange [OF this]
  ultimately show ?thesis
    using A1 A2 db res db'(1,3) assms(2) ok [unfolded d01] unfolding traded_def by (auto simp: add.commute)
qed

lemma TradeItems_effect:
  assumes "TradeItems io r db = (res, db')"
  shows "if success tResult res then \<exists>p. res = Some (Inr p) \<and> traded r p db db' else db' = db"
proof -
  have "(res = Some (Inl ''invalid trade request'') \<and> db' = db) \<or>
     (apfst Some (transaction (TradeItems_tx r) io db) = (res, db') \<and> FirstCharacter r \<noteq> SecondCharacter r)"
    using assms unfolding TradeItems_def by (simp split: if_split_asm)
  then show ?thesis
  proof (elim disjE conjE)
    assume yes: "apfst Some (transaction (TradeItems_tx r) io db) = (res, db')" "FirstCharacter r \<noteq> SecondCharacter r"
    have "refuses (\<lambda>r. \<not> tResult r) (TradeItems_tx r)"
      unfolding TradeItems_tx_def lock_alz_def Let_def case_prod_beta by (intro refuses_intro) simp_all
    then show ?thesis
    proof (rule transaction_effect [OF _ yes(1)])
      fix p d i
      assume "TradeItems_tx r db (tl io) = Done p d i"
      from TradeItems_tx_Done [OF this yes(2)] show "tResult p \<and> traded r p db d" by (auto simp: traded_def)
    qed
  qed simp
qed

lemma if_swap: "(if \<not> b then x else y) = (if b then y else x)"
  by simp

text \<open>
  C5: A trade is all or nothing. Unless it reports success the database is untouched. When it
  succeeds, each party has given exactly the listed items and received the other's in the listed
  slots, no row appears or disappears between the two inventories, no third inventory changes, and the
  Alz the two hold together is the same as before, without wrap-around.
\<close>

theorem TradeItems_atomic:
  "case TradeItems io r db of (res, db') \<Rightarrow>
     if \<not> success tResult res then db' = db
     else inv_rows db' (FirstCharacter r) = receive (SecondItems r) (give (FirstItems r) (inv_rows db (FirstCharacter r))) \<and>
       inv_rows db' (SecondCharacter r) = give (SecondItems r) (receive (FirstItems r) (inv_rows db (SecondCharacter r))) \<and>
       (\<forall>c. c = FirstCharacter r \<or> c = SecondCharacter r \<or> inv_rows db' c = inv_rows db c) \<and>
       (\<forall>row. copies db' (FirstCharacter r) row + copies db' (SecondCharacter r) row =
          copies db (FirstCharacter r) row + copies db (SecondCharacter r) row) \<and>
       (\<exists>a b a' b'. alz_of db (FirstCharacter r) = Some a \<and> alz_of db (SecondCharacter r) = Some b \<and>
          alz_of db' = (alz_of db)(FirstCharacter r \<mapsto> a', SecondCharacter r \<mapsto> b') \<and>
          unat a' + unat b' = unat a + unat b \<and> unat a' + unat (FirstAlz r) = unat a + unat (SecondAlz r))"
proof -
  obtain res db' where t: "TradeItems io r db = (res, db')" by (cases "TradeItems io r db")
  show ?thesis
  proof (cases "success tResult res")
    case False
    with TradeItems_effect [OF t] t show ?thesis by simp
  next
    case True
    with TradeItems_effect [OF t] obtain p where "traded r p db db'" by auto
    then obtain a b a' b' where "alz_of db (FirstCharacter r) = Some a" "alz_of db (SecondCharacter r) = Some b"
        "alz_of db' = (alz_of db)(FirstCharacter r \<mapsto> a', SecondCharacter r \<mapsto> b')"
        "unat a' + unat (FirstAlz r) = unat a + unat (SecondAlz r)"
        "unat b' + unat (SecondAlz r) = unat b + unat (FirstAlz r)"
      unfolding traded_def by blast
    moreover from this(4,5) have "unat a' + unat b' = unat a + unat b" by linarith
    ultimately have ex: "\<exists>a b a' b'. alz_of db (FirstCharacter r) = Some a \<and> alz_of db (SecondCharacter r) = Some b \<and>
          alz_of db' = (alz_of db)(FirstCharacter r \<mapsto> a', SecondCharacter r \<mapsto> b') \<and>
          unat a' + unat b' = unat a + unat b \<and> unat a' + unat (FirstAlz r) = unat a + unat (SecondAlz r)"
      by blast
    from \<open>traded r p db db'\<close> [unfolded traded_def, THEN conjunct2] ex show ?thesis
      unfolding t prod.case if_swap if_P [OF True] by (elim conjE, intro conjI) assumption+
  qed
qed

section \<open>Storage\<close>

lemma StorageMove_tx_Done:
  assumes "StorageMove_tx src tgt r db io = Done res db' io'"
    and "(src, SourceSlot r) \<noteq> (tgt, smTargetSlot r)"
  shows "res \<and> (\<exists>it. stored src (smCharacter r) db (SourceSlot r) = Some it \<and>
     stored tgt (smCharacter r) db (smTargetSlot r) = None \<and>
     (\<forall>t c. stored t c db' =
        (let m = (if t = src \<and> c = smCharacter r then (stored t c db)(SourceSlot r := None) else stored t c db)
         in if t = tgt \<and> c = smCharacter r then m(smTargetSlot r \<mapsto> it\<lparr>Slot := smTargetSlot r\<rparr>) else m)))"
proof -
  obtain it i1 i2 where it: "stored src (smCharacter r) db (SourceSlot r) = Some it"
    and free: "tables db tgt (smCharacter r) (smTargetSlot r) = None" and "res"
    and rest: "if src = tgt then \<exists>n. sql_move src (smCharacter r) (SourceSlot r) (smTargetSlot r) db = Some (n, db')
       else db' = set_row src (smCharacter r) (SourceSlot r) None
          (set_row tgt (smCharacter r) (smTargetSlot r) (Some (row_of (it\<lparr>Slot := smTargetSlot r\<rparr>))) db)"
    using assms(1)
    by (auto simp: StorageMove_tx_def sql_delete_def split: option.splits if_splits)
  have free': "stored tgt (smCharacter r) db (smTargetSlot r) = None" using free by (simp add: stored_def)
  show ?thesis
  proof (cases "src = tgt")
    case True
    with assms(2) have ne: "smTargetSlot r \<noteq> SourceSlot r" by auto
    from rest True obtain n where "sql_move src (smCharacter r) (SourceSlot r) (smTargetSlot r) db = Some (n, db')" by auto
    from sql_move_Some [OF this it ne] True it free' \<open>res\<close> show ?thesis by (auto simp: item_at_row_of Let_def)
  next
    case False
    with rest it free' \<open>res\<close> show ?thesis by (auto simp: item_at_row_of Let_def)
  qed
qed

text \<open>
  Moving an item between inventory and warehouse is all or nothing, never overwrites an item,
  and moves exactly the one item: the source slot is empty and the free target slot holds it.
\<close>

theorem StorageMove_atomic:
  "case StorageMove io r db of (res, db') \<Rightarrow>
     if success id res \<and> \<not> (SourceType r = TargetType r \<and> SourceSlot r = smTargetSlot r)
     then \<exists>src tgt it. storageTable (SourceType r) = Some src \<and> storageTable (TargetType r) = Some tgt \<and>
       stored src (smCharacter r) db (SourceSlot r) = Some it \<and>
       stored tgt (smCharacter r) db (smTargetSlot r) = None \<and>
       (\<forall>t c. stored t c db' =
          (let m = (if t = src \<and> c = smCharacter r then (stored t c db)(SourceSlot r := None) else stored t c db)
           in if t = tgt \<and> c = smCharacter r then m(smTargetSlot r \<mapsto> it\<lparr>Slot := smTargetSlot r\<rparr>) else m))
     else db' = db"
proof -
  obtain res db' where t: "StorageMove io r db = (res, db')" by (cases "StorageMove io r db")
  have cs: "(\<not> success id res \<or> (SourceType r = TargetType r \<and> SourceSlot r = smTargetSlot r)) \<and> db' = db \<or>
    (\<exists>src tgt. storageTable (SourceType r) = Some src \<and> storageTable (TargetType r) = Some tgt \<and>
       \<not> (SourceType r = TargetType r \<and> SourceSlot r = smTargetSlot r) \<and>
       apfst Some (transaction (StorageMove_tx src tgt r) io db) = (res, db'))"
    using t unfolding StorageMove_def by (simp split: if_split_asm option.split_asm) auto
  show ?thesis
  proof (cases "(\<not> success id res \<or> (SourceType r = TargetType r \<and> SourceSlot r = smTargetSlot r)) \<and> db' = db")
    case True
    then have "\<not> (success id res \<and> \<not> (SourceType r = TargetType r \<and> SourceSlot r = smTargetSlot r))" "db' = db" by blast+
    then show ?thesis unfolding t prod.case by (simp only: if_False)
  next
    case False
    with cs obtain src tgt where s: "storageTable (SourceType r) = Some src" "storageTable (TargetType r) = Some tgt"
      "\<not> (SourceType r = TargetType r \<and> SourceSlot r = smTargetSlot r)"
      and tx: "apfst Some (transaction (StorageMove_tx src tgt r) io db) = (res, db')" by blast
    have ne: "(src, SourceSlot r) \<noteq> (tgt, smTargetSlot r)"
      using s by (auto simp: storageTable_def split: if_splits)
    have "refuses (\<lambda>r. \<not> id r) (StorageMove_tx src tgt r)"
      unfolding StorageMove_tx_def by (intro refuses_intro) simp_all
    then have "if success id res then \<exists>p. res = Some (Inr p) \<and> (\<exists>it. stored src (smCharacter r) db (SourceSlot r) = Some it \<and>
       stored tgt (smCharacter r) db (smTargetSlot r) = None \<and>
       (\<forall>t c. stored t c db' =
          (let m = (if t = src \<and> c = smCharacter r then (stored t c db)(SourceSlot r := None) else stored t c db)
           in if t = tgt \<and> c = smCharacter r then m(smTargetSlot r \<mapsto> it\<lparr>Slot := smTargetSlot r\<rparr>) else m)))
      else db' = db"
      by (rule transaction_effect [OF _ tx]) (drule StorageMove_tx_Done [OF _ ne], unfold id_apply, assumption)
    from if_response [OF this] t s show ?thesis
      by (cases "success id res") (simp_all only: if_True if_False simp_thms prod.case, blast)
  qed
qed

text \<open>
  C14: A purchase is all or nothing: unless it reports success the database is untouched; otherwise
  the item lies in a slot of the buyer that was free, exactly its price was taken from a balance that
  covered it, and nobody else is affected.
\<close>

theorem PurchaseItem_atomic:
  "case PurchaseItem io r db of (res, db') \<Rightarrow>
     if \<not> success pResult res then db' = db
     else \<exists>alz. alz_of db (pCharacter r) = Some alz \<and> pPrice r \<le> alz \<and>
        inv_rows db (pCharacter r) (Slot (pItem r)) = None \<and>
        res = Some (Inr \<lparr>pResult = True, pAlz = alz - pPrice r\<rparr>) \<and>
        alz_of db' = (alz_of db)(pCharacter r \<mapsto> alz - pPrice r) \<and>
        replaces (pCharacter r) ((inv_rows db (pCharacter r))(Slot (pItem r) \<mapsto> pItem r)) db db'"
  using PurchaseItem_effect [of io r db] by (cases "PurchaseItem io r db") simp

text \<open>
  A sale is all or nothing: unless it reports success the database is untouched; otherwise every
  listed item was there, each once, and is gone, and the price was added without overflow.
\<close>

theorem SellItems_atomic:
  "case SellItems io r db of (res, db') \<Rightarrow>
     if \<not> success sResult res then db' = db
     else \<exists>alz. alz_of db (sCharacter r) = Some alz \<and> unat alz + unat (sPrice r) < 2 ^ 64 \<and>
        res = Some (Inr \<lparr>sResult = True, sAlz = alz + sPrice r\<rparr>) \<and>
        alz_of db' = (alz_of db)(sCharacter r \<mapsto> alz + sPrice r) \<and>
        set (sItems r) \<subseteq> {it. inv_rows db (sCharacter r) (Slot it) = Some it} \<and> distinct (map Slot (sItems r)) \<and>
        replaces (sCharacter r) (inv_rows db (sCharacter r) |` (- Slot ` set (sItems r))) db db'"
  unfolding if_swap by (cases "SellItems io r db") (simp only: prod.case, rule SellItems_effect, assumption)

end
