(* ===== verification/Freya_Coherence.thy ===== *)
theory Freya_Coherence
  imports Freya_Inventory Freya_Master_Laws
begin

text \<open>
  The game server's inventory on top of the master server's handlers: the handlers satisfy the
  contract \<open>item_master\<close>, so memory and database of a character agree after any sequence of the
  operations, whatever database call fails. The two operations for which they can part are shown with
  the runs in which they do.
\<close>

section \<open>The handlers satisfy the contract\<close>

definition world_rows :: "world \<Rightarrow> int32 \<Rightarrow> uint16 \<rightharpoonup> Item" where
  "world_rows w c = inv_rows (database w) c"

text \<open>A call is either lost while the process is down or runs its handler.\<close>

lemma serve_cases:
  assumes "serve h q w = (res, w')"
  obtains (lost) e where "res = Inl e" "database w' = database w"
  | (run) io r where "h io q (database w) = (r, database w')" "\<And>f. accepted f res = success f r"
      "\<And>p. res = Inr p \<Longrightarrow> r = Some (Inr p)"
proof -
  have "success f (Some res) = accepted f res" for f by (cases res) simp_all
  with assms that show ?thesis
    by (cases "next_call w") (auto simp: serve_def Let_def split: prod.splits option.splits if_splits)
qed

lemma serve_rows:
  assumes "serve h q w = (res, w')"
    and "\<And>io r db'. h io q (database w) = (r, db') \<Longrightarrow> if success f r then inv_rows db' c = R else db' = database w"
  shows "world_rows w' c = (if accepted f res then R else world_rows w c)"
  using assms(1)
proof (cases rule: serve_cases)
  case lost
  then show ?thesis by (simp add: world_rows_def)
next
  case (run io r)
  with assms(2) [OF run(1)] show ?thesis by (auto simp: world_rows_def split: if_splits)
qed

text \<open>A success report came from the handler.\<close>

lemma serve_success:
  assumes "serve h q w = (res, w')" "accepted f res"
  obtains io r where "h io q (database w) = (r, database w')" "success f r"
  using assms(1)
proof (cases rule: serve_cases)
  case lost
  then show ?thesis using assms(2) by simp
next
  case (run io r)
  then show ?thesis using assms(2) that by simp
qed

lemma item_handlers_simps [simp]:
  "item_handlers ''AddItem'' = AddItem" "item_handlers ''RemoveItem'' = RemoveItem"
  "item_handlers ''MoveItem'' = MoveItem" "item_handlers ''SwapItem'' = SwapItem"
  "item_handlers ''ConsumeItem'' = ConsumeItem" "item_handlers ''StackItem'' = StackItem"
  by (simp_all add: item_handlers_def)

lemma master_calls [simp]:
  "call_item master cmd = serve (item_handlers cmd)" "call_forcecore master = serve Master_ForceCoreEnchant"
  by (simp_all add: master_def)

lemma coherent_set_up: "coherent rpc rows e m \<Longrightarrow> \<not> (character e = 0 \<and> serverId e = 0)"
  by (simp add: coherent_def)

lemma master_answers:
  assumes "cmd \<in> {''RemoveItem'', ''SwapItem'', ''MoveItem''}" "call_item master cmd r m = (Inr p, m')"
  shows "iResult p"
proof -
  have s: "serve (item_handlers cmd) r m = (Inr p, m')" using assms(2) by (simp add: master_def)
  obtain io res where h: "item_handlers cmd io r (database m) = (res, database m')" "res = Some (Inr p)"
    using s by (cases rule: serve_cases) simp_all
  have "transaction (swap_slots t r n) io db = (Inr p, db') \<Longrightarrow> iResult p" for t n db db'
    by (auto simp: transaction_def swap_slots_def Let_def andThen_def exec_def return_tx_def
        split: tx.splits option.splits if_splits)
  with h assms(1) show ?thesis
    by (auto simp: RemoveItem_def SwapItem_def MoveItem_def apfst_def map_prod_def
        split: option.splits prod.splits sum.splits)
qed

interpretation world: item_master master world_rows
proof (unfold_locales, goal_cases)
  case (1 m c s it)
  then show ?case by (auto simp: world_rows_def dest: stored_Slot)
next
  case (2 cmd r m p m')
  then show ?case by (rule master_answers)
next
  case (3 r m res m')
  then have "serve AddItem r m = (res, m')" by (simp add: master_def)
  then show ?case
    by (rule serve_rows) (drule AddItem_effect, auto simp: world_rows_def split: if_splits)
next
  case (4 r m res m')
  then have "serve RemoveItem r m = (res, m')" by (simp add: master_def)
  then show ?case
    by (rule serve_rows) (drule RemoveItem_effect, auto simp: world_rows_def split: if_splits)
next
  case (5 r m res m' new it)
  then have "serve MoveItem r m = (res, m')" by (simp add: master_def)
  then show ?case
    by (rule serve_rows)
      (drule MoveItem_effect [OF _ 5(2) 5(3) [unfolded world_rows_def] 5(4)], auto simp: world_rows_def split: if_splits)
next
  case (6 r m res m' new a b)
  then have "serve SwapItem r m = (res, m')" by (simp add: master_def)
  then show ?case
    by (rule serve_rows)
      (drule SwapItem_effect [OF _ 6(2) 6(3,4) [unfolded world_rows_def]], auto simp: world_rows_def split: if_splits)
next
  case (7 r m res m' new)
  then have "serve ConsumeItem r m = (res, m')" by (simp add: master_def)
  then show ?case
    by (rule serve_rows) (drule ConsumeItem_effect, use 7(2) in \<open>auto simp: world_rows_def split: if_splits\<close>)
next
  case (8 q m res m')
  then have "serve PurchaseItem q m = (res, m')" by (simp add: master_def)
  then show ?case
    by (rule serve_rows) (drule PurchaseItem_effect, auto simp: world_rows_def split: if_splits)
next
  case (9 q m res m')
  then have "serve SellItems q m = (res, m')" by (simp add: master_def)
  then show ?case
    by (rule serve_rows) (drule SellItems_effect, auto simp: world_rows_def split: if_splits)
next
  case (10 q m res m')
  then have "serve LearnSkill q m = (res, m')" by (simp add: master_def)
  then show ?case
    by (rule serve_rows) (drule LearnSkill_effect, auto simp: world_rows_def split: if_splits)
next
  case (11 q m res m')
  then have "serve EnchantItem q m = (res, m')" by (simp add: master_def)
  then show ?case
    by (rule serve_rows) (drule EnchantItem_effect, auto simp: world_rows_def split: if_splits)
next
  case (12 q m res m' t)
  then have "serve AttachItem q m = (res, m')" by (simp add: master_def)
  then show ?case
    by (rule serve_rows) (drule AttachItem_effect [OF _ 12(2)], auto simp: world_rows_def split: if_splits)
qed

section \<open>Memory and database agree\<close>

text \<open>A character in the world with two items, for the witnesses.\<close>

definition sample_item :: "uint32 \<Rightarrow> int32 \<Rightarrow> uint16 \<Rightarrow> Item" where
  "sample_item k p s = \<lparr>Kind = k, Serials = 0, Option = p, Slot = s, Expire = 0\<rparr>"

lemma sample_item_simps [simp]:
  "Kind (sample_item k p s) = k" "Serials (sample_item k p s) = 0" "Option (sample_item k p s) = p"
  "Slot (sample_item k p s) = s" "Expire (sample_item k p s) = 0"
  by (simp_all add: sample_item_def)

definition sample_row :: CharRow where
  "sample_row = \<lparr>col_exp = 0, col_level = 1, col_rank = 1, col_world = 1, col_x = 0, col_y = 0, col_current_hp = 1, col_max_hp = 1,
     col_current_mp = 1, col_max_mp = 1, col_current_sp = 0, col_max_sp = 0, str_stat = 3, dex_stat = 4, int_stat = 5,
     pnt_stat = 2, sword_rank = 1, magic_rank = 1, sword_exp = 0, magic_exp = 0, sword_point = 0, magic_point = 0,
     sword_rank_exp = 0, magic_rank_exp = 0\<rparr>"

definition sample_db :: "Item list \<Rightarrow> Db" where
  "sample_db its = fold (\<lambda>it. set_row characters_inventory 1 (Slot it) (Some (row_of it))) its
     \<lparr>tables = (\<lambda>_ _ _. None), alz_of = [1 \<mapsto> 1000, 2 \<mapsto> 50], skills_of = (\<lambda>_. Map.empty), columns = (\<lambda>_. sample_row)\<rparr>"

definition sample_world :: "Item list \<Rightarrow> (bool \<times> bool list) list \<Rightarrow> world" where
  "sample_world its cs = \<lparr>database = sample_db its, up = True, calls = cs\<rparr>"

definition sample_inv :: "Item list \<Rightarrow> world Inventory" where
  "sample_inv its = fold SetLocal its \<lparr>Inv = Map.empty, rpcHandler = Some master, character = 1, serverId = 1\<rparr>"

lemma SetLocal_coherent:
  "coherent master world_rows e w \<Longrightarrow> character e = c \<Longrightarrow>
   coherent master world_rows (SetLocal it e)
     (w\<lparr>database := set_row characters_inventory c (Slot it) (Some (row_of it)) (database w)\<rparr>)"
  by (simp add: coherent_def world_rows_def SetLocal_def)

lemma sample_coherent: "coherent master world_rows (sample_inv its) (sample_world its cs)"
proof -
  have "coherent master world_rows (fold SetLocal its e)
      (w\<lparr>database := fold (\<lambda>it. set_row characters_inventory 1 (Slot it) (Some (row_of it))) its (database w)\<rparr>)"
    if "coherent master world_rows e w" "character e = 1" for e w
    using that
  proof (induction its arbitrary: e w)
    case (Cons it its)
    have "character (SetLocal it e) = 1" using Cons.prems(2) by (simp add: SetLocal_def)
    with Cons.IH [OF SetLocal_coherent [OF Cons.prems]] show ?case by simp
  qed simp
  from this [of _ "\<lparr>database = \<lparr>tables = (\<lambda>_ _ _. None), alz_of = [1 \<mapsto> 1000, 2 \<mapsto> 50],
      skills_of = (\<lambda>_. Map.empty), columns = (\<lambda>_. sample_row)\<rparr>, up = True, calls = cs\<rparr>"]
  show ?thesis unfolding sample_inv_def sample_world_def sample_db_def
    by (simp add: coherent_def world_rows_def stored_def)
qed



section \<open>Where they part\<close>

text \<open>
  C25: \<open>Stack\<close> sets the amount of one slot in memory, but the master server's statement names the item
  kind and not the slot: with a second stack of the same kind, memory and database disagree afterwards,
  although the operation reports success.
\<close>

theorem Stack_diverges:
  assumes "coherent master world_rows e w" and "up w" and "calls w = []"
    and "Inv e (key s) = Some a" and "Inv e (key t) = Some b" and "s \<noteq> t" and "Kind a = Kind b" and "Option b \<noteq> n"
  shows "\<exists>e' w'. Stack s n e w = ((True, nil), e', w') \<and> Inv e' (key t) = Some b \<and>
     world_rows w' (character e) t = Some (b\<lparr>Option := n\<rparr>) \<and> \<not> coherent master world_rows e' w'"
proof -
  let ?it = "a\<lparr>Option := n\<rparr>"
  define w' where "w' = w\<lparr>database := sql_stack (character e) (Kind a) n (database w)\<rparr>"
  have "sync ''StackItem'' ?it None e w = ((True, nil), w')"
    using assms(2,3) coherent_rpc [OF assms(1)] coherent_set_up [OF assms(1)]
    by (cases w) (auto simp: sync_def serve_def next_call_def StackItem_def MustExec_def faulty_def Let_def w'_def)
  then have st: "Stack s n e w = ((True, nil), e\<lparr>Inv := ((Inv e)(key s := None))(key s \<mapsto> ?it)\<rparr>, w')"
    using assms(4) by (simp add: Stack_def Inventory_Get_def)
  have "world_rows w (character e) t = Some b" using assms(1,5) by (simp add: coherent_def)
  then have row: "world_rows w' (character e) t = Some (b\<lparr>Option := n\<rparr>)"
    using assms(7) by (simp add: world_rows_def w'_def inv_rows_stack)
  moreover have "b\<lparr>Option := n\<rparr> \<noteq> b" using assms(8) by (metis Item.select_convs(3) Item.surjective Item.update_convs(3))
  ultimately show ?thesis
    using st assms(5,6) by (auto simp: coherent_def)
qed

theorem Stack_diverges_witness:
  "\<exists>e' w'. Stack 3 20 (sample_inv [sample_item 9 5 3, sample_item 9 7 4]) (sample_world [sample_item 9 5 3, sample_item 9 7 4] [])
     = ((True, nil), e', w') \<and> Inv e' 4 = Some (sample_item 9 7 4) \<and> \<not> coherent master world_rows e' w'"
  using Stack_diverges [OF sample_coherent [of "[sample_item 9 5 3, sample_item 9 7 4]" "[]"], of 3
      "sample_item 9 5 3" 4 "sample_item 9 7 4" 20]
  by (fastforce simp: sample_inv_def SetLocal_def sample_world_def)

text \<open>The scrolls whose last use is spent.\<close>

definition last_use :: "uint16 set \<Rightarrow> Item list \<Rightarrow> uint16 set" where
  "last_use coreSlots ms = Slot ` {x \<in> set ms. Slot x \<notin> coreSlots \<and> Option x = 1}"

lemma spend_step:
  assumes "\<forall>s. if s \<in> bad then im (key s) = None \<and> (\<exists>it. m s = Some it \<and> Option it = 0) else im (key s) = m s"
    and "Slot x \<notin> bad"
  shows "\<forall>s. if s \<in> bad \<union> last_use S [x]
     then spend_material S x im (key s) = None \<and> (\<exists>it. spend_row S x m s = Some it \<and> Option it = 0)
     else spend_material S x im (key s) = spend_row S x m s"
proof -
  have minus: "Option x - 1 = 0 \<longleftrightarrow> Option x = 1" by simp
  have "sint (1 :: int32) = 1" by simp
  then show ?thesis
    using assms by (auto simp: spend_material_def spend_row_def last_use_def Let_def minus not_less)
qed

lemma fold_spend:
  assumes "\<forall>s. if s \<in> bad then im (key s) = None \<and> (\<exists>it. m s = Some it \<and> Option it = 0) else im (key s) = m s"
    and "distinct (map Slot ms)" "bad \<inter> Slot ` set ms = {}"
  shows "\<forall>s. if s \<in> bad \<union> last_use S ms
     then fold (spend_material S) ms im (key s) = None \<and> (\<exists>it. fold (spend_row S) ms m s = Some it \<and> Option it = 0)
     else fold (spend_material S) ms im (key s) = fold (spend_row S) ms m s"
  using assms
proof (induction ms arbitrary: im m bad)
  case Nil
  then show ?case by (simp add: last_use_def)
next
  case (Cons x ms)
  have "last_use S [x] \<subseteq> {Slot x}" by (auto simp: last_use_def)
  moreover have "{Slot x} \<inter> Slot ` set ms = {}" "Slot x \<notin> bad" "distinct (map Slot ms)"
    and "bad \<inter> Slot ` set ms = {}"
    using Cons.prems(2,3) by auto
  ultimately have "Slot x \<notin> bad" "(bad \<union> last_use S [x]) \<inter> Slot ` set ms = {}" "distinct (map Slot ms)"
    by blast+
  moreover have "bad \<union> last_use S [x] \<union> last_use S ms = bad \<union> last_use S (x # ms)" by (auto simp: last_use_def)
  ultimately show ?case
    using Cons.IH [OF spend_step [OF Cons.prems(1)], of x S] by simp
qed

lemma check_materials_distinct:
  "check_materials im A ms = nil \<Longrightarrow> distinct (map Slot ms) \<and> A \<inter> Slot ` set ms = {}"
  by (induction ms arbitrary: A) (auto split: if_splits)

text \<open>
  After a successful force-core enchant memory and database agree in every slot except those of
  scrolls used for the last time: there the game server deletes the item, while the database keeps a
  row with option zero, which comes back at the next login.
\<close>

theorem ForceCoreEnchant_memory:
  assumes "coherent master world_rows e w"
    and "ForceCoreEnchant target newTarget rnd spec cores e w = ((True, nil), e', w')"
  shows "\<forall>s. if s \<in> last_use (Slot ` set cores) (opt_list rnd @ opt_list spec)
     then Inv e' (key s) = None \<and> (\<exists>it. world_rows w' (character e) s = Some it \<and> Option it = 0)
     else Inv e' (key s) = world_rows w' (character e) s"
proof -
  let ?ms = "opt_list rnd @ opt_list spec @ cores" and ?S = "Slot ` set cores"
  let ?req = "\<lparr>fServer = serverId e, fCharacter = character e, fTarget = target, fNewTarget = newTarget,
                RandomScroll = rnd, SpecificScroll = spec, fCores = cores\<rparr>"
  obtain res w2 where c: "serve Master_ForceCoreEnchant ?req w = (res, w2)" by (cases "serve Master_ForceCoreEnchant ?req w")
  with assms(2) coherent_rpc [OF assms(1)] have ck: "check_materials (Inv e) {Slot target} ?ms = nil"
    and acc: "accepted id res" "w' = w2"
    and e': "e' = e\<lparr>Inv := fold (spend_material ?S) ?ms ((Inv e)(key (Slot target) \<mapsto> newTarget))\<rparr>"
    by (auto simp: ForceCoreEnchant_def Let_def split: if_splits option.splits sum.splits)
  from serve_success [OF c acc(1)] obtain io r where "Master_ForceCoreEnchant io ?req (database w) = (r, database w2)" "success id r" .
  with ForceCore_effect [OF this(1) refl] acc
  have rows: "world_rows w' (character e) = fold (spend_row ?S) ?ms ((world_rows w (character e))(Slot target \<mapsto> newTarget))"
    by (simp add: world_rows_def)
  have Inv: "Inv e' = fold (spend_material ?S) ?ms ((Inv e)(key (Slot target) \<mapsto> newTarget))" using e' by simp
  have "last_use ?S ?ms = last_use ?S (opt_list rnd @ opt_list spec)" by (auto simp: last_use_def)
  moreover have "\<forall>s. if s \<in> {} \<union> last_use ?S ?ms
     then Inv e' (key s) = None \<and> (\<exists>it. world_rows w' (character e) s = Some it \<and> Option it = 0)
     else Inv e' (key s) = world_rows w' (character e) s"
    unfolding rows Inv
    by (rule fold_spend) (use check_materials_distinct [OF ck] coherent_Inv [OF assms(1)] in simp_all)
  ultimately show ?thesis by simp
qed


theorem ForceCoreEnchant_memory_witness:
  "\<exists>e' w'. ForceCoreEnchant (sample_item 5 0 1) (sample_item 5 1 1) (Some (sample_item 6 1 2)) None [sample_item 7 0 3]
      (sample_inv [sample_item 5 0 1, sample_item 6 1 2, sample_item 7 0 3])
      (sample_world [sample_item 5 0 1, sample_item 6 1 2, sample_item 7 0 3] []) = ((True, nil), e', w') \<and>
     Inv e' 2 = None \<and> (\<exists>it. world_rows w' 1 2 = Some it \<and> Option it = 0)"
proof -
  let ?its = "[sample_item 5 0 1, sample_item 6 1 2, sample_item 7 0 3]"
  have "\<exists>e' w'. ForceCoreEnchant (sample_item 5 0 1) (sample_item 5 1 1) (Some (sample_item 6 1 2)) None [sample_item 7 0 3]
      (sample_inv ?its) (sample_world ?its []) = ((True, nil), e', w')"
    by (simp add: ForceCoreEnchant_def sample_inv_def SetLocal_def Let_def serve_def next_call_def sample_world_def Master_ForceCoreEnchant_def
        transaction_def Master_ForceCoreEnchant_tx_def andThen_def faulty_def query_def refuse_if_def return_tx_def
        exec_def sample_db_def stored_def item_at_row_of sql_update_exact_def sql_delete_exact_def)
  then obtain e' w' where r: "ForceCoreEnchant (sample_item 5 0 1) (sample_item 5 1 1) (Some (sample_item 6 1 2)) None
      [sample_item 7 0 3] (sample_inv ?its) (sample_world ?its []) = ((True, nil), e', w')" by blast
  have "character (sample_inv ?its) = 1" by (simp add: sample_inv_def SetLocal_def)
  moreover have "2 \<in> last_use (Slot ` set [sample_item 7 0 3]) (opt_list (Some (sample_item 6 1 2)) @ opt_list None)"
    by (simp add: last_use_def image_iff)
  ultimately show ?thesis
    using ForceCoreEnchant_memory [OF sample_coherent r, rule_format, of 2] r by simp
qed

end
