(* ===== verification/Freya_Wear.thy ===== *)
theory Freya_Wear
  imports Freya_Coherence Freya_Equipment
begin

text \<open>
  Equipment and inventory of the game server on top of the master server's handlers: the handlers
  satisfy the contract \<open>equipment_master\<close>, so both containers equal the database after any sequence of
  equipping, unequipping, swapping and inventory operations, and every move has one of the outcomes
  listed for it. The run in which unequipping destroys an item is shown as well.
\<close>

section \<open>Tables a handler does not touch\<close>

definition keeps :: "table \<Rightarrow> ('r, 'a) stmt \<Rightarrow> bool" where
  "keeps t m \<longleftrightarrow> (\<forall>db io a db' io'. m db io = Done a db' io' \<longrightarrow> tables db' t = tables db t)"

named_theorems keeps_intro "rules for the tables a statement leaves alone"

lemma keeps_rules [keeps_intro]:
  "keeps t (return_tx a)"
  "keeps t (fail_tx e)"
  "keeps t (refuse_tx r)"
  "keeps t (refuse_if b r)"
  "keeps t (fail_if b e)"
  "keeps t (query f)"
  "keeps t (query_or d f)"
  "(\<And>db n db'. g db = Some (n, db') \<Longrightarrow> tables db' t = tables db t) \<Longrightarrow> keeps t (exec g)"
  by (auto simp: keeps_def query_or_def split: if_splits)

lemma keeps_andThen [keeps_intro]: "keeps t m \<Longrightarrow> (\<And>a. keeps t (f a)) \<Longrightarrow> keeps t (andThen m f)"
  by (fastforce simp: keeps_def)

lemma keeps_if [keeps_intro]: "keeps t m \<Longrightarrow> keeps t n \<Longrightarrow> keeps t (if b then m else n)"
  by simp

lemma keeps_option [keeps_intro]:
  "keeps t m \<Longrightarrow> (\<And>a. keeps t (f a)) \<Longrightarrow> keeps t (case x of None \<Rightarrow> m | Some a \<Rightarrow> f a)"
  by (simp split: option.split)

lemma tables_set_row: "t' \<noteq> t \<Longrightarrow> tables (set_row t c s r db) t' = tables db t'"
  by (simp add: set_row_def)

lemma sql_frames:
  assumes "t' \<noteq> t"
  shows "sql_insert t c it db = Some (n, db') \<Longrightarrow> tables db' t' = tables db t'"
    and "sql_delete t c s db = (n, db') \<Longrightarrow> tables db' t' = tables db t'"
    and "sql_delete_exact t c it db = (n, db') \<Longrightarrow> tables db' t' = tables db t'"
    and "sql_move t c old new db = Some (n, db') \<Longrightarrow> tables db' t' = tables db t'"
    and "sql_update_exact t c it k p db = (n, db') \<Longrightarrow> tables db' t' = tables db t'"
    and "update_alz c f db = Some (n, db') \<Longrightarrow> tables db' t' = tables db t'"
  using assms
  by (auto simp: sql_insert_def sql_delete_def sql_delete_exact_def sql_move_def sql_update_exact_def tables_set_row
      split: if_splits option.splits)

lemma keeps_exec [keeps_intro]:
  assumes "t' \<noteq> t"
  shows "keeps t' (exec (sql_insert t c it))" "keeps t' (exec (sql_move t c old new))"
    "keeps t' (exec (\<lambda>db. Some (sql_delete t c s db)))" "keeps t' (exec (\<lambda>db. Some (sql_delete_exact t c it db)))"
    "keeps t' (exec (\<lambda>db. Some (sql_update_exact t c it k p db)))" "keeps t' (exec (update_alz c f))"
  by (auto simp del: sql_insert_Some update_alz_Some intro!: keeps_rules(8) dest: sql_frames [OF assms])

lemma keeps_selects [keeps_intro]: "keeps t (select_exact c it r)" "keeps t (select_alz c)"
  unfolding select_exact_def select_alz_def by (intro keeps_intro)+

lemma keeps_loops [keeps_intro]:
  assumes "t \<noteq> characters_inventory"
  shows "keeps t (sell_loop c no A items)" "keeps t (check_cores c target A items)" "keeps t (delete_all c items)"
  using assms by (induction items arbitrary: A) (auto intro!: keeps_intro)

lemma keeps_swap [keeps_intro]: "t' \<noteq> t \<Longrightarrow> keeps t' (swap_slots t r n)"
  unfolding swap_slots_def Let_def by (intro keeps_intro)

lemma keeps_transaction: "keeps t body \<Longrightarrow> transaction body io db = (res, db') \<Longrightarrow> tables db' t = tables db t"
  by (auto simp: transaction_def split: if_splits tx.splits) (metis keeps_def)

lemma MustExec_frame:
  "(\<And>n db'. f db = Some (n, db') \<Longrightarrow> tables db' t = tables db t) \<Longrightarrow> MustExec io f db = (res, db') \<Longrightarrow>
   tables db' t = tables db t"
  by (auto simp: MustExec_def split: if_splits option.splits)

text \<open>No inventory handler touches the equipment, and no equipment handler the inventory.\<close>

lemma keeps_transaction_apfst:
  "keeps t body \<Longrightarrow> apfst Some (transaction body io db) = (res, db') \<Longrightarrow> tables db' t = tables db t"
  by (cases "transaction body io db") (auto dest: keeps_transaction)

lemma item_handlers_frame:
  assumes "t \<noteq> characters_inventory"
  shows "AddItem io r db = (res, db') \<Longrightarrow> tables db' t = tables db t"
    and "RemoveItem io r db = (res, db') \<Longrightarrow> tables db' t = tables db t"
    and "MoveItem io r db = (res, db') \<Longrightarrow> tables db' t = tables db t"
    and "SwapItem io r db = (res, db') \<Longrightarrow> tables db' t = tables db t"
    and "ConsumeItem io r db = (res, db') \<Longrightarrow> tables db' t = tables db t"
  using assms
  by (auto simp: AddItem_def RemoveItem_def MoveItem_def SwapItem_def ConsumeItem_def ConsumeItem_tx_def
      simp del: sql_insert_Some split: prod.splits option.splits if_splits
      dest!: MustExec_cases dest: sql_frames keeps_transaction_apfst [rotated] intro!: keeps_intro)

lemma keeps_bodies [keeps_intro]:
  assumes "t \<noteq> characters_inventory"
  shows "keeps t (PurchaseItem_tx p)" "keeps t (SellItems_tx s)" "keeps t (EnchantItem_tx q)"
    "keeps t (AttachItem_tx it a b r)" "keeps t (LearnSkill_tx l)"
  unfolding PurchaseItem_tx_def SellItems_tx_def EnchantItem_tx_def AttachItem_tx_def LearnSkill_tx_def
  by (intro keeps_intro assms; auto)+

lemma other_handlers_frame:
  assumes "t \<noteq> characters_inventory"
  shows "PurchaseItem io p db = (pres, db') \<Longrightarrow> tables db' t = tables db t"
    and "SellItems io s db = (sres, db') \<Longrightarrow> tables db' t = tables db t"
    and "LearnSkill io l db = (bres, db') \<Longrightarrow> tables db' t = tables db t"
    and "EnchantItem io q db = (bres, db') \<Longrightarrow> tables db' t = tables db t"
    and "AttachItem io a db = (bres, db') \<Longrightarrow> tables db' t = tables db t"
  using keeps_bodies [OF assms, THEN keeps_transaction_apfst]
  by (auto simp: PurchaseItem_def SellItems_def LearnSkill_def EnchantItem_def AttachItem_def Let_def
      split: if_split_asm prod.splits option.splits)

lemma equipment_handlers_frame:
  assumes "t \<noteq> characters_equipment"
  shows "EquipItem io r db = (res, db') \<Longrightarrow> tables db' t = tables db t"
    and "UnEquipItem io r db = (res, db') \<Longrightarrow> tables db' t = tables db t"
    and "MoveEquipmentItem io r db = (res, db') \<Longrightarrow> tables db' t = tables db t"
    and "SwapEquipmentItem io r db = (res, db') \<Longrightarrow> tables db' t = tables db t"
  using assms
  by (auto simp: EquipItem_def UnEquipItem_def MoveEquipmentItem_def SwapEquipmentItem_def
      simp del: sql_insert_Some split: prod.splits option.splits if_splits
      dest!: MustExec_cases dest: sql_frames keeps_transaction_apfst [rotated] intro!: keeps_intro)

section \<open>What the equipment handlers do\<close>

abbreviation eq_rows :: "Db \<Rightarrow> int32 \<Rightarrow> uint16 \<rightharpoonup> Item" where
  "eq_rows db c \<equiv> stored characters_equipment c db"

lemma EquipItem_effect:
  "EquipItem io r db = (res, db') \<Longrightarrow>
   if success iResult res then eq_rows db (iId r) (Slot (iItem r)) = None \<and>
       eq_rows db' (iId r) = (eq_rows db (iId r))(Slot (iItem r) \<mapsto> iItem r)
   else db' = db"
  by (auto simp: EquipItem_def dest!: MustExec_cases split: prod.splits option.splits)

lemma UnEquipItem_effect:
  "UnEquipItem io r db = (res, db') \<Longrightarrow>
   if success iResult res then eq_rows db' (iId r) = (eq_rows db (iId r))(Slot (iItem r) := None) else db' = db"
  by (auto simp: UnEquipItem_def sql_delete_def fun_eq_iff stored_def dest!: MustExec_cases
      split: prod.splits option.splits if_splits)

lemma MoveEquipmentItem_effect:
  assumes "MoveEquipmentItem io r db = (res, db')" "iNewItem r = Some new" "eq_rows db (iId r) (Slot (iItem r)) = Some it"
    "Slot new \<noteq> Slot (iItem r)"
  shows "if success iResult res
     then eq_rows db' (iId r) = (eq_rows db (iId r))(Slot (iItem r) := None, Slot new \<mapsto> it\<lparr>Slot := Slot new\<rparr>)
     else db' = db"
  using assms
  by (auto simp: MoveEquipmentItem_def item_at_row_of dest!: MustExec_cases dest: sql_move_Some
      split: prod.splits option.splits if_splits)

lemma SwapEquipmentItem_effect:
  assumes "SwapEquipmentItem io r db = (res, db')" "iNewItem r = Some newItem"
    and a: "eq_rows db (iId r) (Slot newItem) = Some a" and b: "eq_rows db (iId r) (Slot (iItem r)) = Some b"
  shows "if success iResult res
     then eq_rows db' (iId r) = (eq_rows db (iId r))
       (Slot newItem \<mapsto> b\<lparr>Slot := Slot newItem\<rparr>, Slot (iItem r) \<mapsto> a\<lparr>Slot := Slot (iItem r)\<rparr>)
     else db' = db"
proof -
  let ?new = "(eq_rows db (iId r))(Slot newItem \<mapsto> b\<lparr>Slot := Slot newItem\<rparr>, Slot (iItem r) \<mapsto> a\<lparr>Slot := Slot (iItem r)\<rparr>)"
  have *: "apfst Some (transaction (swap_slots characters_equipment r newItem) io db) = (res, db')"
    using assms(1,2) by (simp add: SwapEquipmentItem_def)
  have "if success iResult res then \<exists>p. res = Some (Inr p) \<and> eq_rows db' (iId r) = ?new else db' = db"
    using refuses_swap
  proof (rule transaction_effect [OF _ *])
    fix p d i
    assume "swap_slots characters_equipment r newItem db (tl io) = Done p d i"
    from swap_slots_Done [OF this a b] show "iResult p \<and> eq_rows d (iId r) = ?new" by simp
  qed
  then show ?thesis by (auto split: if_splits)
qed

section \<open>The handlers meet the contract\<close>

definition world_eqrows :: "world \<Rightarrow> int32 \<Rightarrow> uint16 \<rightharpoonup> Item" where
  "world_eqrows w c = eq_rows (database w) c"

lemma serve_effect:
  assumes "serve h q w = (res, w')"
    and "\<And>io r db'. h io q (database w) = (r, db') \<Longrightarrow> if success f r then eq_rows db' c = R else db' = database w"
  shows "world_eqrows w' c = (if accepted f res then R else world_eqrows w c)"
  using assms(1)
proof (cases rule: serve_cases)
  case lost
  then show ?thesis by (simp add: world_eqrows_def)
next
  case (run io r)
  with assms(2) [OF run(1)] show ?thesis by (auto simp: world_eqrows_def split: if_splits)
qed

lemma serve_frame:
  assumes "serve h q w = (res, w')"
    and "\<And>io r db'. h io q (database w) = (r, db') \<Longrightarrow> tables db' t = tables (database w) t"
  shows "tables (database w') t = tables (database w) t"
  using assms(1)
proof (cases rule: serve_cases)
  case (run io r)
  then show ?thesis by (auto dest: assms(2))
qed simp

lemma serve_rows_same:
  assumes "serve h q w = (res, w')"
  shows "(\<And>io r db'. h io q (database w) = (r, db') \<Longrightarrow>
      tables db' characters_equipment = tables (database w) characters_equipment) \<Longrightarrow> world_eqrows w' = world_eqrows w"
    and "(\<And>io r db'. h io q (database w) = (r, db') \<Longrightarrow>
      tables db' characters_inventory = tables (database w) characters_inventory) \<Longrightarrow> world_rows w' = world_rows w"
  by (rule ext, simp add: world_eqrows_def world_rows_def stored_def serve_frame [OF assms])+

lemma equipment_handlers_simps [simp]:
  "item_handlers ''EquipItem'' = EquipItem" "item_handlers ''UnEquipItem'' = UnEquipItem"
  "item_handlers ''MoveEquipmentItem'' = MoveEquipmentItem" "item_handlers ''SwapEquipmentItem'' = SwapEquipmentItem"
  by (simp_all add: item_handlers_def)

interpretation world_eq: equipment_master master world_rows world_eqrows
proof (unfold_locales, goal_cases)
  case (1 m c s it)
  then show ?case by (auto simp: world_eqrows_def dest: stored_Slot)
next
  case (2 r m p m')
  then have s: "serve SwapEquipmentItem r m = (Inr p, m')" by (simp add: master_def)
  obtain io res where h: "SwapEquipmentItem io r (database m) = (res, database m')" "res = Some (Inr p)"
    using s by (cases rule: serve_cases) simp_all
  then show ?case
    by (auto simp: SwapEquipmentItem_def transaction_def swap_slots_def Let_def andThen_def exec_def return_tx_def
        split: tx.splits option.splits if_splits)
next
  case (3 r m res m')
  then have "serve EquipItem r m = (res, m')" by simp
  then show ?case by (rule serve_effect) (drule EquipItem_effect, auto simp: world_eqrows_def split: if_splits)
next
  case (4 r m res m')
  then have "serve UnEquipItem r m = (res, m')" by simp
  then show ?case by (rule serve_effect) (drule UnEquipItem_effect, auto simp: world_eqrows_def split: if_splits)
next
  case (5 r m res m' new it)
  then have "serve MoveEquipmentItem r m = (res, m')" by simp
  then show ?case
    by (rule serve_effect) (drule MoveEquipmentItem_effect [OF _ 5(2) 5(3) [unfolded world_eqrows_def] 5(4)],
        auto simp: world_eqrows_def split: if_splits)
next
  case (6 r m res m' new a b)
  then have "serve SwapEquipmentItem r m = (res, m')" by simp
  then show ?case
    by (rule serve_effect) (drule SwapEquipmentItem_effect [OF _ 6(2) 6(3,4) [unfolded world_eqrows_def]],
        auto simp: world_eqrows_def split: if_splits)
next
  case (7 cmd r m res m')
  then have "serve (item_handlers cmd) r m = (res, m')" by simp
  then show ?case by (rule serve_rows_same(2)) (use 7(1) in \<open>auto dest: equipment_handlers_frame [rotated]\<close>)
next
  case (8 cmd r m res m')
  then have "serve (item_handlers cmd) r m = (res, m')" by simp
  then show ?case by (rule serve_rows_same(1)) (use 8(1) in \<open>auto dest: item_handlers_frame [rotated]\<close>)
next
  case (9 q m res m')
  then have "serve PurchaseItem q m = (res, m')" by (simp add: master_def)
  then show ?case by (rule serve_rows_same(1)) (auto dest: other_handlers_frame [rotated])
next
  case (10 q m res m')
  then have "serve SellItems q m = (res, m')" by (simp add: master_def)
  then show ?case by (rule serve_rows_same(1)) (auto dest: other_handlers_frame [rotated])
next
  case (11 q m res m')
  then have "serve LearnSkill q m = (res, m')" by (simp add: master_def)
  then show ?case by (rule serve_rows_same(1)) (auto dest: other_handlers_frame [rotated])
next
  case (12 q m res m')
  then have "serve EnchantItem q m = (res, m')" by (simp add: master_def)
  then show ?case by (rule serve_rows_same(1)) (auto dest: other_handlers_frame [rotated])
next
  case (13 q m res m')
  then have "serve AttachItem q m = (res, m')" by (simp add: master_def)
  then show ?case by (rule serve_rows_same(1)) (auto dest: other_handlers_frame [rotated])
qed

section \<open>Memory and database agree\<close>

text \<open>A character with equipment and inventory, for the witnesses.\<close>

definition sample_eq :: "Item list \<Rightarrow> world Equipment" where
  "sample_eq its = \<lparr>Equip = (\<lambda>k. List.find (\<lambda>it. key (Slot it) = k) its), eq_rpcHandler = Some master,
     eq_character = 1, eq_serverId = 1\<rparr>"

definition wear_world :: "Item list \<Rightarrow> Item list \<Rightarrow> (bool \<times> bool list) list \<Rightarrow> world" where
  "wear_world es its cs = (sample_world its cs)\<lparr>database := (sample_db its)
     \<lparr>tables := (tables (sample_db its))(characters_equipment :=
        (\<lambda>c s. if c = 1 then map_option row_of (List.find (\<lambda>it. Slot it = s) es) else None))\<rparr>\<rparr>"

lemma sample_in_step: "in_step master world_rows world_eqrows (sample_eq es) (sample_inv its) (wear_world es its cs)"
proof -
  have "item_at s (row_of it) = it" if "List.find (\<lambda>it. Slot it = s) es = Some it" for s it
    using that by (auto simp: find_Some_iff item_at_row_of)
  then have "eq_coherent master world_eqrows (sample_eq es) (wear_world es its cs)"
    by (auto simp: eq_coherent_def sample_eq_def wear_world_def world_eqrows_def stored_def option.map_comp comp_def
        split: option.split intro!: option.map_ident_strong [symmetric])
  moreover have "coherent master world_rows (sample_inv its) (wear_world es its cs)"
    using sample_coherent [of its cs]
    by (simp add: coherent_def wear_world_def sample_world_def world_rows_def stored_def)
  ultimately show ?thesis by (simp add: in_step_def)
qed



text \<open>
  C19: The outcomes of equipping and unequipping, whatever fails. A reported success moved exactly the
  one item. Without it, equipping left everything alone or lost the item; unequipping left everything
  alone, lost the item, or put it into the inventory slot that has the number of its equipment slot.
  An item is never in both containers.
\<close>

theorem move_outcomes:
  assumes "in_step master world_rows world_eqrows e i w"
  shows "(case Equipment_EquipItem old new e i w of (res, e', i', w') \<Rightarrow>
      (res = Some (True, nil) \<and> Inv i (key old) = Some (Inventory_Get old i) \<and> Inv i' = (Inv i)(key old := None) \<and>
        Equip e' = (Equip e)(key new \<mapsto> (Inventory_Get old i)\<lparr>Slot := new\<rparr>)) \<or>
      (\<nexists>er. res = Some (True, er)) \<and> Equip e' = Equip e \<and> (Inv i' = Inv i \<or> Inv i' = (Inv i)(key old := None))) \<and>
    (case Equipment_UnEquipItem old new e i w of (res, e', i', w') \<Rightarrow>
      (\<exists>item. res = Some (True, nil) \<and> Equip e (key old) = Some item \<and> Equip e' = (Equip e)(key old := None) \<and>
        Inv i' = (Inv i)(key new \<mapsto> item\<lparr>Slot := new\<rparr>)) \<or>
      (\<nexists>er. res = Some (True, er)) \<and>
        ((Equip e' = Equip e \<and> Inv i' = Inv i) \<or>
         (\<exists>item. Equip e (key old) = Some item \<and> Equip e' = (Equip e)(key old := None) \<and>
           (Inv i' = Inv i \<or> Inv i' = (Inv i)(key old \<mapsto> item\<lparr>Slot := old\<rparr>)))))"
proof -
  obtain r e1 i1 w1 where 1: "Equipment_EquipItem old new e i w = (r, e1, i1, w1)" by (metis prod.collapse)
  obtain r' e2 i2 w2 where 2: "Equipment_UnEquipItem old new e i w = (r', e2, i2, w2)" by (metis prod.collapse)
  have "coherent master world_rows i w" using assms by (simp add: in_step_def)
  from world_eq.EquipItem_outcome [OF this 1] world_eq.unEquipItem_outcome [OF 2] show ?thesis
    unfolding 1 2 prod.case by (rule conjI)
qed

text \<open>Equipping a helmet from inventory slot 3 while the second database call fails.\<close>

theorem move_outcomes_witness:
  "\<exists>res e' i' w'. Equipment_EquipItem 3 0 (sample_eq []) (sample_inv [sample_item 7 0 3])
      (wear_world [] [sample_item 7 0 3] [(False, []), (False, [True])]) = (res, e', i', w') \<and>
    (\<nexists>er. res = Some (True, er)) \<and> Equip e' = Equip (sample_eq []) \<and> Inv i' 3 = None"
proof -
  let ?i = "sample_inv [sample_item 7 0 3]" and ?w = "wear_world [] [sample_item 7 0 3] [(False, []), (False, [True])]"
  obtain res e' i' w' where r: "Equipment_EquipItem 3 0 (sample_eq []) ?i ?w = (res, e', i', w')" by (metis prod.collapse)
  have "fst (Equipment_EquipItem 3 0 (sample_eq []) ?i ?w) \<noteq> Some (True, nil) \<and>
      Inv (fst (snd (snd (Equipment_EquipItem 3 0 (sample_eq []) ?i ?w)))) 3 = None"
    by (simp add: Equipment_EquipItem_def Equipment_Get_def Inventory_Get_def sample_eq_def sample_inv_def SetLocal_def
        Inventory_Remove_def sync_def Let_def serve_def next_call_def RemoveItem_def MustExec_def faulty_def
        sql_delete_def wear_world_def sample_world_def Equipment_Set_def Equipment_sync_def EquipItem_def
        Inventory_Set_def rollback_error_def)
  with move_outcomes [OF sample_in_step [of "[]" "[sample_item 7 0 3]" "[(False, []), (False, [True])]"], of 3 0] r
  show ?thesis by auto
qed

text \<open>
  C18: Unequipping into an inventory slot that is taken destroys the item: neither the handler nor
  \<open>UnEquipItem\<close> looks at the target slot, the master server has already deleted the equipment row when
  the insert panics, and the rollback cannot reach the dead server. The client is told that the move
  failed, the item is in neither container and in neither table.
\<close>

theorem UnEquipItem_occupied_loses:
  assumes "in_step master world_rows world_eqrows e i w" and "up w" and "calls w = []"
    and "Equip e (key old) = Some item" and "Inv i (key new) = Some other"
  shows "\<exists>er e' i' w'. Equipment_UnEquipItem old new e i w = (Some (False, errors_New er), e', i', w') \<and>
     Equip e' = (Equip e)(key old := None) \<and> Inv i' = Inv i \<and>
     world_eqrows w' (eq_character e) = (world_eqrows w (eq_character e))(old := None) \<and>
     world_rows w' (character i) = world_rows w (character i) \<and> \<not> up w'"
proof -
  have e: "eq_coherent master world_eqrows e w" and i: "coherent master world_rows i w" using assms(1) by (simp_all add: in_step_def)
  let ?c = "eq_character e"
  define w1 where "w1 = w\<lparr>database := set_row characters_equipment ?c old None (database w)\<rparr>"
  have "world_eqrows w ?c old = Some item" using assms(4) e by (simp add: eq_coherent_def)
  then have row: "tables (database w) characters_equipment ?c old \<noteq> None" by (auto simp: world_eqrows_def stored_def)
  have "Equipment_sync ''UnEquipItem'' (item\<lparr>Slot := old\<rparr>) None e w = ((True, nil), w1)"
    using e assms(2,3) row
    by (auto simp: eq_coherent_def Equipment_sync_def Let_def serve_def next_call_def UnEquipItem_def MustExec_def
        faulty_def sql_delete_def w1_def)
  then have r: "Equipment_Remove old e w = ((True, nil), e\<lparr>Equip := (Equip e)(key old := None)\<rparr>, w1)"
    using assms(4) by (simp add: Equipment_Remove_def)
  define w2 where "w2 = w1\<lparr>up := False\<rparr>"
  have "world_rows w (character i) new = Some other" using assms(5) i by (simp add: coherent_def)
  then have "inv_rows (database w1) (character i) new \<noteq> None" by (simp add: world_rows_def w1_def)
  then have s1: "sync ''AddItem'' (item\<lparr>Slot := new\<rparr>) None i w1 = ((False, errors_New ''unexpected EOF''), w2)"
    using i assms(2,3)
    by (auto simp: coherent_def sync_def Let_def serve_def next_call_def AddItem_def MustExec_def sql_insert_def
        stored_def faulty_def w1_def w2_def)
  have s2: "sync ''AddItem'' (item\<lparr>Slot := old\<rparr>) None i w2 = ((False, errors_New ''connection is shut down''), w2)"
    using i assms(3)
    by (auto simp: coherent_def sync_def Let_def serve_def next_call_def w1_def w2_def)
  have "Equipment_UnEquipItem old new e i w =
      (rollback_error (errors_New ''unexpected EOF'') (errors_New ''connection is shut down''),
       e\<lparr>Equip := (Equip e)(key old := None)\<rparr>, i, w2)"
    using assms(4) by (simp add: Equipment_UnEquipItem_def unEquipItem_def r Inventory_Set_def s1 s2)
  then show ?thesis
    by (simp add: rollback_error_def w2_def w1_def world_eqrows_def world_rows_def)
qed

theorem UnEquipItem_occupied_loses_witness:
  "\<exists>er e' i' w'. Equipment_UnEquipItem 1 3 (sample_eq [sample_item 9 0 1]) (sample_inv [sample_item 7 0 3])
      (wear_world [sample_item 9 0 1] [sample_item 7 0 3] []) = (Some (False, errors_New er), e', i', w') \<and>
     Equip e' 1 = None \<and> Inv i' 3 = Some (sample_item 7 0 3) \<and> world_eqrows w' 1 1 = None \<and> \<not> up w'"
proof -
  let ?w = "wear_world [sample_item 9 0 1] [sample_item 7 0 3] []"
  have "up ?w" "calls ?w = []" by (simp_all add: wear_world_def sample_world_def)
  moreover have "Equip (sample_eq [sample_item 9 0 1]) (key 1) = Some (sample_item 9 0 1)" by (simp add: sample_eq_def)
  moreover have "Inv (sample_inv [sample_item 7 0 3]) (key 3) = Some (sample_item 7 0 3)"
    by (simp add: sample_inv_def SetLocal_def)
  moreover have "eq_character (sample_eq [sample_item 9 0 1]) = 1" by (simp add: sample_eq_def)
  ultimately show ?thesis
    using UnEquipItem_occupied_loses [OF sample_in_step, of "[sample_item 9 0 1]" "[sample_item 7 0 3]" "[]" 1
        "sample_item 9 0 1" 3 "sample_item 7 0 3"] by fastforce
qed

end
