(* ===== verification/Freya_Grid.thy ===== *)
theory Freya_Grid
  imports Freya_Items "HOL-Library.AList"
begin

text \<open>
  A world map (\<open>cmd/gameserver/game/world.go\<close>, \<open>cell.go\<close>, \<open>item.go\<close>) without what it sends: sixteen by
  sixteen cells, each with its players, its mobs and the items on its ground. A cell is known by its
  column and row. Times are nanoseconds.
\<close>

section \<open>Items on the ground (item.go)\<close>

abbreviation (input) itemExpire :: int where "itemExpire \<equiv> 6 * 60 * 1000000000"
abbreviation (input) itemOwnerExpire :: int where "itemOwnerExpire \<equiv> 20 * 1000000000"

record GroundItem =
  GId :: int32
  GKey :: uint16
  GOwner :: int32
  Source :: int32
  DropType :: byte
  DropInfo :: byte
  GX :: uint16
  GY :: uint16
  GItem :: Item
  OwnerExpire :: bool
  Created :: int
  GExpire :: int

text \<open>\<open>key\<close> is the random key drawn for the item, \<open>now\<close> the time of its creation.\<close>

definition NewItem ::
    "nat \<Rightarrow> int \<Rightarrow> Item \<Rightarrow> int32 \<Rightarrow> int32 \<Rightarrow> int32 \<Rightarrow> int \<Rightarrow> int \<Rightarrow> bool \<Rightarrow> byte \<Rightarrow> byte \<Rightarrow> GroundItem" where
  "NewItem key now item i owner source x y ownerExpire dropType dropInfo =
     \<lparr>GId = i, GKey = word_of_nat key, GOwner = owner, Source = source, DropType = dropType, DropInfo = dropInfo,
      GX = word_of_int x, GY = word_of_int y, GItem = item, OwnerExpire = ownerExpire, Created = now,
      GExpire = itemExpire\<rparr>"

definition IsOwnerExpired :: "int \<Rightarrow> GroundItem \<Rightarrow> bool" where
  "IsOwnerExpired now i \<longleftrightarrow> (if \<not> OwnerExpire i then True else Created i + itemOwnerExpire < now)"

section \<open>Mobs (mob.go, context/path.go)\<close>

datatype MobStateType = MobStateNone | MobStateFind | MobStateMove

text \<open>
  \<open>context.Position\<close>, without the floating-point course between two way points (\<open>Base\<close>, \<open>Distance\<close>, \<open>Sin\<close>,
  \<open>Cos\<close>). A speed is kept as the bits of its \<open>float32\<close>.
\<close>

record Position =
  IsMoving :: bool
  IsDeadReckoning :: bool
  InitialX :: int
  InitialY :: int
  CurrentX :: int
  CurrentY :: int
  FinalX :: int
  FinalY :: int
  WayPoints :: "(int \<times> int) list"
  CurrentWayPoint :: int
  MoveBegin :: int
  Speed :: uint32

text \<open>Times and intervals are milliseconds; \<open>mcell\<close> is the cell the mob points to.\<close>

record Mob =
  MobId :: int
  Species :: int
  SpawnX :: int16
  SpawnY :: int16
  MoveSpeed :: uint32
  FindCount :: int
  FindInterval :: int
  MoveInterval :: int
  SpawnInterval :: int
  MobLevel :: int
  MobExperience :: uint64
  MobMaxHP :: int
  MobCurrentHP :: int
  mposition :: Position
  mstate :: MobStateType
  findRemain :: int
  nextRun :: int
  mdead :: bool
  respawnAt :: int
  mcell :: "byte \<times> byte"

section \<open>Cells (cell.go)\<close>

text \<open>
  The maps of a cell. A session is known by its user index, the key under which the cell files it; the
  keys of the mobs are their ids. Go walks a map in an unspecified order, and the lists carry the
  entries in one such order. \<open>attribute\<close> is read below 256 only.
\<close>

record Cell =
  Players :: "uint16 list"
  Mobs :: "int list"
  Items :: "(int32 \<times> GroundItem) list"
  attribute :: "nat \<Rightarrow> uint32"

definition empty_Cell :: Cell where
  "empty_Cell = \<lparr>Players = [], Mobs = [], Items = [], attribute = (\<lambda>_. 0)\<rparr>"

definition GetItemCount :: "Cell \<Rightarrow> int32" where
  "GetItemCount c = word_of_nat (length (Items c))"

definition AddPlayer :: "uint16 \<Rightarrow> Cell \<Rightarrow> Cell" where
  "AddPlayer s c = c\<lparr>Players := List.insert s (Players c)\<rparr>"

definition RemovePlayer :: "uint16 \<Rightarrow> Cell \<Rightarrow> Cell" where
  "RemovePlayer s c = c\<lparr>Players := removeAll s (Players c)\<rparr>"

definition AddMob :: "int \<Rightarrow> Cell \<Rightarrow> Cell" where
  "AddMob m c = c\<lparr>Mobs := List.insert m (Mobs c)\<rparr>"

definition RemoveMob :: "int \<Rightarrow> Cell \<Rightarrow> Cell" where
  "RemoveMob m c = c\<lparr>Mobs := removeAll m (Mobs c)\<rparr>"

definition Cell_AddItem :: "GroundItem \<Rightarrow> Cell \<Rightarrow> Cell" where
  "Cell_AddItem i c = c\<lparr>Items := AList.update (GId i) i (Items c)\<rparr>"

definition Cell_RemoveItem :: "GroundItem \<Rightarrow> Cell \<Rightarrow> Cell" where
  "Cell_RemoveItem i c = c\<lparr>Items := AList.delete (GId i) (Items c)\<rparr>"

definition FindItem :: "int32 \<Rightarrow> Cell \<Rightarrow> GroundItem option" where
  "FindItem i c = map_of (Items c) i"

text \<open>The sixteen by sixteen positions of a cell have an attribute each; zero is walkable.\<close>

definition Cell_IsMovable :: "int \<Rightarrow> int \<Rightarrow> Cell \<Rightarrow> bool" where
  "Cell_IsMovable x y c \<longleftrightarrow> attribute c (nat (or (and x 0x0F) (push_bit 4 (and y 0x0F)))) = 0"

section \<open>The grid (world.go)\<close>

type_synonym place = "byte \<times> byte"

text \<open>\<open>Grid\<close> is read inside the sixteen columns and rows only; \<open>mobs\<close> has every mob of the world by its id.\<close>

record World =
  WorldId :: byte
  Grid :: "place \<Rightarrow> Cell"
  mobs :: "int \<rightharpoonup> Mob"

abbreviation (input) worldMapCellColumn :: int where "worldMapCellColumn \<equiv> 16"
abbreviation (input) worldMapCellRow :: int where "worldMapCellRow \<equiv> 16"

definition isCellValid :: "int \<Rightarrow> int \<Rightarrow> bool" where
  "isCellValid c r \<longleftrightarrow> 0 \<le> c \<and> c < worldMapCellColumn \<and> 0 \<le> r \<and> r < worldMapCellRow"

definition getWorldCell :: "int \<Rightarrow> int \<Rightarrow> place option" where
  "getWorldCell x y =
     (let column = drop_bit 4 x; row = drop_bit 4 y in
      if \<not> isCellValid column row then None else Some (word_of_int column, word_of_int row))"

definition getNearbyCells :: "place \<Rightarrow> int \<Rightarrow> place list" where
  "getNearbyCells p radius =
     concat (map (\<lambda>i. let c = uint (fst p) + i in
         if c < 0 \<or> c \<ge> worldMapCellColumn then []
         else concat (map (\<lambda>j. let r = uint (snd p) + j in
             if r < 0 \<or> r \<ge> worldMapCellRow then [] else [(word_of_int c, word_of_int r)])
           [- radius..radius]))
       [- radius..radius])"

definition IsMovable :: "int \<Rightarrow> int \<Rightarrow> World \<Rightarrow> bool" where
  "IsMovable x y w \<longleftrightarrow> (case getWorldCell x y of None \<Rightarrow> False | Some p \<Rightarrow> Cell_IsMovable x y (Grid w p))"

text \<open>The walk of \<open>iterateCells\<close>; the callback ends it by returning true.\<close>

definition all_cells :: "place list" where
  "all_cells = concat (map (\<lambda>i. map (\<lambda>j. (word_of_nat i, word_of_nat j)) [0..<16]) [0..<16])"

primrec iterate :: "(place \<Rightarrow> Cell \<Rightarrow> 's \<Rightarrow> bool \<times> 's) \<Rightarrow> World \<Rightarrow> place list \<Rightarrow> 's \<Rightarrow> 's" where
  "iterate f w [] s = s"
| "iterate f w (p # ps) s = (let (stop, s) = f p (Grid w p) s in if stop then s else iterate f w ps s)"

definition iterateCells :: "(place \<Rightarrow> Cell \<Rightarrow> 's \<Rightarrow> bool \<times> 's) \<Rightarrow> World \<Rightarrow> 's \<Rightarrow> 's" where
  "iterateCells f w = iterate f w all_cells"

definition difference :: "place list \<Rightarrow> place list \<Rightarrow> place list" where
  "difference a b = filter (\<lambda>c. c \<notin> set b) a"

definition initializeCells :: "World \<Rightarrow> World" where
  "initializeCells w = w\<lparr>Grid := (\<lambda>_. empty_Cell)\<rparr>"

text \<open>A method call on one cell of the grid.\<close>

definition at_cell :: "place \<Rightarrow> (Cell \<Rightarrow> Cell) \<Rightarrow> World \<Rightarrow> World" where
  "at_cell p f w = w\<lparr>Grid := (Grid w)(p := f (Grid w p))\<rparr>"

section \<open>Dropping and picking up (world.go)\<close>

text \<open>The id \<open>dropItem\<close> gives the next item.\<close>

definition drop_id :: "World \<Rightarrow> int32" where
  "drop_id w = iterateCells (\<lambda>_ c i. (False, i + GetItemCount c)) w 0 + 1"

definition PeekItem :: "int32 \<Rightarrow> uint16 \<Rightarrow> World \<Rightarrow> GroundItem option" where
  "PeekItem i key w = iterateCells (\<lambda>_ c _. let item = FindItem i c in
     ((case item of None \<Rightarrow> False | Some it \<Rightarrow> GKey it = key), item)) w None"

text \<open>The item \<open>PickItem\<close> takes and the cell it takes it from.\<close>

definition find_item :: "int32 \<Rightarrow> World \<Rightarrow> GroundItem option \<times> place" where
  "find_item i w = iterateCells (\<lambda>p c _. let item = FindItem i c in (item \<noteq> None, (item, p))) w (None, (0, 0))"

text \<open>The items of a cell that \<open>Schedule\<close> deletes at a time.\<close>

definition expired :: "int \<Rightarrow> Cell \<Rightarrow> GroundItem list" where
  "expired now c = filter (\<lambda>i. Created i + GExpire i < now) (map snd (Items c))"

definition Cell_Schedule :: "int \<Rightarrow> Cell \<Rightarrow> Cell" where
  "Cell_Schedule now c = c\<lparr>Items := filter (\<lambda>(k, i). \<not> Created i + GExpire i < now) (Items c)\<rparr>"

section \<open>Laws of the grid\<close>

lemma at_cell_simps [simp]:
  "Grid (at_cell p f w) q = (if q = p then f (Grid w p) else Grid w q)" "WorldId (at_cell p f w) = WorldId w"
  "mobs (at_cell p f w) = mobs w"
  by (simp_all add: at_cell_def)

lemma Cell_simps [simp]:
  "Players (AddPlayer s c) = List.insert s (Players c)" "Mobs (AddPlayer s c) = Mobs c" "Items (AddPlayer s c) = Items c"
  "Players (RemovePlayer s c) = removeAll s (Players c)" "Mobs (RemovePlayer s c) = Mobs c" "Items (RemovePlayer s c) = Items c"
  "Players (AddMob m c) = Players c" "Mobs (AddMob m c) = List.insert m (Mobs c)" "Items (AddMob m c) = Items c"
  "Players (RemoveMob m c) = Players c" "Mobs (RemoveMob m c) = removeAll m (Mobs c)" "Items (RemoveMob m c) = Items c"
  "Players (Cell_AddItem i c) = Players c" "Mobs (Cell_AddItem i c) = Mobs c"
  "Players (Cell_RemoveItem i c) = Players c" "Mobs (Cell_RemoveItem i c) = Mobs c"
  "Players (Cell_Schedule t c) = Players c" "Mobs (Cell_Schedule t c) = Mobs c"
  by (simp_all add: AddPlayer_def RemovePlayer_def AddMob_def RemoveMob_def Cell_AddItem_def Cell_RemoveItem_def
      Cell_Schedule_def)

lemma FindItem_simps [simp]:
  "FindItem k (Cell_AddItem i c) = (if k = GId i then Some i else FindItem k c)"
  "FindItem k (Cell_RemoveItem i c) = (if k = GId i then None else FindItem k c)"
  "FindItem k (AddPlayer s c) = FindItem k c" "FindItem k (RemovePlayer s c) = FindItem k c"
  by (simp_all add: FindItem_def Cell_AddItem_def Cell_RemoveItem_def update_conv' delete_conv')

text \<open>A position inside the map has a cell, that of its upper four bits.\<close>

definition inside :: "place \<Rightarrow> bool" where
  "inside p \<longleftrightarrow> uint (fst p) < 16 \<and> uint (snd p) < 16"

lemma drop_bit4: "drop_bit 4 (x :: int) = x div 16"
  by (simp add: drop_bit_eq_div)

lemma getWorldCell_inside: "getWorldCell x y = Some p \<Longrightarrow> inside p"
  unfolding getWorldCell_def Let_def isCellValid_def inside_def drop_bit4
  by (auto split: if_splits simp: uint_word_of_int_eq take_bit_int_eq_self)

lemma getWorldCell_byte: "getWorldCell (uint (x :: byte)) (uint (y :: byte)) = Some (x div 16, y div 16)"
proof -
  have "uint z div 16 < 16" for z :: byte using uint_lt2p [of z] by (simp add: div_less_iff_less_mult)
  moreover have "word_of_int (uint z div 16) = z div 16" for z :: byte
    by (simp add: word_div_def)
  ultimately show ?thesis by (simp add: getWorldCell_def Let_def drop_bit4 isCellValid_def pos_imp_zdiv_nonneg_iff)
qed

lemma inside_div: "inside (x div 16, y div 16)"
  using getWorldCell_inside [OF getWorldCell_byte] .

text \<open>The cells within a distance, clipped at the borders, each once.\<close>

definition nearby :: "int \<Rightarrow> place \<Rightarrow> place \<Rightarrow> bool" where
  "nearby radius p q \<longleftrightarrow> inside q \<and> \<bar>uint (fst q) - uint (fst p)\<bar> \<le> radius \<and> \<bar>uint (snd q) - uint (snd p)\<bar> \<le> radius"

lemma word_eq_iff_uint: "(c :: byte) = word_of_int k \<longleftrightarrow> uint c = k" if "0 \<le> k" "k < 16"
  using that by (auto simp: uint_word_of_int_eq take_bit_int_eq_self)

lemma set_span:
  "set (concat (map (\<lambda>i. let c = k + i in if c < 0 \<or> c \<ge> 16 then [] else f c) [- radius..radius])) =
     (\<Union>c\<in>{c. 0 \<le> c \<and> c < 16 \<and> \<bar>c - k\<bar> \<le> radius}. set (f c))" for k :: int
proof -
  have "(\<exists>i\<in>{- radius..radius}. \<not> (k + i < 0 \<or> k + i \<ge> 16) \<and> x \<in> set (f (k + i))) \<longleftrightarrow>
      (\<exists>c. 0 \<le> c \<and> c < 16 \<and> \<bar>c - k\<bar> \<le> radius \<and> x \<in> set (f c))" for x
  proof
    assume "\<exists>c. 0 \<le> c \<and> c < 16 \<and> \<bar>c - k\<bar> \<le> radius \<and> x \<in> set (f c)"
    then obtain c where "0 \<le> c" "c < 16" "\<bar>c - k\<bar> \<le> radius" "x \<in> set (f c)" by blast
    then show "\<exists>i\<in>{- radius..radius}. \<not> (k + i < 0 \<or> k + i \<ge> 16) \<and> x \<in> set (f (k + i))"
      by (intro bexI [of _ "c - k"]) auto
  next
    assume "\<exists>i\<in>{- radius..radius}. \<not> (k + i < 0 \<or> k + i \<ge> 16) \<and> x \<in> set (f (k + i))"
    then obtain i where "i \<in> {- radius..radius}" "\<not> (k + i < 0 \<or> k + i \<ge> 16)" "x \<in> set (f (k + i))" by blast
    then show "\<exists>c. 0 \<le> c \<and> c < 16 \<and> \<bar>c - k\<bar> \<le> radius \<and> x \<in> set (f c)"
      by (intro exI [of _ "k + i"]) auto
  qed
  then show ?thesis unfolding set_concat set_map set_upto Let_def set_eq_iff by (auto split: if_splits)
qed

lemma set_getNearbyCells: "set (getNearbyCells p radius) = {q. nearby radius p q}"
proof -
  have "set (getNearbyCells p radius) = (\<Union>c\<in>{c. 0 \<le> c \<and> c < 16 \<and> \<bar>c - uint (fst p)\<bar> \<le> radius}.
      \<Union>r\<in>{r. 0 \<le> r \<and> r < 16 \<and> \<bar>r - uint (snd p)\<bar> \<le> radius}. {(word_of_int c, word_of_int r)})"
    unfolding getNearbyCells_def set_span by simp
  moreover have "q \<in> \<dots> \<longleftrightarrow> nearby radius p q" for q
  proof -
    have small: "uint (word_of_int k :: byte) = k" if "0 \<le> k" "k < 16" for k
      using that by (simp add: uint_word_of_int_eq take_bit_int_eq_self)
    have "nearby radius p q \<Longrightarrow> \<exists>c r. 0 \<le> c \<and> c < 16 \<and> \<bar>c - uint (fst p)\<bar> \<le> radius \<and> 0 \<le> r \<and> r < 16 \<and>
        \<bar>r - uint (snd p)\<bar> \<le> radius \<and> q = (word_of_int c, word_of_int r)"
      by (intro exI [of _ "uint (fst q)"] exI [of _ "uint (snd q)"]) (simp add: nearby_def inside_def)
    then show ?thesis by (auto simp: nearby_def inside_def small)
  qed
  ultimately show ?thesis by blast
qed

lemma set_concat_map2: "set (concat (map (\<lambda>i. map (f i) ys) xs)) = {f i j |i j. i \<in> set xs \<and> j \<in> set ys}"
  by auto

lemma set_all_cells: "set all_cells = {p. inside p}"
proof -
  have eq: "set all_cells = {(word_of_nat i, word_of_nat j) |i j. i < 16 \<and> j < 16}"
    unfolding all_cells_def set_concat_map2 atLeast_upt [symmetric] lessThan_iff ..
  have "(c, r) \<in> set all_cells" if "uint c < 16" "uint r < 16" for c r
  proof -
    have "unat c < 16" "unat r < 16" using that unfolding uint_nat by linarith+
    then show ?thesis unfolding eq by (intro CollectI exI [of _ "unat c"] exI [of _ "unat r"]) simp
  qed
  then have 1: "inside p \<Longrightarrow> p \<in> set all_cells" for p by (cases p) (simp add: inside_def)
  have small: "uint (word_of_nat i :: byte) < 16" if "i < 16" for i
  proof -
    have "unat (word_of_nat i :: byte) = i" using that by (intro unat_word_of_nat) simp
    with that show ?thesis unfolding uint_nat by linarith
  qed
  have "inside p" if "p \<in> set all_cells" for p
    using that unfolding eq inside_def mem_Collect_eq by (elim exE conjE) (simp only: fst_conv snd_conv small simp_thms)
  with 1 show ?thesis by blast
qed

end
