(* ===== verification/Freya_Combat.thy ===== *)
theory Freya_Combat
  imports Freya_Prelude
begin

text \<open>
  The part of a player's context that fighting uses: battle mode and buffs (\<open>context/battle_mode.go\<close>,
  \<open>context/buff.go\<close>). Times are nanoseconds of the clock. Timers are not part of the state: a timer that
  was started carries the generation it was started with, and may fire at any later moment.
\<close>

section \<open>State\<close>

record BattleModeState =
  BType :: byte
  BSkillID :: uint16
  MPWastePercent :: int
  RemainingSP :: int
  BSPWaste :: int
  BGeneration :: uint64

definition zero_BattleModeState :: BattleModeState where
  "zero_BattleModeState = \<lparr>BType = 0, BSkillID = 0, MPWastePercent = 0, RemainingSP = 0, BSPWaste = 0, BGeneration = 0\<rparr>"

definition Active :: "BattleModeState \<Rightarrow> bool" where
  "Active s \<longleftrightarrow> BType s = 1 \<or> BType s = 2"

definition StyleEx :: "BattleModeState \<Rightarrow> byte" where
  "StyleEx s = (if BType s = 1 then 0x10 else if BType s = 2 then 0x20 else 0)"

record BuffEffect =
  ForceID :: int
  BuffAmount :: int
  ValueType :: byte

record ActiveBuff =
  BuffSkillID :: uint16
  BuffLevel :: byte
  BuffType :: uint16
  BuffKind :: byte
  Generation :: uint64
  ExpiresAt :: "int option"
  Effects :: "BuffEffect list"

text \<open>\<open>EndTimer\<close> says whether the pointer to the timer that ends the battle mode is set.\<close>

record CombatState =
  BattleMode :: BattleModeState
  BattleModeGeneration :: uint64
  EndTimer :: bool
  ComboActive :: bool
  BuffGeneration :: uint64
  Buffs :: "ActiveBuff list"

definition zero_CombatState :: CombatState where
  "zero_CombatState = \<lparr>BattleMode = zero_BattleModeState, BattleModeGeneration = 0, EndTimer = False,
     ComboActive = False, BuffGeneration = 0, Buffs = []\<rparr>"

section \<open>Buffs (context/buff.go)\<close>

definition same_buff :: "uint16 \<Rightarrow> uint16 \<Rightarrow> byte \<Rightarrow> ActiveBuff \<Rightarrow> bool" where
  "same_buff skillID buffType buffKind b \<longleftrightarrow> BuffSkillID b = skillID \<and> BuffType b = buffType \<and> BuffKind b = buffKind"

definition ApplyBuff ::
    "int \<Rightarrow> uint16 \<Rightarrow> byte \<Rightarrow> uint16 \<Rightarrow> byte \<Rightarrow> BuffEffect list \<Rightarrow> int \<Rightarrow> CombatState \<Rightarrow> uint64 \<times> CombatState" where
  "ApplyBuff now skillID level buffType buffKind effects duration c =
     (let generation = BuffGeneration c + 1;
          remaining = filter (\<lambda>b. \<not> same_buff skillID buffType buffKind b) (Buffs c);
          active = \<lparr>BuffSkillID = skillID, BuffLevel = level, BuffType = buffType, BuffKind = buffKind,
            Generation = generation, ExpiresAt = (if duration > 0 then Some (now + duration) else None), Effects = effects\<rparr>
      in (generation, c\<lparr>BuffGeneration := generation, Buffs := remaining @ [active]\<rparr>))"

definition RemoveBuff :: "uint16 \<Rightarrow> uint16 \<Rightarrow> byte \<Rightarrow> CombatState \<Rightarrow> (bool \<times> ActiveBuff list) \<times> CombatState" where
  "RemoveBuff skillID buffType buffKind c =
     (let remaining = filter (\<lambda>b. \<not> same_buff skillID buffType buffKind b) (Buffs c) in
      if \<not> (\<exists>b \<in> set (Buffs c). same_buff skillID buffType buffKind b) then ((False, []), c)
      else ((True, remaining), c\<lparr>Buffs := remaining\<rparr>))"

text \<open>The first buff of the generation is taken out.\<close>

definition ExpireBuff :: "uint64 \<Rightarrow> CombatState \<Rightarrow> bool \<times> CombatState" where
  "ExpireBuff generation c =
     (case List.extract (\<lambda>b. Generation b = generation) (Buffs c) of
        None \<Rightarrow> (False, c)
      | Some (before, _, after) \<Rightarrow> (True, c\<lparr>Buffs := before @ after\<rparr>))"

definition BuffValue :: "int \<Rightarrow> int \<Rightarrow> CombatState \<Rightarrow> int" where
  "BuffValue now forceID c =
     (\<Sum>b \<leftarrow> filter (\<lambda>b. case ExpiresAt b of None \<Rightarrow> True | Some t \<Rightarrow> now < t) (Buffs c).
      \<Sum>e \<leftarrow> filter (\<lambda>e. ForceID e = forceID) (Effects b). BuffAmount e)"

section \<open>Generations\<close>

text \<open>Every buff has a generation of its own, none newer than the last one handed out.\<close>

definition buffs_inv :: "CombatState \<Rightarrow> bool" where
  "buffs_inv c \<longleftrightarrow> distinct (map Generation (Buffs c)) \<and> (\<forall>b \<in> set (Buffs c). Generation b \<le> BuffGeneration c)"

lemma buffs_inv_zero: "buffs_inv zero_CombatState"
  by (simp add: buffs_inv_def zero_CombatState_def)

lemma buffs_inv_ApplyBuff:
  assumes "buffs_inv c" "BuffGeneration c \<noteq> - 1" "ApplyBuff now s l t k es d c = (g, c')"
  shows "buffs_inv c'" "g \<notin> Generation ` set (Buffs c)"
proof -
  have up: "BuffGeneration c < BuffGeneration c + 1" by (rule word_less_plus_one [OF assms(2)])
  with assms(1) have new: "Generation b < BuffGeneration c + 1" if "b \<in> set (Buffs c)" for b
    using that le_less_trans by (auto simp: buffs_inv_def)
  show "g \<notin> Generation ` set (Buffs c)" using assms(3) by (auto simp: ApplyBuff_def Let_def dest: new)
  show "buffs_inv c'"
    using assms(1,3) new by (fastforce simp: ApplyBuff_def Let_def buffs_inv_def distinct_map_filter less_imp_le)
qed

lemma extract_removes:
  "List.extract P xs = Some (before, x, after) \<Longrightarrow> xs = before @ x # after \<and> P x \<and> (\<forall>y \<in> set before. \<not> P y)"
  by (auto simp: extract_Some_iff)

lemma buffs_inv_shrink:
  assumes "buffs_inv c"
  shows "RemoveBuff s t k c = (r, c') \<Longrightarrow> buffs_inv c'" "ExpireBuff g c = (b, c') \<Longrightarrow> buffs_inv c'"
  using assms
  by (auto simp: RemoveBuff_def ExpireBuff_def Let_def buffs_inv_def distinct_map_filter
      dest!: extract_removes split: if_splits option.splits)

text \<open>A timer takes away the buff it was started for, and none other.\<close>

lemma ExpireBuff_effect:
  assumes "buffs_inv c"
  shows "ExpireBuff g c = (g \<in> Generation ` set (Buffs c), c\<lparr>Buffs := filter (\<lambda>b. Generation b \<noteq> g) (Buffs c)\<rparr>)"
proof (cases "List.extract (\<lambda>b. Generation b = g) (Buffs c)")
  case None
  then have none: "\<forall>b \<in> set (Buffs c). Generation b \<noteq> g" by (simp add: extract_None_iff)
  then have "filter (\<lambda>b. Generation b \<noteq> g) (Buffs c) = Buffs c" by (simp add: filter_id_conv)
  with None none show ?thesis by (auto simp: ExpireBuff_def)
next
  case (Some p)
  obtain before b after where p: "p = (before, b, after)" by (cases p) auto
  have split: "Buffs c = before @ b # after" "Generation b = g" "\<forall>y \<in> set before. Generation y \<noteq> g"
    using extract_removes [OF Some [unfolded p]] by simp_all
  have "\<forall>y \<in> set after. Generation y \<noteq> g" using assms split(1,2) by (auto simp: buffs_inv_def image_iff)
  with split have "filter (\<lambda>b. Generation b \<noteq> g) (Buffs c) = before @ after" by (auto simp: filter_id_conv)
  with Some p split show ?thesis by (auto simp: ExpireBuff_def)
qed

end
