(* ===== verification/Freya_Context.thy ===== *)
theory Freya_Context
  imports Freya_Character Freya_Network Freya_Grid Freya_Combat
begin

text \<open>
  What the game server keeps of each connected client (\<open>cmd/gameserver/context/session.go\<close>), as far as
  trades and parties use it, and the shared part of the packet handlers: looking a client up, changing
  its context, sending a packet.
\<close>

section \<open>Context (context/session.go)\<close>

record TradeItemOffer =
  OfferItem :: Item
  TradeSlot :: uint16

record TradeState =
  TStatus :: byte
  TRole :: byte
  TOpponentUserIdx :: uint16
  TOpponentCharacterID :: int32
  TItems :: "TradeItemOffer list"
  TAlz :: uint64
  TSubmitted :: bool
  TDestinationSlots :: "uint16 list"

abbreviation (input) TradeStateNone :: byte where "TradeStateNone \<equiv> 0"
abbreviation (input) TradeStatePending :: byte where "TradeStatePending \<equiv> 1"
abbreviation (input) TradeStateOpen :: byte where "TradeStateOpen \<equiv> 2"
abbreviation (input) TradeRoleNone :: byte where "TradeRoleNone \<equiv> 0"
abbreviation (input) TradeRoleRequester :: byte where "TradeRoleRequester \<equiv> 1"
abbreviation (input) TradeRoleTarget :: byte where "TradeRoleTarget \<equiv> 2"

text \<open>The zero value \<open>context.TradeState{}\<close>.\<close>

definition zero_TradeState :: TradeState where
  "zero_TradeState = \<lparr>TStatus = TradeStateNone, TRole = TradeRoleNone, TOpponentUserIdx = 0,
     TOpponentCharacterID = 0, TItems = [], TAlz = 0, TSubmitted = False, TDestinationSlots = []\<rparr>"

record PartyMember =
  MUserIdx :: uint16
  MCharacterID :: int32
  MLevel :: uint16
  MChannel :: byte
  MBattleStyle :: byte
  MemberStatus :: byte
  MName :: "byte list"

definition zero_PartyMember :: PartyMember where
  "zero_PartyMember = \<lparr>MUserIdx = 0, MCharacterID = 0, MLevel = 0, MChannel = 0, MBattleStyle = 0,
     MemberStatus = 0, MName = []\<rparr>"

record PartyState =
  PId :: int32
  LeaderUserIdx :: uint16
  LeaderCharacterID :: int32
  LeaderOnlyInviteAuthority :: bool
  NormalLootingType :: byte
  OwnerLootingType :: byte
  Members :: "PartyMember list"

definition zero_PartyState :: PartyState where
  "zero_PartyState = \<lparr>PId = 0, LeaderUserIdx = 0, LeaderCharacterID = 0, LeaderOnlyInviteAuthority = False,
     NormalLootingType = 0, OwnerLootingType = 0, Members = []\<rparr>"

record PartyInviteState =
  IStatus :: byte
  IOpponentUserIdx :: uint16
  IOpponentCharacterID :: int32
  IChannel :: byte

definition zero_PartyInviteState :: PartyInviteState where
  "zero_PartyInviteState = \<lparr>IStatus = 0, IOpponentUserIdx = 0, IOpponentCharacterID = 0, IChannel = 0\<rparr>"

abbreviation (input) PartyInviteNone :: byte where "PartyInviteNone \<equiv> 0"
abbreviation (input) PartyInviteOutgoing :: byte where "PartyInviteOutgoing \<equiv> 1"
abbreviation (input) PartyInviteIncoming :: byte where "PartyInviteIncoming \<equiv> 2"
abbreviation (input) PartyMemberStatusLogin :: byte where "PartyMemberStatusLogin \<equiv> 1"
abbreviation (input) PartyMemberStatusLogoff :: byte where "PartyMemberStatusLogoff \<equiv> 2"
abbreviation (input) PartyMaxMembers :: nat where "PartyMaxMembers \<equiv> 7"

record PartySearchState =
  Registered :: bool
  MaxMemberCount :: byte
  Title :: "byte list"

text \<open>
  The fields the modelled handlers read or write. \<open>cChar\<close> is the pointer \<open>Char\<close>; a world is known by its
  position in the list of the world manager, a cell by its world and its place there. The zero time is 0.
\<close>

record 'm Context =
  cChar :: "'m Character option"
  Trade :: TradeState
  Party :: PartyState
  PartyInvite :: PartyInviteState
  PartySearch :: PartySearchState
  ctxCell :: "(nat \<times> place) option"
  ctxWorld :: "nat option"
  Combat :: CombatState
  Warehouse :: "'m Inventory"
  MPPotionCooldownUntil :: int

definition zero_Context :: "'m Context" where
  "zero_Context = \<lparr>cChar = None, Trade = zero_TradeState, Party = zero_PartyState,
     PartyInvite = zero_PartyInviteState, PartySearch = \<lparr>Registered = False, MaxMemberCount = 0, Title = []\<rparr>,
     ctxCell = None, ctxWorld = None, Combat = zero_CombatState,
     Warehouse = \<lparr>Inv = Map.empty, rpcHandler = None, character = 0, serverId = 0\<rparr>, MPPotionCooldownUntil = 0\<rparr>"

section \<open>The game server's state\<close>

text \<open>
  \<open>users\<close> is the client table of \<open>g_NetworkManager\<close>: an index that is taken carries the client's
  \<open>DataEx\<close>, \<open>None\<close> while it is unset. A client is filed under its own index (\<open>net_inv\<close>), so a session is
  known by that index. \<open>sent\<close> logs the packets in the order of the \<open>Send\<close> calls: receiver, code and
  fields, one constructor for each typed write (\<open>Freya_Codec\<close> turns them into bytes and back).
  \<open>Worlds\<close> are those of the world manager, \<open>clock\<close> is the time in nanoseconds, and \<open>rnd\<close> the numbers
  \<open>math/rand\<close> draws, of which \<open>drawn\<close> are used up. \<open>remote\<close> is the state behind \<open>g_RPCHandler\<close>.
\<close>

type_synonym packet = "uint16 \<times> field list"

record 'm Game =
  users :: "uint16 \<rightharpoonup> 'm Context option"
  sent :: "(uint16 \<times> packet) list"
  g_RPCHandler :: "'m Client"
  ServerId :: byte
  ChannelId :: byte
  partySequence :: int32
  Worlds :: "World list"
  clock :: int
  rnd :: "nat \<Rightarrow> nat"
  drawn :: nat
  remote :: 'm

text \<open>
  \<open>context.Parse\<close> of the session with an index, \<open>None\<close> for an error. A session that
  \<open>g_NetworkManager.GetSession\<close> does not find is \<open>None\<close> as well.
\<close>

definition Parse :: "uint16 \<Rightarrow> 'm Game \<Rightarrow> 'm Context option" where
  "Parse i g = (case users g i of
      Some (Some ctx) \<Rightarrow> (if cChar ctx = None then None else Some ctx)
    | _ \<Rightarrow> None)"

text \<open>A write through the context pointer of a session.\<close>

definition upd :: "uint16 \<Rightarrow> ('m Context \<Rightarrow> 'm Context) \<Rightarrow> 'm Game \<Rightarrow> 'm Game" where
  "upd i f g = g\<lparr>users := (users g)(i := map_option (map_option f) (users g i))\<rparr>"

definition send :: "uint16 \<Rightarrow> packet \<Rightarrow> 'm Game \<Rightarrow> 'm Game" where
  "send i p g = g\<lparr>sent := sent g @ [(i, p)]\<rparr>"

abbreviation char_id :: "'m Context \<Rightarrow> int32" where
  "char_id ctx \<equiv> (case cChar ctx of Some c \<Rightarrow> CharId c | None \<Rightarrow> 0)"

text \<open>The user index inside a typed object index (\<open>packet/character.go\<close>).\<close>

definition decodeUserObjectIndex :: "int32 \<Rightarrow> int32" where
  "decodeUserObjectIndex raw = and raw 0x0000FFFF"

section \<open>Laws of the state\<close>

lemma Parse_Some: "Parse i g = Some c \<longleftrightarrow> users g i = Some (Some c) \<and> cChar c \<noteq> None"
  by (auto simp: Parse_def split: option.splits)

lemma Parse_upd:
  assumes "\<And>c. cChar (f c) = None \<longleftrightarrow> cChar c = None"
  shows "Parse i (upd j f g) = (if i = j then map_option f (Parse i g) else Parse i g)"
  using assms by (auto simp: Parse_def upd_def split: option.splits)

lemma Parse_fields [simp]:
  "Parse i (g\<lparr>sent := a\<rparr>) = Parse i g" "Parse i (g\<lparr>remote := m\<rparr>) = Parse i g" "Parse i (send j p g) = Parse i g"
  "Parse i (g\<lparr>partySequence := n\<rparr>) = Parse i g" "Parse i (g\<lparr>Worlds := ws\<rparr>) = Parse i g"
  "Parse i (g\<lparr>clock := t\<rparr>) = Parse i g" "Parse i (g\<lparr>drawn := k\<rparr>) = Parse i g"
  by (simp_all add: Parse_def send_def)

lemma upd_fields [simp]:
  "remote (upd i f g) = remote g" "sent (upd i f g) = sent g" "g_RPCHandler (upd i f g) = g_RPCHandler g"
  "ServerId (upd i f g) = ServerId g" "ChannelId (upd i f g) = ChannelId g" "partySequence (upd i f g) = partySequence g"
  "Worlds (upd i f g) = Worlds g" "clock (upd i f g) = clock g" "rnd (upd i f g) = rnd g" "drawn (upd i f g) = drawn g"
  by (simp_all add: upd_def)

lemma send_fields [simp]:
  "remote (send i p g) = remote g" "users (send i p g) = users g" "g_RPCHandler (send i p g) = g_RPCHandler g"
  "ServerId (send i p g) = ServerId g" "ChannelId (send i p g) = ChannelId g" "partySequence (send i p g) = partySequence g"
  "Worlds (send i p g) = Worlds g" "clock (send i p g) = clock g" "rnd (send i p g) = rnd g" "drawn (send i p g) = drawn g"
  by (simp_all add: send_def)

lemma users_upd: "users (upd i f g) j = (if j = i then map_option (map_option f) (users g i) else users g j)"
  by (simp add: upd_def)

text \<open>
  From \<open>g\<close> to \<open>g'\<close> no context without a character has changed, and no character has gone.
\<close>

definition same_lobby :: "'m Game \<Rightarrow> 'm Game \<Rightarrow> bool" where
  "same_lobby g g' \<longleftrightarrow> (\<forall>i. (Parse i g = None \<longrightarrow> users g' i = users g i) \<and> (Parse i g \<noteq> None \<longrightarrow> Parse i g' \<noteq> None))"

lemma lobby_refl [simp]: "same_lobby g g"
  by (simp add: same_lobby_def)

lemma lobby_trans: "same_lobby f g \<Longrightarrow> same_lobby g h \<Longrightarrow> same_lobby f h"
proof -
  assume "same_lobby f g" "same_lobby g h"
  moreover have "Parse i g = None" if "users g i = users f i" "Parse i f = None" for i
    using that by (simp add: Parse_def)
  ultimately show ?thesis by (simp add: same_lobby_def)
qed

lemma lobby_D:
  assumes "same_lobby g g'" "Parse i g' = None"
  shows "Parse i g = None" "users g' i = users g i"
  using assms unfolding same_lobby_def by metis+

lemma lobby_upd:
  assumes "same_lobby g h" "Parse i g \<noteq> None" "\<And>c. cChar (f c) = None \<longleftrightarrow> cChar c = None"
  shows "same_lobby g (upd i f h)"
  using assms(1,2) by (auto simp: same_lobby_def Parse_upd [OF assms(3)] users_upd)

lemma lobby_send [simp]:
  "same_lobby g (send i p h) = same_lobby g h" "same_lobby g (h\<lparr>remote := m\<rparr>) = same_lobby g h"
  "same_lobby g (h\<lparr>partySequence := n\<rparr>) = same_lobby g h"
  by (simp_all add: same_lobby_def)

section \<open>Handlers that return\<close>

text \<open>A packet whose frame has the length its header says, with the cursor behind the header.\<close>

definition framed :: "Reader \<Rightarrow> bool" where
  "framed r \<longleftrightarrow> rindex r = 10 \<and> unat (rSize r) \<le> length (rbuffer r)"

text \<open>
  \<open>returns P x\<close>: the computation does not panic and its result satisfies \<open>P\<close>. The rules follow the
  shape of a handler down to its exits.
\<close>

definition returns :: "('a \<Rightarrow> bool) \<Rightarrow> 'a option \<Rightarrow> bool" where
  "returns P x \<longleftrightarrow> (\<exists>y. x = Some y \<and> P y)"

named_theorems returns_intro "rules for handlers that return"

lemma returns_Some [returns_intro]: "P x \<Longrightarrow> returns P (Some x)"
  by (simp add: returns_def)

lemma returns_bind [returns_intro]: "returns (\<lambda>x. returns P (f x)) m \<Longrightarrow> returns P (Option.bind m f)"
  by (auto simp: returns_def)

lemma returns_if [returns_intro]:
  "(c \<Longrightarrow> returns P a) \<Longrightarrow> (\<not> c \<Longrightarrow> returns P b) \<Longrightarrow> returns P (if c then a else b)"
  by simp

lemma returns_option [returns_intro]:
  "(x = None \<Longrightarrow> returns P a) \<Longrightarrow> (\<And>y. x = Some y \<Longrightarrow> returns P (f y)) \<Longrightarrow>
   returns P (case x of None \<Rightarrow> a | Some y \<Rightarrow> f y)"
  by (cases x) simp_all

lemma returns_prod [returns_intro]:
  "(\<And>a b. x = (a, b) \<Longrightarrow> returns P (f a b)) \<Longrightarrow> returns P (case x of (a, b) \<Rightarrow> f a b)"
  by (cases x) simp

lemma returns_pair [returns_intro]: "returns P (f a b) \<Longrightarrow> returns P (case (a, b) of (x, y) \<Rightarrow> f x y)"
  by simp

lemma returns_sum [returns_intro]:
  "(\<And>y. x = Inl y \<Longrightarrow> returns P (f y)) \<Longrightarrow> (\<And>y. x = Inr y \<Longrightarrow> returns P (h y)) \<Longrightarrow>
   returns P (case x of Inl y \<Rightarrow> f y | Inr y \<Rightarrow> h y)"
  by (cases x) simp_all

text \<open>The weaker \<open>ensures P x\<close> holds of a panic as well.\<close>

definition ensures :: "('a \<Rightarrow> bool) \<Rightarrow> 'a option \<Rightarrow> bool" where
  "ensures P x \<longleftrightarrow> (\<forall>y. x = Some y \<longrightarrow> P y)"

named_theorems ensures_intro "rules for the results of handlers"

lemma ensures_Some [ensures_intro]: "P x \<Longrightarrow> ensures P (Some x)"
  by (simp add: ensures_def)

lemma ensures_bind [ensures_intro]: "(\<And>x. m = Some x \<Longrightarrow> ensures P (f x)) \<Longrightarrow> ensures P (Option.bind m f)"
  by (auto simp: ensures_def bind_eq_Some_conv)

lemma ensures_if [ensures_intro]:
  "(c \<Longrightarrow> ensures P a) \<Longrightarrow> (\<not> c \<Longrightarrow> ensures P b) \<Longrightarrow> ensures P (if c then a else b)"
  by simp

lemma ensures_option [ensures_intro]:
  "(x = None \<Longrightarrow> ensures P a) \<Longrightarrow> (\<And>y. x = Some y \<Longrightarrow> ensures P (f y)) \<Longrightarrow>
   ensures P (case x of None \<Rightarrow> a | Some y \<Rightarrow> f y)"
  by (cases x) simp_all

lemma ensures_prod [ensures_intro]:
  "(\<And>a b. x = (a, b) \<Longrightarrow> ensures P (f a b)) \<Longrightarrow> ensures P (case x of (a, b) \<Rightarrow> f a b)"
  by (cases x) simp

lemma ensures_sum [ensures_intro]:
  "(\<And>y. x = Inl y \<Longrightarrow> ensures P (f y)) \<Longrightarrow> (\<And>y. x = Inr y \<Longrightarrow> ensures P (h y)) \<Longrightarrow>
   ensures P (case x of Inl y \<Rightarrow> f y | Inr y \<Rightarrow> h y)"
  by (cases x) simp_all

lemma returns_mono: "returns P x \<Longrightarrow> (\<And>y. P y \<Longrightarrow> Q y) \<Longrightarrow> returns Q x"
  by (auto simp: returns_def)

lemma returns_D: "returns P x \<Longrightarrow> x = Some y \<Longrightarrow> P y"
  by (simp add: returns_def)

lemma returns_known: "x = Some y \<Longrightarrow> P y \<Longrightarrow> returns P x"
  by (simp add: returns_def)

lemma returns_ReadByte:
  "rindex r + 1 \<le> length (rbuffer r) \<Longrightarrow> (\<And>x. P (x, r\<lparr>rindex := rindex r + 1\<rparr>)) \<Longrightarrow> returns P (ReadByte r)"
  by (simp add: returns_def ReadByte_def Let_def)

lemma returns_ReadUint16:
  "rindex r + 2 \<le> length (rbuffer r) \<Longrightarrow> (\<And>x. P (x, r\<lparr>rindex := rindex r + 2\<rparr>)) \<Longrightarrow> returns P (ReadUint16 r)"
  by (simp add: returns_def ReadUint16_def Let_def)

lemma returns_ReadInt32:
  "rindex r + 4 \<le> length (rbuffer r) \<Longrightarrow> (\<And>x. P (x, r\<lparr>rindex := rindex r + 4\<rparr>)) \<Longrightarrow> returns P (ReadInt32 r)"
  by (simp add: returns_def ReadInt32_def Let_def)

lemma returns_ReadInt64:
  "rindex r + 8 \<le> length (rbuffer r) \<Longrightarrow> (\<And>x. P (x, r\<lparr>rindex := rindex r + 8\<rparr>)) \<Longrightarrow> returns P (ReadInt64 r)"
  by (simp add: returns_def ReadInt64_def Let_def)

lemmas returns_reads = returns_ReadByte returns_ReadUint16 returns_ReadInt32 returns_ReadInt64

lemma framed_length: "framed r \<Longrightarrow> \<not> rSize r < n \<Longrightarrow> rindex r = 10 \<and> unat n \<le> length (rbuffer r)"
  by (simp add: framed_def word_less_nat_alt)

section \<open>The life of a connection\<close>

type_synonym 'm handler = "uint16 \<Rightarrow> Reader \<Rightarrow> 'm Game \<Rightarrow> 'm Game option"

text \<open>
  What happens to the game server, one client at a time: a client is accepted under a free index, its
  character enters the world, a packet arrives, it goes back to the character list, it disconnects.
\<close>

datatype 'm happening =
    Connect uint16 | Initialise uint16 "'m Character" | Packet uint16 uint16 Reader
  | Uninitialise uint16 | Disconnect uint16

text \<open>
  \<open>hs\<close> are the registered packet codes, \<open>leave\<close> is what runs when a character leaves the world.
  A packet without a handler is ignored.
\<close>

fun happen :: "(uint16 \<times> 'm handler) list \<Rightarrow> (uint16 \<Rightarrow> 'm Game \<Rightarrow> 'm Game) \<Rightarrow> 'm happening \<Rightarrow> 'm Game \<Rightarrow> 'm Game option" where
  "happen hs leave (Connect i) g =
     Some (if users g i = None then g\<lparr>users := (users g)(i \<mapsto> Some zero_Context)\<rparr> else g)"
| "happen hs leave (Initialise i c) g = Some (upd i (cChar_update (\<lambda>_. Some c)) g)"
| "happen hs leave (Packet i code r) g =
     (if users g i = None then Some g
      else case map_of hs code of None \<Rightarrow> Some g | Some h \<Rightarrow> h i r g)"
| "happen hs leave (Uninitialise i) g = Some (leave i g)"
| "happen hs leave (Disconnect i) g = Some (let g = leave i g in g\<lparr>users := (users g)(i := None)\<rparr>)"

primrec happens :: "(uint16 \<times> 'm handler) list \<Rightarrow> (uint16 \<Rightarrow> 'm Game \<Rightarrow> 'm Game) \<Rightarrow> 'm happening list \<Rightarrow> 'm Game \<Rightarrow> 'm Game option" where
  "happens hs leave [] g = Some g"
| "happens hs leave (e # es) g = Option.bind (happen hs leave e g) (happens hs leave es)"

primrec framed_packet :: "'m happening \<Rightarrow> bool" where
  "framed_packet (Connect i) = True"
| "framed_packet (Initialise i c) = True"
| "framed_packet (Packet i code r) = framed r"
| "framed_packet (Uninitialise i) = True"
| "framed_packet (Disconnect i) = True"

lemma happens_invariant:
  assumes "\<And>e g. framed_packet e \<Longrightarrow> J g \<Longrightarrow> returns J (happen hs leave e g)"
  shows "list_all framed_packet es \<Longrightarrow> J g \<Longrightarrow> returns J (happens hs leave es g)"
proof (induction es arbitrary: g)
  case (Cons e es)
  then show ?case
    unfolding happens.simps by (intro returns_intro returns_mono [OF assms]) simp_all
qed (simp add: returns_def)

end
