(* ===== verification/Freya_Trade.thy ===== *)
theory Freya_Trade
  imports Freya_Context Freya_Coherence
begin

text \<open>
  Trades between two players (\<open>cmd/gameserver/packet/trade.go\<close>): the handshake, the trade window, the
  exchange through the master server and the reset when a player leaves. Every handler takes the index
  of the session the packet came from and the reader behind the header; \<open>None\<close> is a panic. The
  sections a handler runs with both contexts locked are definitions of their own where other handlers
  can run in between.
\<close>

section \<open>Packets\<close>

abbreviation (input) TRADE_OPEN_EVENT :: uint16 where "TRADE_OPEN_EVENT \<equiv> 261"
abbreviation (input) TRADE_CLOSE_EVENT :: uint16 where "TRADE_CLOSE_EVENT \<equiv> 262"
abbreviation (input) NFY_TRADE_EVENTS :: uint16 where "NFY_TRADE_EVENTS \<equiv> 263"
abbreviation (input) TRADE_ADD_ITEM :: uint16 where "TRADE_ADD_ITEM \<equiv> 264"
abbreviation (input) TRADE_ADD_ALZ :: uint16 where "TRADE_ADD_ALZ \<equiv> 265"
abbreviation (input) TRADE_REMOVE_ITEM :: uint16 where "TRADE_REMOVE_ITEM \<equiv> 266"
abbreviation (input) NFY_TRADE_ADD_ITEM :: uint16 where "NFY_TRADE_ADD_ITEM \<equiv> 267"
abbreviation (input) NFY_TRADE_REMOVE_ITEM :: uint16 where "NFY_TRADE_REMOVE_ITEM \<equiv> 268"

abbreviation (input) tradeMaxSlot :: uint16 where "tradeMaxSlot \<equiv> 255"
abbreviation (input) tradeResultInvalid :: byte where "tradeResultInvalid \<equiv> 0x00"
abbreviation (input) tradeResultProgress :: byte where "tradeResultProgress \<equiv> 0x1E"
abbreviation (input) tradeResultDenial :: byte where "tradeResultDenial \<equiv> 0x21"
abbreviation (input) tradeResultRequest :: byte where "tradeResultRequest \<equiv> 0x22"
abbreviation (input) tradeResultReady :: byte where "tradeResultReady \<equiv> 0x23"
abbreviation (input) tradeResultRequestCancel :: byte where "tradeResultRequestCancel \<equiv> 0x29"
abbreviation (input) tradeResultAccept :: byte where "tradeResultAccept \<equiv> 0x2C"
abbreviation (input) tradeResultReject :: byte where "tradeResultReject \<equiv> 0x2D"
abbreviation (input) tradeResultAutoReject :: byte where "tradeResultAutoReject \<equiv> 0x2E"
abbreviation (input) tradeResultSubmitCancel :: byte where "tradeResultSubmitCancel \<equiv> 0x2A"
abbreviation (input) tradeResultTradeCancel :: byte where "tradeResultTradeCancel \<equiv> 0x2B"
abbreviation (input) tradeResultSubmit :: byte where "tradeResultSubmit \<equiv> 0x2F"
abbreviation (input) tradeResultRequestList :: byte where "tradeResultRequestList \<equiv> 0x25"
abbreviation (input) tradeResultCompleted :: byte where "tradeResultCompleted \<equiv> 0x26"
abbreviation (input) tradeResultAddSuccess :: byte where "tradeResultAddSuccess \<equiv> 0x27"
abbreviation (input) tradeResultRemoveSuccess :: byte where "tradeResultRemoveSuccess \<equiv> 0x28"
abbreviation (input) tradeResultResets :: byte where "tradeResultResets \<equiv> 0x1F"
abbreviation (input) tradeAlzItemKind :: uint32 where "tradeAlzItemKind \<equiv> 13"

definition sendTradePacketResult :: "uint16 \<Rightarrow> uint16 \<Rightarrow> byte \<Rightarrow> 'm Game \<Rightarrow> 'm Game" where
  "sendTradePacketResult s packetType result = send s (packetType, [FByte result])"

definition sendTradeItem :: "uint16 \<Rightarrow> Item \<Rightarrow> uint16 \<Rightarrow> 'm Game \<Rightarrow> 'm Game" where
  "sendTradeItem s item tradeSlot = send s (NFY_TRADE_ADD_ITEM,
     [FUint32 (Kind item), FInt64 (scast (Option item)), FByte (ucast tradeSlot), FUint32 (Expire item), FByte 0])"

definition sendTradeAlz :: "uint16 \<Rightarrow> uint64 \<Rightarrow> 'm Game \<Rightarrow> 'm Game" where
  "sendTradeAlz s amount = send s (NFY_TRADE_ADD_ITEM,
     [FUint32 tradeAlzItemKind, FInt64 amount, FByte 0, FUint32 0, FByte 0])"

definition sendTradeRemovedItem :: "uint16 \<Rightarrow> Item \<Rightarrow> uint16 \<Rightarrow> 'm Game \<Rightarrow> 'm Game" where
  "sendTradeRemovedItem s item tradeSlot = send s (NFY_TRADE_REMOVE_ITEM,
     [FUint32 (Kind item), FInt64 (scast (Option item)), FByte (ucast tradeSlot), FUint32 (Expire item)])"

definition sendTradeEvent :: "uint16 \<Rightarrow> int32 \<Rightarrow> byte \<Rightarrow> 'm Game \<Rightarrow> 'm Game" where
  "sendTradeEvent s characterID result = send s (NFY_TRADE_EVENTS, [FInt32 characterID, FByte result])"

definition sendTradeOpenResult :: "uint16 \<Rightarrow> byte \<Rightarrow> 'm Game \<Rightarrow> 'm Game" where
  "sendTradeOpenResult s result = send s (TRADE_OPEN_EVENT, [FByte result])"

lemmas send_trade_defs = sendTradePacketResult_def sendTradeItem_def sendTradeAlz_def sendTradeRemovedItem_def
  sendTradeEvent_def sendTradeOpenResult_def

text \<open>\<open>itemCharacterID\<close>: zero for a client without a character.\<close>

definition itemCharacterID :: "uint16 \<Rightarrow> 'm Game \<Rightarrow> int32" where
  "itemCharacterID s g = (case Parse s g of None \<Rightarrow> 0 | Some ctx \<Rightarrow> char_id ctx)"

section \<open>Handshake\<close>

definition reserveTradeRequest :: "uint16 \<Rightarrow> uint16 \<Rightarrow> int32 \<Rightarrow> int32 \<Rightarrow> 'm Game \<Rightarrow> bool \<times> 'm Game" where
  "reserveTradeRequest sender target targetCharacterID senderCharacterID g =
     (case Parse sender g of None \<Rightarrow> (False, g) | Some senderContext \<Rightarrow>
      case Parse target g of None \<Rightarrow> (False, g) | Some targetContext \<Rightarrow>
        if TStatus (Trade senderContext) \<noteq> TradeStateNone \<or> TStatus (Trade targetContext) \<noteq> TradeStateNone
        then (False, g)
        else (True,
          upd target (Trade_update (\<lambda>_. zero_TradeState\<lparr>TStatus := TradeStatePending, TRole := TradeRoleTarget,
              TOpponentUserIdx := sender, TOpponentCharacterID := senderCharacterID\<rparr>))
            (upd sender (Trade_update (\<lambda>_. zero_TradeState\<lparr>TStatus := TradeStatePending, TRole := TradeRoleRequester,
              TOpponentUserIdx := target, TOpponentCharacterID := targetCharacterID\<rparr>)) g)))"

text \<open>
  \<open>TradeRequest\<close>. The target index has sixteen bits after decoding, so the conversion to \<open>uint16\<close> loses
  nothing.
\<close>

definition TradeRequest_handler :: "uint16 \<Rightarrow> Reader \<Rightarrow> 'm Game \<Rightarrow> 'm Game option" where
  "TradeRequest_handler s r g =
     (if rSize r < 18 then Some (sendTradeEvent s 0 tradeResultDenial g)
      else do {
        (targetCharacterID, r) \<leftarrow> ReadInt32 r;
        (raw, r) \<leftarrow> ReadInt32 r;
        let targetUserIndex = decodeUserObjectIndex raw;
        case Parse s g of
          None \<Rightarrow> Some (sendTradeEvent s 0 tradeResultDenial g)
        | Some senderContext \<Rightarrow>
            let senderCharacterID = char_id senderContext; target = (ucast targetUserIndex :: uint16) in
            if sint senderCharacterID \<le> 0 \<or> sint targetUserIndex < 0 \<or> sint targetUserIndex > 65535 \<or>
               targetUserIndex = ucast s
            then Some (sendTradeEvent s senderCharacterID tradeResultDenial g)
            else case Parse target g of
              None \<Rightarrow> Some (sendTradeEvent s senderCharacterID tradeResultDenial g)
            | Some targetContext \<Rightarrow>
                if char_id targetContext \<noteq> targetCharacterID
                then Some (sendTradeEvent s senderCharacterID tradeResultDenial g)
                else let (reserved, g) = reserveTradeRequest s target targetCharacterID senderCharacterID g in
                  if \<not> reserved then Some (sendTradeEvent s senderCharacterID tradeResultProgress g)
                  else Some (sendTradeEvent target senderCharacterID tradeResultRequest g) })"

text \<open>
  \<open>TradeOpenEvent\<close> from the point where both contexts are locked: \<open>tradeState\<close> is the sender's state as
  it was read before. The contexts are those the pointers lead to now.
\<close>

definition open_event :: "uint16 \<Rightarrow> uint16 \<Rightarrow> byte \<Rightarrow> TradeState \<Rightarrow> 'm Game \<Rightarrow> 'm Game option" where
  "open_event s t event tradeState g = do {
     senderContext \<leftarrow> Option.bind (users g s) id;
     targetContext \<leftarrow> Option.bind (users g t) id;
     valid \<leftarrow> (if TStatus tradeState = TradeStatePending \<and> TStatus (Trade targetContext) = TradeStatePending \<and>
                TOpponentUserIdx (Trade targetContext) = s
             then do { c \<leftarrow> cChar senderContext; Some (TOpponentCharacterID (Trade targetContext) = CharId c) }
             else Some False);
     let valid = (if event = tradeResultRequestCancel then valid \<and> TRole tradeState = TradeRoleRequester
                  else valid \<and> TRole tradeState = TradeRoleTarget);
     if \<not> valid then Some (sendTradeOpenResult s tradeResultInvalid g)
     else do {
       let (requester, requesterContext, notifiedContext) =
         (if TRole tradeState = TradeRoleTarget then (t, targetContext, senderContext)
          else (s, senderContext, targetContext));
       requesterChar \<leftarrow> cChar requesterContext;
       targetChar \<leftarrow> cChar notifiedContext;
       let targetCharacterID = CharId targetChar;
       if event = tradeResultAccept
       then do {
         let g = upd t (Trade_update (TStatus_update (\<lambda>_. TradeStateOpen)))
               (upd s (Trade_update (TStatus_update (\<lambda>_. TradeStateOpen))) g);
         let g = sendTradeOpenResult s tradeResultAccept g;
         Some (sendTradeEvent requester targetCharacterID tradeResultReady g) }
       else do {
         let g = upd t (Trade_update (\<lambda>_. zero_TradeState)) (upd s (Trade_update (\<lambda>_. zero_TradeState)) g);
         let g = sendTradeOpenResult s event g;
         Some (sendTradeEvent (if TRole tradeState = TradeRoleRequester then t else requester)
           targetCharacterID event g) } } }"

definition TradeOpenEvent :: "uint16 \<Rightarrow> Reader \<Rightarrow> 'm Game \<Rightarrow> 'm Game option" where
  "TradeOpenEvent s r g =
     (if rSize r < 11 then Some (sendTradeOpenResult s tradeResultInvalid g)
      else do {
        (event, r) \<leftarrow> ReadByte r;
        if event \<noteq> tradeResultRequestCancel \<and> event \<noteq> tradeResultAccept \<and> event \<noteq> tradeResultReject \<and>
           event \<noteq> tradeResultAutoReject
        then Some (sendTradeOpenResult s tradeResultInvalid g)
        else case Parse s g of
          None \<Rightarrow> Some (sendTradeOpenResult s tradeResultInvalid g)
        | Some senderContext \<Rightarrow>
            let tradeState = Trade senderContext; t = TOpponentUserIdx tradeState in
            if Parse t g = None \<or> t = s then Some (sendTradeOpenResult s tradeResultInvalid g)
            else open_event s t event tradeState g })"

section \<open>The trade window\<close>

text \<open>\<open>tradePair\<close>: the peer's index and both contexts.\<close>

definition tradePair :: "uint16 \<Rightarrow> 'm Game \<Rightarrow> (uint16 \<times> 'm Context \<times> 'm Context) option" where
  "tradePair s g =
     (case Parse s g of
        None \<Rightarrow> None
      | Some currentContext \<Rightarrow>
          let tradeState = Trade currentContext; p = TOpponentUserIdx tradeState in
          if TStatus tradeState \<noteq> TradeStateOpen \<or> p = s then None
          else case Parse p g of None \<Rightarrow> None | Some peerContext \<Rightarrow> Some (p, currentContext, peerContext))"

definition TradeCloseEvent :: "uint16 \<Rightarrow> Reader \<Rightarrow> 'm Game \<Rightarrow> 'm Game option" where
  "TradeCloseEvent s r g =
     (if rSize r < 11 then Some (sendTradePacketResult s TRADE_CLOSE_EVENT tradeResultInvalid g)
      else do {
        (event, r) \<leftarrow> ReadByte r;
        if event \<noteq> tradeResultSubmitCancel \<and> event \<noteq> tradeResultTradeCancel \<and> event \<noteq> tradeResultSubmit
        then Some (sendTradePacketResult s TRADE_CLOSE_EVENT tradeResultInvalid g)
        else case tradePair s g of
          None \<Rightarrow> Some (sendTradePacketResult s TRADE_CLOSE_EVENT tradeResultInvalid g)
        | Some (p, currentContext, peerContext) \<Rightarrow>
            if TStatus (Trade currentContext) \<noteq> TradeStateOpen \<or> TStatus (Trade peerContext) \<noteq> TradeStateOpen
            then Some (sendTradePacketResult s TRADE_CLOSE_EVENT tradeResultInvalid g)
            else do {
              currentChar \<leftarrow> cChar currentContext;
              let currentCharacterID = CharId currentChar;
              let peerSubmitted = TSubmitted (Trade peerContext);
              if event = tradeResultSubmit \<and> TSubmitted (Trade currentContext)
              then Some (sendTradePacketResult s TRADE_CLOSE_EVENT tradeResultInvalid g)
              else do {
                let g = (if event = tradeResultSubmit then upd s (Trade_update (TSubmitted_update (\<lambda>_. True))) g
                         else if event = tradeResultSubmitCancel then upd s (Trade_update (TSubmitted_update (\<lambda>_. False))) g
                         else upd p (Trade_update (\<lambda>_. zero_TradeState)) (upd s (Trade_update (\<lambda>_. zero_TradeState)) g));
                let bothSubmitted = (event = tradeResultSubmit \<and> peerSubmitted);
                let g = sendTradePacketResult s TRADE_CLOSE_EVENT event g;
                let g = sendTradeEvent p currentCharacterID event g;
                if event = tradeResultTradeCancel then Some g
                else if bothSubmitted then do {
                  peerChar \<leftarrow> cChar peerContext;
                  let g = sendTradeEvent s (CharId peerChar) tradeResultRequestList g;
                  Some (sendTradeEvent p currentCharacterID tradeResultRequestList g) }
                else Some g } } })"

definition tradeOfferExists :: "TradeItemOffer list \<Rightarrow> uint16 \<Rightarrow> uint16 \<Rightarrow> bool" where
  "tradeOfferExists items sourceSlot tradeSlot =
     list_ex (\<lambda>offer. Slot (OfferItem offer) = sourceSlot \<or> TradeSlot offer = tradeSlot) items"

primrec tradeOfferIndex :: "TradeItemOffer list \<Rightarrow> uint16 \<Rightarrow> uint16 \<Rightarrow> nat option" where
  "tradeOfferIndex [] tradeSlot sourceSlot = None"
| "tradeOfferIndex (offer # items) tradeSlot sourceSlot =
     (if TradeSlot offer = tradeSlot \<and> Slot (OfferItem offer) = sourceSlot then Some 0
      else map_option Suc (tradeOfferIndex items tradeSlot sourceSlot))"

text \<open>
  The end of the three handlers that change an offer: the peer's submission is withdrawn, the sender
  is answered, the peer is shown the change and told of its withdrawn submission.
\<close>

definition offer_changed ::
    "uint16 \<Rightarrow> uint16 \<Rightarrow> bool \<Rightarrow> ('m Game \<Rightarrow> 'm Game) \<Rightarrow> ('m Game \<Rightarrow> 'm Game) \<Rightarrow> 'm Game \<Rightarrow> 'm Game" where
  "offer_changed s p peerSubmitted answer notify g =
     (let g = (if peerSubmitted then upd p (Trade_update (TSubmitted_update (\<lambda>_. False))) g else g);
          g = notify (answer g) in
      if peerSubmitted then sendTradeEvent p (itemCharacterID p g) tradeResultSubmitCancel g else g)"

definition TradeAddItem :: "uint16 \<Rightarrow> Reader \<Rightarrow> 'm Game \<Rightarrow> 'm Game option" where
  "TradeAddItem s r g =
     (let invalid = Some (sendTradePacketResult s TRADE_ADD_ITEM tradeResultInvalid g) in
      if rSize r < 14 then invalid
      else do {
        (sourceSlot, r) \<leftarrow> ReadUint16 r;
        (tradeSlot, r) \<leftarrow> ReadUint16 r;
        if sourceSlot > tradeMaxSlot \<or> tradeSlot > tradeMaxSlot then invalid
        else case tradePair s g of
          None \<Rightarrow> invalid
        | Some (p, currentContext, peerContext) \<Rightarrow>
            if TStatus (Trade currentContext) \<noteq> TradeStateOpen \<or> TSubmitted (Trade currentContext) \<or>
               TStatus (Trade peerContext) \<noteq> TradeStateOpen
            then invalid
            else do {
              currentChar \<leftarrow> cChar currentContext;
              let item = Inventory_Get sourceSlot (CharInventory currentChar);
              if Kind item = 0 \<or> tradeOfferExists (TItems (Trade currentContext)) sourceSlot tradeSlot then invalid
              else Some (offer_changed s p (TSubmitted (Trade peerContext))
                (sendTradePacketResult s TRADE_ADD_ITEM tradeResultAddSuccess)
                (sendTradeItem p item tradeSlot)
                (upd s (Trade_update (TItems_update (\<lambda>items. items @ [\<lparr>OfferItem = item, TradeSlot = tradeSlot\<rparr>]))) g)) } })"

definition TradeAddAlz :: "uint16 \<Rightarrow> Reader \<Rightarrow> 'm Game \<Rightarrow> 'm Game option" where
  "TradeAddAlz s r g =
     (let invalid = Some (sendTradePacketResult s TRADE_ADD_ALZ tradeResultInvalid g) in
      if rSize r < 18 then invalid
      else do {
        (amount, r) \<leftarrow> ReadInt64 r;
        if sint amount < 0 then invalid
        else case tradePair s g of
          None \<Rightarrow> invalid
        | Some (p, currentContext, peerContext) \<Rightarrow> do {
            over \<leftarrow> (if TStatus (Trade currentContext) \<noteq> TradeStateOpen \<or> TSubmitted (Trade currentContext) \<or>
                      TStatus (Trade peerContext) \<noteq> TradeStateOpen
                   then Some True
                   else do { currentChar \<leftarrow> cChar currentContext; Some (amount > Alz currentChar) });
            if over then invalid
            else Some (offer_changed s p (TSubmitted (Trade peerContext))
                (sendTradePacketResult s TRADE_ADD_ALZ tradeResultAddSuccess)
                (sendTradeAlz p amount)
                (upd s (Trade_update (TAlz_update (\<lambda>_. amount))) g)) } })"

definition TradeRemoveItem :: "uint16 \<Rightarrow> Reader \<Rightarrow> 'm Game \<Rightarrow> 'm Game option" where
  "TradeRemoveItem s r g =
     (let invalid = Some (sendTradePacketResult s TRADE_REMOVE_ITEM tradeResultInvalid g) in
      if rSize r < 14 then invalid
      else do {
        (tradeSlot, r) \<leftarrow> ReadUint16 r;
        (inventorySlot, r) \<leftarrow> ReadUint16 r;
        case tradePair s g of
          None \<Rightarrow> invalid
        | Some (p, currentContext, peerContext) \<Rightarrow>
            if TStatus (Trade currentContext) \<noteq> TradeStateOpen \<or> TSubmitted (Trade currentContext) \<or>
               TStatus (Trade peerContext) \<noteq> TradeStateOpen
            then invalid
            else case tradeOfferIndex (TItems (Trade currentContext)) tradeSlot inventorySlot of
              None \<Rightarrow> invalid
            | Some index \<Rightarrow> do {
                offer \<leftarrow> go_index (TItems (Trade currentContext)) index;
                Some (offer_changed s p (TSubmitted (Trade peerContext))
                  (sendTradePacketResult s TRADE_REMOVE_ITEM tradeResultRemoveSuccess)
                  (sendTradeRemovedItem p (OfferItem offer) (TradeSlot offer))
                  (upd s (Trade_update (TItems_update (\<lambda>items. take index items @ drop (index + 1) items))) g)) } })"

section \<open>The exchange\<close>

text \<open>The local variables \<open>completeTrade\<close> fills while it holds the locks.\<close>

record deal =
  firstItems :: "TradeItemOffer list"
  secondItems :: "TradeItemOffer list"
  firstDestinations :: "uint16 list"
  secondDestinations :: "uint16 list"
  firstCharacterID :: int32
  secondCharacterID :: int32
  firstAlz :: uint64
  secondAlz :: uint64

text \<open>
  The first locked section: \<open>None\<close> is a panic, \<open>Some None\<close> the early return. The contexts are those the
  two pointers lead to.
\<close>

definition read_deal :: "'m Context \<Rightarrow> 'm Context \<Rightarrow> deal option option" where
  "read_deal firstContext secondContext =
     (let first = Trade firstContext; second = Trade secondContext in
      if TStatus first \<noteq> TradeStateOpen \<or> TStatus second \<noteq> TradeStateOpen \<or> \<not> TSubmitted first \<or> \<not> TSubmitted second \<or>
         length (TDestinationSlots first) \<noteq> length (TItems second) \<or>
         length (TDestinationSlots second) \<noteq> length (TItems first)
      then Some None
      else do {
        firstChar \<leftarrow> cChar firstContext;
        secondChar \<leftarrow> cChar secondContext;
        Some (Some \<lparr>firstItems = TItems first, secondItems = TItems second,
          firstDestinations = TDestinationSlots first, secondDestinations = TDestinationSlots second,
          firstCharacterID = CharId firstChar, secondCharacterID = CharId secondChar,
          firstAlz = TAlz first, secondAlz = TAlz second\<rparr>) })"

definition transfers :: "TradeItemOffer list \<Rightarrow> uint16 list \<Rightarrow> TradeItemTransfer list" where
  "transfers items destinations =
     map (\<lambda>(offer, slot). \<lparr>tItem = OfferItem offer, TargetSlot = slot\<rparr>) (zip items destinations)"

definition deal_request :: "byte \<Rightarrow> deal \<Rightarrow> TradeRequest" where
  "deal_request server d = \<lparr>tServer = server, FirstCharacter = firstCharacterID d, SecondCharacter = secondCharacterID d,
     FirstItems = transfers (firstItems d) (secondDestinations d),
     SecondItems = transfers (secondItems d) (firstDestinations d),
     FirstAlz = firstAlz d, SecondAlz = secondAlz d\<rparr>"

text \<open>What happens to one player's inventory: the offers leave it, the peer's enter it.\<close>

definition exchange_items ::
    "TradeItemOffer list \<Rightarrow> TradeItemOffer list \<Rightarrow> uint16 list \<Rightarrow> 'm Inventory \<Rightarrow> 'm Inventory" where
  "exchange_items given taken destinations e =
     fold (\<lambda>(offer, slot). SetLocal ((OfferItem offer)\<lparr>Slot := slot\<rparr>)) (zip taken destinations)
       (fold (\<lambda>offer. RemoveLocal (Slot (OfferItem offer))) given e)"

text \<open>The second locked section, with the two packets that follow it.\<close>

definition settle :: "uint16 \<Rightarrow> uint16 \<Rightarrow> deal \<Rightarrow> TradeResponse \<Rightarrow> 'm Game \<Rightarrow> 'm Game" where
  "settle first second d response g =
     (let change = (\<lambda>given taken destinations alz ctx. ctx\<lparr>
            cChar := map_option (\<lambda>c. c\<lparr>CharInventory := exchange_items given taken destinations (CharInventory c),
              Alz := alz\<rparr>) (cChar ctx), Trade := zero_TradeState\<rparr>);
          g = upd first (change (firstItems d) (secondItems d) (firstDestinations d) (tFirstAlz response)) g;
          g = upd second (change (secondItems d) (firstItems d) (secondDestinations d) (tSecondAlz response)) g;
          g = sendTradeEvent first (secondCharacterID d) tradeResultCompleted g in
      sendTradeEvent second (firstCharacterID d) tradeResultCompleted g)"

definition abortCompletedTrade :: "uint16 \<Rightarrow> uint16 \<Rightarrow> byte \<Rightarrow> 'm Game \<Rightarrow> 'm Game option" where
  "abortCompletedTrade first second result g = do {
     firstContext \<leftarrow> Option.bind (users g first) id;
     secondContext \<leftarrow> Option.bind (users g second) id;
     firstChar \<leftarrow> cChar firstContext;
     secondChar \<leftarrow> cChar secondContext;
     let g = upd second (Trade_update (\<lambda>_. zero_TradeState)) (upd first (Trade_update (\<lambda>_. zero_TradeState)) g);
     let g = sendTradeEvent first (CharId secondChar) result g;
     Some (sendTradeEvent second (CharId firstChar) result g) }"

definition completeTrade :: "uint16 \<Rightarrow> uint16 \<Rightarrow> 'm Game \<Rightarrow> 'm Game option" where
  "completeTrade first second g = do {
     firstContext \<leftarrow> Option.bind (users g first) id;
     secondContext \<leftarrow> Option.bind (users g second) id;
     deal \<leftarrow> read_deal firstContext secondContext;
     case deal of
       None \<Rightarrow> Some g
     | Some d \<Rightarrow>
         let (result, m) = call_trade (g_RPCHandler g) (deal_request (ServerId g) d) (remote g); g = g\<lparr>remote := m\<rparr> in
         (case result of
            Inl err \<Rightarrow> abortCompletedTrade first second tradeResultInvalid g
          | Inr response \<Rightarrow>
              if \<not> tResult response then abortCompletedTrade first second tradeResultInvalid g
              else Some (settle first second d response g)) }"

text \<open>
  The loop of \<open>TradeRequestList\<close> that reads the slots: \<open>None\<close> is a panic, \<open>Some None\<close> the early return.
\<close>

primrec read_slots :: "nat \<Rightarrow> uint16 set \<Rightarrow> Reader \<Rightarrow> uint16 list option option" where
  "read_slots 0 seen r = Some (Some [])"
| "read_slots (Suc n) seen r = do {
     (slot, r) \<leftarrow> ReadUint16 r;
     if slot > tradeMaxSlot \<or> slot \<in> seen then Some None
     else map_option (map_option (Cons slot)) (read_slots n (insert slot seen) r) }"

definition TradeRequestList :: "uint16 \<Rightarrow> Reader \<Rightarrow> 'm Game \<Rightarrow> 'm Game option" where
  "TradeRequestList s r g =
     (if rSize r < 11 then Some g
      else do {
        let size = rSize r;
        (b, r) \<leftarrow> ReadByte r;
        let count = unat b;
        if unat size \<noteq> 11 + count * 2 \<or> count > 255 then Some g
        else do {
          read \<leftarrow> read_slots count {} r;
          case read of
            None \<Rightarrow> Some g
          | Some slots \<Rightarrow>
              (case tradePair s g of
                 None \<Rightarrow> Some g
               | Some (p, currentContext, peerContext) \<Rightarrow>
                   if TStatus (Trade currentContext) \<noteq> TradeStateOpen \<or> \<not> TSubmitted (Trade currentContext) \<or>
                      TStatus (Trade peerContext) \<noteq> TradeStateOpen \<or> \<not> TSubmitted (Trade peerContext) \<or>
                      length slots \<noteq> length (TItems (Trade peerContext))
                   then Some g
                   else do {
                     currentChar \<leftarrow> cChar currentContext;
                     if list_ex (\<lambda>slot. Kind (Inventory_Get slot (CharInventory currentChar)) \<noteq> 0) slots then Some g
                     else do {
                       let g = upd s (Trade_update (TDestinationSlots_update (\<lambda>_. slots))) g;
                       if length (TDestinationSlots (Trade peerContext)) = length (TItems (Trade currentContext))
                       then completeTrade s p g
                       else Some g } }) } })"

section \<open>Leaving the world\<close>

definition CancelTrade :: "uint16 \<Rightarrow> 'm Game \<Rightarrow> 'm Game" where
  "CancelTrade s g =
     (case Parse s g of
        None \<Rightarrow> g
      | Some currentContext \<Rightarrow>
          let tradeState = Trade currentContext; p = TOpponentUserIdx tradeState in
          if TStatus tradeState = TradeStateNone then g
          else if p = s then upd s (Trade_update (\<lambda>_. zero_TradeState)) g
          else case Parse p g of
            None \<Rightarrow> upd s (Trade_update (\<lambda>_. zero_TradeState)) g
          | Some peerContext \<Rightarrow>
              let currentCharacterID = char_id currentContext;
                  peerLinked = (TOpponentUserIdx (Trade peerContext) = s);
                  g = upd s (Trade_update (\<lambda>_. zero_TradeState)) g;
                  g = (if peerLinked then upd p (Trade_update (\<lambda>_. zero_TradeState)) g else g) in
              if peerLinked then sendTradeEvent p currentCharacterID tradeResultResets g else g)"

end
