(* ===== verification/Freya_Trade_Protocol.thy ===== *)
theory Freya_Trade_Protocol
  imports Freya_Trade
begin

text \<open>
  The trade handlers against the protocol they implement: each packet makes at most one move of an
  abstract machine on the trade states, the machine keeps the players of a trade linked, and an offer
  changes only before its owner submits it.
\<close>

section \<open>What the handlers do to the trade states\<close>

text \<open>
  The trade states of the clients that have a character, and the moves of one client \<open>i\<close> that change
  them. This is the protocol as it is meant: a request between two idle players, its acceptance, changes of an offer while
  it is not submitted (which withdraw the peer's submission), submitting, choosing slots, and resets of
  both sides at once.
\<close>

type_synonym trades = "uint16 \<rightharpoonup> TradeState"

definition trades_of :: "'m Game \<Rightarrow> trades" where
  "trades_of g = (\<lambda>i. map_option Trade (Parse i g))"

inductive trade_move :: "uint16 \<Rightarrow> trades \<Rightarrow> trades \<Rightarrow> bool" where
  request: "T i = Some t \<Longrightarrow> T j = Some u \<Longrightarrow> i \<noteq> j \<Longrightarrow> TStatus t = TradeStateNone \<Longrightarrow> TStatus u = TradeStateNone \<Longrightarrow>
    trade_move i T (T(i \<mapsto> zero_TradeState\<lparr>TStatus := TradeStatePending, TRole := TradeRoleRequester,
        TOpponentUserIdx := j, TOpponentCharacterID := a\<rparr>,
      j \<mapsto> zero_TradeState\<lparr>TStatus := TradeStatePending, TRole := TradeRoleTarget,
        TOpponentUserIdx := i, TOpponentCharacterID := b\<rparr>))"
| accept: "T i = Some t \<Longrightarrow> T j = Some u \<Longrightarrow> i \<noteq> j \<Longrightarrow> TOpponentUserIdx t = j \<Longrightarrow> TOpponentUserIdx u = i \<Longrightarrow>
    TStatus t = TradeStatePending \<Longrightarrow> TStatus u = TradeStatePending \<Longrightarrow> TRole t = TradeRoleTarget \<Longrightarrow>
    trade_move i T (T(i \<mapsto> t\<lparr>TStatus := TradeStateOpen\<rparr>, j \<mapsto> u\<lparr>TStatus := TradeStateOpen\<rparr>))"
| offer: "T i = Some t \<Longrightarrow> T j = Some u \<Longrightarrow> i \<noteq> j \<Longrightarrow> TOpponentUserIdx t = j \<Longrightarrow>
    TStatus t = TradeStateOpen \<Longrightarrow> TStatus u = TradeStateOpen \<Longrightarrow> \<not> TSubmitted t \<Longrightarrow>
    trade_move i T (T(i \<mapsto> t\<lparr>TItems := x, TAlz := a\<rparr>, j \<mapsto> u\<lparr>TSubmitted := False\<rparr>))"
| submit: "T i = Some t \<Longrightarrow> T j = Some u \<Longrightarrow> i \<noteq> j \<Longrightarrow> TOpponentUserIdx t = j \<Longrightarrow>
    TStatus t = TradeStateOpen \<Longrightarrow> TStatus u = TradeStateOpen \<Longrightarrow>
    trade_move i T (T(i \<mapsto> t\<lparr>TSubmitted := b\<rparr>))"
| choose: "T i = Some t \<Longrightarrow> T j = Some u \<Longrightarrow> i \<noteq> j \<Longrightarrow> TOpponentUserIdx t = j \<Longrightarrow>
    TStatus t = TradeStateOpen \<Longrightarrow> TStatus u = TradeStateOpen \<Longrightarrow> TSubmitted t \<Longrightarrow> TSubmitted u \<Longrightarrow>
    length slots = length (TItems u) \<Longrightarrow> trade_move i T (T(i \<mapsto> t\<lparr>TDestinationSlots := slots\<rparr>))"
| reset: "T i = Some t \<Longrightarrow> T j = Some u \<Longrightarrow> i \<noteq> j \<Longrightarrow> TOpponentUserIdx t = j \<Longrightarrow> TStatus t \<noteq> TradeStateNone \<Longrightarrow>
    TOpponentUserIdx u = i \<or> (TStatus t = TradeStateOpen \<and> TStatus u = TradeStateOpen) \<Longrightarrow>
    trade_move i T (T(i \<mapsto> zero_TradeState, j \<mapsto> zero_TradeState))"
| abandon: "T i = Some t \<Longrightarrow> TOpponentUserIdx t = i \<or> T (TOpponentUserIdx t) = None \<or>
    TOpponentUserIdx (the (T (TOpponentUserIdx t))) \<noteq> i \<Longrightarrow> trade_move i T (T(i \<mapsto> zero_TradeState))"
| enter: "T i = None \<Longrightarrow> trade_move i T (T(i \<mapsto> zero_TradeState))"
| leave: "T i = None \<or> TStatus (the (T i)) = TradeStateNone \<Longrightarrow> trade_move i T (T(i := None))"

definition trade_step :: "uint16 \<Rightarrow> trades \<Rightarrow> trades \<Rightarrow> bool" where
  "trade_step i T T' \<longleftrightarrow> T' = T \<or> trade_move i T T'"

lemma no_move [simp]: "trade_step i T T"
  by (simp add: trade_step_def)

lemma one_move: "trade_move i T T' \<Longrightarrow> trade_step i T T'"
  by (simp add: trade_step_def)

lemma trades_upd [simp]:
  "trades_of (upd i (Trade_update f) g) = (trades_of g)(i := map_option f (trades_of g i))"
  by (auto simp: trades_of_def fun_eq_iff Parse_upd option.map_comp comp_def)

lemma trades_send [simp]:
  "trades_of (send i p g) = trades_of g" "trades_of (g\<lparr>remote := m\<rparr>) = trades_of g"
  "trades_of (sendTradePacketResult s c b g) = trades_of g" "trades_of (sendTradeItem s it sl g) = trades_of g"
  "trades_of (sendTradeAlz s a g) = trades_of g" "trades_of (sendTradeRemovedItem s it sl g) = trades_of g"
  "trades_of (sendTradeEvent s ch b g) = trades_of g" "trades_of (sendTradeOpenResult s b g) = trades_of g"
  by (simp_all add: trades_of_def send_trade_defs)

lemma trades_Parse: "Parse i g = Some c \<Longrightarrow> trades_of g i = Some (Trade c)"
  by (simp add: trades_of_def)

lemma users_Parse: "Option.bind (users g i) id = Some c \<Longrightarrow> cChar c = Some ch \<Longrightarrow> Parse i g = Some c"
  by (auto simp: Parse_Some bind_eq_Some_conv)

lemma Parse_users: "Parse i g = Some c \<Longrightarrow> Option.bind (users g i) id = Some c \<and> (\<exists>ch. cChar c = Some ch)"
  by (auto simp: Parse_Some)

lemma tradePair_Some:
  "tradePair s g = Some (p, c, d) \<longleftrightarrow> Parse s g = Some c \<and> TStatus (Trade c) = TradeStateOpen \<and>
     p = TOpponentUserIdx (Trade c) \<and> p \<noteq> s \<and> Parse p g = Some d"
  by (auto simp: tradePair_def Let_def split: option.splits)

lemma tradePair_trades:
  assumes "tradePair s g = Some (p, c, d)"
  shows "trades_of g s = Some (Trade c)" "trades_of g p = Some (Trade d)" "s \<noteq> p"
    "TOpponentUserIdx (Trade c) = p" "TStatus (Trade c) = TradeStateOpen"
  using assms by (auto simp: tradePair_Some trades_Parse)

section \<open>Every handler follows the protocol\<close>

abbreviation follows :: "uint16 \<Rightarrow> 'm Game \<Rightarrow> 'm Game option \<Rightarrow> bool" where
  "follows s g \<equiv> returns (\<lambda>g'. trade_step s (trades_of g) (trades_of g'))"

lemma reserve_moves:
  assumes "reserveTradeRequest s t a b g = (ok, g')" "s \<noteq> t"
  shows "trade_step s (trades_of g) (trades_of g')"
proof (cases ok)
  case True
  with assms obtain c d where "Parse s g = Some c" "Parse t g = Some d" "s \<noteq> t"
      "TStatus (Trade c) = TradeStateNone" "TStatus (Trade d) = TradeStateNone"
    and g': "trades_of g' = (trades_of g)(s \<mapsto> zero_TradeState\<lparr>TStatus := TradeStatePending, TRole := TradeRoleRequester,
        TOpponentUserIdx := t, TOpponentCharacterID := a\<rparr>, t \<mapsto> zero_TradeState\<lparr>TStatus := TradeStatePending,
        TRole := TradeRoleTarget, TOpponentUserIdx := s, TOpponentCharacterID := b\<rparr>)"
    by (auto simp: reserveTradeRequest_def trades_Parse split: option.splits if_splits)
  then show ?thesis unfolding g'
    by (intro one_move trade_move.request [OF trades_Parse trades_Parse])
qed (use assms in \<open>auto simp: reserveTradeRequest_def split: option.splits if_splits\<close>)

lemma decode_index: "decodeUserObjectIndex raw = ucast (ucast raw :: uint16)"
proof -
  have "(0x0000FFFF :: int32) = semiring_bit_operations_class.mask 16" by (simp add: mask_eq_exp_minus_1)
  then have "decodeUserObjectIndex raw = take_bit 16 raw" by (simp only: decodeUserObjectIndex_def take_bit_eq_mask)
  then show ?thesis by (auto intro!: bit_word_eqI simp: bit_simps)
qed

lemma decode_ne: "decodeUserObjectIndex raw \<noteq> ucast s \<Longrightarrow> (s :: uint16) \<noteq> ucast (decodeUserObjectIndex raw)"
proof -
  have "ucast (decodeUserObjectIndex raw) = (ucast raw :: uint16)"
    unfolding decode_index by (rule bit_word_eqI) (simp add: bit_simps)
  then show "decodeUserObjectIndex raw \<noteq> ucast s \<Longrightarrow> ?thesis" unfolding decode_index by auto
qed

lemma TradeRequest_follows:
  assumes "framed r"
  shows "follows s g (TradeRequest_handler s r g)"
  unfolding TradeRequest_handler_def Let_def
  apply (intro returns_intro returns_reads)
  using framed_length [OF assms, of 18]
  by (auto dest: reserve_moves [OF _ decode_ne])

lemma open_follows:
  assumes s: "Parse s g = Some c" and t: "Parse t g = Some d" "TOpponentUserIdx (Trade c) = t" "t \<noteq> s"
  shows "follows s g (open_event s t event (Trade c) g)"
proof -
  obtain x y where x: "cChar c = Some x" "Option.bind (users g s) id = Some c"
    and y: "cChar d = Some y" "Option.bind (users g t) id = Some d"
    using Parse_users [OF s] Parse_users [OF t(1)] by blast
  let ?c = "Trade c" and ?d = "Trade d" and ?T = "trades_of g"
  note T = trades_Parse [OF s] trades_Parse [OF t(1)]
  define valid where "valid \<longleftrightarrow> TStatus ?c = TradeStatePending \<and> TStatus ?d = TradeStatePending \<and> TOpponentUserIdx ?d = s \<and>
    TOpponentCharacterID ?d = CharId x \<and> TRole ?c = (if event = tradeResultRequestCancel then TradeRoleRequester else TradeRoleTarget)"
  have "returns (\<lambda>u. trades_of u = (if \<not> valid then ?T else if event = tradeResultAccept
      then ?T(s \<mapsto> ?c\<lparr>TStatus := TradeStateOpen\<rparr>, t \<mapsto> ?d\<lparr>TStatus := TradeStateOpen\<rparr>)
      else ?T(s \<mapsto> zero_TradeState, t \<mapsto> zero_TradeState))) (open_event s t event ?c g)"
  proof (cases "TRole ?c = TradeRoleTarget")
    case True
    then show ?thesis using t(3)
      by (simp add: open_event_def returns_def Let_def x y T valid_def)
  next
    case False
    then show ?thesis using t(3)
      by (simp add: open_event_def returns_def Let_def x y T valid_def)
  qed
  moreover have "trade_move s ?T (?T(s \<mapsto> ?c\<lparr>TStatus := TradeStateOpen\<rparr>, t \<mapsto> ?d\<lparr>TStatus := TradeStateOpen\<rparr>))"
    if "valid" "event = tradeResultAccept"
    using that t by (intro trade_move.accept [OF T]) (simp_all add: valid_def)
  moreover have "trade_move s ?T (?T(s \<mapsto> zero_TradeState, t \<mapsto> zero_TradeState))" if "valid"
    using that t by (intro trade_move.reset [OF T]) (simp_all add: valid_def)
  ultimately show ?thesis
    by (elim returns_mono) (simp split: if_split_asm add: one_move)
qed

lemma TradeOpenEvent_follows:
  assumes "framed r"
  shows "follows s g (TradeOpenEvent s r g)"
  unfolding TradeOpenEvent_def Let_def
  apply (intro returns_intro returns_reads)
  using framed_length [OF assms, of 11]
  by (auto intro: open_follows)

text \<open>The handlers of the trade window start from a pair of linked contexts.\<close>

lemma tradePair_chars:
  "tradePair s g = Some (p, c, d) \<Longrightarrow> (\<exists>x. cChar c = Some x) \<and> (\<exists>y. cChar d = Some y)"
  by (auto simp: tradePair_Some Parse_Some)

lemma window_moves:
  assumes "tradePair s g = Some (p, c, d)" "TStatus (Trade d) = TradeStateOpen"
  shows "trade_step s (trades_of g) ((trades_of g)(s \<mapsto> (Trade c)\<lparr>TSubmitted := b\<rparr>))"
    and "trade_step s (trades_of g) ((trades_of g)(s \<mapsto> zero_TradeState, p \<mapsto> zero_TradeState))"
    and "\<not> TSubmitted (Trade c) \<Longrightarrow> trade_step s (trades_of g)
       ((trades_of g)(s \<mapsto> (Trade c)\<lparr>TItems := x, TAlz := a\<rparr>, p \<mapsto> (Trade d)\<lparr>TSubmitted := False\<rparr>))"
    and "TSubmitted (Trade c) \<Longrightarrow> TSubmitted (Trade d) \<Longrightarrow> length slots = length (TItems (Trade d)) \<Longrightarrow>
       trade_step s (trades_of g) ((trades_of g)(s \<mapsto> (Trade c)\<lparr>TDestinationSlots := slots\<rparr>))"
  using tradePair_trades [OF assms(1)] assms(2)
  by (auto intro!: one_move intro: trade_move.intros)

lemma TradeCloseEvent_follows:
  assumes "framed r"
  shows "follows s g (TradeCloseEvent s r g)"
proof (cases "tradePair s g")
  case None
  then show ?thesis
    unfolding TradeCloseEvent_def Let_def
    apply (intro returns_intro returns_reads)
    using framed_length [OF assms, of 11] by auto
next
  case (Some q)
  obtain p c d where q: "tradePair s g = Some (p, c, d)" using Some by (cases q) auto
  obtain x y where xy: "cChar c = Some x" "cChar d = Some y" using tradePair_chars [OF q] by blast
  note T = tradePair_trades [OF q]
  show ?thesis
    unfolding TradeCloseEvent_def Let_def q option.case prod.case xy bind.bind_lunit
    apply (intro returns_intro returns_reads)
    using framed_length [OF assms, of 11] window_moves(1,2) [OF q] T(3)
    by (auto simp: T)
qed

lemma offer_changed_follows:
  assumes q: "tradePair s g = Some (p, c, d)" "TStatus (Trade d) = TradeStateOpen" "\<not> TSubmitted (Trade c)"
    and f: "f (Trade c) = (Trade c)\<lparr>TItems := x, TAlz := a\<rparr>"
    and "\<And>h. trades_of (answer h) = trades_of h" "\<And>h. trades_of (notify h) = trades_of h"
  shows "trade_step s (trades_of g) (trades_of (offer_changed s p (TSubmitted (Trade d)) answer notify (upd s (Trade_update f) g)))"
proof -
  note T = tradePair_trades [OF q(1)]
  note m = window_moves(3) [OF q, where x = x and a = a]
  show ?thesis
  proof (cases "TSubmitted (Trade d)")
    case True
    with m T(3) T(3) [symmetric] show ?thesis by (simp add: offer_changed_def Let_def T f assms(5,6))
  next
    case False
    then have "(Trade d)\<lparr>TSubmitted := False\<rparr> = Trade d" by (cases "Trade d") simp
    moreover have "(trades_of g)(s \<mapsto> z, p \<mapsto> Trade d) = (trades_of g)(s \<mapsto> z)" for z
      using T(2,3) by (auto simp: fun_eq_iff)
    ultimately have "trade_step s (trades_of g) ((trades_of g)(s \<mapsto> (Trade c)\<lparr>TItems := x, TAlz := a\<rparr>))"
      using m by (simp only:)
    with False show ?thesis by (simp add: offer_changed_def Let_def T f assms(5,6))
  qed
qed

lemma offer_follows:
  assumes "tradePair s g = Some (p, c, d)" "TStatus (Trade d) = TradeStateOpen" "\<not> TSubmitted (Trade c)"
    and "\<And>h. trades_of (answer h) = trades_of h" "\<And>h. trades_of (notify h) = trades_of h"
  shows "trade_step s (trades_of g)
      (trades_of (offer_changed s p (TSubmitted (Trade d)) answer notify (upd s (Trade_update (TItems_update h)) g)))"
    and "trade_step s (trades_of g)
      (trades_of (offer_changed s p (TSubmitted (Trade d)) answer notify (upd s (Trade_update (TAlz_update k)) g)))"
proof -
  show "trade_step s (trades_of g)
      (trades_of (offer_changed s p (TSubmitted (Trade d)) answer notify (upd s (Trade_update (TItems_update h)) g)))"
    by (rule offer_changed_follows [where c = c and x = "h (TItems (Trade c))" and a = "TAlz (Trade c)"]) (simp_all add: assms)
  show "trade_step s (trades_of g)
      (trades_of (offer_changed s p (TSubmitted (Trade d)) answer notify (upd s (Trade_update (TAlz_update k)) g)))"
    by (rule offer_changed_follows [where c = c and x = "TItems (Trade c)" and a = "k (TAlz (Trade c))"]) (simp_all add: assms)
qed

lemma TradeAddItem_follows:
  assumes "framed r"
  shows "follows s g (TradeAddItem s r g)"
proof (cases "tradePair s g")
  case None
  then show ?thesis
    unfolding TradeAddItem_def Let_def
    apply (intro returns_intro returns_reads)
    using framed_length [OF assms, of 14] by auto
next
  case (Some q)
  obtain p c d where q: "tradePair s g = Some (p, c, d)" using Some by (cases q) auto
  obtain x y where xy: "cChar c = Some x" "cChar d = Some y" using tradePair_chars [OF q] by blast
  show ?thesis
    unfolding TradeAddItem_def Let_def q option.case prod.case xy bind.bind_lunit
    apply (intro returns_intro returns_reads)
    using framed_length [OF assms, of 14]
    by (auto intro: offer_follows [OF q])
qed

lemma TradeAddAlz_follows:
  assumes "framed r"
  shows "follows s g (TradeAddAlz s r g)"
proof (cases "tradePair s g")
  case None
  then show ?thesis
    unfolding TradeAddAlz_def Let_def
    apply (intro returns_intro returns_reads)
    using framed_length [OF assms, of 18] by auto
next
  case (Some q)
  obtain p c d where q: "tradePair s g = Some (p, c, d)" using Some by (cases q) auto
  obtain x y where xy: "cChar c = Some x" "cChar d = Some y" using tradePair_chars [OF q] by blast
  show ?thesis
    unfolding TradeAddAlz_def Let_def q option.case prod.case xy bind.bind_lunit
    apply (intro returns_intro returns_reads)
    using framed_length [OF assms, of 18]
    by (auto intro: offer_follows [OF q])
qed

lemma tradeOfferIndex_less: "tradeOfferIndex items a b = Some i \<Longrightarrow> i < length items"
  by (induction items arbitrary: i) (auto split: if_splits)

lemma TradeRemoveItem_follows:
  assumes "framed r"
  shows "follows s g (TradeRemoveItem s r g)"
proof (cases "tradePair s g")
  case None
  then show ?thesis
    unfolding TradeRemoveItem_def Let_def
    apply (intro returns_intro returns_reads)
    using framed_length [OF assms, of 14] by auto
next
  case (Some q)
  obtain p c d where q: "tradePair s g = Some (p, c, d)" using Some by (cases q) auto
  show ?thesis
    unfolding TradeRemoveItem_def Let_def q option.case prod.case go_index_def
    apply (intro returns_intro returns_reads)
    using framed_length [OF assms, of 14]
    by (auto intro: offer_follows [OF q] dest: tradeOfferIndex_less)
qed

text \<open>The exchange ends in a reset of both sides, on every path.\<close>

lemma trades_upd_char:
  assumes "\<And>c. cChar (f c) = None \<longleftrightarrow> cChar c = None" "\<And>c. Trade (f c) = h (Trade c)"
  shows "trades_of (upd i f g) = (trades_of g)(i := map_option h (trades_of g i))"
  using assms by (auto simp: trades_of_def fun_eq_iff Parse_upd option.map_comp comp_def)

lemma trades_settle [simp]:
  "trades_of (settle i j d res g) = (trades_of g)(i := map_option (\<lambda>_. zero_TradeState) (trades_of g i),
     j := map_option (\<lambda>_. zero_TradeState) (trades_of g j))"
  by (auto simp: settle_def Let_def trades_upd_char [where h = "\<lambda>_. zero_TradeState"] option.map_comp comp_def)

lemma completeTrade_result:
  assumes s: "Parse s g = Some c" and p: "Parse p g = Some d" "p \<noteq> s"
  shows "returns (\<lambda>g'. trades_of g' = trades_of g \<or>
    trades_of g' = (trades_of g)(s \<mapsto> zero_TradeState, p \<mapsto> zero_TradeState)) (completeTrade s p g)"
    (is "returns ?P _")
proof -
  obtain x y where x: "cChar c = Some x" "Option.bind (users g s) id = Some c"
    and y: "cChar d = Some y" "Option.bind (users g p) id = Some d"
    using Parse_users [OF s] Parse_users [OF p(1)] by blast
  note T = trades_Parse [OF s] trades_Parse [OF p(1)]
  have deal: "returns (\<lambda>q. True) (read_deal c d)"
    by (simp add: read_deal_def returns_def Let_def x y)
  have ab: "returns ?P (abortCompletedTrade s p b (g\<lparr>remote := m\<rparr>))" for b m
    using p(2) p(2) [symmetric] by (simp add: abortCompletedTrade_def returns_def Let_def x y T)
  show ?thesis
    unfolding completeTrade_def Let_def x y bind.bind_lunit
    apply (intro returns_intro)
    apply (rule returns_mono [OF deal])
    apply (intro returns_intro)
    using p(2) p(2) [symmetric] by (auto simp: T intro: ab)
qed

lemma returns_map: "returns (\<lambda>x. P (f x)) m \<Longrightarrow> returns P (map_option f m)"
  by (auto simp: returns_def)

lemma read_slots_returns:
  "rindex r + 2 * n \<le> length (rbuffer r) \<Longrightarrow> returns (\<lambda>q. True) (read_slots n seen r)"
proof (induction n arbitrary: seen r)
  case (Suc n)
  show ?case
    unfolding read_slots.simps
    apply (intro returns_intro returns_reads)
    using Suc by (auto intro!: returns_map)
qed (simp add: returns_def)

lemma TradeRequestList_follows:
  assumes "framed r"
  shows "follows s g (TradeRequestList s r g)"
proof -
  have r: "returns (\<lambda>q. True) (read_slots (unat b) {} (r\<lparr>rindex := 11\<rparr>))"
    if "unat (rSize r) = 11 + unat b * 2" for b :: byte
    using that assms by (intro read_slots_returns) (simp add: framed_def)
  show ?thesis
  proof (cases "tradePair s g")
    case None
    then show ?thesis
      unfolding TradeRequestList_def Let_def
      apply (intro returns_intro returns_reads)
      using framed_length [OF assms, of 11]
      by (auto intro!: returns_intro returns_mono [OF r])
  next
    case (Some q)
    obtain p c d where q: "tradePair s g = Some (p, c, d)" using Some by (cases q) auto
    obtain x y where xy: "cChar c = Some x" "cChar d = Some y" using tradePair_chars [OF q] by blast
    note T = tradePair_trades [OF q]
    let ?g = "\<lambda>slots. upd s (Trade_update (TDestinationSlots_update (\<lambda>_. slots))) g"
    have P: "Parse s g = Some c" "Parse p g = Some d" using q unfolding tradePair_Some by blast+
    have move: "trade_step s (trades_of g) (trades_of (?g slots))"
      if "\<not> (TStatus (Trade c) \<noteq> TradeStateOpen \<or> \<not> TSubmitted (Trade c) \<or> TStatus (Trade d) \<noteq> TradeStateOpen \<or>
        \<not> TSubmitted (Trade d) \<or> length slots \<noteq> length (TItems (Trade d)))" for slots
      using that window_moves(4) [OF q] by (simp add: T)
    have result: "returns (\<lambda>g'. trades_of g' = trades_of (?g slots) \<or>
        trades_of g' = (trades_of (?g slots))(s \<mapsto> zero_TradeState, p \<mapsto> zero_TradeState)) (completeTrade s p (?g slots))" for slots
      by (rule completeTrade_result [where c = "Trade_update (TDestinationSlots_update (\<lambda>_. slots)) c" and d = d])
        (use T(3) T(3) [symmetric] in \<open>simp_all add: Parse_upd P\<close>)
    have same: "(trades_of (?g slots))(s \<mapsto> zero_TradeState, p \<mapsto> zero_TradeState) =
        (trades_of g)(s \<mapsto> zero_TradeState, p \<mapsto> zero_TradeState)" for slots
      by simp
    have complete: "follows s g (completeTrade s p (?g slots))"
      if st: "\<not> (TStatus (Trade c) \<noteq> TradeStateOpen \<or> \<not> TSubmitted (Trade c) \<or> TStatus (Trade d) \<noteq> TradeStateOpen \<or>
        \<not> TSubmitted (Trade d) \<or> length slots \<noteq> length (TItems (Trade d)))" for slots
    proof (rule returns_mono [OF result [of slots]], unfold same)
      fix g'
      assume "trades_of g' = trades_of (?g slots) \<or> trades_of g' = (trades_of g)(s \<mapsto> zero_TradeState, p \<mapsto> zero_TradeState)"
      moreover have "trade_step s (trades_of g) ((trades_of g)(s \<mapsto> zero_TradeState, p \<mapsto> zero_TradeState))"
        using st by (intro window_moves(2) [OF q]) simp
      ultimately show "trade_step s (trades_of g) (trades_of g')" using move [OF st] by (elim disjE) simp_all
    qed
    show ?thesis
      unfolding TradeRequestList_def Let_def q option.case prod.case xy bind.bind_lunit
      apply (intro returns_intro returns_reads)
      using framed_length [OF assms, of 11]
      by (auto intro!: returns_intro returns_mono [OF r] intro: complete move)
  qed
qed

lemma CancelTrade_moves: "trade_step s (trades_of g) (trades_of (CancelTrade s g))"
proof (cases "Parse s g")
  case (Some c)
  let ?p = "TOpponentUserIdx (Trade c)"
  note T = trades_Parse [OF Some]
  show ?thesis
  proof (cases "TStatus (Trade c) = TradeStateNone")
    case active: False
    show ?thesis
    proof (cases "?p = s \<or> Parse ?p g = None \<or> TOpponentUserIdx (Trade (the (Parse ?p g))) \<noteq> s")
      case True
      then have "trades_of (CancelTrade s g) = (trades_of g)(s \<mapsto> zero_TradeState)"
        using active Some T by (auto simp: CancelTrade_def Let_def split: option.splits)
      moreover have "trade_move s (trades_of g) ((trades_of g)(s \<mapsto> zero_TradeState))"
        using True T by (intro trade_move.abandon [where t = "Trade c"]) (auto simp: trades_of_def)
      ultimately show ?thesis by (simp add: one_move)
    next
      case False
      then obtain d where d: "Parse ?p g = Some d" "TOpponentUserIdx (Trade d) = s" by auto
      have "trades_of (CancelTrade s g) = (trades_of g)(s \<mapsto> zero_TradeState, ?p \<mapsto> zero_TradeState)"
        using active Some False d T trades_Parse [OF d(1)]
        by (simp add: CancelTrade_def Let_def)
      moreover have "trade_move s (trades_of g) ((trades_of g)(s \<mapsto> zero_TradeState, ?p \<mapsto> zero_TradeState))"
        using False active d by (intro trade_move.reset [OF T trades_Parse [OF d(1)]]) auto
      ultimately show ?thesis by (simp add: one_move)
    qed
  qed (simp add: CancelTrade_def Some)
qed (simp add: CancelTrade_def)

section \<open>Players in the lobby\<close>

text \<open>The handlers write only to contexts that have a character, and leave the character there.\<close>

lemma lobby_send_trade [simp]:
  "same_lobby g (sendTradePacketResult s c b h) = same_lobby g h" "same_lobby g (sendTradeItem s it sl h) = same_lobby g h"
  "same_lobby g (sendTradeAlz s a h) = same_lobby g h" "same_lobby g (sendTradeRemovedItem s it sl h) = same_lobby g h"
  "same_lobby g (sendTradeEvent s ch b h) = same_lobby g h" "same_lobby g (sendTradeOpenResult s b h) = same_lobby g h"
  by (simp_all add: send_trade_defs)

lemma lobby_Trade: "same_lobby g h \<Longrightarrow> Parse i g \<noteq> None \<Longrightarrow> same_lobby g (upd i (Trade_update f) h)"
  by (rule lobby_upd) simp_all

lemma lobby_offer_changed:
  "same_lobby g h \<Longrightarrow> Parse p g \<noteq> None \<Longrightarrow> (\<And>x. same_lobby g (answer x) = same_lobby g x) \<Longrightarrow>
   (\<And>x. same_lobby g (notify x) = same_lobby g x) \<Longrightarrow> same_lobby g (offer_changed s p b answer notify h)"
  by (simp add: offer_changed_def Let_def lobby_Trade)

abbreviation stays :: "'m Game \<Rightarrow> 'm Game option \<Rightarrow> bool" where
  "stays g \<equiv> ensures (same_lobby g)"

lemma reserve_stays: "reserveTradeRequest s t a b g = (ok, h) \<Longrightarrow> same_lobby g h"
  by (auto simp: reserveTradeRequest_def intro!: lobby_Trade split: option.splits if_splits)

lemma handlers_stay:
  "stays g (TradeRequest_handler s r g)" "stays g (TradeCloseEvent s r g)"
  "stays g (TradeAddItem s r g)" "stays g (TradeAddAlz s r g)" "stays g (TradeRemoveItem s r g)"
proof -
  show "stays g (TradeRequest_handler s r g)"
    unfolding TradeRequest_handler_def Let_def
    by (intro ensures_intro) (simp_all add: reserve_stays)
  show "stays g (TradeCloseEvent s r g)"
    unfolding TradeCloseEvent_def Let_def
    by (intro ensures_intro) (auto simp: tradePair_Some intro!: lobby_Trade)
  show "stays g (TradeAddItem s r g)"
    unfolding TradeAddItem_def Let_def
    by (intro ensures_intro) (auto simp: tradePair_Some intro!: lobby_Trade lobby_offer_changed)
  show "stays g (TradeAddAlz s r g)"
    unfolding TradeAddAlz_def Let_def
    by (intro ensures_intro) (auto simp: tradePair_Some intro!: lobby_Trade lobby_offer_changed)
  show "stays g (TradeRemoveItem s r g)"
    unfolding TradeRemoveItem_def Let_def
    by (intro ensures_intro) (auto simp: tradePair_Some intro!: lobby_Trade lobby_offer_changed)
qed

lemma open_stays: "Parse s g = Some c \<Longrightarrow> Parse t g = Some d \<Longrightarrow> stays g (open_event s t event ts g)"
  unfolding open_event_def Let_def by (intro ensures_intro) (auto intro!: lobby_Trade)

lemma TradeOpenEvent_stays: "stays g (TradeOpenEvent s r g)"
  unfolding TradeOpenEvent_def Let_def by (intro ensures_intro) (auto intro: open_stays)

lemma completeTrade_stays:
  assumes "Parse s h = Some c" "Parse p h = Some d" "same_lobby g h" "Parse s g \<noteq> None" "Parse p g \<noteq> None"
  shows "stays g (completeTrade s p h)"
proof -
  have "same_lobby g (settle s p dl res (h\<lparr>remote := m\<rparr>))" for dl res m
    unfolding settle_def Let_def lobby_send_trade
    by (intro lobby_upd assms(4,5)) (simp_all add: assms(3))
  moreover have "stays g (abortCompletedTrade s p b (h\<lparr>remote := m\<rparr>))" for b m
    unfolding abortCompletedTrade_def Let_def
    by (intro ensures_intro) (use assms in \<open>auto intro!: lobby_Trade\<close>)
  ultimately show ?thesis
    unfolding completeTrade_def Let_def by (intro ensures_intro) (simp_all add: assms(3))
qed

lemma TradeRequestList_stays: "stays g (TradeRequestList s r g)"
proof -
  have "stays g (completeTrade s p (upd s (Trade_update f) g))" if "tradePair s g = Some (p, c, d)" for p c d f
    using that unfolding tradePair_Some
    by (intro completeTrade_stays [where c = "Trade_update f c" and d = d] lobby_Trade)
      (auto simp: Parse_upd)
  then show ?thesis
    unfolding TradeRequestList_def Let_def
    by (intro ensures_intro) (auto simp: tradePair_Some intro!: lobby_Trade)
qed

lemma CancelTrade_stays: "same_lobby g (CancelTrade s g)"
  by (auto simp: CancelTrade_def Let_def intro!: lobby_Trade split: option.split)

section \<open>Linked states\<close>

text \<open>
  Two players in a trade point at each other, are equally far in it and have complementary roles; while
  the request is pending, nothing has been offered.
\<close>

definition mates :: "uint16 \<Rightarrow> TradeState \<Rightarrow> uint16 \<Rightarrow> TradeState \<Rightarrow> bool" where
  "mates i t j u \<longleftrightarrow> i \<noteq> j \<and> TOpponentUserIdx t = j \<and> TOpponentUserIdx u = i \<and> TStatus t = TStatus u \<and>
     (TStatus t = TradeStatePending \<or> TStatus t = TradeStateOpen) \<and>
     (TRole t = TradeRoleRequester \<and> TRole u = TradeRoleTarget \<or> TRole t = TradeRoleTarget \<and> TRole u = TradeRoleRequester) \<and>
     (TStatus t = TradeStatePending \<longrightarrow> TItems t = [] \<and> TItems u = [] \<and> TAlz t = 0 \<and> TAlz u = 0 \<and>
        \<not> TSubmitted t \<and> \<not> TSubmitted u)"

definition linked :: "trades \<Rightarrow> bool" where
  "linked T \<longleftrightarrow> (\<forall>i t. T i = Some t \<longrightarrow>
     t = zero_TradeState \<or> (\<exists>u. T (TOpponentUserIdx t) = Some u \<and> mates i t (TOpponentUserIdx t) u))"

lemma zero_idle [simp]: "TStatus zero_TradeState = TradeStateNone"
  by (simp add: zero_TradeState_def)

lemma mates_sym:
  assumes "mates i t j u"
  shows "mates j u i t"
  using assms unfolding mates_def by (elim conjE, intro conjI) (simp_all, blast+)

lemma matesD:
  assumes "mates i t j u"
  shows "i \<noteq> j" "TOpponentUserIdx t = j" "TOpponentUserIdx u = i" "TStatus t = TStatus u" "TStatus t \<noteq> TradeStateNone"
    "t \<noteq> zero_TradeState" "u \<noteq> zero_TradeState"
  using assms by (auto simp: mates_def zero_TradeState_def)

lemma linkedD:
  "linked T \<Longrightarrow> T i = Some t \<Longrightarrow> t \<noteq> zero_TradeState \<Longrightarrow>
   \<exists>u. T (TOpponentUserIdx t) = Some u \<and> mates i t (TOpponentUserIdx t) u"
  unfolding linked_def by blast

lemma linked_idle: "linked T \<Longrightarrow> T i = Some t \<Longrightarrow> TStatus t = TradeStateNone \<Longrightarrow> t = zero_TradeState"
  by (rule ccontr) (blast dest: linkedD matesD)

lemma linked_mates:
  assumes "linked T" "T i = Some t" "T (TOpponentUserIdx t) = Some u" "TStatus t \<noteq> TradeStateNone"
  shows "mates i t (TOpponentUserIdx t) u"
  using linkedD [OF assms(1,2)] assms(3,4) by fastforce

text \<open>A pair that belongs together is replaced by another such pair, or both become idle.\<close>

lemma linked_pair:
  assumes T: "linked T" "T i = Some t" "T j = Some u" "i \<noteq> j"
    and old: "(t = zero_TradeState \<and> u = zero_TradeState) \<or> mates i t j u"
    and new: "(t' = zero_TradeState \<and> u' = zero_TradeState) \<or> mates i t' j u'"
  shows "linked (T(i \<mapsto> t', j \<mapsto> u'))"
  unfolding linked_def
proof (intro allI impI)
  fix k v
  assume k: "(T(i \<mapsto> t', j \<mapsto> u')) k = Some v"
  show "v = zero_TradeState \<or> (\<exists>w. (T(i \<mapsto> t', j \<mapsto> u')) (TOpponentUserIdx v) = Some w \<and> mates k v (TOpponentUserIdx v) w)"
  proof (cases "v = zero_TradeState")
    case nz: False
    have "k = i \<and> v = t' \<or> k = j \<and> v = u' \<or> T k = Some v \<and> k \<noteq> i \<and> k \<noteq> j"
      using k T(4) by (simp split: if_split_asm)
    then consider "k = i" "v = t'" | "k = j" "v = u'" | "T k = Some v" "k \<noteq> i" "k \<noteq> j" by blast
    then show ?thesis
    proof cases
      case 1
      with new nz have m: "mates i v j u'" by blast
      from matesD(1,2) [OF m] 1 m show ?thesis by (intro disjI2 exI [of _ u']) simp
    next
      case 2
      with new nz have m: "mates i t' j v" by blast
      from matesD(1,3) [OF m] 2 mates_sym [OF m] show ?thesis by (intro disjI2 exI [of _ t']) simp
    next
      case 3
      from linkedD [OF T(1) 3(1) nz] obtain w where w: "T (TOpponentUserIdx v) = Some w" "mates k v (TOpponentUserIdx v) w" by blast
      have "TOpponentUserIdx v \<noteq> i"
      proof
        assume "TOpponentUserIdx v = i"
        with w T(2) have "mates k v i t" by simp
        note m = matesD(3,7) [OF this]
        with old have "mates i t j u" by blast
        from matesD(2) [OF this] m(1) 3(3) show False by blast
      qed
      moreover have "TOpponentUserIdx v \<noteq> j"
      proof
        assume "TOpponentUserIdx v = j"
        with w T(3) have "mates k v j u" by simp
        note m = matesD(3,7) [OF this]
        with old have "mates i t j u" by blast
        from matesD(3) [OF this] m(1) 3(2) show False by blast
      qed
      ultimately show ?thesis using w by (intro disjI2 exI [of _ w]) simp
    qed
  qed simp
qed

text \<open>Only one side changes, and the pair still belongs together.\<close>

lemma linked_one:
  assumes "linked T" "T i = Some t" "T j = Some u" "mates i t j u" "mates i t' j u"
  shows "linked (T(i \<mapsto> t'))"
proof -
  have "T(i \<mapsto> t', j \<mapsto> u) = T(i \<mapsto> t')" using assms(3) matesD(1) [OF assms(4)] by (auto simp: fun_eq_iff)
  with linked_pair [OF assms(1-3) matesD(1) [OF assms(4)], of t' u] assms(4,5) show ?thesis by simp
qed

lemma linked_move:
  assumes "trade_move k T T'" "linked T"
  shows "linked T'"
  using assms
proof (induction rule: trade_move.induct)
  case (request T i t j u a b)
  let ?t = "zero_TradeState\<lparr>TStatus := TradeStatePending, TRole := TradeRoleRequester, TOpponentUserIdx := j, TOpponentCharacterID := a\<rparr>"
  let ?u = "zero_TradeState\<lparr>TStatus := TradeStatePending, TRole := TradeRoleTarget, TOpponentUserIdx := i, TOpponentCharacterID := b\<rparr>"
  have "mates i ?t j ?u" using request.hyps(3) by (simp add: mates_def zero_TradeState_def)
  moreover have "t = zero_TradeState" "u = zero_TradeState" using request linked_idle by blast+
  ultimately show ?case using request by (intro linked_pair [of T i t j u]) simp_all
next
  case (accept T i t j u)
  then have m: "mates i t j u" using linked_mates [of T i t u] by simp
  then have "mates i (t\<lparr>TStatus := TradeStateOpen\<rparr>) j (u\<lparr>TStatus := TradeStateOpen\<rparr>)" by (simp add: mates_def)
  with accept m show ?case by (intro linked_pair [of T i t j u]) simp_all
next
  case (offer T i t j u a x)
  then have m: "mates i t j u" using linked_mates [of T i t u] by simp
  then have "mates i (t\<lparr>TItems := x, TAlz := a\<rparr>) j (u\<lparr>TSubmitted := False\<rparr>)" using offer(5,6) by (simp add: mates_def)
  with offer m show ?case by (intro linked_pair [of T i t j u]) simp_all
next
  case (submit T i t j u b)
  then have m: "mates i t j u" using linked_mates [of T i t u] by simp
  then have "mates i (t\<lparr>TSubmitted := b\<rparr>) j u" using submit(5,6) by (simp add: mates_def)
  with submit m show ?case by (intro linked_one [of T i t j u])
next
  case (choose T i t j u slots)
  then have m: "mates i t j u" using linked_mates [of T i t u] by simp
  then have "mates i (t\<lparr>TDestinationSlots := slots\<rparr>) j u" using choose(5,6) by (simp add: mates_def)
  with choose m show ?case by (intro linked_one [of T i t j u])
next
  case (reset T i t j u)
  then have "mates i t j u" using linked_mates [of T i t u] by simp
  with reset show ?case by (intro linked_pair [of T i t j u]) simp_all
next
  case (abandon T i t)
  have "t = zero_TradeState"
  proof (rule ccontr)
    assume "t \<noteq> zero_TradeState"
    from linkedD [OF abandon.prems abandon.hyps(1) this]
    obtain u where "T (TOpponentUserIdx t) = Some u" "mates i t (TOpponentUserIdx t) u" by blast
    with abandon.hyps(2) matesD [OF this(2)] show False by simp
  qed
  with abandon.hyps(1) have "T(i \<mapsto> zero_TradeState) = T" by (auto simp: fun_eq_iff)
  with abandon.prems show ?case by simp
next
  case (enter T i)
  show ?case
    unfolding linked_def
  proof (intro allI impI)
    fix k v
    assume "(T(i \<mapsto> zero_TradeState)) k = Some v"
    then have k: "v = zero_TradeState \<or> T k = Some v" by (auto split: if_splits)
    show "v = zero_TradeState \<or> (\<exists>u. (T(i \<mapsto> zero_TradeState)) (TOpponentUserIdx v) = Some u \<and> mates k v (TOpponentUserIdx v) u)"
    proof (cases "v = zero_TradeState")
      case False
      with k have "T k = Some v" by simp
      from linkedD [OF enter.prems this False] obtain w
        where "T (TOpponentUserIdx v) = Some w" "mates k v (TOpponentUserIdx v) w" by blast
      with enter.hyps show ?thesis by (intro disjI2 exI [of _ w]) auto
    qed simp
  qed
next
  case (leave T i)
  show ?case
    unfolding linked_def
  proof (intro allI impI)
    fix k v
    assume "(T(i := None)) k = Some v"
    then have k: "T k = Some v" "k \<noteq> i" by (auto split: if_splits)
    show "v = zero_TradeState \<or> (\<exists>u. (T(i := None)) (TOpponentUserIdx v) = Some u \<and> mates k v (TOpponentUserIdx v) u)"
    proof (cases "v = zero_TradeState")
      case False
      from linkedD [OF leave.prems k(1) False]
      obtain w where w: "T (TOpponentUserIdx v) = Some w" "mates k v (TOpponentUserIdx v) w" by blast
      have "TOpponentUserIdx v \<noteq> i" using leave.hyps w(1) matesD(4,5) [OF w(2)] by auto
      with w show ?thesis by auto
    qed simp
  qed
qed

lemma linked_step: "trade_step i T T' \<Longrightarrow> linked T \<Longrightarrow> linked T'"
  by (auto simp: trade_step_def dest: linked_move)

section \<open>Any number of players, any packets\<close>

definition trade_handlers :: "(uint16 \<times> 'm handler) list" where
  "trade_handlers = [(260, TradeRequest_handler), (261, TradeOpenEvent), (262, TradeCloseEvent),
     (264, TradeAddItem), (265, TradeAddAlz), (266, TradeRemoveItem), (269, TradeRequestList)]"

lemma trade_handler_cases:
  assumes "map_of trade_handlers code = Some h"
  shows "h \<in> {TradeRequest_handler, TradeOpenEvent, TradeCloseEvent, TradeAddItem, TradeAddAlz, TradeRemoveItem, TradeRequestList}"
  using assms by (simp add: trade_handlers_def split: if_split_asm)

lemma trade_handlers_follow:
  assumes "map_of trade_handlers code = Some h" "framed r"
  shows "follows s g (h s r g)" "stays g (h s r g)"
proof -
  note all = TradeRequest_follows TradeOpenEvent_follows TradeCloseEvent_follows TradeAddItem_follows
    TradeAddAlz_follows TradeRemoveItem_follows TradeRequestList_follows
  show "follows s g (h s r g)"
    using trade_handler_cases [OF assms(1)] all [OF assms(2), of s g] by (elim insertE) simp_all
  show "stays g (h s r g)"
    using trade_handler_cases [OF assms(1)] handlers_stay TradeOpenEvent_stays TradeRequestList_stays
    by (elim insertE) simp_all
qed

text \<open>
  A context without a character has no trade: the handlers never write to one, and a character that is
  there stays.
\<close>

definition trade_inv :: "'m Game \<Rightarrow> bool" where
  "trade_inv g \<longleftrightarrow> linked (trades_of g) \<and>
     (\<forall>i c. users g i = Some (Some c) \<longrightarrow> cChar c = None \<longrightarrow> Trade c = zero_TradeState)"

lemma trade_inv_step:
  assumes "trade_inv g" "trade_step s (trades_of g) (trades_of g')" "same_lobby g g'"
  shows "trade_inv g'"
  unfolding trade_inv_def
proof (intro conjI allI impI)
  show "linked (trades_of g')" using assms(1,2) linked_step by (auto simp: trade_inv_def)
  fix i c
  assume c: "users g' i = Some (Some c)" "cChar c = None"
  then have "Parse i g' = None" by (simp add: Parse_def)
  from lobby_D [OF assms(3) this] c assms(1) show "Trade c = zero_TradeState" by (auto simp: trade_inv_def)
qed

lemma CancelTrade_idle: "trades_of (CancelTrade s g) s = None \<or> TStatus (the (trades_of (CancelTrade s g) s)) = TradeStateNone"
proof (cases "Parse s g")
  case (Some c)
  then show ?thesis by (auto simp: CancelTrade_def Let_def trades_Parse split: option.split)
qed (simp add: CancelTrade_def trades_of_def)

lemma trade_inv_enter:
  assumes "trade_inv g"
  shows "trade_inv (upd i (cChar_update (\<lambda>_. Some c)) g)"
  unfolding trade_inv_def
proof (intro conjI allI impI)
  let ?g = "upd i (cChar_update (\<lambda>_. Some c)) g"
  show "linked (trades_of ?g)"
  proof (cases "\<exists>d. users g i = Some (Some d) \<and> cChar d = None")
    case True
    then obtain d where d: "users g i = Some (Some d)" "cChar d = None" by blast
    with assms have z: "Trade d = zero_TradeState" by (auto simp: trade_inv_def)
    have "trades_of ?g = (trades_of g)(i \<mapsto> zero_TradeState)"
      using d z by (auto simp: trades_of_def Parse_def upd_def fun_eq_iff)
    moreover have "trades_of g i = None" using d by (simp add: trades_of_def Parse_def)
    ultimately show ?thesis using assms linked_move [OF trade_move.enter] by (simp add: trade_inv_def)
  next
    case False
    have "trades_of ?g j = trades_of g j" for j
      using False by (cases "users g i") (auto simp: trades_of_def Parse_def upd_def split: option.splits)
    then have "trades_of ?g = trades_of g" by (rule ext)
    with assms show ?thesis by (simp add: trade_inv_def)
  qed
  fix j d
  assume "users ?g j = Some (Some d)" "cChar d = None"
  then show "Trade d = zero_TradeState" using assms by (auto simp: users_upd trade_inv_def split: if_splits)
qed

lemma trade_inv_happen:
  assumes "framed_packet e" "trade_inv g"
  shows "returns trade_inv (happen trade_handlers CancelTrade e g)"
proof (cases e)
  case (Connect i)
  have "trades_of (g\<lparr>users := (users g)(i \<mapsto> Some zero_Context)\<rparr>) j = trades_of g j" if "users g i = None" for j
    using that by (simp add: trades_of_def Parse_def zero_Context_def)
  then have "trades_of (g\<lparr>users := (users g)(i \<mapsto> Some zero_Context)\<rparr>) = trades_of g" if "users g i = None"
    using that by (intro ext)
  with Connect assms(2) show ?thesis
    by (auto simp: returns_def trade_inv_def zero_Context_def)
next
  case (Initialise i c)
  with assms(2) show ?thesis by (simp add: returns_def trade_inv_enter)
next
  case (Packet i code r)
  have "returns trade_inv (h i r g)" if "map_of trade_handlers code = Some h" for h
  proof -
    have r: "framed r" using Packet assms(1) by simp
    from trade_handlers_follow(1) [OF that r, of i g] obtain g' where
      g': "h i r g = Some g'" "trade_step i (trades_of g) (trades_of g')" by (auto simp: returns_def)
    with trade_handlers_follow(2) [OF that r, of g i] have "same_lobby g g'" by (simp add: ensures_def)
    with g' assms(2) show ?thesis using trade_inv_step by (auto simp: returns_def)
  qed
  with Packet assms(2) show ?thesis by (auto intro: returns_intro)
next
  case (Uninitialise i)
  with assms show ?thesis
    using trade_inv_step [OF _ CancelTrade_moves CancelTrade_stays] by (auto simp: returns_def)
next
  case (Disconnect i)
  let ?g = "CancelTrade i g"
  have inv: "trade_inv ?g" using assms(2) by (rule trade_inv_step) (rule CancelTrade_moves, rule CancelTrade_stays)
  have "trades_of (?g\<lparr>users := (users ?g)(i := None)\<rparr>) = (trades_of ?g)(i := None)"
    by (auto simp: trades_of_def Parse_def fun_eq_iff)
  moreover have "trade_move i (trades_of ?g) ((trades_of ?g)(i := None))"
    by (rule trade_move.leave) (rule CancelTrade_idle)
  then have "linked ((trades_of ?g)(i := None))" using inv unfolding trade_inv_def by (blast intro: linked_move)
  ultimately have "trade_inv (?g\<lparr>users := (users ?g)(i := None)\<rparr>)"
    using inv by (simp add: trade_inv_def)
  with Disconnect show ?thesis by (simp add: returns_def Let_def)
qed

section \<open>Sample players\<close>

text \<open>Packets and players for the witnesses: a framed packet with a given body, a trader, a market.\<close>

definition packet_reader :: "byte list \<Rightarrow> Reader" where
  "packet_reader body = \<lparr>rbuffer = replicate 10 0 @ body, rindex = 10, rMagicKey = MagicKey,
     rSize = word_of_nat (10 + length body), rCheckSum = 0, rType = 0\<rparr>"

lemma framed_packet_reader [simp]: "framed (packet_reader body)"
  by (simp add: packet_reader_def framed_def unat_of_nat del: of_nat_add)

definition trader :: "int32 \<Rightarrow> uint64 \<Rightarrow> Item list \<Rightarrow> TradeState \<Rightarrow> world Context" where
  "trader i alz its t = \<lparr>cChar = Some \<lparr>CharId = i, Name = [], cLevel = 1, World = 1, X = 0, Y = 0, CharStyle = sample_style,
     LiveStyle = 0, Alz = alz, Nation = 0, GuildNo = 0, SwordRank = 1, MagicRank = 1, SwordExp = 0, MagicExp = 0,
     SwordPoint = 0, MagicPoint = 0, SwordRankExp = 0, MagicRankExp = 0, CurrentHP = 1, MaxHP = 1, CurrentMP = 1, MaxMP = 1, CurrentSP = 0, MaxSP = 0,
     CharSTR = 0, CharINT = 0, CharDEX = 0, CharPNT = 0, CharExp = 0, PremiumService = 0, PremiumExpire = 0,
     CharEquipment = \<lparr>Equip = Map.empty, eq_rpcHandler = Some master, eq_character = i, eq_serverId = 1\<rparr>,
     CharInventory = (sample_inv its)\<lparr>character := i\<rparr>, CharSkills = Map.empty,
     BeginX = 0, BeginY = 0, EndX = 0, EndY = 0\<rparr>,
     Trade = t, Party = zero_PartyState, PartyInvite = zero_PartyInviteState,
     PartySearch = \<lparr>Registered = False, MaxMemberCount = 0, Title = []\<rparr>, ctxCell = None, ctxWorld = None, Combat = zero_CombatState,
     Warehouse = \<lparr>Inv = Map.empty, rpcHandler = None, character = 0, serverId = 0\<rparr>, MPPotionCooldownUntil = 0\<rparr>"

definition market :: "(uint16 \<times> world Context) list \<Rightarrow> Item list \<Rightarrow> (bool \<times> bool list) list \<Rightarrow> world Game" where
  "market ps its cs = \<lparr>users = (\<lambda>i. map_option Some (map_of ps i)), sent = [], g_RPCHandler = master, ServerId = 1,
     ChannelId = 1, partySequence = 1000, Worlds = [], clock = 0, rnd = (\<lambda>_. 0), drawn = 0, remote = sample_world its cs\<rparr>"

lemma trader_simps [simp]:
  "Trade (trader i alz its t) = t" "\<exists>y. cChar (trader i alz its t) = Some y"
  by (simp_all add: trader_def)

lemma Parse_market:
  "\<forall>c \<in> snd ` set ps. \<exists>y. cChar c = Some y \<Longrightarrow> Parse i (market ps its cs) = map_of ps i"
  by (force simp: Parse_def market_def dest: map_of_SomeD split: option.split)

text \<open>Two players in an open trade.\<close>

definition open_trade :: "byte \<Rightarrow> uint16 \<Rightarrow> bool \<Rightarrow> TradeState" where
  "open_trade role j submitted = zero_TradeState\<lparr>TStatus := TradeStateOpen, TRole := role, TOpponentUserIdx := j,
     TSubmitted := submitted\<rparr>"

lemma open_trade_simps [simp]:
  "TStatus (open_trade r j b) = TradeStateOpen" "TRole (open_trade r j b) = r" "TOpponentUserIdx (open_trade r j b) = j"
  "TItems (open_trade r j b) = []" "TAlz (open_trade r j b) = 0" "TSubmitted (open_trade r j b) = b"
  by (simp_all add: open_trade_def zero_TradeState_def)

lemma open_trade_mates: "i \<noteq> j \<Longrightarrow> mates i (open_trade 1 j a) j (open_trade 2 i b)"
  by (simp add: mates_def)

section \<open>Properties\<close>

text \<open>
  C12: Every trade handler that gets a packet whose frame has the announced length returns, and what it
  does to the trade states is one move of the protocol made by the sender of the packet, or nothing.
\<close>

theorem trade_handlers_refine:
  assumes "map_of trade_handlers code = Some h" and "framed r"
  shows "\<exists>g'. h s r g = Some g' \<and> trade_step s (trades_of g) (trades_of g')"
  using trade_handlers_follow(1) [OF assms, of s g] by (auto simp: returns_def)

theorem trade_handlers_refine_witness:
  "\<exists>g'. TradeOpenEvent 1 (packet_reader [tradeResultAccept]) (market [(1, trader 1 1000 [] (open_trade 1 2 False))] [] []) = Some g'"
  using trade_handlers_refine [of 261 TradeOpenEvent "packet_reader [tradeResultAccept]" 1
      "market [(1, trader 1 1000 [] (open_trade 1 2 False))] [] []"]
  by (auto simp: trade_handlers_def)

text \<open>
  C7: Whatever players do, in whatever order they connect, send packets, leave and disconnect, the
  server does not panic, and everyone who is in a trade is in it with a player who is connected, in the
  world, in the same stage of the same trade with the other role, and points back.
\<close>

theorem trades_stay_linked:
  assumes "users g = Map.empty" and "list_all framed_packet es"
  shows "\<exists>g'. happens trade_handlers CancelTrade es g = Some g' \<and>
     (\<forall>i c. Parse i g' = Some c \<and> TStatus (Trade c) \<noteq> TradeStateNone \<longrightarrow>
        (\<exists>d. Parse (TOpponentUserIdx (Trade c)) g' = Some d \<and>
           mates i (Trade c) (TOpponentUserIdx (Trade c)) (Trade d)))"
proof -
  have "trade_inv g" using assms(1) by (simp add: trade_inv_def linked_def trades_of_def Parse_def)
  from happens_invariant [OF trade_inv_happen assms(2) this]
  obtain g' where g': "happens trade_handlers CancelTrade es g = Some g'" "linked (trades_of g')"
    by (auto simp: returns_def trade_inv_def)
  have "\<exists>d. Parse (TOpponentUserIdx (Trade c)) g' = Some d \<and> mates i (Trade c) (TOpponentUserIdx (Trade c)) (Trade d)"
    if "Parse i g' = Some c" "TStatus (Trade c) \<noteq> TradeStateNone" for i c
  proof -
    have "Trade c \<noteq> zero_TradeState" using that(2) by auto
    from linkedD [OF g'(2) trades_Parse [OF that(1)] this] show ?thesis by (auto simp: trades_of_def)
  qed
  with g'(1) show ?thesis by blast
qed

lemma offer_move:
  assumes "trade_move s T T'" "T i = Some t" "T' i = Some t'" "TStatus t' = TradeStateOpen"
    and "(TItems t', TAlz t') \<noteq> (TItems t, TAlz t)"
  shows "i = s \<and> \<not> TSubmitted t \<and> \<not> TSubmitted t' \<and> (\<exists>d. T' (TOpponentUserIdx t) = Some d \<and> \<not> TSubmitted d)"
  using assms by cases (auto split: if_split_asm)

theorem trades_stay_linked_witness:
  "\<exists>g'. happens trade_handlers CancelTrade
      [Connect 1, Connect 2, Initialise 1 (the (cChar (trader 8 1000 [] zero_TradeState))),
       Initialise 2 (the (cChar (trader 9 50 [] zero_TradeState))),
       Packet 1 260 (packet_reader [9, 0, 0, 0, 2, 0, 0, 1]), Packet 2 261 (packet_reader [tradeResultAccept]), Disconnect 2]
      (market [] [] []) = Some g' \<and>
     (\<forall>c. Parse 1 g' = Some c \<and> TStatus (Trade c) \<noteq> TradeStateNone \<longrightarrow>
        (\<exists>d. Parse (TOpponentUserIdx (Trade c)) g' = Some d))"
proof -
  have u: "users (market [] [] []) = Map.empty" by (simp add: market_def fun_eq_iff)
  have "list_all framed_packet [Connect 1, Connect 2, Initialise 1 (the (cChar (trader 8 1000 [] zero_TradeState))),
       Initialise 2 (the (cChar (trader 9 50 [] zero_TradeState))),
       Packet 1 260 (packet_reader [9, 0, 0, 0, 2, 0, 0, 1]), Packet 2 261 (packet_reader [tradeResultAccept]), Disconnect 2]"
    by simp
  from trades_stay_linked [OF u this] show ?thesis by blast
qed

text \<open>
  C13: An offer changes only through its owner and only while it is not submitted, and the partner's
  submission does not survive the change: nobody can be made to exchange for something else than was on
  display when they submitted.
\<close>

theorem offers_protected:
  assumes "map_of trade_handlers code = Some h" "framed r" "h s r g = Some g'"
    and c: "Parse i g = Some c" "Parse i g' = Some c'" "TStatus (Trade c') = TradeStateOpen"
    and ne: "(TItems (Trade c'), TAlz (Trade c')) \<noteq> (TItems (Trade c), TAlz (Trade c))"
  shows "i = s \<and> \<not> TSubmitted (Trade c) \<and> \<not> TSubmitted (Trade c') \<and>
     (\<exists>d. Parse (TOpponentUserIdx (Trade c)) g' = Some d \<and> \<not> TSubmitted (Trade d))"
proof -
  have "trade_step s (trades_of g) (trades_of g')"
    using trade_handlers_follow(1) [OF assms(1,2), of s g] assms(3) by (simp add: returns_def)
  then have "trade_move s (trades_of g) (trades_of g')"
    using ne trades_Parse [OF c(1)] trades_Parse [OF c(2)] by (auto simp: trade_step_def)
  from offer_move [OF this trades_Parse [OF c(1)] trades_Parse [OF c(2)] c(3) ne]
  show ?thesis by (auto simp: trades_of_def)
qed

theorem offers_protected_witness:
  "\<exists>g' c' d. TradeAddItem 1 (packet_reader [3, 0, 0, 0])
      (market [(1, trader 8 1000 [sample_item 9 0 3] (open_trade 1 2 False)), (2, trader 9 50 [] (open_trade 2 1 True))] [] []) = Some g' \<and>
     Parse 1 g' = Some c' \<and> length (TItems (Trade c')) = 1 \<and> Parse 2 g' = Some d \<and> \<not> TSubmitted (Trade d)"
proof -
  let ?ps = "[(1, trader 8 1000 [sample_item 9 0 3] (open_trade 1 2 False)), (2, trader 9 50 [] (open_trade 2 1 True))]"
  let ?g = "market ?ps [] []" and ?r = "packet_reader [3, 0, 0, 0]"
  let ?item = "sample_item 9 0 3"
  have P: "Parse i ?g = map_of ?ps i" for i by (rule Parse_market) simp
  have u: "users ?g i = map_option Some (map_of ?ps i)" for i by (simp add: market_def)
  obtain y where y: "cChar (trader 8 1000 [?item] (open_trade 1 2 False)) = Some y"
    "Inventory_Get 3 (CharInventory y) = ?item"
    by (auto simp: trader_def sample_inv_def SetLocal_def Inventory_Get_def)
  have pair: "tradePair 1 ?g = Some (2, trader 8 1000 [?item] (open_trade 1 2 False), trader 9 50 [] (open_trade 2 1 True))"
    by (simp add: tradePair_Some P)
  define g' where "g' = offer_changed 1 2 True (sendTradePacketResult 1 264 0x27) (sendTradeItem 2 ?item 0)
    (upd 1 (Trade_update (TItems_update (\<lambda>items. items @ [\<lparr>OfferItem = ?item, TradeSlot = 0\<rparr>]))) ?g)"
  have h: "TradeAddItem 1 ?r ?g = Some g'"
    by (simp add: TradeAddItem_def packet_reader_def ReadUint16_def Let_def pair y g'_def nth_append)
      (simp add: tradeOfferExists_def y)
  have "Parse 1 g' = Some (Trade_update (TItems_update (\<lambda>items. items @ [\<lparr>OfferItem = ?item, TradeSlot = 0\<rparr>]))
      (trader 8 1000 [?item] (open_trade 1 2 False)))"
    by (simp add: g'_def offer_changed_def Let_def send_trade_defs Parse_upd P)
  with offers_protected [of 264 TradeAddItem ?r 1 ?g g' 1 "trader 8 1000 [?item] (open_trade 1 2 False)"] h
  show ?thesis by (simp add: P trade_handlers_def)
qed

text \<open>
  C29: The exchange is settled without looking at the trade states again: when one of the two players
  has meanwhile left the trade and started another one, the settlement wipes the new trade on that
  player's side only, and the third player is left in a trade with someone who is not in it.
\<close>

theorem settle_race:
  assumes "linked (trades_of g)" "Parse i g = Some c" "TStatus (Trade c) \<noteq> TradeStateNone"
    and k: "TOpponentUserIdx (Trade c) = k" "k \<noteq> j" "i \<noteq> j"
  shows "\<not> linked (trades_of (settle i j d res g))"
proof
  assume l: "linked (trades_of (settle i j d res g))"
  have "Trade c \<noteq> zero_TradeState" using assms(3) by auto
  from linkedD [OF assms(1) trades_Parse [OF assms(2)] this] k(1)
  obtain u where u: "trades_of g k = Some u" "mates i (Trade c) k u" by auto
  note m = matesD [OF u(2)]
  have "trades_of (settle i j d res g) k = Some u" using u(1) m(1) k(2) by (simp add: trades_settle)
  from linkedD [OF l this m(7)] m(3) obtain v where v: "trades_of (settle i j d res g) i = Some v" "mates k u i v" by auto
  have "trades_of (settle i j d res g) i = Some zero_TradeState"
    using trades_Parse [OF assms(2)] k(3) by (simp add: trades_settle)
  with v matesD(7) [OF v(2)] show False by simp
qed

theorem settle_race_witness:
  "\<not> linked (trades_of (settle 1 2 \<lparr>firstItems = [], secondItems = [], firstDestinations = [], secondDestinations = [],
       firstCharacterID = 8, secondCharacterID = 9, firstAlz = 5, secondAlz = 0\<rparr> \<lparr>tResult = True, tFirstAlz = 995, tSecondAlz = 55\<rparr>
     (market [(1, trader 8 1000 [] (open_trade 1 3 False)), (2, trader 9 50 [] zero_TradeState),
       (3, trader 10 0 [] (open_trade 2 1 False))] [] [])))"
proof -
  let ?g = "market [(1, trader 8 1000 [] (open_trade 1 3 False)), (2, trader 9 50 [] zero_TradeState),
       (3, trader 10 0 [] (open_trade 2 1 False))] [] []"
  have P: "Parse i ?g = map_of [(1, trader 8 1000 [] (open_trade 1 3 False)), (2, trader 9 50 [] zero_TradeState),
       (3, trader 10 0 [] (open_trade 2 1 False))] i" for i
    by (rule Parse_market) simp
  have "mates 1 (open_trade 1 3 False) 3 (open_trade 2 1 False)" by (rule open_trade_mates) simp
  then have "linked (trades_of ?g)"
    unfolding linked_def trades_of_def P using mates_sym by (auto split: if_splits)
  then show ?thesis
    by (rule settle_race [where c = "trader 8 1000 [] (open_trade 1 3 False)" and k = 3]) (simp_all add: P)
qed

end
