(* ===== verification/Freya_Exchange.thy ===== *)
theory Freya_Exchange
  imports Freya_Trade_Protocol
begin

text \<open>
  What a completed trade does to the goods: the two players' inventories and Alz in the game server
  change the way the master server has changed their rows, so memory and database still agree. The
  locale \<open>trade_master\<close> states what the game server relies on; the master server's handler provides it.
\<close>

section \<open>Goods\<close>

definition goods :: "'m Game \<Rightarrow> uint16 \<rightharpoonup> 'm Character" where
  "goods g = (\<lambda>i. Option.bind (Parse i g) cChar)"

lemma goods_Parse: "Parse i g = Some c \<Longrightarrow> goods g i = cChar c"
  by (simp add: goods_def)

lemma goods_Trade [simp]: "goods (upd i (Trade_update f) g) = goods g"
  by (auto simp: goods_def fun_eq_iff Parse_upd option.map_comp comp_def bind_map_option split: bind_splits)

lemma goods_send [simp]: "goods (send i p g) = goods g" "goods (g\<lparr>remote := m\<rparr>) = goods g"
  by (simp_all add: goods_def)

lemma goods_send_trade [simp]:
  "goods (sendTradePacketResult s c b g) = goods g" "goods (sendTradeItem s it sl g) = goods g"
  "goods (sendTradeAlz s a g) = goods g" "goods (sendTradeRemovedItem s it sl g) = goods g"
  "goods (sendTradeEvent s ch b g) = goods g" "goods (sendTradeOpenResult s b g) = goods g"
  by (simp_all add: send_trade_defs)

lemma remote_send_trade [simp]:
  "remote (sendTradePacketResult s c b g) = remote g" "remote (sendTradeItem s it sl g) = remote g"
  "remote (sendTradeAlz s a g) = remote g" "remote (sendTradeRemovedItem s it sl g) = remote g"
  "remote (sendTradeEvent s ch b g) = remote g" "remote (sendTradeOpenResult s b g) = remote g"
  "g_RPCHandler (sendTradePacketResult s c b g) = g_RPCHandler g" "g_RPCHandler (sendTradeItem s it sl g) = g_RPCHandler g"
  "g_RPCHandler (sendTradeAlz s a g) = g_RPCHandler g" "g_RPCHandler (sendTradeRemovedItem s it sl g) = g_RPCHandler g"
  "g_RPCHandler (sendTradeEvent s ch b g) = g_RPCHandler g" "g_RPCHandler (sendTradeOpenResult s b g) = g_RPCHandler g"
  by (simp_all add: send_trade_defs)

text \<open>
  Every character in the world is online once, its inventory belongs to it and equals its rows, and its
  Alz is the stored balance.
\<close>

definition goods_ok ::
    "'m Client \<Rightarrow> ('m \<Rightarrow> int32 \<Rightarrow> uint16 \<rightharpoonup> Item) \<Rightarrow> ('m \<Rightarrow> int32 \<rightharpoonup> uint64) \<Rightarrow> 'm Game \<Rightarrow> bool" where
  "goods_ok rpc rows alz g \<longleftrightarrow> g_RPCHandler g = rpc \<and>
     (\<forall>i ch. goods g i = Some ch \<longrightarrow> character (CharInventory ch) = CharId ch \<and>
        coherent rpc rows (CharInventory ch) (remote g) \<and> alz (remote g) (CharId ch) = Some (Alz ch)) \<and>
     (\<forall>i j a b. goods g i = Some a \<longrightarrow> goods g j = Some b \<longrightarrow> CharId a = CharId b \<longrightarrow> i = j)"

lemma goods_ok_same:
  "goods_ok rpc rows alz g \<Longrightarrow> goods g' = goods g \<Longrightarrow> rows (remote g') = rows (remote g) \<Longrightarrow>
   alz (remote g') = alz (remote g) \<Longrightarrow> g_RPCHandler g' = g_RPCHandler g \<Longrightarrow> goods_ok rpc rows alz g'"
  by (simp add: goods_ok_def coherent_def)

section \<open>The exchange in memory\<close>

lemma items_of_transfers: "length given = length slots \<Longrightarrow> map tItem (transfers given slots) = map OfferItem given"
  by (simp add: transfers_def comp_def case_prod_beta flip: map_map [of OfferItem fst, unfolded comp_def])

lemma local_updates:
  "(RemoveLocal t e)\<lparr>Inv := im\<rparr> = e\<lparr>Inv := im\<rparr>" "(SetLocal it e)\<lparr>Inv := im\<rparr> = e\<lparr>Inv := im\<rparr>"
  "Inv (RemoveLocal t e) (key s) = (if s = t then None else Inv e (key s))"
  by (simp_all add: RemoveLocal_def SetLocal_def)

lemma RemoveLocal_fold:
  "\<exists>im. fold (\<lambda>offer. RemoveLocal (Slot (OfferItem offer))) given e = e\<lparr>Inv := im\<rparr> \<and>
     (\<forall>s. im (key s) = (if s \<in> Slot ` OfferItem ` set given then None else Inv e (key s)))"
proof (induction given arbitrary: e)
  case Nil
  show ?case by (rule exI [of _ "Inv e"]) simp
next
  case (Cons offer given)
  from Cons.IH [of "RemoveLocal (Slot (OfferItem offer)) e"] obtain im where
    im: "fold (\<lambda>offer. RemoveLocal (Slot (OfferItem offer))) given (RemoveLocal (Slot (OfferItem offer)) e) =
        (RemoveLocal (Slot (OfferItem offer)) e)\<lparr>Inv := im\<rparr>"
      "\<forall>s. im (key s) = (if s \<in> Slot ` OfferItem ` set given then None
         else Inv (RemoveLocal (Slot (OfferItem offer)) e) (key s))" by blast
  then show ?case by (intro exI [of _ im]) (auto simp: local_updates)
qed

lemma SetLocal_fold:
  "\<forall>s. Inv e (key s) = m s \<Longrightarrow>
   \<exists>im. fold (\<lambda>(offer, slot). SetLocal ((OfferItem offer)\<lparr>Slot := slot\<rparr>)) zs e = e\<lparr>Inv := im\<rparr> \<and>
     (\<forall>s. im (key s) = receive (map (\<lambda>(offer, slot). \<lparr>tItem = OfferItem offer, TargetSlot = slot\<rparr>) zs) m s)"
proof (induction zs arbitrary: e m)
  case Nil
  then show ?case by (intro exI [of _ "Inv e"]) (simp add: receive_def)
next
  case (Cons z zs)
  obtain offer slot where z: "z = (offer, slot)" by (cases z)
  let ?it = "(OfferItem offer)\<lparr>Slot := slot\<rparr>"
  have "\<forall>s. Inv (SetLocal ?it e) (key s) = (m(slot \<mapsto> ?it)) s"
    using Cons.prems by (auto simp: SetLocal_def)
  from Cons.IH [OF this] obtain im where
    "fold (\<lambda>(offer, slot). SetLocal ((OfferItem offer)\<lparr>Slot := slot\<rparr>)) zs (SetLocal ?it e) = (SetLocal ?it e)\<lparr>Inv := im\<rparr>"
    "\<forall>s. im (key s) = receive (map (\<lambda>(offer, slot). \<lparr>tItem = OfferItem offer, TargetSlot = slot\<rparr>) zs) (m(slot \<mapsto> ?it)) s"
    by blast
  then show ?case by (intro exI [of _ im]) (simp add: z local_updates receive_def)
qed

text \<open>The inventory after the exchange, as a map of slots.\<close>

lemma exchange_items_coherent:
  assumes "coherent rpc rows e m" and len: "length given = length slots"
    and rows: "rows m' (character e) = receive (transfers taken destinations) (give (transfers given slots) (rows m (character e)))"
  shows "coherent rpc rows (exchange_items given taken destinations e) m'" "character (exchange_items given taken destinations e) = character e"
proof -
  obtain im where im: "fold (\<lambda>offer. RemoveLocal (Slot (OfferItem offer))) given e = e\<lparr>Inv := im\<rparr>"
    "\<forall>s. im (key s) = (if s \<in> Slot ` OfferItem ` set given then None else Inv e (key s))"
    using RemoveLocal_fold [of given e] by blast
  have slots: "(\<lambda>t. Slot (tItem t)) ` set (transfers given slots) = Slot ` OfferItem ` set given"
    using arg_cong [OF items_of_transfers [OF len], of "\<lambda>xs. Slot ` set xs"] by (simp add: image_image)
  have "\<forall>s. Inv (e\<lparr>Inv := im\<rparr>) (key s) = give (transfers given slots) (rows m (character e)) s"
    using im(2) assms(1) by (simp add: give_def slots restrict_map_def coherent_def)
  from SetLocal_fold [OF this, of "zip taken destinations"] obtain im' where
    "exchange_items given taken destinations e = e\<lparr>Inv := im'\<rparr>"
    "\<forall>s. im' (key s) = receive (transfers taken destinations) (give (transfers given slots) (rows m (character e))) s"
    by (auto simp: exchange_items_def im(1) transfers_def)
  then show "coherent rpc rows (exchange_items given taken destinations e) m'"
    "character (exchange_items given taken destinations e) = character e"
    using assms(1) rows by (simp_all add: coherent_def)
qed

lemma goods_settle:
  assumes "i \<noteq> j"
  shows "goods (settle i j d res g) = (goods g)
    (i := map_option (\<lambda>c. c\<lparr>CharInventory := exchange_items (firstItems d) (secondItems d) (firstDestinations d) (CharInventory c),
        Alz := tFirstAlz res\<rparr>) (goods g i),
     j := map_option (\<lambda>c. c\<lparr>CharInventory := exchange_items (secondItems d) (firstItems d) (secondDestinations d) (CharInventory c),
        Alz := tSecondAlz res\<rparr>) (goods g j))"
  using assms
  by (auto simp: settle_def Let_def goods_def fun_eq_iff Parse_upd sendTradeEvent_def split: bind_splits option.splits)

section \<open>What the game server relies on\<close>

locale trade_master = item_master rpc rows
  for rpc :: "'m Client" and rows :: "'m \<Rightarrow> int32 \<Rightarrow> uint16 \<rightharpoonup> Item" +
  fixes alz :: "'m \<Rightarrow> int32 \<rightharpoonup> uint64"
  assumes trade_refused: "call_trade rpc q m = (res, m') \<Longrightarrow> \<not> accepted tResult res \<Longrightarrow> rows m' = rows m \<and> alz m' = alz m"
    and trade_done: "call_trade rpc q m = (Inr p, m') \<Longrightarrow> tResult p \<Longrightarrow>
      FirstCharacter q \<noteq> SecondCharacter q \<and>
      rows m' = (rows m)
        (FirstCharacter q := receive (SecondItems q) (give (FirstItems q) (rows m (FirstCharacter q))),
         SecondCharacter q := receive (FirstItems q) (give (SecondItems q) (rows m (SecondCharacter q)))) \<and>
      alz m' = (alz m)(FirstCharacter q \<mapsto> tFirstAlz p, SecondCharacter q \<mapsto> tSecondAlz p)"
begin

lemma completeTrade_goods:
  assumes ok: "goods_ok rpc rows alz g" and ne: "s \<noteq> p"
  shows "ensures (goods_ok rpc rows alz) (completeTrade s p g)"
  unfolding completeTrade_def Let_def
proof (intro ensures_intro)
  show "goods_ok rpc rows alz g" by (rule ok)
  fix c d dl d' res m
  assume c: "Option.bind (users g s) id = Some c" and d: "Option.bind (users g p) id = Some d"
    and rd: "read_deal c d = Some dl" "dl = Some d'"
    and call: "call_trade (g_RPCHandler g) (deal_request (ServerId g) d') (remote g) = (res, m)"
  have call': "call_trade rpc (deal_request (ServerId g) d') (remote g) = (res, m)"
    using call ok by (simp add: goods_ok_def)
  have keep: "ensures (goods_ok rpc rows alz) (abortCompletedTrade s p b (g\<lparr>remote := m\<rparr>))" if "\<not> accepted tResult res" for b
    unfolding abortCompletedTrade_def Let_def
    by (intro ensures_intro goods_ok_same [OF ok]) (simp_all add: trade_refused [OF call' that])
  show "ensures (goods_ok rpc rows alz) (abortCompletedTrade s p tradeResultInvalid (g\<lparr>remote := m\<rparr>))" if "res = Inl e" for e
    by (rule keep) (simp add: that)
  show "ensures (goods_ok rpc rows alz) (abortCompletedTrade s p tradeResultInvalid (g\<lparr>remote := m\<rparr>))"
    if "res = Inr r" "\<not> tResult r" for r
    by (rule keep) (simp add: that)
  fix r
  assume r: "res = Inr r" "\<not> \<not> tResult r"
  let ?q = "deal_request (ServerId g) d'"
  note tr = trade_done [OF call' [unfolded r] r(2) [simplified]]
  obtain x y where x: "cChar c = Some x" "CharId x = FirstCharacter ?q" and y: "cChar d = Some y" "CharId y = SecondCharacter ?q"
    and len: "length (firstItems d') = length (secondDestinations d')" "length (secondItems d') = length (firstDestinations d')"
    using rd by (auto simp: read_deal_def Let_def deal_request_def bind_eq_Some_conv split: if_split_asm)
  have G: "goods g s = Some x" "goods g p = Some y"
    using users_Parse [OF c x(1)] users_Parse [OF d y(1)] x(1) y(1) by (simp_all add: goods_Parse)
  have other: "CharId ch \<noteq> FirstCharacter ?q" "CharId ch \<noteq> SecondCharacter ?q" if "goods g i = Some ch" "i \<noteq> s" "i \<noteq> p" for i ch
    using ok G x(2) y(2) that unfolding goods_ok_def by metis+
  let ?x = "x\<lparr>CharInventory := exchange_items (firstItems d') (secondItems d') (firstDestinations d') (CharInventory x),
      Alz := tFirstAlz r\<rparr>"
  let ?y = "y\<lparr>CharInventory := exchange_items (secondItems d') (firstItems d') (secondDestinations d') (CharInventory y),
      Alz := tSecondAlz r\<rparr>"
  have settled: "goods (settle s p d' r (g\<lparr>remote := m\<rparr>)) = (goods g)(s \<mapsto> ?x, p \<mapsto> ?y)"
    "remote (settle s p d' r (g\<lparr>remote := m\<rparr>)) = m" "g_RPCHandler (settle s p d' r (g\<lparr>remote := m\<rparr>)) = g_RPCHandler g"
    using G by (simp_all add: goods_settle [OF ne]) (simp_all add: settle_def Let_def)
  have inv: "coherent rpc rows (CharInventory x) (remote g)" "coherent rpc rows (CharInventory y) (remote g)"
    "character (CharInventory x) = CharId x" "character (CharInventory y) = CharId y"
    using ok G by (auto simp: goods_ok_def)
  have q: "FirstItems ?q = transfers (firstItems d') (secondDestinations d')"
    "SecondItems ?q = transfers (secondItems d') (firstDestinations d')" by (simp_all add: deal_request_def)
  show "goods_ok rpc rows alz (settle s p d' r (g\<lparr>remote := m\<rparr>))"
    unfolding goods_ok_def settled
  proof (intro conjI allI impI)
    show "g_RPCHandler g = rpc" using ok by (simp add: goods_ok_def)
    fix i ch
    assume "((goods g)(s \<mapsto> ?x, p \<mapsto> ?y)) i = Some ch"
    then consider "i = s" "ch = ?x" | "i = p" "ch = ?y" | "i \<noteq> s" "i \<noteq> p" "goods g i = Some ch"
      using ne by (auto split: if_splits)
    then have "character (CharInventory ch) = CharId ch \<and> coherent rpc rows (CharInventory ch) m \<and>
      alz m (CharId ch) = Some (Alz ch)"
    proof cases
      case 1
      have "coherent rpc rows (CharInventory ch) m" "character (CharInventory ch) = CharId ch"
        using exchange_items_coherent [OF inv(1) len(1), of m "secondItems d'" "firstDestinations d'"] tr 1 inv x(2) q by auto
      then show ?thesis using 1 tr x(2) by simp
    next
      case 2
      have "coherent rpc rows (CharInventory ch) m" "character (CharInventory ch) = CharId ch"
        using exchange_items_coherent [OF inv(2) len(2), of m "firstItems d'" "secondDestinations d'"] tr 2 inv y(2) q by auto
      then show ?thesis using 2 tr y(2) by simp
    next
      case 3
      with ok have "character (CharInventory ch) = CharId ch" "coherent rpc rows (CharInventory ch) (remote g)"
        "alz (remote g) (CharId ch) = Some (Alz ch)" by (auto simp: goods_ok_def)
      with other [OF 3(3,1,2)] tr show ?thesis by (simp add: coherent_def)
    qed
    then show "character (CharInventory ch) = CharId ch" "coherent rpc rows (CharInventory ch) m"
      "alz m (CharId ch) = Some (Alz ch)" by simp_all
  next
    fix i j a b
    assume "((goods g)(s \<mapsto> ?x, p \<mapsto> ?y)) i = Some a" "((goods g)(s \<mapsto> ?x, p \<mapsto> ?y)) j = Some b" "CharId a = CharId b"
    then have "\<exists>a' b'. goods g i = Some a' \<and> goods g j = Some b' \<and> CharId a' = CharId b'"
      using G by (auto split: if_splits)
    then show "i = j" using ok unfolding goods_ok_def by blast
  qed
qed

end

section \<open>The other handlers leave the goods alone\<close>

definition same_goods :: "'m Game \<Rightarrow> 'm Game \<Rightarrow> bool" where
  "same_goods g h \<longleftrightarrow> goods h = goods g \<and> remote h = remote g \<and> g_RPCHandler h = g_RPCHandler g"

lemma same_goods_refl [simp]: "same_goods g g"
  by (simp add: same_goods_def)

lemma same_goods_simps [simp]:
  "same_goods g (upd i (Trade_update f) h) = same_goods g h" "same_goods g (send i pk h) = same_goods g h"
  "same_goods g (sendTradePacketResult s c b h) = same_goods g h" "same_goods g (sendTradeItem s it sl h) = same_goods g h"
  "same_goods g (sendTradeAlz s a h) = same_goods g h" "same_goods g (sendTradeRemovedItem s it sl h) = same_goods g h"
  "same_goods g (sendTradeEvent s ch b h) = same_goods g h" "same_goods g (sendTradeOpenResult s b h) = same_goods g h"
  by (simp_all add: same_goods_def)

lemma same_goods_offer [simp]:
  "(\<And>x. same_goods g (answer x) = same_goods g x) \<Longrightarrow> (\<And>x. same_goods g (notify x) = same_goods g x) \<Longrightarrow>
   same_goods g (offer_changed s p b answer notify h) = same_goods g h"
  by (simp add: offer_changed_def Let_def)

lemma reserve_goods: "reserveTradeRequest s t a b g = (ok, h) \<Longrightarrow> same_goods g h"
  by (auto simp: reserveTradeRequest_def split: option.splits if_splits)

lemma handlers_goods:
  "ensures (same_goods g) (TradeRequest_handler s r g)" "ensures (same_goods g) (TradeOpenEvent s r g)"
  "ensures (same_goods g) (TradeCloseEvent s r g)" "ensures (same_goods g) (TradeAddItem s r g)"
  "ensures (same_goods g) (TradeAddAlz s r g)" "ensures (same_goods g) (TradeRemoveItem s r g)"
proof -
  show "ensures (same_goods g) (TradeRequest_handler s r g)"
    unfolding TradeRequest_handler_def Let_def by (intro ensures_intro) (simp_all add: reserve_goods)
  show "ensures (same_goods g) (TradeOpenEvent s r g)"
    unfolding TradeOpenEvent_def open_event_def Let_def by (intro ensures_intro) simp_all
  show "ensures (same_goods g) (TradeCloseEvent s r g)"
    unfolding TradeCloseEvent_def Let_def by (intro ensures_intro) simp_all
  show "ensures (same_goods g) (TradeAddItem s r g)"
    unfolding TradeAddItem_def Let_def by (intro ensures_intro) simp_all
  show "ensures (same_goods g) (TradeAddAlz s r g)"
    unfolding TradeAddAlz_def Let_def by (intro ensures_intro) simp_all
  show "ensures (same_goods g) (TradeRemoveItem s r g)"
    unfolding TradeRemoveItem_def Let_def by (intro ensures_intro) simp_all
qed

context trade_master begin

lemma same_goods_ok: "goods_ok rpc rows alz g \<Longrightarrow> same_goods g h \<Longrightarrow> goods_ok rpc rows alz h"
  by (rule goods_ok_same) (simp_all add: same_goods_def)

lemma ensures_goods_ok:
  "goods_ok rpc rows alz g \<Longrightarrow> ensures (same_goods g) x \<Longrightarrow> ensures (goods_ok rpc rows alz) x"
  unfolding ensures_def using same_goods_ok by blast

lemma TradeRequestList_goods:
  assumes "goods_ok rpc rows alz g"
  shows "ensures (goods_ok rpc rows alz) (TradeRequestList s r g)"
  unfolding TradeRequestList_def Let_def
  by (intro ensures_intro completeTrade_goods same_goods_ok [OF assms])
    (auto simp: assms tradePair_Some intro: same_goods_ok [OF assms])

lemma trade_packet_goods:
  assumes "goods_ok rpc rows alz g"
  shows "ensures (goods_ok rpc rows alz) (happen trade_handlers leave (Packet s code r) g)"
proof -
  have "ensures (goods_ok rpc rows alz) (h s r g)" if "map_of trade_handlers code = Some h" for h
    using trade_handler_cases [OF that] handlers_goods [THEN ensures_goods_ok [OF assms]] TradeRequestList_goods [OF assms]
    by (elim insertE) simp_all
  with assms show ?thesis by (auto intro: ensures_intro)
qed

lemma trade_packets_goods:
  "goods_ok rpc rows alz g \<Longrightarrow>
   ensures (goods_ok rpc rows alz) (happens trade_handlers leave (map (\<lambda>(s, code, r). Packet s code r) ps) g)"
proof (induction ps arbitrary: g)
  case (Cons q ps)
  obtain s code r where q: "q = (s, code, r)" by (cases q)
  show ?case
    unfolding list.map happens.simps q prod.case
  proof (rule ensures_bind)
    fix h
    assume "happen trade_handlers leave (Packet s code r) g = Some h"
    with trade_packet_goods [OF Cons.prems, of leave s code r] have "goods_ok rpc rows alz h" by (simp add: ensures_def)
    then show "ensures (goods_ok rpc rows alz) (happens trade_handlers leave (map (\<lambda>(s, code, r). Packet s code r) ps) h)"
      by (rule Cons.IH)
  qed
qed (simp add: ensures_def)

end

section \<open>The master server provides it\<close>

definition world_alz :: "world \<Rightarrow> int32 \<rightharpoonup> uint64" where
  "world_alz w = alz_of (database w)"

lemma receive_other: "s \<notin> TargetSlot ` set ts \<Longrightarrow> receive ts m s = m s"
  unfolding receive_def by (induction ts arbitrary: m) simp_all

lemma receive_cong: "m s = m' s \<Longrightarrow> receive ts m s = receive ts m' s"
proof (induction ts arbitrary: m m')
  case (Cons t ts)
  let ?u = "\<lambda>m. m(TargetSlot t \<mapsto> (tItem t)\<lparr>Slot := TargetSlot t\<rparr>)"
  have "?u m s = ?u m' s" using Cons.prems by simp
  from Cons.IH [of "?u m" "?u m'", OF this] show ?case unfolding receive_def fold_simps .
qed (simp add: receive_def)

text \<open>The order of giving and receiving is irrelevant when nothing goes where something was.\<close>

lemma give_receive:
  assumes "offered out m m'" "offered inc m'' m"
  shows "give out (receive inc m) = receive inc (give out m)"
proof
  fix s
  have "s \<notin> TargetSlot ` set inc" if "s \<in> (\<lambda>t. Slot (tItem t)) ` set out"
    using that assms by (auto simp: offered_def)
  then show "give out (receive inc m) s = receive inc (give out m) s"
    using receive_other [of s inc "give out m"] receive_cong [of m s "give out m" inc]
    by (auto simp: give_def restrict_map_def)
qed

lemma traded_rows:
  assumes "traded q p db db'" "FirstCharacter q \<noteq> SecondCharacter q"
  shows "inv_rows db' = (inv_rows db)
      (FirstCharacter q := receive (SecondItems q) (give (FirstItems q) (inv_rows db (FirstCharacter q))),
       SecondCharacter q := receive (FirstItems q) (give (SecondItems q) (inv_rows db (SecondCharacter q))))"
    "alz_of db' = (alz_of db)(FirstCharacter q \<mapsto> tFirstAlz p, SecondCharacter q \<mapsto> tSecondAlz p)" "tResult p"
proof -
  have off: "offered (FirstItems q) (inv_rows db (FirstCharacter q)) (inv_rows db (SecondCharacter q))"
    "offered (SecondItems q) (inv_rows db (SecondCharacter q)) (inv_rows db (FirstCharacter q))"
    using assms(1) unfolding traded_def by blast+
  have r: "inv_rows db' (FirstCharacter q) = receive (SecondItems q) (give (FirstItems q) (inv_rows db (FirstCharacter q)))"
    "inv_rows db' (SecondCharacter q) = give (SecondItems q) (receive (FirstItems q) (inv_rows db (SecondCharacter q)))"
    "\<And>c. c = FirstCharacter q \<or> c = SecondCharacter q \<or> inv_rows db' c = inv_rows db c"
    using assms(1) unfolding traded_def by blast+
  show "inv_rows db' = (inv_rows db)
      (FirstCharacter q := receive (SecondItems q) (give (FirstItems q) (inv_rows db (FirstCharacter q))),
       SecondCharacter q := receive (FirstItems q) (give (SecondItems q) (inv_rows db (SecondCharacter q))))"
    using r give_receive [OF off(2,1)] by (intro ext [of "inv_rows db'"]) auto
  show "alz_of db' = (alz_of db)(FirstCharacter q \<mapsto> tFirstAlz p, SecondCharacter q \<mapsto> tSecondAlz p)" "tResult p"
    using assms(1) unfolding traded_def by auto
qed

lemma TradeItems_distinct:
  "TradeItems io r db = (Some (Inr p), db') \<Longrightarrow> FirstCharacter r \<noteq> SecondCharacter r"
  by (auto simp: TradeItems_def split: if_splits)

interpretation world_trade: trade_master master world_rows world_alz
proof (unfold_locales, goal_cases)
  case (1 q m res m')
  then have "serve TradeItems q m = (res, m')" by (simp add: master_def)
  then show ?case
  proof (cases rule: serve_cases)
    case (lost e)
    then show ?thesis by (simp add: world_rows_def world_alz_def fun_eq_iff)
  next
    case (run io r)
    with TradeItems_effect [OF run(1)] 1(2) show ?thesis by (simp add: world_rows_def world_alz_def fun_eq_iff)
  qed
next
  case (2 q m p m')
  then have "serve TradeItems q m = (Inr p, m')" by (simp add: master_def)
  then show ?case
  proof (cases rule: serve_cases)
    case (run io r)
    have r: "r = Some (Inr p)" using run(3) by simp
    from TradeItems_effect [OF run(1)] 2(2) r have t: "traded q p (database m) (database m')" by simp
    have ne: "FirstCharacter q \<noteq> SecondCharacter q" using TradeItems_distinct run(1) r by blast
    have w: "world_rows w = inv_rows (database w)" for w by (simp add: world_rows_def fun_eq_iff)
    from traded_rows(1,2) [OF t ne] ne show ?thesis by (simp add: w world_alz_def)
  qed simp
qed

text \<open>Two players who have not met, the first with an item.\<close>

definition stalls :: "world Game" where
  "stalls = market [(1, trader 1 1000 [sample_item 9 0 3] zero_TradeState), (2, trader 2 50 [] zero_TradeState)]
     [sample_item 9 0 3] []"

lemma sample_inv_character: "(sample_inv its)\<lparr>character := 1\<rparr> = sample_inv its"
proof -
  have "(SetLocal it e)\<lparr>character := 1\<rparr> = SetLocal it (e\<lparr>character := 1\<rparr>)" for it and e :: "world Inventory"
    by (cases e) (simp add: SetLocal_def)
  then have "(fold SetLocal its e)\<lparr>character := 1\<rparr> = fold SetLocal its (e\<lparr>character := 1\<rparr>)" for e :: "world Inventory"
    by (induction its arbitrary: e) simp_all
  then show ?thesis by (simp add: sample_inv_def)
qed

lemma Parse_stalls: "Parse i stalls = map_of [(1, trader 1 1000 [sample_item 9 0 3] zero_TradeState), (2, trader 2 50 [] zero_TradeState)] i"
  unfolding stalls_def by (rule Parse_market) simp

lemma stalls_ok: "goods_ok master world_rows world_alz stalls"
proof -
  have "coherent master world_rows ((sample_inv [sample_item 9 0 3])\<lparr>character := 1\<rparr>) (remote stalls)"
    unfolding sample_inv_character stalls_def market_def by (simp add: sample_coherent)
  moreover have "coherent master world_rows ((sample_inv [])\<lparr>character := 2\<rparr>) (remote stalls)"
    by (simp add: coherent_def sample_inv_def stalls_def market_def sample_world_def world_rows_def sample_db_def stored_def)
  moreover have "g_RPCHandler stalls = master" "world_alz (remote stalls) = [1 \<mapsto> 1000, 2 \<mapsto> 50]"
    by (simp_all add: stalls_def market_def sample_world_def sample_db_def world_alz_def)
  ultimately show ?thesis
    by (auto simp: goods_ok_def goods_def Parse_stalls trader_def split: if_splits)
qed

lemma stalls_inv: "trade_inv stalls"
  unfolding trade_inv_def linked_def trades_of_def Parse_stalls
  by (auto simp: stalls_def market_def split: if_splits)

text \<open>
  C1: However players trade, and whichever database calls of the exchange fail in between, everybody's
  inventory and Alz in the game server stay what the database holds for the character.
\<close>

theorem trades_keep_goods:
  assumes "goods_ok master world_rows world_alz g"
    and "happens trade_handlers CancelTrade (map (\<lambda>(s, code, r). Packet s code r) ps) g = Some g'"
  shows "goods_ok master world_rows world_alz g'"
  using world_trade.trade_packets_goods [OF assms(1), of CancelTrade ps] assms(2) by (simp add: ensures_def)

theorem trades_keep_goods_witness:
  "\<exists>g'. happens trade_handlers CancelTrade (map (\<lambda>(s, code, r). Packet s code r)
      [(1, 260, packet_reader [2, 0, 0, 0, 2, 0, 0, 1]), (2, 261, packet_reader [tradeResultAccept]),
       (1, 264, packet_reader [3, 0, 0, 0]), (2, 265, packet_reader [40, 0, 0, 0, 0, 0, 0, 0]),
       (1, 262, packet_reader [tradeResultSubmit]), (2, 262, packet_reader [tradeResultSubmit]),
       (1, 269, packet_reader [0]), (2, 269, packet_reader [1, 7, 0])]) stalls = Some g' \<and>
     goods_ok master world_rows world_alz g'"
    (is "\<exists>g'. happens _ _ ?es _ = _ \<and> _")
proof -
  have "list_all framed_packet ?es" by simp
  from happens_invariant [OF trade_inv_happen this stalls_inv]
  obtain g' where "happens trade_handlers CancelTrade ?es stalls = Some g'" unfolding returns_def by blast
  with trades_keep_goods [OF stalls_ok this] show ?thesis by blast
qed

end
