(* ===== verification/Freya_Party.thy ===== *)
theory Freya_Party
  imports Freya_Context
begin

text \<open>
  Parties of up to seven players (\<open>cmd/gameserver/packet/party.go\<close>): invitations, leaving and being
  kicked out, the leader's settings, the party search, and the packets that describe a party. A
  handler takes the index of the session and the reader behind the header; \<open>None\<close> is a panic. The client
  table is walked in an unspecified order: \<open>order\<close> lists its indexes as one walk yields them.
\<close>

section \<open>Packets\<close>

abbreviation (input) partyInviteOK :: byte where "partyInviteOK \<equiv> 0x00"
abbreviation (input) partyInviteNotExist :: byte where "partyInviteNotExist \<equiv> 0x01"
abbreviation (input) partyInviteBusy :: byte where "partyInviteBusy \<equiv> 0x02"
abbreviation (input) partyInviteMaxMembers :: byte where "partyInviteMaxMembers \<equiv> 0x07"
abbreviation (input) partyInviteAlreadyMember :: byte where "partyInviteAlreadyMember \<equiv> 0x08"
abbreviation (input) partyInviteError :: byte where "partyInviteError \<equiv> 0x0B"
abbreviation (input) partyInviteAnswerOK :: byte where "partyInviteAnswerOK \<equiv> 0x00"
abbreviation (input) partyInviteAnswerRejected :: byte where "partyInviteAnswerRejected \<equiv> 0x01"
abbreviation (input) partyInviteAnswerFailed :: byte where "partyInviteAnswerFailed \<equiv> 0x02"

abbreviation partyMaxNameLength :: nat where "partyMaxNameLength \<equiv> 17"
abbreviation partySearchTitleSize :: nat where "partySearchTitleSize \<equiv> 40"
abbreviation partyMemberDefaultDataSize :: nat where "partyMemberDefaultDataSize \<equiv> 39"
abbreviation partyMemberTotalDataSize :: nat where "partyMemberTotalDataSize \<equiv> 75"
abbreviation partySearchEntrySize :: nat where "partySearchEntrySize \<equiv> 72"

text \<open>\<open>strings.TrimRight(s, "\x00")\<close>.\<close>

definition trimRight0 :: "byte list \<Rightarrow> byte list" where
  "trimRight0 bs = rev (dropWhile (\<lambda>b. b = 0) (rev bs))"

definition party_name_bytes :: "byte list \<Rightarrow> byte list" where
  "party_name_bytes name =
     (let nameBytes = (if length name > partyMaxNameLength - 1 then take (partyMaxNameLength - 1) name else name) in
      word_of_nat (length nameBytes + 1) # nameBytes @ replicate (partyMaxNameLength - 1 - length nameBytes) 0)"

definition writePartyName :: "byte list \<Rightarrow> field" where
  "writePartyName name = FBytes (party_name_bytes name)"

definition decodePartyName :: "byte list \<Rightarrow> byte list" where
  "decodePartyName raw =
     (if raw \<noteq> [] \<and> unat (hd raw) > 0 \<and> unat (hd raw) \<le> length raw - 1
      then drop 1 (take (unat (hd raw)) raw) else trimRight0 raw)"

definition writeFixedPartyString :: "byte list \<Rightarrow> nat \<Rightarrow> field" where
  "writeFixedPartyString value sz = FBytes (take sz value @ replicate (sz - length value) 0)"

definition bool32 :: "bool \<Rightarrow> field" where
  "bool32 b = FInt32 (if b then 1 else 0)"

definition member_fields :: "PartyMember \<Rightarrow> field list" where
  "member_fields m = [FInt32 (MCharacterID m), FByte (MChannel m), FByte (MBattleStyle m), FInt32 (ucast (MLevel m)),
     writePartyName (MName m)]"

definition sendPartyInviteResponse :: "uint16 \<Rightarrow> byte \<Rightarrow> PartyMember \<Rightarrow> 'm Game \<Rightarrow> 'm Game" where
  "sendPartyInviteResponse s result invited = send s (2011, FByte result # member_fields invited)"

definition sendPartyInviteNotification :: "uint16 \<Rightarrow> PartyMember \<Rightarrow> 'm Game \<Rightarrow> 'm Game" where
  "sendPartyInviteNotification s inviter = send s (2012, member_fields inviter)"

definition sendPartyInviteAnswer :: "uint16 \<Rightarrow> byte \<Rightarrow> 'm Game \<Rightarrow> 'm Game" where
  "sendPartyInviteAnswer s result = send s (2013, [FByte result])"

definition sendPartyInviteResult :: "uint16 \<Rightarrow> bool \<Rightarrow> 'm Game \<Rightarrow> 'm Game" where
  "sendPartyInviteResult s agreed = send s (2014, [bool32 agreed])"

definition sendPartyInviteCancelResult :: "uint16 \<Rightarrow> bool \<Rightarrow> 'm Game \<Rightarrow> 'm Game" where
  "sendPartyInviteCancelResult s success = send s (2017, [bool32 success])"

definition sendPartyInviteCancelNotification :: "uint16 \<Rightarrow> 'm Game \<Rightarrow> 'm Game" where
  "sendPartyInviteCancelNotification s = send s (2018, [])"

definition sendPartyLeaveResult :: "uint16 \<Rightarrow> bool \<Rightarrow> 'm Game \<Rightarrow> 'm Game" where
  "sendPartyLeaveResult s success = send s (2019, [bool32 success])"

definition sendPartyMemberOut :: "uint16 \<Rightarrow> int32 \<Rightarrow> 'm Game \<Rightarrow> 'm Game" where
  "sendPartyMemberOut s characterID = send s (2020, [FInt32 characterID])"

definition sendPartyKickoutResult :: "uint16 \<Rightarrow> bool \<Rightarrow> 'm Game \<Rightarrow> 'm Game" where
  "sendPartyKickoutResult s success = send s (2021, [bool32 success])"

definition sendPartyKickoutNotification :: "uint16 \<Rightarrow> int32 \<Rightarrow> 'm Game \<Rightarrow> 'm Game" where
  "sendPartyKickoutNotification s characterID = send s (2022, [FInt32 characterID])"

definition sendPartyLeaderChangeResult :: "uint16 \<Rightarrow> bool \<Rightarrow> 'm Game \<Rightarrow> 'm Game" where
  "sendPartyLeaderChangeResult s success = send s (2023, [bool32 success])"

definition sendPartyLeaderChangeNotification :: "uint16 \<Rightarrow> int32 \<Rightarrow> 'm Game \<Rightarrow> 'm Game" where
  "sendPartyLeaderChangeNotification s characterID = send s (2024, [FInt32 characterID])"

definition sendPartyAuthChangeResult :: "uint16 \<Rightarrow> bool \<Rightarrow> 'm Game \<Rightarrow> 'm Game" where
  "sendPartyAuthChangeResult s success = send s (2025, [bool32 success])"

definition sendPartyAuthChangeNotification :: "uint16 \<Rightarrow> bool \<Rightarrow> 'm Game \<Rightarrow> 'm Game" where
  "sendPartyAuthChangeNotification s leaderOnly = send s (2026, [bool32 leaderOnly])"

definition sendPartyLootingTypeResult :: "uint16 \<Rightarrow> bool \<Rightarrow> 'm Game \<Rightarrow> 'm Game" where
  "sendPartyLootingTypeResult s success = send s (2033, [bool32 success])"

definition sendPartyLootingTypeNotification :: "uint16 \<Rightarrow> byte \<Rightarrow> byte \<Rightarrow> 'm Game \<Rightarrow> 'm Game" where
  "sendPartyLootingTypeNotification s normal owner = send s (2034, [FInt32 (ucast normal), FInt32 (ucast owner)])"

definition sendPartySearchRegistResult :: "uint16 \<Rightarrow> byte \<Rightarrow> 'm Game \<Rightarrow> 'm Game" where
  "sendPartySearchRegistResult s result = send s (2077, [FByte result])"

lemmas send_party_defs = sendPartyInviteResponse_def sendPartyInviteNotification_def sendPartyInviteAnswer_def
  sendPartyInviteResult_def sendPartyInviteCancelResult_def sendPartyInviteCancelNotification_def
  sendPartyLeaveResult_def sendPartyMemberOut_def sendPartyKickoutResult_def sendPartyKickoutNotification_def
  sendPartyLeaderChangeResult_def sendPartyLeaderChangeNotification_def sendPartyAuthChangeResult_def
  sendPartyAuthChangeNotification_def sendPartyLootingTypeResult_def sendPartyLootingTypeNotification_def
  sendPartySearchRegistResult_def

text \<open>
  The description of a party. The flag is written by \<open>WriteBool\<close> as one byte; at that point the packet is
  far shorter than its buffer.
\<close>

definition default_fields :: "PartyMember \<Rightarrow> field list" where
  "default_fields m = [FInt32 (MCharacterID m), FInt32 (ucast (MLevel m)), FInt32 0, FByte (MChannel m),
     FByte (MBattleStyle m), FInt32 (ucast (MemberStatus m)), writePartyName (MName m), FInt32 0]"

definition writePartyStatsPayload :: "PartyState \<Rightarrow> field list" where
  "writePartyStatsPayload state =
     [FInt32 (PId state), FInt32 (LeaderCharacterID state), FByte (if LeaderOnlyInviteAuthority state then 1 else 0),
      FInt32 0,
      FByte (if NormalLootingType state = 0 then 1 else NormalLootingType state),
      FByte (if OwnerLootingType state = 0 then 1 else OwnerLootingType state),
      FInt32 (word_of_nat (length (Members state)))] @
     concat (map (\<lambda>i. if i \<ge> length (Members state) then [FBytes (replicate partyMemberDefaultDataSize 0)]
                      else default_fields (Members state ! i)) [0..<PartyMaxMembers])"

definition sendPartyStats :: "uint16 \<Rightarrow> PartyState \<Rightarrow> 'm Game \<Rightarrow> 'm Game" where
  "sendPartyStats s state = send s (2016, writePartyStatsPayload state)"

definition sendPartyStatsReconnect :: "uint16 \<Rightarrow> 'm Game \<Rightarrow> 'm Game" where
  "sendPartyStatsReconnect s = send s (2056, FInt32 0 # FInt32 0 # writePartyStatsPayload zero_PartyState)"

record partyMemberRuntimeStats =
  rmember :: PartyMember
  rworld :: int32
  rhp :: uint32
  rmp :: uint32
  rsp :: uint32
  posX :: int32
  posY :: int32
  rdungeon :: int32

definition partyMemberRuntimeStatsFor :: "PartyMember \<Rightarrow> 'm Game \<Rightarrow> partyMemberRuntimeStats" where
  "partyMemberRuntimeStatsFor m g =
     (let result = \<lparr>rmember = m, rworld = 0, rhp = 0, rmp = 0, rsp = 0, posX = 0, posY = 0, rdungeon = 0\<rparr> in
      case Parse (MUserIdx m) g of
        None \<Rightarrow> result\<lparr>rmember := m\<lparr>MemberStatus := PartyMemberStatusLogoff\<rparr>\<rparr>
      | Some ctx \<Rightarrow>
          (case cChar ctx of
             None \<Rightarrow> result
           | Some c \<Rightarrow>
               \<lparr>rmember = m\<lparr>MCharacterID := CharId c, MLevel := cLevel c, MChannel := ChannelId g,
                  MBattleStyle := BattleStyle (CharStyle c), MemberStatus := PartyMemberStatusLogin, MName := Name c\<rparr>,
                rworld = ucast (World c),
                rhp = or (push_bit 16 (ucast (CurrentHP c))) (ucast (MaxHP c)),
                rmp = or (push_bit 16 (ucast (CurrentMP c))) (ucast (MaxMP c)),
                rsp = or (push_bit 16 (ucast (CurrentSP c))) (ucast (MaxSP c)),
                posX = ucast (X c), posY = ucast (Y c), rdungeon = 0\<rparr>))"

definition total_fields :: "partyMemberRuntimeStats \<Rightarrow> field list" where
  "total_fields st = (let m = rmember st in
     [FInt32 (MCharacterID m), FInt32 (ucast (MLevel m)), FInt32 (rdungeon st), FByte (MChannel m), FByte (MBattleStyle m),
      FInt32 (ucast (MemberStatus m)), writePartyName (MName m), FInt32 0, FInt32 (rworld st), FUint32 (rhp st),
      FUint32 (rmp st), FInt32 (posX st), FInt32 (posY st), FUint32 (rsp st), FUint32 0, FInt32 0, FUint32 0])"

definition sendPartyMemberStats :: "uint16 \<Rightarrow> PartyState \<Rightarrow> 'm Game \<Rightarrow> 'm Game" where
  "sendPartyMemberStats s state g = send s (2028, FInt32 (word_of_nat (length (Members state))) #
     concat (map (\<lambda>i. if i \<ge> length (Members state) then [FBytes (replicate partyMemberTotalDataSize 0)]
                      else total_fields (partyMemberRuntimeStatsFor (Members state ! i) g)) [0..<PartyMaxMembers])) g"

text \<open>A packet to every member that \<open>GetSession\<close> finds.\<close>

definition to_members :: "(uint16 \<Rightarrow> 'm Game \<Rightarrow> 'm Game) \<Rightarrow> PartyMember list \<Rightarrow> 'm Game \<Rightarrow> 'm Game" where
  "to_members notify = fold (\<lambda>m g. if users g (MUserIdx m) = None then g else notify (MUserIdx m) g)"

definition sendPartyMemberStatsToMembers :: "PartyState \<Rightarrow> 'm Game \<Rightarrow> 'm Game" where
  "sendPartyMemberStatsToMembers state g =
     (if PId state = 0 \<or> length (Members state) < 2 then g
      else to_members (\<lambda>i. sendPartyMemberStats i state) (Members state) g)"

definition notifyPartyMemberStats :: "uint16 \<Rightarrow> 'm Game \<Rightarrow> 'm Game" where
  "notifyPartyMemberStats s g =
     (case Parse s g of
        None \<Rightarrow> g
      | Some ctx \<Rightarrow>
          let party = Party ctx in
          if PId party = 0 \<or> length (Members party) < 2 then g else sendPartyMemberStatsToMembers party g)"

section \<open>Members\<close>

definition partyMemberFromContext :: "uint16 \<Rightarrow> 'm Context \<Rightarrow> 'm Game \<Rightarrow> PartyMember option" where
  "partyMemberFromContext s ctx g =
     (case cChar ctx of
        None \<Rightarrow> None
      | Some c \<Rightarrow> Some \<lparr>MUserIdx = s, MCharacterID = CharId c, MLevel = cLevel c, MChannel = ChannelId g,
          MBattleStyle = BattleStyle (CharStyle c), MemberStatus = PartyMemberStatusLogin, MName = Name c\<rparr>)"

definition partyHasMember :: "PartyState \<Rightarrow> uint16 \<Rightarrow> bool" where
  "partyHasMember state idx = list_ex (\<lambda>m. MUserIdx m = idx) (Members state)"

definition partyMemberByCharacterID :: "PartyState \<Rightarrow> int32 \<Rightarrow> PartyMember option" where
  "partyMemberByCharacterID state characterID = List.find (\<lambda>m. MCharacterID m = characterID) (Members state)"

text \<open>The character ids are compared first; a typed user index is the last resort.\<close>

primrec findPartySession :: "uint16 list \<Rightarrow> int32 \<Rightarrow> byte list \<Rightarrow> 'm Game \<Rightarrow> uint16 option" where
  "findPartySession [] characterID name g =
     (if sint characterID > 0 \<and> drop_bit 24 characterID = 0x01
      then let t = (ucast (and characterID 0xFFFF) :: uint16) in if users g t = None then None else Some t
      else None)"
| "findPartySession (k # order) characterID name g =
     (case Parse k g of
        None \<Rightarrow> findPartySession order characterID name g
      | Some ctx \<Rightarrow>
          let (currentID, currentName) = (case cChar ctx of None \<Rightarrow> (0, []) | Some c \<Rightarrow> (CharId c, Name c)) in
          if sint characterID > 0 \<and> currentID = characterID then Some k
          else if name \<noteq> [] \<and> currentName = name then Some k
          else findPartySession order characterID name g)"

text \<open>\<open>clonePartyState\<close> copies the member list, which a value of the model is anyway.\<close>

definition makePartyState ::
    "uint16 \<Rightarrow> 'm Context \<Rightarrow> uint16 \<Rightarrow> 'm Context \<Rightarrow> 'm Game \<Rightarrow> (PartyState \<times> byte) \<times> 'm Game" where
  "makePartyState inviter inviterContext target targetContext g =
     (case (partyMemberFromContext inviter inviterContext g, partyMemberFromContext target targetContext g) of
        (Some inviterMember, Some targetMember) \<Rightarrow>
          if PId (Party inviterContext) \<noteq> 0 \<and> PId (Party targetContext) \<noteq> 0
          then ((zero_PartyState, partyInviteAlreadyMember), g)
          else
            let party = Party inviterContext;
                party = (if PId party = 0 then Party targetContext else party);
                (party, g) = (if PId party = 0
                  then let g = g\<lparr>partySequence := partySequence g + 1\<rparr> in
                    (party\<lparr>PId := partySequence g, LeaderUserIdx := MUserIdx inviterMember,
                       LeaderCharacterID := MCharacterID inviterMember, NormalLootingType := 1, OwnerLootingType := 1\<rparr>, g)
                  else (party, g)) in
            if length (Members party) \<ge> PartyMaxMembers then ((zero_PartyState, partyInviteMaxMembers), g)
            else
              let party = (if \<not> partyHasMember party (MUserIdx inviterMember)
                           then party\<lparr>Members := Members party @ [inviterMember]\<rparr> else party) in
              if \<not> partyHasMember party (MUserIdx targetMember)
              then if length (Members party) \<ge> PartyMaxMembers then ((zero_PartyState, partyInviteMaxMembers), g)
                   else ((party\<lparr>Members := Members party @ [targetMember]\<rparr>, partyInviteOK), g)
              else ((party, partyInviteOK), g)
      | _ \<Rightarrow> ((zero_PartyState, partyInviteError), g))"

text \<open>The loop of \<open>applyPartyState\<close>: the sessions reached, and the members seen so far.\<close>

primrec apply_members :: "PartyState \<Rightarrow> uint16 set \<Rightarrow> PartyMember list \<Rightarrow> 'm Game \<Rightarrow> uint16 list \<times> 'm Game" where
  "apply_members state seen [] g = ([], g)"
| "apply_members state seen (m # ms) g =
     (let i = MUserIdx m in
      if i \<in> seen then apply_members state seen ms g
      else case Parse i g of
        None \<Rightarrow> apply_members state (insert i seen) ms g
      | Some _ \<Rightarrow>
          let g = upd i (\<lambda>ctx. ctx\<lparr>Party := state, PartyInvite := zero_PartyInviteState\<rparr>) g;
              (sessions, g) = apply_members state (insert i seen) ms g in (i # sessions, g))"

definition applyPartyState :: "PartyState \<Rightarrow> 'm Game \<Rightarrow> uint16 list \<times> 'm Game" where
  "applyPartyState state = apply_members state {} (Members state)"

definition clearPartyState :: "uint16 \<Rightarrow> 'm Game \<Rightarrow> 'm Game" where
  "clearPartyState s g =
     (case Parse s g of
        None \<Rightarrow> g
      | Some _ \<Rightarrow> upd s (\<lambda>ctx. ctx\<lparr>Party := zero_PartyState, PartyInvite := zero_PartyInviteState\<rparr>) g)"

section \<open>Invitations\<close>

text \<open>
  The checks on both contexts that \<open>PartyInvite\<close> makes first on copies and then again with both contexts
  locked: the refusal, if any.
\<close>

definition invite_refusal :: "'m Context \<Rightarrow> 'm Context \<Rightarrow> byte option" where
  "invite_refusal senderContext targetContext =
     (if IStatus (PartyInvite senderContext) \<noteq> PartyInviteNone \<or> IStatus (PartyInvite targetContext) \<noteq> PartyInviteNone
      then Some partyInviteBusy
      else if PId (Party senderContext) \<noteq> 0 \<and> PId (Party targetContext) \<noteq> 0 then Some partyInviteAlreadyMember
      else if (PId (Party senderContext) \<noteq> 0 \<and> length (Members (Party senderContext)) \<ge> PartyMaxMembers) \<or>
              (PId (Party targetContext) \<noteq> 0 \<and> length (Members (Party targetContext)) \<ge> PartyMaxMembers)
      then Some partyInviteMaxMembers else None)"

text \<open>The locked section and the packets after it.\<close>

definition reserve_invite :: "uint16 \<Rightarrow> PartyMember \<Rightarrow> uint16 \<Rightarrow> PartyMember \<Rightarrow> byte \<Rightarrow> 'm Game \<Rightarrow> 'm Game option" where
  "reserve_invite s senderMember t targetMember targetChannel g = do {
     senderContext \<leftarrow> Option.bind (users g s) id;
     targetContext \<leftarrow> Option.bind (users g t) id;
     case invite_refusal senderContext targetContext of
       Some refusal \<Rightarrow> Some (sendPartyInviteResponse s refusal targetMember g)
     | None \<Rightarrow> do {
         let g = upd s (PartyInvite_update (\<lambda>_. \<lparr>IStatus = PartyInviteOutgoing, IOpponentUserIdx = t,
               IOpponentCharacterID = MCharacterID targetMember, IChannel = targetChannel\<rparr>)) g;
         let g = upd t (PartyInvite_update (\<lambda>_. \<lparr>IStatus = PartyInviteIncoming, IOpponentUserIdx = s,
               IOpponentCharacterID = MCharacterID senderMember, IChannel = MChannel senderMember\<rparr>)) g;
         let g = sendPartyInviteResponse s partyInviteOK (targetMember\<lparr>MChannel := targetChannel\<rparr>) g;
         Some (sendPartyInviteNotification t senderMember g) } }"

definition PartyInvite_handler :: "uint16 list \<Rightarrow> uint16 \<Rightarrow> Reader \<Rightarrow> 'm Game \<Rightarrow> 'm Game option" where
  "PartyInvite_handler order s r g =
     (let respond = (\<lambda>result member. Some (sendPartyInviteResponse s result member g)); size = rSize r in
      if size < 16 then respond partyInviteError zero_PartyMember
      else do {
        (inviteType, r) \<leftarrow> ReadByte r;
        (targetCharacterID, r) \<leftarrow> ReadInt32 r;
        (targetChannel, r) \<leftarrow> ReadByte r;
        targetName \<leftarrow> (if size \<ge> 33 then do { (raw, r) \<leftarrow> ReadString (int partyMaxNameLength) r; Some (decodePartyName raw) }
                      else Some []);
        case Parse s g of
          None \<Rightarrow> respond partyInviteError zero_PartyMember
        | Some senderContext \<Rightarrow>
        case partyMemberFromContext s senderContext g of
          None \<Rightarrow> respond partyInviteError zero_PartyMember
        | Some senderMember \<Rightarrow>
        if inviteType \<noteq> 1 \<and> inviteType \<noteq> 2 then respond partyInviteError zero_PartyMember
        else if inviteType = 1 \<and> sint targetCharacterID \<le> 0 then respond partyInviteNotExist zero_PartyMember
        else case findPartySession order targetCharacterID targetName g of
          None \<Rightarrow> respond partyInviteNotExist zero_PartyMember
        | Some t \<Rightarrow>
        if t = s then respond partyInviteNotExist zero_PartyMember
        else case Parse t g of
          None \<Rightarrow> respond partyInviteNotExist zero_PartyMember
        | Some targetContext \<Rightarrow>
        case partyMemberFromContext t targetContext g of
          None \<Rightarrow> respond partyInviteNotExist zero_PartyMember
        | Some targetMember \<Rightarrow>
        case invite_refusal senderContext targetContext of
          Some refusal \<Rightarrow> respond refusal targetMember
        | None \<Rightarrow> reserve_invite s senderMember t targetMember targetChannel g })"

text \<open>
  \<open>PartyInviteResult\<close> from the point where both contexts are locked: \<open>s\<close> answers the invitation of \<open>inviter\<close>.
\<close>

definition answer_invite :: "uint16 \<Rightarrow> uint16 \<Rightarrow> int32 \<Rightarrow> bool \<Rightarrow> 'm Game \<Rightarrow> 'm Game option" where
  "answer_invite inviter s invitingCharacterID agreed g = do {
     inviterContext \<leftarrow> Option.bind (users g inviter) id;
     targetContext \<leftarrow> Option.bind (users g s) id;
     let valid = (IStatus (PartyInvite inviterContext) = PartyInviteOutgoing \<and>
       IOpponentUserIdx (PartyInvite inviterContext) = s \<and>
       IStatus (PartyInvite targetContext) = PartyInviteIncoming \<and>
       IOpponentUserIdx (PartyInvite targetContext) = inviter \<and>
       cChar inviterContext \<noteq> None \<and> cChar targetContext \<noteq> None \<and> char_id inviterContext = invitingCharacterID);
     let clear = (\<lambda>g. upd s (PartyInvite_update (\<lambda>_. zero_PartyInviteState))
       (upd inviter (PartyInvite_update (\<lambda>_. zero_PartyInviteState)) g));
     if \<not> valid then Some (sendPartyInviteAnswer s partyInviteAnswerFailed g)
     else if \<not> agreed
     then Some (sendPartyInviteResult inviter False (sendPartyInviteAnswer s partyInviteAnswerRejected (clear g)))
     else do {
       let ((party, result), g) = makePartyState inviter inviterContext s targetContext g;
       if result \<noteq> partyInviteOK
       then Some (sendPartyInviteResult inviter False (sendPartyInviteAnswer s partyInviteAnswerFailed (clear g)))
       else do {
         let g = sendPartyInviteResult inviter True (sendPartyInviteAnswer s partyInviteAnswerOK (clear g));
         let (sessions, g) = applyPartyState party g;
         let g = fold (\<lambda>i. sendPartyStats i party) sessions g;
         Some (sendPartyMemberStatsToMembers party g) } } }"

definition PartyInviteResult :: "uint16 \<Rightarrow> Reader \<Rightarrow> 'm Game \<Rightarrow> 'm Game option" where
  "PartyInviteResult s r g =
     (if rSize r < 19 then Some (sendPartyInviteAnswer s partyInviteAnswerFailed g)
      else do {
        (invitingCharacterID, r) \<leftarrow> ReadInt32 r;
        (_, r) \<leftarrow> ReadByte r;
        (answer, r) \<leftarrow> ReadInt32 r;
        let agreed = (answer \<noteq> 0);
        case Parse s g of
          None \<Rightarrow> Some (sendPartyInviteAnswer s partyInviteAnswerFailed g)
        | Some targetContext \<Rightarrow>
            let targetInvite = PartyInvite targetContext in
            if IStatus targetInvite \<noteq> PartyInviteIncoming \<or> IOpponentCharacterID targetInvite \<noteq> invitingCharacterID
            then Some (sendPartyInviteAnswer s partyInviteAnswerFailed g)
            else case Parse (IOpponentUserIdx targetInvite) g of
              None \<Rightarrow> Some (sendPartyInviteAnswer s partyInviteAnswerFailed g)
            | Some _ \<Rightarrow> answer_invite (IOpponentUserIdx targetInvite) s invitingCharacterID agreed g })"

definition PartyInviteCancel :: "uint16 \<Rightarrow> Reader \<Rightarrow> 'm Game \<Rightarrow> 'm Game option" where
  "PartyInviteCancel s r g =
     (if rSize r < 15 then Some (sendPartyInviteCancelResult s False g)
      else do {
        (_, r) \<leftarrow> ReadInt32 r;
        (_, r) \<leftarrow> ReadByte r;
        case Parse s g of
          None \<Rightarrow> Some (sendPartyInviteCancelResult s False g)
        | Some currentContext \<Rightarrow>
            let invite = PartyInvite currentContext; p = IOpponentUserIdx invite in
            if IStatus invite \<noteq> PartyInviteOutgoing then Some (sendPartyInviteCancelResult s False g)
            else if users g p = None
            then Some (sendPartyInviteCancelResult s True (upd s (PartyInvite_update (\<lambda>_. zero_PartyInviteState)) g))
            else case Parse p g of
              None \<Rightarrow> Some (sendPartyInviteCancelResult s False g)
            | Some peerContext \<Rightarrow>
                let valid = (IStatus (PartyInvite currentContext) = PartyInviteOutgoing \<and>
                      IStatus (PartyInvite peerContext) = PartyInviteIncoming \<and>
                      IOpponentUserIdx (PartyInvite peerContext) = s);
                    g = (if valid then upd p (PartyInvite_update (\<lambda>_. zero_PartyInviteState))
                          (upd s (PartyInvite_update (\<lambda>_. zero_PartyInviteState)) g) else g);
                    g = sendPartyInviteCancelResult s valid g in
                Some (if valid then sendPartyInviteCancelNotification p g else g) })"

section \<open>Leaving and being removed\<close>

definition without :: "uint16 \<Rightarrow> PartyMember list \<Rightarrow> PartyMember list" where
  "without i = filter (\<lambda>m. MUserIdx m \<noteq> i)"

definition LeaveParty :: "uint16 \<Rightarrow> 'm Game \<Rightarrow> bool \<times> 'm Game" where
  "LeaveParty s g =
     (case Parse s g of
        None \<Rightarrow> (False, g)
      | Some currentContext \<Rightarrow>
          let party = Party currentContext in
          case partyMemberFromContext s currentContext g of
            None \<Rightarrow> (False, g)
          | Some currentMember \<Rightarrow>
              if PId party = 0 then (False, g)
              else
                let remaining = without s (Members party);
                    g = upd s (\<lambda>ctx. ctx\<lparr>Party := zero_PartyState, PartyInvite := zero_PartyInviteState\<rparr>) g in
                case remaining of
                  [] \<Rightarrow> (True, g)
                | [m] \<Rightarrow>
                    (True, if users g (MUserIdx m) = None then g
                           else sendPartyMemberOut (MUserIdx m) (MCharacterID currentMember) (clearPartyState (MUserIdx m) g))
                | m # _ \<Rightarrow>
                    let party = party\<lparr>Members := remaining\<rparr>;
                        party = (if LeaderUserIdx party = s
                          then party\<lparr>LeaderUserIdx := MUserIdx m, LeaderCharacterID := MCharacterID m\<rparr> else party);
                        (sessions, g) = applyPartyState party g;
                        g = fold (\<lambda>i g. sendPartyStats i party (sendPartyMemberOut i (MCharacterID currentMember) g)) sessions g in
                    (True, sendPartyMemberStatsToMembers party g))"

definition PartyLeave :: "uint16 \<Rightarrow> Reader \<Rightarrow> 'm Game \<Rightarrow> 'm Game option" where
  "PartyLeave s r g = (let (ok, g) = LeaveParty s g in Some (sendPartyLeaveResult s ok g))"

text \<open>The party of a client that leads it, for the handlers only a leader may use.\<close>

definition led_party :: "uint16 \<Rightarrow> 'm Game \<Rightarrow> PartyState option" where
  "led_party s g =
     (case Parse s g of
        None \<Rightarrow> None
      | Some currentContext \<Rightarrow>
          let party = Party currentContext in
          if PId party = 0 \<or> LeaderUserIdx party \<noteq> s then None else Some party)"

definition PartyKickout :: "uint16 \<Rightarrow> Reader \<Rightarrow> 'm Game \<Rightarrow> 'm Game option" where
  "PartyKickout s r g =
     (let fail = Some (sendPartyKickoutResult s False g) in
      if rSize r < 15 then fail
      else do {
        (kickedCharacterID, r) \<leftarrow> ReadInt32 r;
        (_, r) \<leftarrow> ReadByte r;
        case led_party s g of
          None \<Rightarrow> fail
        | Some party \<Rightarrow>
        case partyMemberByCharacterID party kickedCharacterID of
          None \<Rightarrow> fail
        | Some kicked \<Rightarrow>
            if MUserIdx kicked = s then fail
            else
              let remaining = without (MUserIdx kicked) (Members party);
                  g = to_members (\<lambda>i. sendPartyKickoutNotification i kickedCharacterID) (Members party) g;
                  g = clearPartyState (MUserIdx kicked) g in
              if length remaining \<le> 1
              then
                let g = (case remaining of [m] \<Rightarrow> clearPartyState (MUserIdx m) g | _ \<Rightarrow> g) in
                Some (sendPartyKickoutResult s True g)
              else
                let party = party\<lparr>Members := remaining\<rparr>;
                    (sessions, g) = applyPartyState party g;
                    g = fold (\<lambda>i. sendPartyStats i party) sessions g;
                    g = sendPartyMemberStatsToMembers party g in
                Some (sendPartyKickoutResult s True g) })"

section \<open>The leader's settings\<close>

definition PartyLeaderChange :: "uint16 \<Rightarrow> Reader \<Rightarrow> 'm Game \<Rightarrow> 'm Game option" where
  "PartyLeaderChange s r g =
     (let fail = Some (sendPartyLeaderChangeResult s False g) in
      if rSize r < 14 then fail
      else do {
        (newLeaderCharacterID, r) \<leftarrow> ReadInt32 r;
        case led_party s g of
          None \<Rightarrow> fail
        | Some party \<Rightarrow>
        case partyMemberByCharacterID party newLeaderCharacterID of
          None \<Rightarrow> fail
        | Some newLeader \<Rightarrow>
            if MUserIdx newLeader = s then fail
            else
              let party = party\<lparr>LeaderUserIdx := MUserIdx newLeader, LeaderCharacterID := MCharacterID newLeader\<rparr>;
                  (sessions, g) = applyPartyState party g;
                  g = fold (\<lambda>i. sendPartyLeaderChangeNotification i (MCharacterID newLeader)) sessions g in
              Some (sendPartyLeaderChangeResult s True g) })"

definition PartyAuthChange :: "uint16 \<Rightarrow> Reader \<Rightarrow> 'm Game \<Rightarrow> 'm Game option" where
  "PartyAuthChange s r g =
     (let fail = Some (sendPartyAuthChangeResult s False g) in
      if rSize r < 14 then fail
      else do {
        (flag, r) \<leftarrow> ReadInt32 r;
        let leaderOnly = (flag \<noteq> 0);
        case led_party s g of
          None \<Rightarrow> fail
        | Some party \<Rightarrow>
            let party = party\<lparr>LeaderOnlyInviteAuthority := leaderOnly\<rparr>;
                (sessions, g) = applyPartyState party g;
                g = fold (\<lambda>i. sendPartyAuthChangeNotification i leaderOnly) sessions g in
            Some (sendPartyAuthChangeResult s True g) })"

definition PartyLootingType :: "uint16 \<Rightarrow> Reader \<Rightarrow> 'm Game \<Rightarrow> 'm Game option" where
  "PartyLootingType s r g =
     (let fail = Some (sendPartyLootingTypeResult s False g) in
      if rSize r < 18 then fail
      else do {
        (normal, r) \<leftarrow> ReadInt32 r;
        (owner, r) \<leftarrow> ReadInt32 r;
        if sint normal < 1 \<or> sint normal > 3 \<or> sint owner < 1 \<or> sint owner > 2 then fail
        else case led_party s g of
          None \<Rightarrow> fail
        | Some party \<Rightarrow>
            let party = party\<lparr>NormalLootingType := ucast normal, OwnerLootingType := ucast owner\<rparr>;
                (sessions, g) = applyPartyState party g;
                g = fold (\<lambda>i. sendPartyLootingTypeNotification i (NormalLootingType party) (OwnerLootingType party)) sessions g in
            Some (sendPartyLootingTypeResult s True g) })"

section \<open>Party search\<close>

definition PartySearchRegist :: "uint16 \<Rightarrow> Reader \<Rightarrow> 'm Game \<Rightarrow> 'm Game option" where
  "PartySearchRegist s r g =
     (let answer = (\<lambda>result. Some (sendPartySearchRegistResult s result g)) in
      if rSize r < 51 then answer 3
      else do {
        (maxMemberCount, r) \<leftarrow> ReadByte r;
        (raw, r) \<leftarrow> ReadBytes (int partySearchTitleSize) r;
        let title = trimRight0 raw;
        case Parse s g of
          None \<Rightarrow> answer 3
        | Some currentContext \<Rightarrow>
            if Registered (PartySearch currentContext) then answer 1
            else if (case cChar currentContext of None \<Rightarrow> True | Some c \<Rightarrow> cLevel c < 10) then answer 7
            else
              let party = Party currentContext in
              if PId party \<noteq> 0 \<and> LeaderUserIdx party \<noteq> s then answer 4
              else
                let memberCount = (if length (Members party) = 0 then 1 else length (Members party)) in
                if maxMemberCount = 0 \<or> unat maxMemberCount > PartyMaxMembers then answer 2
                else if unat maxMemberCount < memberCount then answer 6
                else
                  let g = upd s (PartySearch_update (\<lambda>_. \<lparr>Registered = True, MaxMemberCount = maxMemberCount, Title = title\<rparr>)) g in
                  Some (sendPartySearchRegistResult s 0 g) })"

record partySearchEntry =
  eLeaderCharacterID :: int32
  eLevel :: uint16
  eBattleStyle :: byte
  eChannel :: byte
  eName :: "byte list"
  eMaxMemberCount :: byte
  eTitle :: "byte list"
  CurrentMemberCount :: byte

primrec collectPartySearchEntries :: "uint16 list \<Rightarrow> 'm Game \<Rightarrow> partySearchEntry list" where
  "collectPartySearchEntries [] g = []"
| "collectPartySearchEntries (k # order) g =
     (case Parse k g of
        None \<Rightarrow> collectPartySearchEntries order g
      | Some ctx \<Rightarrow>
          let search = PartySearch ctx; party = Party ctx in
          (case cChar ctx of
             None \<Rightarrow> collectPartySearchEntries order g
           | Some c \<Rightarrow>
               if \<not> Registered search \<or> (PId party \<noteq> 0 \<and> LeaderUserIdx party \<noteq> k) then collectPartySearchEntries order g
               else
                 let count = (word_of_nat (length (Members party)) :: byte);
                     count = (if count = 0 then 1 else count) in
                 \<lparr>eLeaderCharacterID = CharId c, eLevel = cLevel c, eBattleStyle = BattleStyle (CharStyle c),
                   eChannel = ChannelId g, eName = Name c, eMaxMemberCount = MaxMemberCount search, eTitle = Title search,
                   CurrentMemberCount = count\<rparr> # collectPartySearchEntries order g))"

definition entry_fields :: "partySearchEntry \<Rightarrow> field list" where
  "entry_fields e = [FInt32 (eLeaderCharacterID e), FInt32 (ucast (eLevel e)), FByte (eBattleStyle e), FByte (eChannel e),
     writePartyName (eName e), FByte (eMaxMemberCount e), writeFixedPartyString (eTitle e) partySearchTitleSize,
     FByte (CurrentMemberCount e), FBytes (replicate (partySearchEntrySize - 69) 0)]"

definition PartySearchList :: "uint16 list \<Rightarrow> uint16 \<Rightarrow> Reader \<Rightarrow> 'm Game \<Rightarrow> 'm Game option" where
  "PartySearchList order s r g =
     (if rSize r < 10 then Some g
      else
        let entries = collectPartySearchEntries order g in
        Some (send s (2081, FUint32 (word_of_nat (length entries)) # concat (map entry_fields entries) @
          [FBytes (replicate partySearchEntrySize 0)]) g))"

definition party_handlers :: "('m Game \<Rightarrow> uint16 list) \<Rightarrow> (uint16 \<times> 'm handler) list" where
  "party_handlers order = [(2011, \<lambda>s r g. PartyInvite_handler (order g) s r g), (2013, PartyInviteResult), (2017, PartyInviteCancel),
     (2019, PartyLeave), (2021, PartyKickout), (2023, PartyLeaderChange), (2025, PartyAuthChange),
     (2033, PartyLootingType), (2077, PartySearchRegist), (2081, \<lambda>s r g. PartySearchList (order g) s r g)]"

end
