(* ===== verification/Freya_Party_Laws.thy ===== *)
theory Freya_Party_Laws
  imports Freya_Party Freya_Trade_Protocol
begin

text \<open>
  What the party handlers promise: everyone in a party has the same view of it, whatever the players do.
  Also the names on the wire, and an invitation that can get stuck.
\<close>

section \<open>Tables of parties\<close>

text \<open>
  The parties of the clients that have a character. In an agreed table a party has at most seven
  members, its leader is one of them, every member is there and has the same copy, and no other party has
  the same id.
\<close>

type_synonym parties = "uint16 \<rightharpoonup> PartyState"

definition parties_of :: "'m Game \<Rightarrow> parties" where
  "parties_of g = (\<lambda>i. map_option Party (Parse i g))"

definition ids :: "PartyState \<Rightarrow> uint16 set" where
  "ids p = MUserIdx ` set (Members p)"

definition group_ok :: "PartyState \<Rightarrow> bool" where
  "group_ok p \<longleftrightarrow> PId p \<noteq> 0 \<and> 2 \<le> length (Members p) \<and> length (Members p) \<le> PartyMaxMembers \<and>
     distinct (map MUserIdx (Members p)) \<and>
     list_ex (\<lambda>m. MUserIdx m = LeaderUserIdx p \<and> MCharacterID m = LeaderCharacterID p) (Members p)"

definition in_accord :: "nat \<Rightarrow> parties \<Rightarrow> bool" where
  "in_accord n P \<longleftrightarrow> (\<forall>i p. P i = Some p \<longrightarrow> p = zero_PartyState \<or>
     group_ok p \<and> unat (PId p) \<le> n \<and> i \<in> ids p \<and> (\<forall>j \<in> ids p. P j = Some p) \<and>
     (\<forall>j q. P j = Some q \<longrightarrow> PId q = PId p \<longrightarrow> q = p))"

lemma zero_PId [simp]: "PId zero_PartyState = 0"
  by (simp add: zero_PartyState_def)

lemma agreedD:
  assumes "in_accord n P" "P i = Some p" "p \<noteq> zero_PartyState"
  shows "group_ok p" "unat (PId p) \<le> n" "i \<in> ids p" "j \<in> ids p \<Longrightarrow> P j = Some p"
    "P j = Some q \<Longrightarrow> PId q = PId p \<Longrightarrow> q = p"
  using assms unfolding in_accord_def by blast+

lemma agreed_PId: "in_accord n P \<Longrightarrow> P i = Some p \<Longrightarrow> PId p = 0 \<longleftrightarrow> p = zero_PartyState"
  using agreedD(1) [of n P i p] by (auto simp: group_ok_def)

text \<open>
  The parties inside a set of clients that no party straddles may be replaced by one party, or by none.
\<close>

lemma regroup:
  assumes P: "in_accord n P" and n: "n \<le> n'"
    and closed: "\<And>i p. P i = Some p \<Longrightarrow> p \<noteq> zero_PartyState \<Longrightarrow> i \<notin> A \<Longrightarrow> ids p \<inter> A = {}"
    and out: "\<And>i. i \<notin> A \<Longrightarrow> P' i = P i"
    and inside: "\<And>i p. i \<in> A \<Longrightarrow> P' i = Some p \<Longrightarrow> p = zero_PartyState \<or> G = Some p \<and> i \<in> ids p"
    and G: "\<And>p. G = Some p \<Longrightarrow> group_ok p \<and> unat (PId p) \<le> n' \<and> ids p \<subseteq> A \<and> (\<forall>j \<in> ids p. P' j = Some p)"
    and fresh: "\<And>p j q. G = Some p \<Longrightarrow> j \<notin> A \<Longrightarrow> P j = Some q \<Longrightarrow> PId q \<noteq> PId p"
  shows "in_accord n' P'"
  unfolding in_accord_def
proof (intro allI impI)
  fix i p
  assume i: "P' i = Some p"
  show "p = zero_PartyState \<or> group_ok p \<and> unat (PId p) \<le> n' \<and> i \<in> ids p \<and> (\<forall>j \<in> ids p. P' j = Some p) \<and>
     (\<forall>j q. P' j = Some q \<longrightarrow> PId q = PId p \<longrightarrow> q = p)"
  proof (cases "p = zero_PartyState")
    case False
    show ?thesis
    proof (cases "i \<in> A")
      case True
      with inside i False have p: "G = Some p" "i \<in> ids p" by blast+
      have "q = p" if "P' j = Some q" "PId q = PId p" for j q
      proof (cases "j \<in> A")
        case True
        have "PId p \<noteq> 0" using G [OF p(1)] by (simp add: group_ok_def)
        with inside [OF True that(1)] p(1) that(2) show ?thesis by auto
      next
        case False
        with fresh [OF p(1) False] out that show ?thesis by simp
      qed
      with G [OF p(1)] p(2) show ?thesis by blast
    next
      case notA: False
      with out i have Pi: "P i = Some p" by simp
      note d = agreedD [OF P Pi False]
      have "P' j = Some p" if "j \<in> ids p" for j
        using closed [OF Pi False notA] that d(4) [OF that] out [of j] by auto
      moreover have "q = p" if "P' j = Some q" "PId q = PId p" for j q
      proof (cases "j \<in> A")
        case True
        have "PId p \<noteq> 0" using d(1) by (simp add: group_ok_def)
        with inside [OF True that(1)] that(2) fresh [OF _ notA Pi] show ?thesis by auto
      next
        case False
        with out that d(5) show ?thesis by simp
      qed
      ultimately show ?thesis using d(1,2,3) n by auto
    qed
  qed simp
qed

text \<open>The copies of the members of a party replaced, and the moves of the handlers.\<close>

definition renew :: "uint16 set \<Rightarrow> PartyState \<Rightarrow> parties \<Rightarrow> parties" where
  "renew S p P = (\<lambda>i. if i \<in> S \<and> P i \<noteq> None then Some p else P i)"

lemma agreed_member:
  assumes "in_accord n P" "P i = Some p" "p \<noteq> zero_PartyState" "P j = Some q" "k \<in> ids p" "k \<in> ids q"
  shows "j \<in> ids p"
proof -
  have "P k = Some p" using agreedD(4) [OF assms(1-3)] assms(5) .
  moreover have "P k = Some q"
  proof (cases "q = zero_PartyState")
    case True
    with assms(6) show ?thesis by (simp add: ids_def zero_PartyState_def)
  qed (use agreedD(4) [OF assms(1,4)] assms(6) in simp)
  ultimately have "q = p" by simp
  with agreedD(3) [OF assms(1,4)] assms(3) show ?thesis by simp
qed

lemma agreed_change:
  assumes P: "in_accord n P" "P s = Some p" "p \<noteq> zero_PartyState"
    and p': "group_ok p'" "PId p' = PId p" "ids p' \<subseteq> ids p"
  shows "in_accord n (renew (ids p') p' (renew (ids p) zero_PartyState P))"
proof (rule regroup [where A = "ids p" and G = "Some p'", OF P(1)])
  note d = agreedD [OF P]
  fix i q
  assume q: "P i = Some q" "q \<noteq> zero_PartyState" "i \<notin> ids p"
  show "ids q \<inter> ids p = {}" using agreed_member [OF P q(1)] q(3) by auto
next
  note d = agreedD [OF P]
  fix q j r
  assume "Some p' = Some q" "j \<notin> ids p" "P j = Some r"
  then show "PId r \<noteq> PId q" using d(5) [of j r] agreedD(3) [OF P(1), of j r] P(3) p'(2) by auto
next
  note d = agreedD [OF P]
  fix q
  assume "Some p' = Some q"
  then show "group_ok q \<and> unat (PId q) \<le> n \<and> ids q \<subseteq> ids p \<and>
      (\<forall>j \<in> ids q. renew (ids p') p' (renew (ids p) zero_PartyState P) j = Some q)"
    using p' d(2,4) by (auto simp: renew_def)
qed (use p' in \<open>auto simp: renew_def split: if_splits\<close>)

lemma agreed_dissolve:
  assumes P: "in_accord n P" "P s = Some p" "p \<noteq> zero_PartyState"
  shows "in_accord n (renew (ids p) zero_PartyState P)"
proof (rule regroup [where A = "ids p" and G = None, OF P(1)])
  fix i q
  assume q: "P i = Some q" "q \<noteq> zero_PartyState" "i \<notin> ids p"
  show "ids q \<inter> ids p = {}" using agreed_member [OF P q(1)] q(3) by auto
qed (auto simp: renew_def split: if_splits)

lemma agreed_join:
  assumes P: "in_accord n P" "P s = Some p" "p \<noteq> zero_PartyState" "P k = Some zero_PartyState"
    and p': "group_ok p'" "PId p' = PId p" "ids p' = insert k (ids p)"
  shows "in_accord n (renew (ids p') p' P)"
proof (rule regroup [where A = "ids p'" and G = "Some p'", OF P(1)])
  note d = agreedD [OF P(1-3)]
  fix i q
  assume q: "P i = Some q" "q \<noteq> zero_PartyState" "i \<notin> ids p'"
  have "k \<notin> ids q" using agreedD(4) [OF P(1) q(1,2)] P(4) q(2) by auto
  then show "ids q \<inter> ids p' = {}" using agreed_member [OF P(1-3) q(1)] q(3) p'(3) by auto
next
  note d = agreedD [OF P(1-3)]
  fix q j r
  assume "Some p' = Some q" "j \<notin> ids p'" "P j = Some r"
  then show "PId r \<noteq> PId q" using d(5) [of j r] agreedD(3) [OF P(1), of j r] P(3) p'(2,3) by auto
next
  note d = agreedD [OF P(1-3)]
  fix q
  assume "Some p' = Some q"
  then show "group_ok q \<and> unat (PId q) \<le> n \<and> ids q \<subseteq> ids p' \<and> (\<forall>j \<in> ids q. renew (ids p') p' P j = Some q)"
    using p' d(2,4) P(4) by (auto simp: renew_def)
qed (use p' agreedD(4) [OF P(1-3)] P(4) in \<open>auto simp: renew_def split: if_splits\<close>)

lemma agreed_found:
  assumes P: "in_accord n P" "P s = Some zero_PartyState" "P k = Some zero_PartyState"
    and p': "group_ok p'" "unat (PId p') = Suc n" "ids p' = {s, k}"
  shows "in_accord (Suc n) (renew (ids p') p' P)"
proof (rule regroup [where A = "ids p'" and G = "Some p'", OF P(1)])
  fix i q
  assume q: "P i = Some q" "q \<noteq> zero_PartyState" "i \<notin> ids p'"
  show "ids q \<inter> ids p' = {}" using agreedD(4) [OF P(1) q(1,2)] P(2,3) q(2) p'(3) by auto
next
  fix q j r
  assume "Some p' = Some q" "j \<notin> ids p'" "P j = Some r"
  moreover have "unat (PId r) \<le> n" using agreedD(2) [OF P(1) calculation(3)] by (cases "r = zero_PartyState") auto
  ultimately show "PId r \<noteq> PId q" using p'(2) by auto
qed (use p' P in \<open>auto simp: renew_def split: if_splits\<close>)

section \<open>What the operations do to the table\<close>

text \<open>Packets change neither the clients nor the counter of the parties.\<close>

lemma parties_users: "users g' = users g \<Longrightarrow> parties_of g' = parties_of g"
  by (simp add: parties_of_def Parse_def)

lemma users_fold: "(\<And>x g. users (f x g) = users g) \<Longrightarrow> users (fold f xs g) = users g"
  by (induction xs arbitrary: g) simp_all

lemma seq_fold: "(\<And>x g. partySequence (f x g) = partySequence g) \<Longrightarrow> partySequence (fold f xs g) = partySequence g"
  by (induction xs arbitrary: g) simp_all

lemma send_party_users [simp]:
  "users (sendPartyInviteResponse s x m g) = users g" "users (sendPartyInviteNotification s m g) = users g"
  "users (sendPartyInviteAnswer s x g) = users g" "users (sendPartyInviteResult s b g) = users g"
  "users (sendPartyInviteCancelResult s b g) = users g" "users (sendPartyInviteCancelNotification s g) = users g"
  "users (sendPartyLeaveResult s b g) = users g" "users (sendPartyMemberOut s c g) = users g"
  "users (sendPartyKickoutResult s b g) = users g" "users (sendPartyKickoutNotification s c g) = users g"
  "users (sendPartyLeaderChangeResult s b g) = users g" "users (sendPartyLeaderChangeNotification s c g) = users g"
  "users (sendPartyAuthChangeResult s b g) = users g" "users (sendPartyAuthChangeNotification s b g) = users g"
  "users (sendPartyLootingTypeResult s b g) = users g" "users (sendPartyLootingTypeNotification s x y g) = users g"
  "users (sendPartySearchRegistResult s x g) = users g" "users (sendPartyStats s p g) = users g"
  "users (sendPartyMemberStats s p g) = users g"
  by (simp_all add: send_party_defs sendPartyStats_def sendPartyMemberStats_def)

lemma send_party_seq [simp]:
  "partySequence (sendPartyInviteResponse s x m g) = partySequence g"
  "partySequence (sendPartyInviteNotification s m g) = partySequence g"
  "partySequence (sendPartyInviteAnswer s x g) = partySequence g" "partySequence (sendPartyInviteResult s b g) = partySequence g"
  "partySequence (sendPartyInviteCancelResult s b g) = partySequence g"
  "partySequence (sendPartyInviteCancelNotification s g) = partySequence g"
  "partySequence (sendPartyLeaveResult s b g) = partySequence g" "partySequence (sendPartyMemberOut s c g) = partySequence g"
  "partySequence (sendPartyKickoutResult s b g) = partySequence g"
  "partySequence (sendPartyKickoutNotification s c g) = partySequence g"
  "partySequence (sendPartyLeaderChangeResult s b g) = partySequence g"
  "partySequence (sendPartyLeaderChangeNotification s c g) = partySequence g"
  "partySequence (sendPartyAuthChangeResult s b g) = partySequence g"
  "partySequence (sendPartyAuthChangeNotification s b g) = partySequence g"
  "partySequence (sendPartyLootingTypeResult s b g) = partySequence g"
  "partySequence (sendPartyLootingTypeNotification s x y g) = partySequence g"
  "partySequence (sendPartySearchRegistResult s x g) = partySequence g"
  "partySequence (sendPartyStats s p g) = partySequence g" "partySequence (sendPartyMemberStats s p g) = partySequence g"
  by (simp_all add: send_party_defs sendPartyStats_def sendPartyMemberStats_def)

lemma to_members_quiet [simp]:
  assumes "\<And>i g. users (f i g) = users g" "\<And>i g. partySequence (f i g) = partySequence g"
  shows "users (to_members f ms g) = users g" "partySequence (to_members f ms g) = partySequence g"
  by (simp_all add: to_members_def users_fold seq_fold assms)

lemma stats_quiet [simp]:
  "users (sendPartyMemberStatsToMembers p g) = users g" "partySequence (sendPartyMemberStatsToMembers p g) = partySequence g"
  by (simp_all add: sendPartyMemberStatsToMembers_def)

text \<open>
  The invariant of the server: the table agrees, and a context without a character is in no party. It
  depends on the clients and the counter only.
\<close>

definition party_inv :: "'m Game \<Rightarrow> bool" where
  "party_inv g \<longleftrightarrow> in_accord (unat (partySequence g)) (parties_of g) \<and>
     (\<forall>i c. users g i = Some (Some c) \<longrightarrow> cChar c = None \<longrightarrow> Party c = zero_PartyState)"

lemma party_inv_quiet: "users h = users g \<Longrightarrow> partySequence h = partySequence g \<Longrightarrow> party_inv h = party_inv g"
  by (simp add: party_inv_def parties_users [of h g])

lemma parties_upd:
  "(\<And>c. cChar (f c) = None \<longleftrightarrow> cChar c = None) \<Longrightarrow> (\<And>c. Party (f c) = h (Party c)) \<Longrightarrow>
     parties_of (upd i f g) = (\<lambda>j. if j = i then map_option h (parties_of g j) else parties_of g j)"
  by (auto simp: parties_of_def fun_eq_iff Parse_upd option.map_comp comp_def)

lemma parties_upd_other [simp]:
  "parties_of (upd i (PartyInvite_update f) g) = parties_of g" "parties_of (upd i (PartySearch_update h) g) = parties_of g"
  by (subst parties_upd [where h = id]; simp add: fun_eq_iff option.map_id)+

lemma lobby_other:
  assumes "\<And>c. cChar (f c) = cChar c" "\<And>c. Party (f c) = Party c"
  shows "(\<forall>j c. users (upd i f g) j = Some (Some c) \<longrightarrow> cChar c = None \<longrightarrow> Party c = zero_PartyState) \<longleftrightarrow>
    (\<forall>j c. users g j = Some (Some c) \<longrightarrow> cChar c = None \<longrightarrow> Party c = zero_PartyState)"
proof (intro iffI allI impI)
  fix j c
  assume a: "\<forall>j c. users (upd i f g) j = Some (Some c) \<longrightarrow> cChar c = None \<longrightarrow> Party c = zero_PartyState"
    and c: "users g j = Some (Some c)" "cChar c = None"
  show "Party c = zero_PartyState"
    using a [rule_format, of j "if j = i then f c else c"] c assms by (cases "j = i") (simp_all add: users_upd)
qed (auto simp: users_upd assms split: if_splits)

lemma party_inv_upd [simp]:
  "party_inv (upd i (PartyInvite_update f) g) = party_inv g" "party_inv (upd i (PartySearch_update h) g) = party_inv g"
  by (simp_all add: party_inv_def lobby_other)

lemma party_inv_regroup:
  assumes "party_inv g" "same_lobby g h" "in_accord (unat (partySequence h)) (parties_of h)"
  shows "party_inv h"
  unfolding party_inv_def
proof (intro conjI allI impI)
  fix i c
  assume c: "users h i = Some (Some c)" "cChar c = None"
  then have "Parse i h = None" by (simp add: Parse_def)
  from lobby_D [OF assms(2) this] c assms(1) show "Party c = zero_PartyState" by (auto simp: party_inv_def)
qed (rule assms)

lemma renew_Un: "renew A p (renew B p P) = renew (A \<union> B) p P"
  by (auto simp: renew_def)

lemma renew_idle: "(\<And>i. i \<in> A \<Longrightarrow> P i = None) \<Longrightarrow> renew A p P = P"
  by (auto simp: renew_def)

lemma apply_members:
  "parties_of (snd (apply_members p seen ms g)) = renew (MUserIdx ` set ms - seen) p (parties_of g)"
  "same_lobby g (snd (apply_members p seen ms g))"
  "partySequence (snd (apply_members p seen ms g)) = partySequence g"
proof (induction ms arbitrary: g seen)
  case Nil
  {
    case 1 show ?case by (simp add: renew_def)
  next
    case 2 show ?case by simp
  next
    case 3 show ?case by simp
  }
next
  case (Cons m ms)
  let ?i = "MUserIdx m"
  let ?h = "\<lambda>g. upd ?i (\<lambda>ctx. ctx\<lparr>Party := p, PartyInvite := zero_PartyInviteState\<rparr>) g"
  have h: "parties_of (?h g) = renew {?i} p (parties_of g)" for g
    by (subst parties_upd [where h = "\<lambda>_. p"]) (auto simp: renew_def fun_eq_iff)
  have lobby: "same_lobby g (?h g)" if "Parse ?i g = Some c" for c g
    using that by (intro lobby_upd) simp_all
  {
    case (1 g seen)
    show ?case
    proof (cases "?i \<in> seen \<or> Parse ?i g = None")
      case True
      note skip = this
      show ?thesis
      proof (cases "?i \<in> seen")
        case True
        then have "MUserIdx ` set (m # ms) - seen = MUserIdx ` set ms - seen" by auto
        with True show ?thesis by (simp only: apply_members.simps Let_def if_True Cons.IH(1))
      next
        case False
        with skip have none: "Parse ?i g = None" by simp
        have "MUserIdx ` set (m # ms) - seen = insert ?i (MUserIdx ` set ms - insert ?i seen)" using False by auto
        moreover have "renew (insert ?i A) p (parties_of g) = renew A p (parties_of g)" for A
          using none by (auto simp: renew_def parties_of_def fun_eq_iff)
        ultimately show ?thesis using False none by (simp add: Let_def Cons.IH(1))
      qed
    next
      case False
      then obtain c where c: "?i \<notin> seen" "Parse ?i g = Some c" by auto
      have "MUserIdx ` set ms - insert ?i seen \<union> {?i} = MUserIdx ` set (m # ms) - seen" using c(1) by auto
      moreover have "parties_of (snd (apply_members p seen (m # ms) g)) =
          renew (MUserIdx ` set ms - insert ?i seen) p (parties_of (?h g))"
        using c by (simp add: Cons.IH(1) Let_def case_prod_unfold)
      ultimately show ?thesis unfolding h renew_Un by simp
    qed
  next
    case (2 g seen)
    show ?case
    proof (cases "?i \<in> seen \<or> Parse ?i g = None")
      case True
      then show ?thesis using Cons.IH(2) by (auto simp: Let_def split: option.split)
    next
      case False
      then obtain c where c: "?i \<notin> seen" "Parse ?i g = Some c" by auto
      show ?thesis using c lobby_trans [OF lobby [OF c(2)] Cons.IH(2)] by (simp add: Let_def case_prod_unfold)
    qed
  next
    case 3 show ?case by (simp add: Let_def case_prod_unfold Cons.IH(3) split: option.split)
  }
qed

lemma applyPartyState_D:
  assumes "applyPartyState p g = (sessions, h)"
  shows "parties_of h = renew (ids p) p (parties_of g)" "same_lobby g h" "partySequence h = partySequence g"
  using apply_members [where p = p and seen = "{}" and ms = "Members p" and g = g] assms by (simp_all add: applyPartyState_def ids_def)

lemma clearPartyState_D [simp]:
  "parties_of (clearPartyState s g) = renew {s} zero_PartyState (parties_of g)"
  "same_lobby g (clearPartyState s g)" "partySequence (clearPartyState s g) = partySequence g"
proof -
  let ?h = "upd s (\<lambda>ctx. ctx\<lparr>Party := zero_PartyState, PartyInvite := zero_PartyInviteState\<rparr>) g"
  have "parties_of ?h = renew {s} zero_PartyState (parties_of g)"
    by (subst parties_upd [where h = "\<lambda>_. zero_PartyState"]) (auto simp: renew_def fun_eq_iff)
  moreover have "renew {s} zero_PartyState (parties_of g) = parties_of g" if "Parse s g = None"
    using that by (intro renew_idle) (simp add: parties_of_def)
  ultimately show "parties_of (clearPartyState s g) = renew {s} zero_PartyState (parties_of g)"
    by (simp add: clearPartyState_def split: option.split)
  show "same_lobby g (clearPartyState s g)"
    by (auto simp: clearPartyState_def intro!: lobby_upd split: option.split)
  show "partySequence (clearPartyState s g) = partySequence g"
    by (simp add: clearPartyState_def split: option.split)
qed

lemma parties_Parse: "Parse i g = Some c \<Longrightarrow> parties_of g i = Some (Party c)"
  by (simp add: parties_of_def)

section \<open>Every handler keeps the parties in_accord\<close>

lemma party_inv_D:
  assumes "party_inv g" "Parse i g = Some c"
  shows "in_accord (unat (partySequence g)) (parties_of g)" "parties_of g i = Some (Party c)"
    "PId (Party c) = 0 \<longleftrightarrow> Party c = zero_PartyState"
  using assms agreed_PId [of _ "parties_of g" i "Party c"] by (auto simp: party_inv_def parties_Parse)

lemma party_inv_send [simp]:
  "party_inv (sendPartyInviteResponse s x m g) = party_inv g" "party_inv (sendPartyInviteNotification s m g) = party_inv g"
  "party_inv (sendPartyInviteAnswer s x g) = party_inv g" "party_inv (sendPartyInviteResult s b g) = party_inv g"
  "party_inv (sendPartyInviteCancelResult s b g) = party_inv g" "party_inv (sendPartyInviteCancelNotification s g) = party_inv g"
  "party_inv (sendPartyLeaveResult s b g) = party_inv g" "party_inv (sendPartyMemberOut s c g) = party_inv g"
  "party_inv (sendPartyKickoutResult s b g) = party_inv g" "party_inv (sendPartyLeaderChangeResult s b g) = party_inv g"
  "party_inv (sendPartyAuthChangeResult s b g) = party_inv g" "party_inv (sendPartyLootingTypeResult s b g) = party_inv g"
  "party_inv (sendPartySearchRegistResult s x g) = party_inv g" "party_inv (sendPartyMemberStatsToMembers p g) = party_inv g"
  "party_inv (send s k g) = party_inv g"
  by (rule party_inv_quiet; simp)+

lemma party_inv_fold [simp]:
  assumes "\<And>x g. users (f x g) = users g" "\<And>x g. partySequence (f x g) = partySequence g"
  shows "party_inv (fold f xs g) = party_inv g" "partySequence (fold f xs g) = partySequence g"
  using party_inv_quiet [of "fold f xs g" g] by (simp_all add: users_fold seq_fold assms)

lemma renew_empty [simp]: "renew {} p P = P"
  by (simp add: renew_def)

lemma renew_over: "A \<union> B = A \<union> C \<Longrightarrow> renew A p (renew B q P) = renew A p (renew C q P)"
  by (auto simp: renew_def fun_eq_iff)

text \<open>A party that changes, or loses the members outside its new member list.\<close>

lemma change_keeps:
  assumes inv: "party_inv g" "Parse s g = Some c" "PId (Party c) \<noteq> 0"
    and p: "group_ok p" "PId p = PId (Party c)" "ids p \<union> B = ids (Party c)"
    and g1: "same_lobby g g1" "partySequence g1 = partySequence g" "parties_of g1 = renew B zero_PartyState (parties_of g)"
    and h: "applyPartyState p g1 = (sessions, h)"
  shows "party_inv h" "partySequence h = partySequence g" "parties_of h = renew (ids p) p (parties_of g1)"
proof -
  note D = party_inv_D [OF inv(1,2)] and A = applyPartyState_D [OF h]
  show "partySequence h = partySequence g" "parties_of h = renew (ids p) p (parties_of g1)" using A g1 by simp_all
  have "in_accord (unat (partySequence g)) (renew (ids p) p (renew (ids (Party c)) zero_PartyState (parties_of g)))"
    using inv(3) p D(3) by (intro agreed_change [OF D(1,2)]) auto
  moreover have "renew (ids p) p (renew B zero_PartyState (parties_of g)) =
      renew (ids p) p (renew (ids (Party c)) zero_PartyState (parties_of g))"
    using p(3) by (intro renew_over) auto
  ultimately show "party_inv h"
    using A g1 by (intro party_inv_regroup [OF inv(1) lobby_trans [OF g1(1) A(2)]]) simp
qed

lemma dissolve_keeps:
  assumes inv: "party_inv g" "Parse s g = Some c" "PId (Party c) \<noteq> 0"
    and h: "same_lobby g h" "partySequence h = partySequence g" "parties_of h = renew (ids (Party c)) zero_PartyState (parties_of g)"
  shows "party_inv h"
proof -
  note D = party_inv_D [OF inv(1,2)]
  have "in_accord (unat (partySequence g)) (renew (ids (Party c)) zero_PartyState (parties_of g))"
    using inv(3) D(3) by (intro agreed_dissolve [OF D(1,2)]) auto
  with h show ?thesis by (intro party_inv_regroup [OF inv(1) h(1)]) simp
qed

lemma party_D:
  assumes "party_inv g" "Parse s g = Some c" "PId (Party c) \<noteq> 0"
  shows "group_ok (Party c)" "s \<in> ids (Party c)" "j \<in> ids (Party c) \<Longrightarrow> \<exists>d. Parse j g = Some d \<and> Party d = Party c"
proof -
  note D = party_inv_D [OF assms(1,2)]
  have n: "Party c \<noteq> zero_PartyState" using assms(3) D(3) by simp
  show "group_ok (Party c)" "s \<in> ids (Party c)" using agreedD(1,3) [OF D(1,2) n] by simp_all
  show "\<exists>d. Parse j g = Some d \<and> Party d = Party c" if "j \<in> ids (Party c)"
    using agreedD(4) [OF D(1,2) n that] by (simp add: parties_of_def)
qed

lemma ids_without [simp]:
  "ids (p\<lparr>Members := without k (Members q)\<rparr>) = ids q - {k}"
  "ids (p\<lparr>LeaderUserIdx := l, LeaderCharacterID := a\<rparr>) = ids p" "ids (p\<lparr>LeaderOnlyInviteAuthority := b\<rparr>) = ids p"
  "ids (p\<lparr>NormalLootingType := x, OwnerLootingType := y\<rparr>) = ids p"
  by (auto simp: ids_def without_def)

lemma group_ok_lead:
  "group_ok p \<Longrightarrow> m \<in> set (Members p) \<Longrightarrow> group_ok (p\<lparr>LeaderUserIdx := MUserIdx m, LeaderCharacterID := MCharacterID m\<rparr>)"
  by (auto simp: group_ok_def list_ex_iff)

lemma group_ok_settings [simp]:
  "group_ok (p\<lparr>LeaderOnlyInviteAuthority := b\<rparr>) = group_ok p"
  "group_ok (p\<lparr>NormalLootingType := x, OwnerLootingType := y\<rparr>) = group_ok p"
  by (simp_all add: group_ok_def)

lemma group_ok_without:
  assumes "group_ok p" "2 \<le> length (without k (Members p))" "LeaderUserIdx p \<noteq> k"
  shows "group_ok (p\<lparr>Members := without k (Members p)\<rparr>)"
proof -
  have "length (without k (Members p)) \<le> length (Members p)" by (simp add: without_def)
  moreover have "distinct (map MUserIdx (without k (Members p)))"
    using assms(1) by (auto simp: group_ok_def without_def distinct_map inj_on_def)
  moreover have "\<exists>m \<in> set (without k (Members p)). MUserIdx m = LeaderUserIdx p \<and> MCharacterID m = LeaderCharacterID p"
    using assms(1,3) by (auto simp: group_ok_def without_def list_ex_iff)
  ultimately show ?thesis using assms by (auto simp: group_ok_def list_ex_iff)
qed

lemma group_ok_succeed:
  assumes "group_ok p" "2 \<le> length (without k (Members p))" "m \<in> set (without k (Members p))"
  shows "group_ok (p\<lparr>Members := without k (Members p), LeaderUserIdx := MUserIdx m, LeaderCharacterID := MCharacterID m\<rparr>)"
proof -
  have "m \<in> set (Members p)" "MUserIdx m \<noteq> k" using assms(3) by (auto simp: without_def)
  from group_ok_without [OF group_ok_lead [OF assms(1) this(1)], of k] this(2) assms(2)
  have "group_ok (p\<lparr>LeaderUserIdx := MUserIdx m, LeaderCharacterID := MCharacterID m, Members := without k (Members p)\<rparr>)"
    by simp
  then show ?thesis by (simp add: group_ok_def)
qed

lemma ids_filter: "ids p = MUserIdx ` set (without k (Members p)) \<union> (ids p \<inter> {k})"
  by (auto simp: ids_def without_def)

lemma renew_reach: "i \<notin> B \<Longrightarrow> renew B p P i = P i"
  by (simp add: renew_def)

lemma LeaveParty_keeps:
  assumes inv: "party_inv g" and l: "LeaveParty s g = (ok, h)"
  shows "party_inv h" "partySequence h = partySequence g" "parties_of h s = None \<or> parties_of h s = Some zero_PartyState"
proof -
  have "party_inv h \<and> partySequence h = partySequence g \<and> (parties_of h s = None \<or> parties_of h s = Some zero_PartyState)"
  proof (cases "Parse s g")
    case None
    with l inv show ?thesis by (auto simp: LeaveParty_def parties_of_def)
  next
    case (Some c)
    note P = party_inv_D [OF inv Some]
    obtain me where me: "partyMemberFromContext s c g = Some me"
      using Some by (auto simp: partyMemberFromContext_def Parse_Some)
    show ?thesis
    proof (cases "PId (Party c) = 0")
      case True
      with l Some me inv P show ?thesis by (simp add: LeaveParty_def)
    next
      case False
      let ?rest = "without s (Members (Party c))"
      define g1 where "g1 = upd s (\<lambda>ctx. ctx\<lparr>Party := zero_PartyState, PartyInvite := zero_PartyInviteState\<rparr>) g"
      have "g1 = clearPartyState s g" using Some by (simp add: g1_def clearPartyState_def)
      note g1 = clearPartyState_D [where s = s and g = g, folded this]
      have leave: "LeaveParty s g = (case ?rest of [] \<Rightarrow> (True, g1)
          | [m] \<Rightarrow> (True, if users g1 (MUserIdx m) = None then g1
                 else sendPartyMemberOut (MUserIdx m) (MCharacterID me) (clearPartyState (MUserIdx m) g1))
          | m # _ \<Rightarrow> let party = (Party c)\<lparr>Members := ?rest\<rparr>;
              party = (if LeaderUserIdx party = s
                  then party\<lparr>LeaderUserIdx := MUserIdx m, LeaderCharacterID := MCharacterID m\<rparr> else party);
              (sessions, g) = applyPartyState party g1;
              g = fold (\<lambda>i g. sendPartyStats i party (sendPartyMemberOut i (MCharacterID me) g)) sessions g in
              (True, sendPartyMemberStatsToMembers party g))"
        unfolding LeaveParty_def Some option.case Let_def me if_not_P [OF False] g1_def [symmetric] by (rule refl)
      note D = party_D [OF inv Some False]
      have rest: "ids (Party c) = MUserIdx ` set ?rest \<union> {s}" using ids_filter [of "Party c" s] D(2) by auto
      have s: "parties_of g1 s = None \<or> parties_of g1 s = Some zero_PartyState" by (auto simp: g1 renew_def)
      consider "?rest = []" | m where "?rest = [m]" | m m' ms where "?rest = m # m' # ms"
        by (metis neq_Nil_conv)
      then show ?thesis
      proof cases
        case 1
        then have "h = g1" using l leave by simp
        with dissolve_keeps [OF inv Some False g1(2,3)] g1 1 rest s show ?thesis by simp
      next
        case (2 m)
        then have "m \<in> set ?rest" by simp
        then have m: "MUserIdx m \<in> ids (Party c)" "MUserIdx m \<noteq> s" by (auto simp: ids_def without_def)
        from D(3) [OF m(1)] obtain d where "Parse (MUserIdx m) g = Some d" by blast
        then have "users g1 (MUserIdx m) \<noteq> None" using m(2) by (simp add: g1_def users_upd Parse_Some)
        then have h: "h = sendPartyMemberOut (MUserIdx m) (MCharacterID me) (clearPartyState (MUserIdx m) g1)"
          using l leave 2 by (auto split: if_splits)
        have parties: "parties_of (clearPartyState (MUserIdx m) g1) = renew (ids (Party c)) zero_PartyState (parties_of g)"
          using g1 rest 2 by (simp add: renew_Un)
        have "party_inv (clearPartyState (MUserIdx m) g1)"
          using dissolve_keeps [OF inv Some False lobby_trans [OF g1(2) clearPartyState_D(2)] _ parties] g1 by simp
        moreover have "parties_of h = renew (ids (Party c)) zero_PartyState (parties_of g)"
          using parties by (simp add: h parties_users [OF send_party_users(8)])
        ultimately show ?thesis using h g1 D(2) by (simp add: renew_def)
      next
        case (3 m m' ms)
        define p where "p = (if LeaderUserIdx (Party c) = s
          then (Party c)\<lparr>Members := ?rest, LeaderUserIdx := MUserIdx m, LeaderCharacterID := MCharacterID m\<rparr>
          else (Party c)\<lparr>Members := ?rest\<rparr>)"
        obtain sessions k where k: "applyPartyState p g1 = (sessions, k)" by (cases "applyPartyState p g1") auto
        have "2 \<le> length ?rest" "m \<in> set ?rest" using 3 by simp_all
        then have p: "group_ok p" "PId p = PId (Party c)" "ids p = ids (Party c) - {s}"
          unfolding p_def by (simp_all add: group_ok_without [OF D(1)] group_ok_succeed [OF D(1)])
        then have u: "ids p \<union> {s} = ids (Party c)" using D(2) by auto
        note K = change_keeps [OF inv Some False p(1,2) u g1(2,3,1) k]
        have h: "h = sendPartyMemberStatsToMembers p
            (fold (\<lambda>i g. sendPartyStats i p (sendPartyMemberOut i (MCharacterID me) g)) sessions k)"
          using l leave 3 k by (simp add: Let_def p_def if_distrib [of LeaderUserIdx] cong: if_cong split: if_splits)
        then have users: "users h = users k" by (simp add: users_fold)
        have "s \<notin> ids p" using p(3) by simp
        then have "parties_of h s = parties_of g1 s" by (simp add: parties_users [OF users] K(3) renew_reach)
        with s K h show ?thesis by simp
      qed
    qed
  qed
  then show "party_inv h" "partySequence h = partySequence g" "parties_of h s = None \<or> parties_of h s = Some zero_PartyState"
    by simp_all
qed

abbreviation keeps :: "'m Game \<Rightarrow> 'm Game option \<Rightarrow> bool" where
  "keeps g \<equiv> returns (\<lambda>h. party_inv h \<and> unat (partySequence h) \<le> Suc (unat (partySequence g)))"

lemma group_ok_leader: "group_ok p \<Longrightarrow> partyHasMember p (LeaderUserIdx p)"
  by (auto simp: group_ok_def partyHasMember_def list_ex_iff)

lemma led_party_D:
  "led_party s g = Some p \<Longrightarrow> \<exists>c. Parse s g = Some c \<and> p = Party c \<and> PId p \<noteq> 0 \<and> LeaderUserIdx p = s"
  by (auto simp: led_party_def Let_def split: option.splits if_splits)

lemma led_keeps:
  assumes "party_inv g" "led_party s g = Some p" "applyPartyState p' g = (sessions, h)"
    "group_ok p \<Longrightarrow> group_ok p'" "PId p' = PId p" "ids p' = ids p"
  shows "party_inv h \<and> partySequence h = partySequence g"
proof -
  from led_party_D [OF assms(2)] obtain c where c: "Parse s g = Some c" "p = Party c" "PId p \<noteq> 0" by blast
  with assms party_D(1) [OF assms(1) c(1)] show ?thesis
    using change_keeps [OF assms(1) c(1), of p' "{}" g sessions h] by simp
qed

lemma PartyAuthChange_keeps:
  assumes "framed r" "party_inv g"
  shows "keeps g (PartyAuthChange s r g)"
  unfolding PartyAuthChange_def Let_def
  apply (intro returns_intro returns_reads)
  using framed_length [OF assms(1), of 14] assms(2)
  by (auto dest!: led_keeps [OF assms(2)])

lemma PartyLootingType_keeps:
  assumes "framed r" "party_inv g"
  shows "keeps g (PartyLootingType s r g)"
  unfolding PartyLootingType_def Let_def
  apply (intro returns_intro returns_reads)
  using framed_length [OF assms(1), of 18] assms(2)
  by (auto dest!: led_keeps [OF assms(2)])

lemma member_found: "partyMemberByCharacterID p k = Some m \<Longrightarrow> m \<in> set (Members p)"
  by (auto simp: partyMemberByCharacterID_def find_Some_iff)

lemma PartyLeaderChange_keeps:
  assumes "framed r" "party_inv g"
  shows "keeps g (PartyLeaderChange s r g)"
  unfolding PartyLeaderChange_def Let_def
  apply (intro returns_intro returns_reads)
  using framed_length [OF assms(1), of 14] assms(2)
  by (auto dest!: led_keeps [OF assms(2)] dest: member_found simp: group_ok_lead)

lemma PartyLeave_keeps:
  assumes "party_inv g"
  shows "keeps g (PartyLeave s r g)"
  unfolding PartyLeave_def Let_def
  by (intro returns_intro) (auto dest: LeaveParty_keeps [OF assms])

lemma PartySearch_keeps:
  assumes "framed r" "party_inv g"
  shows "keeps g (PartySearchList order s r g)" "keeps g (PartySearchRegist s r g)"
proof -
  show "keeps g (PartySearchList order s r g)"
    using assms by (simp add: PartySearchList_def Let_def returns_def)
  have raw: "returns (\<lambda>x. returns P (f x)) (ReadBytes (int partySearchTitleSize) q)"
    if "rindex q + 40 \<le> length (rbuffer q)" "\<And>x. returns P (f x)" for q :: Reader and f :: "_ \<Rightarrow> 'b option" and P
    using that by (simp add: returns_def ReadBytes_def)
  show "keeps g (PartySearchRegist s r g)"
    unfolding PartySearchRegist_def Let_def
    apply (intro returns_intro returns_reads raw)
    using framed_length [OF assms(1), of 51] assms(2) by auto
qed

lemma PartyInviteCancel_keeps:
  assumes "framed r" "party_inv g"
  shows "keeps g (PartyInviteCancel s r g)"
  unfolding PartyInviteCancel_def Let_def
  apply (intro returns_intro returns_reads)
  using framed_length [OF assms(1), of 15] assms(2)
  by auto

lemma reserve_keeps:
  assumes "party_inv g" "Parse s g = Some c" "Parse t g = Some d"
  shows "keeps g (reserve_invite s m t k ch g)"
  using Parse_users [OF assms(2)] Parse_users [OF assms(3)] assms(1)
  by (auto simp: reserve_invite_def returns_def Let_def split: option.split)

lemma returns_ReadString:
  "rindex r + n \<le> length (rbuffer r) \<Longrightarrow> (\<And>x r'. P (x, r')) \<Longrightarrow> returns P (ReadString (int n) r)"
  by (simp add: returns_def ReadString_def)

lemma PartyInvite_keeps:
  assumes "framed r" "party_inv g"
  shows "keeps g (PartyInvite_handler order s r g)"
  unfolding PartyInvite_handler_def Let_def
  apply (intro returns_intro returns_reads returns_ReadString)
  using framed_length [OF assms(1), of 16] framed_length [OF assms(1), of 33] assms(2)
  by (auto intro: reserve_keeps)

lemma kickout_keeps:
  assumes inv: "party_inv g" "led_party s g = Some p" "partyMemberByCharacterID p k = Some m" "MUserIdx m \<noteq> s"
    and g1: "users g1 = users g" "partySequence g1 = partySequence g"
  shows "length (without (MUserIdx m) (Members p)) \<le> 1 \<Longrightarrow>
      party_inv (case without (MUserIdx m) (Members p) of [n] \<Rightarrow> clearPartyState (MUserIdx n) (clearPartyState (MUserIdx m) g1)
        | _ \<Rightarrow> clearPartyState (MUserIdx m) g1) \<and>
      partySequence (case without (MUserIdx m) (Members p) of [n] \<Rightarrow> clearPartyState (MUserIdx n) (clearPartyState (MUserIdx m) g1)
        | _ \<Rightarrow> clearPartyState (MUserIdx m) g1) = partySequence g"
    and "\<not> length (without (MUserIdx m) (Members p)) \<le> 1 \<Longrightarrow>
      applyPartyState (p\<lparr>Members := without (MUserIdx m) (Members p)\<rparr>) (clearPartyState (MUserIdx m) g1) = (sessions, h) \<Longrightarrow>
      party_inv h \<and> partySequence h = partySequence g"
proof -
  let ?i = "MUserIdx m" and ?rest = "without (MUserIdx m) (Members p)"
  from led_party_D [OF inv(2)] obtain c where c: "Parse s g = Some c" "p = Party c" "PId p \<noteq> 0" "LeaderUserIdx p = s"
    by blast
  note D = party_D [OF inv(1) c(1) c(3) [unfolded c(2)], folded c(2)]
  have i: "?i \<in> ids p" using member_found [OF inv(3)] by (simp add: ids_def)
  have lobby: "same_lobby g g1" using g1(1) by (simp add: same_lobby_def Parse_def)
  note C = clearPartyState_D [where s = ?i and g = g1]
  have C1: "parties_of (clearPartyState ?i g1) = renew {?i} zero_PartyState (parties_of g)"
    by (simp add: C(1) parties_users [OF g1(1)])
  have C2: "same_lobby g (clearPartyState ?i g1)" using lobby_trans [OF lobby C(2)] .
  show "party_inv h \<and> partySequence h = partySequence g"
    if "\<not> length ?rest \<le> 1" "applyPartyState (p\<lparr>Members := ?rest\<rparr>) (clearPartyState ?i g1) = (sessions, h)"
    using that D(1) i inv(4) c g1(2)
    by (intro conjI change_keeps [OF inv(1) c(1) _ group_ok_without [of p ?i] _ _ C2 _ C1 that(2)]) auto
  assume "length ?rest \<le> 1"
  then consider "?rest = []" | n where "?rest = [n]" by (cases ?rest) auto
  then show "party_inv (case ?rest of [n] \<Rightarrow> clearPartyState (MUserIdx n) (clearPartyState ?i g1) | _ \<Rightarrow> clearPartyState ?i g1) \<and>
      partySequence (case ?rest of [n] \<Rightarrow> clearPartyState (MUserIdx n) (clearPartyState ?i g1) | _ \<Rightarrow> clearPartyState ?i g1) =
      partySequence g"
  proof cases
    case 1
    then have "ids p = {?i}" using ids_filter [of p ?i] i by auto
    with C1 C2 g1 1 c show ?thesis by (auto intro: dissolve_keeps [OF inv(1) c(1)])
  next
    case (2 n)
    then have "{MUserIdx n} \<union> {?i} = ids p" using ids_filter [of p ?i] i by auto
    then have "parties_of (clearPartyState (MUserIdx n) (clearPartyState ?i g1)) = renew (ids p) zero_PartyState (parties_of g)"
      by (simp only: clearPartyState_D(1) [of "MUserIdx n"] C1 renew_Un)
    with lobby_trans [OF C2 clearPartyState_D(2)] g1 2 c show ?thesis by (auto intro: dissolve_keeps [OF inv(1) c(1)])
  qed
qed

lemma PartyKickout_keeps:
  assumes "framed r" "party_inv g"
  shows "keeps g (PartyKickout s r g)"
proof -
  have notified: "users (to_members (\<lambda>i. sendPartyKickoutNotification i k) ms g) = users g"
    "partySequence (to_members (\<lambda>i. sendPartyKickoutNotification i k) ms g) = partySequence g" for k ms
    by simp_all
  show ?thesis
    unfolding PartyKickout_def Let_def
    apply (intro returns_intro returns_reads)
    using framed_length [OF assms(1), of 15] assms(2)
    by (auto simp del: One_nat_def simp: kickout_keeps(1) [OF assms(2) _ _ _ notified, where s = s]
        dest: kickout_keeps(2) [OF assms(2) _ _ _ notified])
qed

text \<open>A member who joins, and a new party of two.\<close>

definition joined :: "PartyState \<Rightarrow> PartyMember \<Rightarrow> PartyState" where
  "joined p m = p\<lparr>Members := Members p @ [m]\<rparr>"

definition founded :: "int32 \<Rightarrow> PartyMember \<Rightarrow> PartyMember \<Rightarrow> PartyState" where
  "founded n a b = zero_PartyState\<lparr>PId := n, LeaderUserIdx := MUserIdx a, LeaderCharacterID := MCharacterID a,
     NormalLootingType := 1, OwnerLootingType := 1, Members := [a, b]\<rparr>"

lemma group_ok_joined:
  "group_ok p \<Longrightarrow> MUserIdx m \<notin> ids p \<Longrightarrow> length (Members p) < PartyMaxMembers \<Longrightarrow> group_ok (joined p m)"
  by (auto simp: group_ok_def joined_def ids_def list_ex_iff)

lemma ids_joined: "ids (joined p m) = insert (MUserIdx m) (ids p)"
  by (auto simp: ids_def joined_def)

lemma group_ok_founded: "n \<noteq> 0 \<Longrightarrow> MUserIdx a \<noteq> MUserIdx b \<Longrightarrow> group_ok (founded n a b)"
  by (simp add: group_ok_def founded_def)

lemma ids_founded: "ids (founded n a b) = {MUserIdx a, MUserIdx b}"
  by (auto simp: ids_def founded_def)

lemma hasMember_ids: "partyHasMember p i \<longleftrightarrow> i \<in> ids p"
  by (auto simp: partyHasMember_def ids_def list_ex_iff)

text \<open>The four cases of \<open>makePartyState\<close>: a party on neither side, on either side, on both sides.\<close>

lemma makePartyState_eq:
  assumes i: "partyMemberFromContext i c g = Some a" and k: "partyMemberFromContext k d g = Some b"
    and z: "PId (Party c) = 0 \<Longrightarrow> Party c = zero_PartyState" "PId (Party d) = 0 \<Longrightarrow> Party d = zero_PartyState"
    and "PId (Party c) \<noteq> 0 \<Longrightarrow> PId (Party d) = 0 \<Longrightarrow> i \<in> ids (Party c) \<and> k \<notin> ids (Party c)"
    and "PId (Party d) \<noteq> 0 \<Longrightarrow> PId (Party c) = 0 \<Longrightarrow> k \<in> ids (Party d) \<and> i \<notin> ids (Party d)"
    and "i \<noteq> k"
  shows "makePartyState i c k d g = (if PId (Party c) \<noteq> 0 \<and> PId (Party d) \<noteq> 0 then ((zero_PartyState, partyInviteAlreadyMember), g)
    else if PId (Party c) \<noteq> 0 then (if length (Members (Party c)) \<ge> PartyMaxMembers then ((zero_PartyState, partyInviteMaxMembers), g)
        else ((joined (Party c) b, partyInviteOK), g))
    else if PId (Party d) \<noteq> 0 then (if length (Members (Party d)) \<ge> PartyMaxMembers then ((zero_PartyState, partyInviteMaxMembers), g)
        else ((joined (Party d) a, partyInviteOK), g))
    else ((founded (partySequence g + 1) a b, partyInviteOK), g\<lparr>partySequence := partySequence g + 1\<rparr>))"
proof -
  have a: "MUserIdx a = i" "MUserIdx b = k"
    using i k by (auto simp: partyMemberFromContext_def split: option.splits)
  consider "PId (Party c) \<noteq> 0" "PId (Party d) \<noteq> 0" | "PId (Party c) \<noteq> 0" "PId (Party d) = 0"
    | "PId (Party c) = 0" "PId (Party d) \<noteq> 0" | "PId (Party c) = 0" "PId (Party d) = 0" by blast
  then show ?thesis
  proof cases
    case 1
    then show ?thesis by (simp add: makePartyState_def i k)
  next
    case 2
    then show ?thesis using assms(5) by (simp add: makePartyState_def i k Let_def hasMember_ids a joined_def)
  next
    case 3
    then have "k \<in> ids (Party d)" "i \<notin> ids (Party d)" "k \<in> ids (joined (Party d) a)" using assms(6) by (auto simp: ids_joined)
    with 3 show ?thesis using z(1) by (simp add: makePartyState_def i k Let_def hasMember_ids a joined_def)
  next
    case 4
    with z assms(7) show ?thesis
      by (simp add: makePartyState_def i k Let_def a partyHasMember_def founded_def zero_PartyState_def)
  qed
qed

lemma agreed_mono: "in_accord n P \<Longrightarrow> n \<le> n' \<Longrightarrow> in_accord n' P"
  unfolding in_accord_def by (meson order_trans)

text \<open>The parties after a successful \<open>makePartyState\<close>, once every member has the new state.\<close>

lemma makePartyState_agreed:
  assumes inv: "party_inv g" "unat (partySequence g) + 1 < 2 ^ 32"
    and i: "Parse i g = Some c" and k: "Parse k g = Some d" and ik: "i \<noteq> k"
    and m: "makePartyState i c k d g = ((p, res), g1)"
  shows "users g1 = users g" "unat (partySequence g1) \<le> Suc (unat (partySequence g))"
    "unat (partySequence g) \<le> unat (partySequence g1)"
    "res = partyInviteOK \<Longrightarrow> in_accord (unat (partySequence g1)) (renew (ids p) p (parties_of g))"
proof -
  obtain a b where ab: "partyMemberFromContext i c g = Some a" "partyMemberFromContext k d g = Some b"
    "MUserIdx a = i" "MUserIdx b = k"
    using i k by (auto simp: partyMemberFromContext_def Parse_Some)
  note I = party_inv_D [OF inv(1) i] and K = party_inv_D [OF inv(1) k]
  have kc: "i \<in> ids (Party c) \<and> k \<notin> ids (Party c)" if "PId (Party c) \<noteq> 0" "PId (Party d) = 0"
    using party_D(2) [OF inv(1) i that(1)] party_D(3) [OF inv(1) i that(1), of k] k that by auto
  have id: "k \<in> ids (Party d) \<and> i \<notin> ids (Party d)" if "PId (Party d) \<noteq> 0" "PId (Party c) = 0"
    using party_D(2) [OF inv(1) k that(1)] party_D(3) [OF inv(1) k that(1), of i] i that by auto
  have seq: "unat (partySequence g + 1) = Suc (unat (partySequence g))"
    using inv(2) by (simp add: unat_word_ariths)
  have new: "in_accord (unat (partySequence g)) (renew (ids (joined q m)) (joined q m) (parties_of g))"
    if "PId q \<noteq> 0" "parties_of g s = Some q" "parties_of g (MUserIdx m) = Some zero_PartyState"
      "MUserIdx m \<notin> ids q" "length (Members q) < PartyMaxMembers" for q m s
  proof -
    have "q \<noteq> zero_PartyState" using that(1) by auto
    from agreedD(1) [OF I(1) that(2) this] that show ?thesis
      by (intro agreed_join [OF I(1) that(2) \<open>q \<noteq> zero_PartyState\<close> that(3)])
        (simp_all add: group_ok_joined ids_joined, simp add: joined_def)
  qed
  have found: "in_accord (Suc (unat (partySequence g))) (renew (ids q) q (parties_of g))"
    if "q = founded (partySequence g + 1) a b" "PId (Party c) = 0" "PId (Party d) = 0" for q
  proof -
    have "partySequence g + 1 \<noteq> 0" using seq by auto
    then show ?thesis using that I K ab ik seq
      by (intro agreed_found [OF I(1), of i k]) (simp_all add: group_ok_founded ids_founded, simp add: founded_def)
  qed
  note eq = makePartyState_eq [OF ab(1,2) I(3) [THEN iffD1] K(3) [THEN iffD1] kc id ik]
  consider (both) "PId (Party c) \<noteq> 0" "PId (Party d) \<noteq> 0" | (first) "PId (Party c) \<noteq> 0" "PId (Party d) = 0"
    | (second) "PId (Party c) = 0" "PId (Party d) \<noteq> 0" | (none) "PId (Party c) = 0" "PId (Party d) = 0" by blast
  then have "users g1 = users g \<and> unat (partySequence g1) \<le> Suc (unat (partySequence g)) \<and>
    unat (partySequence g) \<le> unat (partySequence g1) \<and>
    (res = partyInviteOK \<longrightarrow> in_accord (unat (partySequence g1)) (renew (ids p) p (parties_of g)))"
  proof cases
    case both
    with m eq show ?thesis by simp
  next
    case first
    with m eq show ?thesis
      using new [of "Party c" i b] I(2) K(2,3) kc ab by (simp split: if_split_asm)
  next
    case second
    with m eq show ?thesis
      using new [of "Party d" k a] K(2) I(2,3) id ab by (simp split: if_split_asm)
  next
    case none
    with m eq have "p = founded (partySequence g + 1) a b" "g1 = g\<lparr>partySequence := partySequence g + 1\<rparr>" by auto
    with found none seq show ?thesis by simp
  qed
  then show "users g1 = users g" "unat (partySequence g1) \<le> Suc (unat (partySequence g))"
    "unat (partySequence g) \<le> unat (partySequence g1)"
    "res = partyInviteOK \<Longrightarrow> in_accord (unat (partySequence g1)) (renew (ids p) p (parties_of g))" by auto
qed

lemma party_inv_later:
  assumes "party_inv g" "users h = users g" "unat (partySequence g) \<le> unat (partySequence h)"
  shows "party_inv h"
  using assms agreed_mono by (auto simp: party_inv_def parties_users [OF assms(2)])

lemma join_keeps:
  assumes inv: "party_inv g" "unat (partySequence g) + 1 < 2 ^ 32"
    and i: "Parse i g = Some c" and k: "Parse k g = Some d" and ik: "i \<noteq> k"
    and m: "makePartyState i c k d g = ((p, partyInviteOK), g1)"
    and g2: "parties_of g2 = parties_of g1" "same_lobby g1 g2" "partySequence g2 = partySequence g1"
    and h: "applyPartyState p g2 = (sessions, h)"
  shows "party_inv h" "unat (partySequence h) \<le> Suc (unat (partySequence g))"
proof -
  note M = makePartyState_agreed [OF inv i k ik m] and A = applyPartyState_D [OF h]
  have "same_lobby g h" using lobby_trans [OF g2(2) A(2)] M(1) by (simp add: same_lobby_def Parse_def)
  then show "party_inv h"
    using M(4) A(1,3) g2 by (intro party_inv_regroup [OF inv(1)]) (simp_all add: parties_users [OF M(1)])
  show "unat (partySequence h) \<le> Suc (unat (partySequence g))" using M(2) A(3) g2(3) by simp
qed

lemma lobby_invite [simp]: "Parse i g \<noteq> None \<Longrightarrow> same_lobby g (upd i (PartyInvite_update f) g)"
  by (rule lobby_upd) simp_all

lemma answer_keeps:
  assumes inv: "party_inv g" "unat (partySequence g) + 1 < 2 ^ 32"
    and i: "Parse i g = Some c" and k: "Parse k g = Some d"
  shows "keeps g (answer_invite i k cid yes g)"
proof -
  have u: "Option.bind (users g i) id = Some c" "Option.bind (users g k) id = Some d"
    using Parse_users [OF i] Parse_users [OF k] by simp_all
  define clear :: "'a Game \<Rightarrow> 'a Game" where "clear = (\<lambda>g. upd k (PartyInvite_update (\<lambda>_. zero_PartyInviteState))
    (upd i (PartyInvite_update (\<lambda>_. zero_PartyInviteState)) g))"
  have clear: "parties_of (clear h) = parties_of h" "partySequence (clear h) = partySequence h" "party_inv (clear h) = party_inv h" for h
    by (simp_all add: clear_def)
  have lobby: "same_lobby h (clear h)" if "users h = users g" for h
  proof -
    have "Parse i h \<noteq> None" "Parse k h \<noteq> None" using i k that by (simp_all add: Parse_def)
    then show ?thesis unfolding clear_def by (intro lobby_upd) (simp_all add: Parse_upd)
  qed
  show ?thesis
  proof (cases "IStatus (PartyInvite c) = PartyInviteOutgoing \<and> IOpponentUserIdx (PartyInvite c) = k \<and>
       IStatus (PartyInvite d) = PartyInviteIncoming \<and> IOpponentUserIdx (PartyInvite d) = i \<and>
       cChar c \<noteq> None \<and> cChar d \<noteq> None \<and> char_id c = cid")
    case False
    then show ?thesis unfolding answer_invite_def u bind.bind_lunit Let_def if_P [OF False] using inv by (simp add: returns_def)
  next
    case True
    then have "i \<noteq> k" using u by auto
    obtain p res g1 where m: "makePartyState i c k d g = ((p, res), g1)" by (metis prod.exhaust)
    note M = makePartyState_agreed [OF inv i k \<open>i \<noteq> k\<close> m]
    have g1: "party_inv g1" by (rule party_inv_later [OF inv(1) M(1,3)])
    have "\<not> \<not> (IStatus (PartyInvite c) = PartyInviteOutgoing \<and> IOpponentUserIdx (PartyInvite c) = k \<and>
       IStatus (PartyInvite d) = PartyInviteIncoming \<and> IOpponentUserIdx (PartyInvite d) = i \<and>
       cChar c \<noteq> None \<and> cChar d \<noteq> None \<and> char_id c = cid)" using True by simp
    note e = answer_invite_def u bind.bind_lunit Let_def if_not_P [OF this] clear_def [symmetric]
    obtain sessions h where h: "applyPartyState p (sendPartyInviteResult i True (sendPartyInviteAnswer k partyInviteAnswerOK (clear g1))) = (sessions, h)"
      by (metis prod.exhaust)
    have q: "parties_of (sendPartyInviteResult i True (sendPartyInviteAnswer k x h)) = parties_of h"
      "same_lobby g (sendPartyInviteResult i True (sendPartyInviteAnswer k x h)) = same_lobby g h" for g h :: "'a Game" and x
      by (simp_all add: parties_of_def same_lobby_def Parse_def)
    show ?thesis
    proof (cases "yes \<and> res = partyInviteOK")
      case True
      with join_keeps [OF inv i k \<open>i \<noteq> k\<close> _ _ _ _ h] m
      have "party_inv h" "unat (partySequence h) \<le> Suc (unat (partySequence g))"
        by (simp_all add: q clear lobby [OF M(1)])
      then show ?thesis unfolding e m using True by (simp add: returns_def m h)
    next
      case False
      then show ?thesis unfolding e m using inv g1 M(2) by (auto simp: returns_def m clear)
    qed
  qed
qed

lemma PartyInviteResult_keeps:
  assumes "framed r" "party_inv g" "unat (partySequence g) + 1 < 2 ^ 32"
  shows "keeps g (PartyInviteResult s r g)"
  unfolding PartyInviteResult_def Let_def
  apply (intro returns_intro returns_reads)
  using framed_length [OF assms(1), of 19] assms(2)
  by (auto intro: answer_keeps [OF assms(2,3)])

section \<open>Any number of players, any packets\<close>

text \<open>What runs on a party when a character leaves the world.\<close>

definition leave_party :: "uint16 \<Rightarrow> 'm Game \<Rightarrow> 'm Game" where
  "leave_party i g = snd (LeaveParty i g)"

lemma party_handlers_keep:
  assumes "map_of (party_handlers order) code = Some h" "framed r" "party_inv g" "unat (partySequence g) + 1 < 2 ^ 32"
  shows "keeps g (h s r g)"
proof -
  note all = PartyInvite_keeps [OF assms(2,3)] PartyInviteResult_keeps [OF assms(2-4)] PartyInviteCancel_keeps [OF assms(2,3)]
    PartyLeave_keeps [OF assms(3)] PartyKickout_keeps [OF assms(2,3)] PartyLeaderChange_keeps [OF assms(2,3)]
    PartyAuthChange_keeps [OF assms(2,3)] PartyLootingType_keeps [OF assms(2,3)] PartySearch_keeps [OF assms(2,3)]
  from assms(1) have "h \<in> {\<lambda>s r g. PartyInvite_handler (order g) s r g, PartyInviteResult, PartyInviteCancel, PartyLeave,
      PartyKickout, PartyLeaderChange, PartyAuthChange, PartyLootingType, PartySearchRegist,
      \<lambda>s r g. PartySearchList (order g) s r g}"
    by (simp add: party_handlers_def split: if_split_asm)
  then show ?thesis using all by (elim insertE) simp_all
qed

lemma leave_keeps:
  assumes "party_inv g"
  shows "party_inv (leave_party i g)" "partySequence (leave_party i g) = partySequence g"
    "parties_of (leave_party i g) i = None \<or> parties_of (leave_party i g) i = Some zero_PartyState"
  using LeaveParty_keeps [OF assms] by (metis leave_party_def prod.collapse)+

lemma accord_enter:
  assumes "in_accord n P" "P i = None \<or> P i = Some zero_PartyState" "x = None \<or> x = Some zero_PartyState"
  shows "in_accord n (P(i := x))"
proof (rule regroup [where A = "{i}" and G = None, OF assms(1)])
  fix j p
  assume "P j = Some p" "p \<noteq> zero_PartyState"
  from agreedD(4) [OF assms(1) this, of i] assms(2) this(2) show "ids p \<inter> {i} = {}" by auto
qed (use assms in auto)

lemma party_inv_enter:
  assumes "party_inv g"
  shows "party_inv (upd i (cChar_update (\<lambda>_. Some c)) g)"
  unfolding party_inv_def
proof (intro conjI allI impI)
  let ?g = "upd i (cChar_update (\<lambda>_. Some c)) g"
  show "in_accord (unat (partySequence ?g)) (parties_of ?g)"
  proof (cases "\<exists>d. users g i = Some (Some d) \<and> cChar d = None")
    case True
    then obtain d where d: "users g i = Some (Some d)" "cChar d = None" by blast
    with assms have z: "Party d = zero_PartyState" by (auto simp: party_inv_def)
    have "parties_of ?g = (parties_of g)(i \<mapsto> zero_PartyState)"
      using d z by (auto simp: parties_of_def Parse_def upd_def fun_eq_iff)
    moreover have "parties_of g i = None" using d by (simp add: parties_of_def Parse_def)
    ultimately show ?thesis using assms accord_enter by (simp add: party_inv_def)
  next
    case False
    have "parties_of ?g j = parties_of g j" for j
      using False by (cases "users g i") (auto simp: parties_of_def Parse_def upd_def split: option.splits)
    then have "parties_of ?g = parties_of g" by (rule ext)
    with assms show ?thesis by (simp add: party_inv_def)
  qed
  fix j d
  assume "users ?g j = Some (Some d)" "cChar d = None"
  then show "Party d = zero_PartyState" using assms by (auto simp: users_upd party_inv_def split: if_splits)
qed

lemma party_inv_disconnect:
  assumes "party_inv g" "parties_of g i = None \<or> parties_of g i = Some zero_PartyState"
  shows "party_inv (g\<lparr>users := (users g)(i := None)\<rparr>)"
proof -
  have "parties_of (g\<lparr>users := (users g)(i := None)\<rparr>) = (parties_of g)(i := None)"
    by (auto simp: parties_of_def Parse_def fun_eq_iff)
  moreover have "in_accord (unat (partySequence g)) ((parties_of g)(i := None))"
    using assms by (intro accord_enter) (simp_all add: party_inv_def)
  ultimately show ?thesis using assms(1) by (simp add: party_inv_def)
qed

lemma party_inv_connect:
  assumes "party_inv g" "users g i = None"
  shows "party_inv (g\<lparr>users := (users g)(i \<mapsto> Some zero_Context)\<rparr>)"
proof -
  have "parties_of (g\<lparr>users := (users g)(i \<mapsto> Some zero_Context)\<rparr>) = parties_of g"
    using assms(2) by (auto simp: parties_of_def Parse_def zero_Context_def fun_eq_iff)
  with assms show ?thesis by (auto simp: party_inv_def zero_Context_def)
qed

lemma party_happen:
  assumes "framed_packet e" "party_inv g" "unat (partySequence g) + 1 < 2 ^ 32"
  shows "keeps g (happen (party_handlers order) leave_party e g)"
proof (cases e)
  case (Packet i code r)
  with assms show ?thesis by (auto intro!: returns_intro party_handlers_keep)
next
  case (Disconnect i)
  with leave_keeps [OF assms(2)] party_inv_disconnect [OF leave_keeps(1,3) [OF assms(2)]] show ?thesis
    by (simp add: returns_def Let_def)
qed (use assms in \<open>auto simp: returns_def party_inv_connect party_inv_enter leave_keeps\<close>)

lemma party_happens:
  "list_all framed_packet es \<Longrightarrow> party_inv g \<Longrightarrow> unat (partySequence g) + length es < 2 ^ 32 \<Longrightarrow>
   returns party_inv (happens (party_handlers order) leave_party es g)"
proof (induction es arbitrary: g)
  case (Cons e es)
  then have "keeps g (happen (party_handlers order) leave_party e g)" by (intro party_happen) simp_all
  then obtain h where h: "happen (party_handlers order) leave_party e g = Some h" "party_inv h"
    "unat (partySequence h) \<le> Suc (unat (partySequence g))" by (auto simp: returns_def)
  then show ?case using Cons.IH [OF _ h(2)] Cons.prems by simp
qed (simp add: returns_def)

section \<open>Properties\<close>

text \<open>
  C9: Whatever players do with invitations, kicks, settings and departures, in whatever order, the
  server does not panic, and everyone in a party has two to seven members in view, no one twice, the
  leader and themselves among them, and every member is in the world with exactly the same view; two
  parties never share an id. The one limit is the counter of the parties, which must not wrap around.
\<close>

theorem parties_agree:
  assumes "users g = Map.empty" and "list_all framed_packet es" and "unat (partySequence g) + length es < 2 ^ 32"
  shows "\<exists>g'. happens (party_handlers order) leave_party es g = Some g' \<and>
     (\<forall>i c. Parse i g' = Some c \<and> PId (Party c) \<noteq> 0 \<longrightarrow>
        2 \<le> length (Members (Party c)) \<and> length (Members (Party c)) \<le> PartyMaxMembers \<and>
        distinct (map MUserIdx (Members (Party c))) \<and> partyHasMember (Party c) i \<and> partyHasMember (Party c) (LeaderUserIdx (Party c)) \<and>
        (\<forall>m \<in> set (Members (Party c)). \<exists>d. Parse (MUserIdx m) g' = Some d \<and> Party d = Party c) \<and>
        (\<forall>j d. Parse j g' = Some d \<and> PId (Party d) = PId (Party c) \<longrightarrow> Party d = Party c))"
proof -
  have "party_inv g" using assms(1) by (simp add: party_inv_def in_accord_def parties_of_def Parse_def)
  from party_happens [OF assms(2) this assms(3)] obtain g' where
    g': "happens (party_handlers order) leave_party es g = Some g'" "party_inv g'" by (auto simp: returns_def)
  show ?thesis
  proof (intro exI [of _ g'] conjI [OF g'(1)] allI impI; elim conjE)
    fix i c
    assume c: "Parse i g' = Some c" "PId (Party c) \<noteq> 0"
    note D = party_D [OF g'(2) c] and I = party_inv_D [OF g'(2) c(1)]
    have n: "Party c \<noteq> zero_PartyState" using c(2) by auto
    have "Party d = Party c" if "Parse j g' = Some d" "PId (Party d) = PId (Party c)" for j d
      using agreedD(5) [OF I(1,2) n parties_Parse [OF that(1)] that(2)] .
    with D show "2 \<le> length (Members (Party c)) \<and> length (Members (Party c)) \<le> PartyMaxMembers \<and>
        distinct (map MUserIdx (Members (Party c))) \<and> partyHasMember (Party c) i \<and> partyHasMember (Party c) (LeaderUserIdx (Party c)) \<and>
        (\<forall>m \<in> set (Members (Party c)). \<exists>d. Parse (MUserIdx m) g' = Some d \<and> Party d = Party c) \<and>
        (\<forall>j d. Parse j g' = Some d \<and> PId (Party d) = PId (Party c) \<longrightarrow> Party d = Party c)"
      by (simp add: group_ok_leader) (simp add: group_ok_def hasMember_ids ids_def, blast)
  qed
qed

theorem parties_agree_witness:
  "\<exists>g'. happens (party_handlers (\<lambda>g. [1, 2, 3])) leave_party
      [Connect 1, Connect 2, Initialise 1 (the (cChar (trader 8 1000 [] zero_TradeState))),
       Initialise 2 (the (cChar (trader 9 50 [] zero_TradeState))),
       Packet 1 2011 (packet_reader [1, 9, 0, 0, 0, 1]), Packet 2 2013 (packet_reader [8, 0, 0, 0, 1, 1, 0, 0, 0]),
       Packet 1 2025 (packet_reader [1, 0, 0, 0]), Disconnect 2] (market [] [] []) = Some g' \<and>
     (\<forall>c. Parse 1 g' = Some c \<and> PId (Party c) \<noteq> 0 \<longrightarrow> partyHasMember (Party c) 1)"
proof -
  have u: "users (market [] [] []) = Map.empty" by (simp add: market_def fun_eq_iff)
  let ?es = "[Connect 1, Connect 2, Initialise 1 (the (cChar (trader 8 1000 [] zero_TradeState))),
       Initialise 2 (the (cChar (trader 9 50 [] zero_TradeState))),
       Packet 1 2011 (packet_reader [1, 9, 0, 0, 0, 1]), Packet 2 2013 (packet_reader [8, 0, 0, 0, 1, 1, 0, 0, 0]),
       Packet 1 2025 (packet_reader [1, 0, 0, 0]), Disconnect 2]"
  have "list_all framed_packet ?es" "unat (partySequence (market [] [] [])) + length ?es < 2 ^ 32"
    by (simp_all add: market_def)
  from parties_agree [OF u this] show ?thesis by blast
qed

lemma trimRight0_Cons: "b \<noteq> 0 \<Longrightarrow> trimRight0 (b # xs) = b # trimRight0 xs"
  by (simp add: trimRight0_def dropWhile_append split: if_splits)

text \<open>
  A name of at most fifteen bytes survives the trip through a packet. A name that fills all sixteen
  bytes does not: its length byte is one more than the decoder accepts, so it is taken for a raw string and
  comes back with that byte in front.
\<close>

theorem party_name_round_trip:
  "decodePartyName (party_name_bytes name) =
     (if length name < partyMaxNameLength - 1 then name else 17 # trimRight0 (take (partyMaxNameLength - 1) name))"
proof (cases "length name < 16")
  case True
  then have "unat (word_of_nat (length name + 1) :: byte) = length name + 1" by (simp add: unat_of_nat del: of_nat_add of_nat_Suc)
  with True show ?thesis by (simp add: decodePartyName_def party_name_bytes_def Let_def del: of_nat_Suc)
next
  case False
  then have "party_name_bytes name = 17 # take 16 name" by (auto simp: party_name_bytes_def Let_def min_def)
  with False show ?thesis by (simp add: decodePartyName_def trimRight0_Cons)
qed



end
