(* ===== verification/Freya_World.thy ===== *)
theory Freya_World
  imports Freya_Trade Freya_Party
begin

text \<open>
  Players on the world maps (\<open>cmd/gameserver/game/world.go\<close>, \<open>cell.go\<close>): entering and leaving a world,
  moving from cell to cell, the packets that show a player what is around, the items on the ground,
  and the packet handlers for movement (\<open>packet/movement.go\<close>), dropping and looting. A world is known by its
  position in the list of the world manager, a cell by its world and place.
\<close>

section \<open>Packets (packet/initialized.go, item.go, mob.go)\<close>

abbreviation (input) NEWUSERLIST :: uint16 where "NEWUSERLIST \<equiv> 200"
abbreviation (input) DELUSERLIST :: uint16 where "DELUSERLIST \<equiv> 201"
abbreviation (input) NFY_NEWMOBSLIST :: uint16 where "NFY_NEWMOBSLIST \<equiv> 202"
abbreviation (input) NFY_NEWITEMLIST :: uint16 where "NFY_NEWITEMLIST \<equiv> 204"
abbreviation (input) NFY_DELITEMLIST :: uint16 where "NFY_DELITEMLIST \<equiv> 205"

abbreviation (input) NewUserNone :: byte where "NewUserNone \<equiv> 0"
abbreviation (input) NewUserInit :: byte where "NewUserInit \<equiv> 48"
abbreviation (input) NewUserWarp :: byte where "NewUserWarp \<equiv> 49"
abbreviation (input) NewUserMove :: byte where "NewUserMove \<equiv> 50"
abbreviation (input) DelUserWarp :: byte where "DelUserWarp \<equiv> 17"
abbreviation (input) DelUserLogout :: byte where "DelUserLogout \<equiv> 18"

definition userObjectIndex :: "uint16 \<Rightarrow> uint32" where
  "userObjectIndex s = or 0x01000000 (ucast s)"

text \<open>
  \<open>Equipment.SerializeEx\<close> sorts the keys of the equipment map, so the order in which they are collected
  does not matter.
\<close>

definition fillPlayerInfo :: "uint16 \<Rightarrow> 'm Game \<Rightarrow> field list" where
  "fillPlayerInfo s g =
     (case Option.bind (Parse s g) cChar of
        None \<Rightarrow> []
      | Some c \<Rightarrow>
          let (eq, eqlen) = SerializeEx (sorted_list_of_set (dom (Equip (CharEquipment c)))) (CharEquipment c) in
          [FUint32 (CharId c), FUint32 (userObjectIndex s), FUint32 (ucast (cLevel c)), FInt32 0x01C2,
           FUint16 (BeginX c), FUint16 (BeginY c), FUint16 (EndX c), FUint16 (EndY c), FUint16 0, FByte (Nation c),
           FInt32 0, FInt32 (Style_Get (CharStyle c)), FByte (ucast (LiveStyle c)), FByte 0, FByte 0,
           FByte (word_of_nat eqlen), FByte 0, FByte 0, FByte 0, FUint16 0, FUint32 (GuildNo c), FInt32 0,
           FByte 0, FByte 0, FByte 0, FByte 0, FByte 0, FByte (word_of_nat (length (Name c) + 1)), FString (Name c),
           FByte 0, FBytes eq])"

definition NewUserSingle :: "uint16 \<Rightarrow> byte \<Rightarrow> 'm Game \<Rightarrow> packet" where
  "NewUserSingle s reason g = (NEWUSERLIST, FByte 1 # FByte reason # fillPlayerInfo s g)"

definition NewUserList :: "uint16 list \<Rightarrow> byte \<Rightarrow> 'm Game \<Rightarrow> packet" where
  "NewUserList players reason g = (NEWUSERLIST, FByte (word_of_nat (length players)) # FByte reason #
     concat (map (\<lambda>v. fillPlayerInfo v g) players))"

definition DelUserList :: "uint16 \<Rightarrow> byte \<Rightarrow> 'm Game \<Rightarrow> packet option" where
  "DelUserList s reason g =
     (case Parse s g of None \<Rightarrow> None | Some ctx \<Rightarrow> Some (DELUSERLIST, [FUint32 (char_id ctx), FByte reason]))"

definition mob_fields :: "Mob \<Rightarrow> field list" where
  "mob_fields v = (let pos = mposition v in
     [FInt32 (word_of_int (MobId v)), FInt16 (word_of_int (InitialX pos)), FInt16 (word_of_int (InitialY pos)),
      FInt16 (word_of_int (FinalX pos)), FInt16 (word_of_int (FinalY pos)), FInt16 (word_of_int (Species v)),
      FInt32 (word_of_int (MobMaxHP v)), FInt32 (word_of_int (MobCurrentHP v)), FByte 0, FInt32 9, FInt32 0])"

definition NewMobsList :: "Mob list \<Rightarrow> packet" where
  "NewMobsList ms = (NFY_NEWMOBSLIST, FByte (word_of_nat (length ms)) # concat (map mob_fields ms))"

definition ground_fields :: "int32 \<Rightarrow> GroundItem \<Rightarrow> field list" where
  "ground_fields source i = [FInt32 (GId i), FInt32 (Option (GItem i)), FInt32 source, FUint32 (Kind (GItem i)),
     FUint16 (GX i), FUint16 (GY i), FUint16 (GKey i), FByte (DropType i), FByte (DropInfo i)]"

definition NewItemSingle :: "GroundItem \<Rightarrow> bool \<Rightarrow> packet" where
  "NewItemSingle i dropped = (NFY_NEWITEMLIST, FByte 1 # ground_fields (if dropped then Source i else - 1) i)"

definition NewItemList :: "GroundItem list \<Rightarrow> packet" where
  "NewItemList its = (NFY_NEWITEMLIST, FByte (word_of_nat (length its)) # concat (map (ground_fields 0xFFFFFFFF) its))"

definition DelItemList :: "int32 \<Rightarrow> byte \<Rightarrow> packet" where
  "DelItemList i reason = (NFY_DELITEMLIST, [FInt32 i, FByte reason])"

section \<open>Cells and what they send (cell.go, world.go)\<close>

definition cell_of :: "nat \<Rightarrow> place \<Rightarrow> 'm Game \<Rightarrow> Cell" where
  "cell_of w p g = Grid (Worlds g ! w) p"

text \<open>A change of a world, and of one of its cells.\<close>

definition upd_world :: "nat \<Rightarrow> (World \<Rightarrow> World) \<Rightarrow> 'm Game \<Rightarrow> 'm Game" where
  "upd_world w f g = g\<lparr>Worlds := (Worlds g)[w := f (Worlds g ! w)]\<rparr>"

abbreviation upd_cell :: "nat \<Rightarrow> place \<Rightarrow> (Cell \<Rightarrow> Cell) \<Rightarrow> 'm Game \<Rightarrow> 'm Game" where
  "upd_cell w p f \<equiv> upd_world w (at_cell p f)"

definition Cell_Send :: "packet \<Rightarrow> nat \<Rightarrow> place \<Rightarrow> 'm Game \<Rightarrow> 'm Game" where
  "Cell_Send pkt w p g = fold (\<lambda>v. send v pkt) (Players (cell_of w p g)) g"

definition sendPlayers :: "uint16 \<Rightarrow> nat \<Rightarrow> place \<Rightarrow> 'm Game \<Rightarrow> 'm Game" where
  "sendPlayers s w p g =
     (let players = Players (cell_of w p g) in
      if length players = 0 then g else send s (NewUserList players NewUserNone g) g)"

definition sendMobs :: "uint16 \<Rightarrow> nat \<Rightarrow> place \<Rightarrow> 'm Game \<Rightarrow> 'm Game" where
  "sendMobs s w p g =
     (let ms = List.map_filter (mobs (Worlds g ! w)) (Mobs (cell_of w p g)) in
      if length ms = 0 then g else send s (NewMobsList ms) g)"

definition sendItems :: "uint16 \<Rightarrow> nat \<Rightarrow> place \<Rightarrow> 'm Game \<Rightarrow> 'm Game" where
  "sendItems s w p g =
     (let its = Items (cell_of w p g) in
      if length its = 0 then g else send s (NewItemList (map snd its)) g)"

definition SendState :: "uint16 \<Rightarrow> nat \<Rightarrow> place \<Rightarrow> 'm Game \<Rightarrow> 'm Game" where
  "SendState s w p g = sendItems s w p (sendMobs s w p (sendPlayers s w p g))"

definition sendToNearbyCells :: "packet \<Rightarrow> nat \<Rightarrow> place \<Rightarrow> int \<Rightarrow> 'm Game \<Rightarrow> 'm Game" where
  "sendToNearbyCells pkt w p radius = fold (Cell_Send pkt w) (getNearbyCells p radius)"

definition BroadcastPacket :: "nat \<Rightarrow> place \<Rightarrow> packet \<Rightarrow> 'm Game \<Rightarrow> 'm Game" where
  "BroadcastPacket w p pkt = sendToNearbyCells pkt w p 2"

definition BroadcastSessionPacket :: "nat \<Rightarrow> uint16 \<Rightarrow> packet \<Rightarrow> 'm Game \<Rightarrow> 'm Game" where
  "BroadcastSessionPacket w s pkt g =
     (case Option.bind (Parse s g) ctxCell of None \<Rightarrow> g | Some (_, p) \<Rightarrow> BroadcastPacket w p pkt g)"

definition BroadcastAllPacket :: "nat \<Rightarrow> packet \<Rightarrow> 'm Game \<Rightarrow> 'm Game" where
  "BroadcastAllPacket w pkt = fold (Cell_Send pkt w) all_cells"

text \<open>\<open>WorldManager.FindWorld\<close> and \<open>BroadcastAllPacket\<close> (manager.go).\<close>

definition FindWorld :: "byte \<Rightarrow> 'm Game \<Rightarrow> nat option" where
  "FindWorld i g = List.find (\<lambda>w. WorldId (Worlds g ! w) = i) [0..<length (Worlds g)]"

definition Manager_BroadcastAllPacket :: "packet \<Rightarrow> 'm Game \<Rightarrow> 'm Game" where
  "Manager_BroadcastAllPacket pkt g = fold (\<lambda>w. BroadcastAllPacket w pkt) [0..<length (Worlds g)] g"

section \<open>Entering, leaving, moving (world.go, packet/position.go)\<close>

definition SaveCharacterPosition :: "uint16 \<Rightarrow> 'm Game \<Rightarrow> 'm Game" where
  "SaveCharacterPosition s g =
     (case Option.bind (Parse s g) cChar of
        None \<Rightarrow> g
      | Some c \<Rightarrow>
          let req = \<lparr>poServer = ServerId g, poCharacter = CharId c, poWorld = World c, poX = X c, poY = Y c\<rparr>;
              (res, m) = call_position (g_RPCHandler g) req (remote g) in
          g\<lparr>remote := m\<rparr>)"

definition getCurrentCell :: "uint16 \<Rightarrow> 'm Game \<Rightarrow> place option" where
  "getCurrentCell s g =
     (case Option.bind (Parse s g) cChar of None \<Rightarrow> None | Some c \<Rightarrow> getWorldCell (uint (X c)) (uint (Y c)))"

definition EnterWorldWithReason :: "nat \<Rightarrow> uint16 \<Rightarrow> byte \<Rightarrow> 'm Game \<Rightarrow> 'm Game" where
  "EnterWorldWithReason w s reason g =
     (case getCurrentCell s g of
        None \<Rightarrow> g
      | Some p \<Rightarrow>
          let g = sendToNearbyCells (NewUserSingle s reason g) w p 2 g;
              g = fold (SendState s w) (getNearbyCells p 2) g;
              g = upd_cell w p (AddPlayer s) g in
          upd s (\<lambda>ctx. ctx\<lparr>ctxWorld := Some w, ctxCell := Some (w, p)\<rparr>) g)"

definition EnterWorld :: "nat \<Rightarrow> uint16 \<Rightarrow> 'm Game \<Rightarrow> 'm Game" where
  "EnterWorld w s = EnterWorldWithReason w s NewUserInit"

definition ExitWorld :: "nat \<Rightarrow> uint16 \<Rightarrow> byte \<Rightarrow> 'm Game \<Rightarrow> 'm Game" where
  "ExitWorld w s reason g =
     (case Option.bind (Parse s g) ctxCell of
        None \<Rightarrow> g
      | Some (cw, p) \<Rightarrow>
          let g = upd s (\<lambda>ctx. ctx\<lparr>ctxWorld := None, ctxCell := None\<rparr>) g;
              g = upd_cell cw p (RemovePlayer s) g in
          (case DelUserList s reason g of None \<Rightarrow> g | Some pkt \<Rightarrow> sendToNearbyCells pkt w p 2 g))"

definition AdjustCell :: "nat \<Rightarrow> uint16 \<Rightarrow> 'm Game \<Rightarrow> 'm Game" where
  "AdjustCell w s g =
     (case Option.bind (Parse s g) ctxCell of
        None \<Rightarrow> g
      | Some (cw, p) \<Rightarrow>
          (case getCurrentCell s g of
             None \<Rightarrow> g
           | Some q \<Rightarrow>
               if (cw, p) = (w, q) then g
               else
                 let old = getNearbyCells p 1; new = getNearbyCells q 1;
                     g = fold (SendState s w) (difference new old) g;
                     g = upd_cell cw p (RemovePlayer s) g;
                     g = upd s (\<lambda>ctx. ctx\<lparr>ctxCell := Some (w, q)\<rparr>) g;
                     g = sendToNearbyCells (NewUserSingle s NewUserMove g) w q 2 g;
                     g = upd_cell w q (AddPlayer s) g in
                 SaveCharacterPosition s g))"

definition RefreshPlayer :: "nat \<Rightarrow> uint16 \<Rightarrow> 'm Game \<Rightarrow> 'm Game" where
  "RefreshPlayer w s g =
     (case getCurrentCell s g of None \<Rightarrow> g | Some p \<Rightarrow> fold (SendState s w) (getNearbyCells p 2) g)"

section \<open>Movement (packet/movement.go)\<close>

text \<open>\<open>context.GetWorld\<close>, and the seconds of the clock as a packet carries them.\<close>

definition GetWorld :: "uint16 \<Rightarrow> 'm Game \<Rightarrow> nat option" where
  "GetWorld s g = Option.bind (Parse s g) ctxWorld"

definition unix_time :: "'m Game \<Rightarrow> uint32" where
  "unix_time g = word_of_int (clock g div 1000000000)"

abbreviation on_char :: "('m Character \<Rightarrow> 'm Character) \<Rightarrow> 'm Context \<Rightarrow> 'm Context" where
  "on_char f \<equiv> cChar_update (map_option f)"

text \<open>The handlers that announce a movement differ in the packets and in whether they keep the course.\<close>

definition MoveBegined :: "uint16 \<Rightarrow> Reader \<Rightarrow> 'm Game \<Rightarrow> 'm Game option" where
  "MoveBegined s r g = do {
     (startX, r) \<leftarrow> ReadInt16 r; (startY, r) \<leftarrow> ReadInt16 r; (endX, r) \<leftarrow> ReadInt16 r; (endY, r) \<leftarrow> ReadInt16 r;
     (_, r) \<leftarrow> ReadInt16 r; (_, r) \<leftarrow> ReadInt16 r; (_, r) \<leftarrow> ReadInt16 r;
     case Parse s g of
       None \<Rightarrow> Some g
     | Some ctx \<Rightarrow>
         (case ctxWorld ctx of
            None \<Rightarrow> Some g
          | Some w \<Rightarrow>
              let pkt = (210, [FInt32 (char_id ctx), FUint32 (unix_time g), FInt16 startX, FInt16 startY, FInt16 endX, FInt16 endY]);
                  g = upd s (on_char (\<lambda>c. c\<lparr>BeginX := startX, BeginY := startY, EndX := endX, EndY := endY\<rparr>)) g in
              Some (BroadcastSessionPacket w s pkt g)) }"

definition MoveChanged :: "uint16 \<Rightarrow> Reader \<Rightarrow> 'm Game \<Rightarrow> 'm Game option" where
  "MoveChanged s r g = do {
     (startX, r) \<leftarrow> ReadInt16 r; (startY, r) \<leftarrow> ReadInt16 r; (endX, r) \<leftarrow> ReadInt16 r; (endY, r) \<leftarrow> ReadInt16 r;
     (_, r) \<leftarrow> ReadInt16 r; (_, r) \<leftarrow> ReadInt16 r; (_, r) \<leftarrow> ReadInt16 r;
     case Parse s g of
       None \<Rightarrow> Some g
     | Some ctx \<Rightarrow>
         (case GetWorld s g of
            None \<Rightarrow> Some g
          | Some w \<Rightarrow>
              let pkt = (212, [FInt32 (char_id ctx), FUint32 (unix_time g), FInt16 startX, FInt16 startY, FInt16 endX, FInt16 endY]);
                  g = upd s (on_char (\<lambda>c. c\<lparr>BeginX := startX, BeginY := startY, EndX := endX, EndY := endY\<rparr>)) g in
              Some (BroadcastSessionPacket w s pkt g)) }"

definition MoveEnded :: "uint16 \<Rightarrow> Reader \<Rightarrow> 'm Game \<Rightarrow> 'm Game option" where
  "MoveEnded s r g = do {
     (pntX, r) \<leftarrow> ReadInt16 r; (pntY, r) \<leftarrow> ReadInt16 r;
     case Parse s g of
       None \<Rightarrow> Some g
     | Some ctx \<Rightarrow>
         (case GetWorld s g of
            None \<Rightarrow> Some g
          | Some w \<Rightarrow>
              let pkt = (211, [FInt32 (char_id ctx), FInt16 pntX, FInt16 pntY]);
                  g = upd s (on_char (\<lambda>c. c\<lparr>BeginX := pntX, BeginY := pntY, EndX := pntX, EndY := pntY,
                        X := ucast pntX, Y := ucast pntY\<rparr>)) g in
              Some (notifyPartyMemberStats s (BroadcastSessionPacket w s pkt g))) }"

definition MoveTilePos :: "uint16 \<Rightarrow> Reader \<Rightarrow> 'm Game \<Rightarrow> 'm Game option" where
  "MoveTilePos s r g = do {
     (_, r) \<leftarrow> ReadInt16 r; (_, r) \<leftarrow> ReadInt16 r; (pntX, r) \<leftarrow> ReadInt16 r; (pntY, r) \<leftarrow> ReadInt16 r;
     case Parse s g of
       None \<Rightarrow> Some g
     | Some ctx \<Rightarrow>
         (case GetWorld s g of
            None \<Rightarrow> Some g
          | Some w \<Rightarrow>
              let g = upd s (on_char (\<lambda>c. c\<lparr>X := ucast pntX, Y := ucast pntY\<rparr>)) g in
              Some (notifyPartyMemberStats s (AdjustCell w s g))) }"

definition ChangeDirection :: "uint16 \<Rightarrow> Reader \<Rightarrow> 'm Game \<Rightarrow> 'm Game option" where
  "ChangeDirection s r g = do {
     (direction, r) \<leftarrow> ReadUint32 r;
     case Parse s g of
       None \<Rightarrow> Some g
     | Some ctx \<Rightarrow>
         (case GetWorld s g of
            None \<Rightarrow> Some g
          | Some w \<Rightarrow> Some (BroadcastSessionPacket w s (392, [FInt32 (char_id ctx), FUint32 direction]) g)) }"

text \<open>\<open>KeyMoveBegined\<close> and \<open>KeyMoveChanged\<close> are the same code but for the packet they send.\<close>

definition key_move :: "uint16 \<Rightarrow> uint16 \<Rightarrow> Reader \<Rightarrow> 'm Game \<Rightarrow> 'm Game option" where
  "key_move code s r g = do {
     (startX, r) \<leftarrow> ReadUint32 r; (startY, r) \<leftarrow> ReadUint32 r; (endX, r) \<leftarrow> ReadUint32 r; (endY, r) \<leftarrow> ReadUint32 r;
     (_, r) \<leftarrow> ReadUint32 r; (_, r) \<leftarrow> ReadUint32 r; (dir, r) \<leftarrow> ReadByte r;
     case Parse s g of
       None \<Rightarrow> Some g
     | Some ctx \<Rightarrow>
         (case GetWorld s g of
            None \<Rightarrow> Some g
          | Some w \<Rightarrow> Some (BroadcastSessionPacket w s (code, [FInt32 (char_id ctx), FUint32 (unix_time g), FUint32 startX,
              FUint32 startY, FUint32 endX, FUint32 endY, FByte dir]) g)) }"

definition KeyMoveBegined :: "uint16 \<Rightarrow> Reader \<Rightarrow> 'm Game \<Rightarrow> 'm Game option" where
  "KeyMoveBegined = key_move 403"

definition KeyMoveChanged :: "uint16 \<Rightarrow> Reader \<Rightarrow> 'm Game \<Rightarrow> 'm Game option" where
  "KeyMoveChanged = key_move 406"

text \<open>
  \<open>math.Float32frombits\<close>: the value in units of two to the power of minus 149, \<open>None\<close> for a NaN or an
  infinity. The conversion to an integer type truncates.
\<close>

definition Float32frombits :: "uint32 \<Rightarrow> int option" where
  "Float32frombits b =
     (let e = unat (and (drop_bit 23 b) 0xFF); m = uint (and b 0x7FFFFF);
          v = (if e = 0 then m else (m + 2 ^ 23) * 2 ^ (e - 1)) in
      if e = 255 then None else Some (if bit b 31 then - v else v))"

abbreviation (input) float_one :: int where "float_one \<equiv> 2 ^ 149"

definition KeyMoveEnded :: "uint16 \<Rightarrow> Reader \<Rightarrow> 'm Game \<Rightarrow> 'm Game option" where
  "KeyMoveEnded s r g = do {
     (pntXBits, r) \<leftarrow> ReadUint32 r; (pntYBits, r) \<leftarrow> ReadUint32 r;
     case Parse s g of
       None \<Rightarrow> Some g
     | Some ctx \<Rightarrow>
         (case GetWorld s g of
            None \<Rightarrow> Some g
          | Some w \<Rightarrow>
              let pkt = (404, [FInt32 (char_id ctx), FUint32 pntXBits, FUint32 pntYBits]);
                  g = (case (Float32frombits pntXBits, Float32frombits pntYBits) of
                     (Some pntX, Some pntY) \<Rightarrow>
                       if 0 \<le> pntX \<and> pntX \<le> 255 * float_one \<and> 0 \<le> pntY \<and> pntY \<le> 255 * float_one
                       then
                         let x = pntX div float_one; y = pntY div float_one;
                             g = upd s (on_char (\<lambda>c. c\<lparr>BeginX := word_of_int x, BeginY := word_of_int y,
                                   EndX := word_of_int x, EndY := word_of_int y, X := word_of_int x, Y := word_of_int y\<rparr>)) g in
                         notifyPartyMemberStats s (AdjustCell w s g)
                       else g
                   | _ \<Rightarrow> g) in
              Some (BroadcastSessionPacket w s pkt g)) }"

section \<open>Items on the ground (world.go, packet/item.go, packet/inventory.go)\<close>

text \<open>\<open>rand.Intn(n)\<close>.\<close>

definition Intn :: "nat \<Rightarrow> 'm Game \<Rightarrow> nat \<times> 'm Game" where
  "Intn n g = (rnd g (drawn g) mod n, g\<lparr>drawn := drawn g + 1\<rparr>)"

definition dropItem ::
    "nat \<Rightarrow> Item \<Rightarrow> int32 \<Rightarrow> int32 \<Rightarrow> int \<Rightarrow> int \<Rightarrow> bool \<Rightarrow> byte \<Rightarrow> byte \<Rightarrow> 'm Game \<Rightarrow> bool \<times> 'm Game" where
  "dropItem w item owner source x y ownerExpire dropType dropInfo g =
     (case getWorldCell x y of
        None \<Rightarrow> (False, g)
      | Some p \<Rightarrow>
          let (key, g) = Intn 65536 g;
              i = NewItem key (clock g) item (drop_id (Worlds g ! w)) owner source x y ownerExpire dropType dropInfo;
              g = sendToNearbyCells (NewItemSingle i True) w p 2 g in
          (True, upd_cell w p (Cell_AddItem i) g))"

definition DropItem :: "nat \<Rightarrow> Item \<Rightarrow> int32 \<Rightarrow> int \<Rightarrow> int \<Rightarrow> 'm Game \<Rightarrow> bool \<times> 'm Game" where
  "DropItem w item owner x y = dropItem w item owner owner x y (owner \<noteq> 0) 2 0x06"

definition DropMobItem :: "nat \<Rightarrow> Item \<Rightarrow> int32 \<Rightarrow> int \<Rightarrow> int \<Rightarrow> 'm Game \<Rightarrow> bool \<times> 'm Game" where
  "DropMobItem w item mobID x y = dropItem w item 0 mobID x y False 1 0x04"

text \<open>
  \<open>PickItem\<close> once the item has been found; the first result is the item that is handed out. The code holds no
  lock between the two, so another goroutine can come in between.
\<close>

definition take_item :: "nat \<Rightarrow> GroundItem \<Rightarrow> place \<Rightarrow> 'm Game \<Rightarrow> Item option \<times> 'm Game" where
  "take_item w item p g =
     (let g = sendToNearbyCells (DelItemList (GId item) 0x30) w p 2 g in
      (Some (GItem item), upd_cell w p (Cell_RemoveItem item) g))"

definition PickItem :: "nat \<Rightarrow> int32 \<Rightarrow> 'm Game \<Rightarrow> Item option \<times> 'm Game" where
  "PickItem w i g =
     (case find_item i (Worlds g ! w) of
        (None, _) \<Rightarrow> (None, g)
      | (Some item, p) \<Rightarrow> take_item w item p g)"

text \<open>The expiry of one cell, and the tick of the item timer over a world.\<close>

definition Schedule :: "nat \<Rightarrow> place \<Rightarrow> 'm Game \<Rightarrow> 'm Game" where
  "Schedule w p g =
     (let gone = expired (clock g) (cell_of w p g);
          g = upd_cell w p (Cell_Schedule (clock g)) g in
      fold (\<lambda>v. sendToNearbyCells (DelItemList (GId v) 0x14) w p 2) gone g)"

definition item_tick :: "nat \<Rightarrow> 'm Game \<Rightarrow> 'm Game" where
  "item_tick w = fold (Schedule w) all_cells"

text \<open>\<open>StackItem\<close> on a copy of the slot's item: whether to stack, and the new copy.\<close>

definition stack_on :: "Item \<Rightarrow> GroundItem \<Rightarrow> bool \<times> Item" where
  "stack_on dst src =
     (if Kind dst = 0 then (False, dst)
      else if Kind dst \<noteq> Kind (GItem src) then (False, dst)
      else (True, dst\<lparr>Option := Option dst + Option (GItem src)\<rparr>))"

definition refuse_looting :: "uint16 \<Rightarrow> byte \<Rightarrow> 'm Game \<Rightarrow> 'm Game" where
  "refuse_looting s status = send s (153, [FByte status, FUint32 0, FInt32 0, FUint16 0, FUint32 0])"

text \<open>
  \<open>ItemLooting\<close> after the item has been picked up, and from the point where the item on the ground has
  been seen and checked.
\<close>

definition keep_loot :: "uint16 \<Rightarrow> 'm Character \<Rightarrow> uint16 \<Rightarrow> bool \<Rightarrow> Item \<Rightarrow> Item \<Rightarrow> 'm Game \<Rightarrow> 'm Game" where
  "keep_loot s c slot isStacked currentItem invItem g =
     (let invItem = invItem\<lparr>Slot := slot\<rparr>;
          invItem = (if isStacked then invItem\<lparr>Option := Option currentItem\<rparr> else invItem);
          ((ok, err), e, m) = (if isStacked then Stack slot (Option currentItem) (CharInventory c) (remote g)
            else Inventory_Set slot invItem (CharInventory c) (remote g));
          g = upd s (on_char (CharInventory_update (\<lambda>_. e))) (g\<lparr>remote := m\<rparr>) in
      send s (153, [FByte (if ok then 0x60 else 0x61), FUint32 (Kind invItem), FInt32 (Option invItem),
        FUint16 slot, FUint32 (Expire invItem)]) g)"

definition loot :: "nat \<Rightarrow> uint16 \<Rightarrow> 'm Character \<Rightarrow> int32 \<Rightarrow> uint16 \<Rightarrow> bool \<Rightarrow> Item \<Rightarrow> 'm Game \<Rightarrow> 'm Game" where
  "loot w s c i slot isStacked currentItem g =
     (case PickItem w i g of
        (None, g) \<Rightarrow> g
      | (Some invItem, g) \<Rightarrow> keep_loot s c slot isStacked currentItem invItem g)"

definition ItemLooting :: "uint16 \<Rightarrow> Reader \<Rightarrow> 'm Game \<Rightarrow> 'm Game option" where
  "ItemLooting s r g = do {
     (i, r) \<leftarrow> ReadInt32 r; (key, r) \<leftarrow> ReadUint16 r; (_, r) \<leftarrow> ReadUint32 r; (slot, r) \<leftarrow> ReadUint16 r;
     case Option.bind (Parse s g) (\<lambda>ctx. map_option (Pair (ctxWorld ctx)) (cChar ctx)) of
       None \<Rightarrow> Some g
     | Some (None, c) \<Rightarrow> Some g
     | Some (Some w, c) \<Rightarrow>
         let currentItem = Inventory_Get slot (CharInventory c) in
         (case PeekItem i key (Worlds g ! w) of
            None \<Rightarrow> Some g
          | Some item \<Rightarrow>
              let distX = uint (X c) - uint (GX item); distY = uint (Y c) - uint (GY item) in
              if distX < -10 \<or> distX > 10 \<or> distY < -10 \<or> distY > 10 then Some (refuse_looting s 0x65 g)
              else if \<not> IsOwnerExpired (clock g) item \<and> GOwner item \<noteq> CharId c then Some (refuse_looting s 0x61 g)
              else
                let (isStacked, currentItem) = stack_on currentItem item in
                if \<not> isStacked \<and> Kind currentItem \<noteq> 0 then Some (refuse_looting s 0x63 g)
                else Some (loot w s c i slot isStacked currentItem g)) }"

definition StorageItemDrop :: "uint16 \<Rightarrow> Reader \<Rightarrow> 'm Game \<Rightarrow> 'm Game option" where
  "StorageItemDrop s r g = do {
     (_, r) \<leftarrow> ReadInt32 r; (slot, r) \<leftarrow> ReadUint16 r;
     case Option.bind (Parse s g) (\<lambda>ctx. map_option (Pair (ctxWorld ctx)) (cChar ctx)) of
       None \<Rightarrow> Some g
     | Some (None, c) \<Rightarrow> Some g
     | Some (Some w, c) \<Rightarrow>
         let item = Inventory_Get slot (CharInventory c);
             ((ok, err), e, m) = Inventory_Remove slot (CharInventory c) (remote g);
             g = upd s (on_char (CharInventory_update (\<lambda>_. e))) (g\<lparr>remote := m\<rparr>);
             g = send s (2168, [FByte (if ok then 1 else 0)]) g in
         Some (if ok then snd (DropItem w item (CharId c) (uint (X c)) (uint (Y c)) g) else g) }"

section \<open>Coming and going (packet/initialized.go, event.go)\<close>

text \<open>What a client is told about its premium service (\<open>packet/account.go\<close>, \<open>premium.go\<close>).\<close>

definition chargeState :: "uint16 \<Rightarrow> 'm Game \<Rightarrow> byte \<times> int32" where
  "chargeState s g =
     (let now = word_of_int (clock g div 1000000000) :: uint64 in
      case Option.bind (Parse s g) cChar of
        None \<Rightarrow> (0, 0)
      | Some c \<Rightarrow>
          if HasPremium now c
          then let seconds = PremiumExpire c - now;
                   seconds = (if seconds > 0x7FFFFFFF then 0x7FFFFFFF else seconds) in
            (PremiumService c, ucast seconds)
          else (0, 0))"

definition charge_mode :: "int32 \<Rightarrow> field" where
  "charge_mode remaining = (if sint remaining > 0 then FByte 0x08 else FByte 0x00)"

definition sendChargeInfo :: "uint16 \<Rightarrow> 'm Game \<Rightarrow> 'm Game" where
  "sendChargeInfo s g = (let (serviceKind, remaining) = chargeState s g in
     send s (324, [charge_mode remaining, FInt32 remaining, FInt32 0, FByte serviceKind]) g)"

definition sendChargeNotification :: "uint16 \<Rightarrow> 'm Game \<Rightarrow> 'm Game" where
  "sendChargeNotification s g = (let (serviceKind, remaining) = chargeState s g in
     send s (325, [charge_mode remaining, FInt32 remaining, FByte serviceKind]) g)"

definition writeDurationSvcProfile :: "int32 \<Rightarrow> int32 \<Rightarrow> bool \<Rightarrow> field list" where
  "writeDurationSvcProfile index serviceType premium =
     (let one = FInt32 (if premium then 1 else 0); flag = FByte (if premium then 1 else 0) in
      [FInt32 0, FByte 0, FByte 0, FInt32 index, FInt32 serviceType, FInt32 0, FUint16 0, FUint16 0, FInt32 0, FInt32 0,
       FInt32 0, FInt32 0, one, one, FInt32 0, one, one, FInt32 0, FInt32 0, FInt32 0, FInt32 0, flag,
       FUint16 (if premium then 15 else 0), FUint16 (if premium then 256 else 0), FUint16 0, flag,
       FInt32 0, FInt32 0, one, FInt32 0, one])"

definition sendDurationSvcData :: "uint16 \<Rightarrow> 'm Game \<Rightarrow> 'm Game" where
  "sendDurationSvcData s g =
     send s (999, FByte 0 # FUint16 36 # FUint16 0 # writeDurationSvcProfile 0 4 False @
       concat (map (\<lambda>index. writeDurationSvcProfile (ucast index) 0 (index = fst (chargeState s g)))
         (map word_of_nat [1..<36]))) g"

definition DurationSvcData :: "uint16 \<Rightarrow> Reader \<Rightarrow> 'm Game \<Rightarrow> 'm Game option" where
  "DurationSvcData s r g = Some (sendDurationSvcData s g)"

text \<open>
  The end of \<open>Initialized\<close>: the character becomes the player's and enters its world. \<open>c\<close> is the
  character as it was loaded, \<open>Inventory\<close> included.
\<close>

definition start_playing :: "uint16 \<Rightarrow> 'm Character \<Rightarrow> 'm Game \<Rightarrow> 'm Game" where
  "start_playing s c g =
     (let c = c\<lparr>BeginX := ucast (X c), BeginY := ucast (Y c), EndX := ucast (X c), EndY := ucast (Y c)\<rparr>;
          c = c\<lparr>CharInventory := Inventory_Setup (Some (g_RPCHandler g)) (CharId c) (ServerId g) (CharInventory c),
            CharEquipment := Equipment_Setup (Some (g_RPCHandler g)) (CharId c) (ServerId g) (CharEquipment c)\<rparr>;
          g = upd s (\<lambda>ctx. ctx\<lparr>cChar := Some c\<rparr>) g;
          g = sendChargeNotification s g;
          g = sendDurationSvcData s g;
          g = sendPartyStatsReconnect s g in
      case FindWorld (World c) g of None \<Rightarrow> g | Some w \<Rightarrow> EnterWorld w s g)"

text \<open>\<open>Uninitialze\<close>, for a character without an active battle mode.\<close>

definition Uninitialze :: "uint16 \<Rightarrow> Reader \<Rightarrow> 'm Game \<Rightarrow> 'm Game option" where
  "Uninitialze s r g = do {
     (_, r) \<leftarrow> ReadUint16 r; (_, r) \<leftarrow> ReadByte r; (_, r) \<leftarrow> ReadByte r;
     let g = CancelTrade s g;
     let (_, g) = LeaveParty s g;
     let g = SaveCharacterPosition s g;
     case GetWorld s g of
       None \<Rightarrow> Some g
     | Some w \<Rightarrow> Some (ExitWorld w s DelUserLogout (send s (143, [FByte 0]) g)) }"

text \<open>\<open>OnClientDisconnect\<close>, and the removal from the client table that follows.\<close>

definition OnClientDisconnect :: "uint16 \<Rightarrow> 'm Game \<Rightarrow> 'm Game" where
  "OnClientDisconnect s g =
     (let g = CancelTrade s g;
          (_, g) = LeaveParty s g;
          g = SaveCharacterPosition s g in
      case GetWorld s g of None \<Rightarrow> g | Some w \<Rightarrow> ExitWorld w s DelUserLogout g)"

definition world_handlers :: "(uint16 \<times> 'm handler) list" where
  "world_handlers = [(143, Uninitialze), (153, ItemLooting), (190, MoveBegined), (191, MoveEnded), (192, MoveChanged),
     (194, MoveTilePos), (391, ChangeDirection), (401, KeyMoveBegined), (402, KeyMoveEnded), (405, KeyMoveChanged),
     (999, DurationSvcData), (2168, StorageItemDrop)]"

end
