(* ===== verification/Freya_Mobs.thy ===== *)
theory Freya_Mobs
  imports Freya_World
begin

text \<open>
  Mobs (\<open>cmd/gameserver/game/mob.go\<close>, \<open>path.go\<close>, \<open>manager.go\<close>, the drops of \<open>world.go\<close>): spawning, health and
  death, drops, respawn, and the states of their walk. A mob is known by its world and id. The A* search
  and the floating-point course between two way points are arguments.
\<close>

section \<open>Drop lists (manager.go, world.go)\<close>

record DropEntry =
  MobSpecies :: uint32
  ItemKind :: uint32
  ItemOption :: int32
  Amount :: uint16
  ChanceBPS :: uint16

type_synonym drops = "uint32 \<Rightarrow> DropEntry list"

definition valid_entry :: "DropEntry \<Rightarrow> bool" where
  "valid_entry e \<longleftrightarrow> \<not> (MobSpecies e = 0 \<or> ItemKind e = 0 \<or> Amount e = 0 \<or> ChanceBPS e = 0 \<or> ChanceBPS e > 10000)"

definition SetDropList :: "DropEntry list \<Rightarrow> drops" where
  "SetDropList entries = fold (\<lambda>entry bySpecies.
     if \<not> valid_entry entry then bySpecies
     else bySpecies(MobSpecies entry := bySpecies (MobSpecies entry) @ [entry])) entries (\<lambda>_. [])"

definition drop_of :: "DropEntry \<Rightarrow> Item" where
  "drop_of entry = (let amount = (if Amount entry = 0 then 1 else Amount entry) in
     \<lparr>Kind = ItemKind entry, Serials = 0, Option = (if amount > 1 then ucast amount else ItemOption entry), Slot = 0, Expire = 0\<rparr>)"

text \<open>The number of items dropped comes first.\<close>

primrec DropMobItems :: "nat \<Rightarrow> DropEntry list \<Rightarrow> int32 \<Rightarrow> int \<Rightarrow> int \<Rightarrow> 'm Game \<Rightarrow> nat \<times> 'm Game" where
  "DropMobItems w [] mobID x y g = (0, g)"
| "DropMobItems w (entry # entries) mobID x y g =
     (let (roll, g) = Intn 10000 g in
      if roll \<ge> unat (ChanceBPS entry) then DropMobItems w entries mobID x y g
      else let (ok, g) = DropMobItem w (drop_of entry) mobID x y g;
               (n, g) = DropMobItems w entries mobID x y g in
        (if ok then Suc n else n, g))"

section \<open>Spawning (mob.go, world.go)\<close>

definition now_ms :: "'m Game \<Rightarrow> int" where
  "now_ms g = clock g div 1000000"

definition upd_mob :: "nat \<Rightarrow> int \<Rightarrow> (Mob \<Rightarrow> Mob) \<Rightarrow> 'm Game \<Rightarrow> 'm Game" where
  "upd_mob w i f = upd_world w (\<lambda>v. v\<lparr>mobs := (mobs v)(i := map_option f (mobs v i))\<rparr>)"

text \<open>A template fills in every value it has set. A speed is zero with either sign.\<close>

definition Merge :: "Mob \<Rightarrow> Mob \<Rightarrow> Mob" where
  "Merge m mob =
     (let m = (if Species mob \<noteq> 0 then m\<lparr>Species := Species mob\<rparr> else m);
          m = (if SpawnX mob \<noteq> 0 then m\<lparr>SpawnX := SpawnX mob\<rparr> else m);
          m = (if SpawnY mob \<noteq> 0 then m\<lparr>SpawnY := SpawnY mob\<rparr> else m);
          m = (if MoveSpeed mob \<notin> {0, 0x80000000} then m\<lparr>MoveSpeed := MoveSpeed mob\<rparr> else m);
          m = (if FindCount mob \<noteq> 0 then m\<lparr>FindCount := FindCount mob\<rparr> else m);
          m = (if FindInterval mob \<noteq> 0 then m\<lparr>FindInterval := FindInterval mob\<rparr> else m);
          m = (if MoveInterval mob \<noteq> 0 then m\<lparr>MoveInterval := MoveInterval mob\<rparr> else m);
          m = (if SpawnInterval mob \<noteq> 0 then m\<lparr>SpawnInterval := SpawnInterval mob\<rparr> else m);
          m = (if MobLevel mob \<noteq> 0 then m\<lparr>MobLevel := MobLevel mob\<rparr> else m);
          m = (if MobExperience mob \<noteq> 0 then m\<lparr>MobExperience := MobExperience mob\<rparr> else m) in
      if MobMaxHP mob \<noteq> 0 then m\<lparr>MobMaxHP := MobMaxHP mob\<rparr> else m)"

definition spawn_position :: "Mob \<Rightarrow> Position" where
  "spawn_position m =
     \<lparr>IsMoving = False, IsDeadReckoning = False, InitialX = sint (SpawnX m), InitialY = sint (SpawnY m),
      CurrentX = sint (SpawnX m), CurrentY = sint (SpawnY m), FinalX = sint (SpawnX m), FinalY = sint (SpawnY m),
      WayPoints = [], CurrentWayPoint = 0, MoveBegin = 0, Speed = 0\<rparr>"

definition SetState :: "int \<Rightarrow> MobStateType \<Rightarrow> Mob \<Rightarrow> Mob" where
  "SetState now state m =
     (let next = (case state of MobStateFind \<Rightarrow> now + FindInterval m | MobStateMove \<Rightarrow> now + MoveInterval m | MobStateNone \<Rightarrow> now) in
      m\<lparr>mstate := state, nextRun := next, findRemain := FindCount m\<rparr>)"

definition Mob_Initialize :: "int \<Rightarrow> Mob \<Rightarrow> Mob" where
  "Mob_Initialize now m =
     SetState now MobStateFind (m\<lparr>MobCurrentHP := MobMaxHP m, mdead := False, respawnAt := 0, mposition := spawn_position m\<rparr>)"

definition GetMob :: "Mob list \<Rightarrow> int \<Rightarrow> Mob option" where
  "GetMob templates species = List.find (\<lambda>v. Species v = species) templates"

text \<open>The loop of \<open>initializeMobs\<close> from the index \<open>k\<close> on.\<close>

primrec init_mobs :: "nat \<Rightarrow> Mob list \<Rightarrow> nat \<Rightarrow> Mob list \<Rightarrow> 'm Game \<Rightarrow> 'm Game" where
  "init_mobs w templates k [] g = g"
| "init_mobs w templates k (v # vs) g =
     (case getWorldCell (sint (SpawnX v)) (sint (SpawnY v)) of
        None \<Rightarrow> init_mobs w templates (k + 1) vs g
      | Some p \<Rightarrow>
          let mob = v\<lparr>MobId := int k + 1, mcell := p\<rparr>;
              mob = (case GetMob templates (Species mob) of None \<Rightarrow> mob | Some parent \<Rightarrow> Merge mob parent);
              mob = Mob_Initialize (now_ms g) mob;
              g = upd_world w (\<lambda>v. v\<lparr>mobs := (mobs v)(MobId mob \<mapsto> mob)\<rparr>) g;
              g = upd_cell w p (AddMob (MobId mob)) g in
          init_mobs w templates (k + 1) vs g)"

definition initializeMobs :: "nat \<Rightarrow> Mob list \<Rightarrow> Mob list \<Rightarrow> 'm Game \<Rightarrow> 'm Game" where
  "initializeMobs w templates ms g = init_mobs w templates 0 ms (upd_world w (\<lambda>v. v\<lparr>mobs := Map.empty\<rparr>) g)"

section \<open>Health and death (mob.go)\<close>

abbreviation (input) NFY_DELLINKMOBS :: uint16 where "NFY_DELLINKMOBS \<equiv> 998"
abbreviation (input) NFY_MOBSMOVEBGN :: uint16 where "NFY_MOBSMOVEBGN \<equiv> 213"
abbreviation (input) NFY_MOBSMOVEEND :: uint16 where "NFY_MOBSMOVEEND \<equiv> 214"

text \<open>
  The methods panic on a nil mob, and \<open>world.FindMob\<close> hands out a nil mob for an id that is not in the map.
  \<open>SubHealth\<close> tells whether the mob died; \<open>die\<close> is its branch for a mob without health.
\<close>

definition FindMob :: "nat \<Rightarrow> int \<Rightarrow> 'm Game \<Rightarrow> Mob option" where
  "FindMob w i g = mobs (Worlds g ! w) i"

definition GetHealth :: "nat \<Rightarrow> int \<Rightarrow> 'm Game \<Rightarrow> (int \<times> int) option" where
  "GetHealth w i g = map_option (\<lambda>m. (MobCurrentHP m, MobMaxHP m)) (FindMob w i g)"

definition die :: "drops \<Rightarrow> nat \<Rightarrow> int \<Rightarrow> Mob \<Rightarrow> 'm Game \<Rightarrow> 'm Game" where
  "die dropList w i m g =
     (let g = upd_mob w i (\<lambda>m. m\<lparr>mdead := True,
                respawnAt := (if SpawnInterval m > 0 then now_ms g + SpawnInterval m else respawnAt m)\<rparr>) g;
          g = upd_cell w (mcell m) (RemoveMob i) g;
          pkt = (NFY_DELLINKMOBS, [FInt32 0, FUint16 1, FInt32 (word_of_int (MobId m)), FByte 21, FByte 0]);
          g = BroadcastPacket w (mcell m) pkt g in
      snd (DropMobItems w (dropList (word_of_int (Species m))) (word_of_int (MobId m))
        (CurrentX (mposition m)) (CurrentY (mposition m)) g))"

definition SubHealth :: "drops \<Rightarrow> nat \<Rightarrow> int \<Rightarrow> int \<Rightarrow> 'm Game \<Rightarrow> (bool \<times> 'm Game) option" where
  "SubHealth dropList w i hp g = do {
     m \<leftarrow> FindMob w i g;
     if hp \<le> 0 \<or> MobCurrentHP m \<le> 0 then Some (False, g)
     else
       let left = (if MobCurrentHP m - hp < 0 then 0 else MobCurrentHP m - hp);
           g = upd_mob w i (\<lambda>m. m\<lparr>MobCurrentHP := left\<rparr>) g in
       if left \<le> 0 then Some (True, die dropList w i m g) else Some (False, g) }"

definition respawn :: "nat \<Rightarrow> int \<Rightarrow> int \<Rightarrow> 'm Game \<Rightarrow> 'm Game" where
  "respawn w i now g =
     (case FindMob w i g of
        None \<Rightarrow> g
      | Some m \<Rightarrow>
          if \<not> mdead m \<or> respawnAt m = 0 \<or> now < respawnAt m then g
          else case getWorldCell (sint (SpawnX m)) (sint (SpawnY m)) of
            None \<Rightarrow> g
          | Some p \<Rightarrow>
              let m = m\<lparr>MobCurrentHP := MobMaxHP m, mdead := False, respawnAt := 0, mcell := p, mposition := spawn_position m,
                        mstate := MobStateFind, findRemain := FindCount m, nextRun := now + FindInterval m\<rparr>;
                  g = upd_mob w i (\<lambda>_. m) g;
                  g = upd_cell w p (AddMob i) g in
              BroadcastPacket w p (NewMobsList [m]) g)"

section \<open>Walking (mob.go, path.go)\<close>

text \<open>
  Where the floating-point course has brought a mob after some milliseconds: before the start of the current
  segment, past its end, or at a displacement from its start.
\<close>

datatype reckoning = Behind | Past | At int int

type_synonym course = "Position \<Rightarrow> int \<Rightarrow> reckoning"

function reckon :: "course \<Rightarrow> int \<Rightarrow> Position \<Rightarrow> Position" where
  "reckon course elapsed pos =
     (case course pos elapsed of
        Behind \<Rightarrow> pos
      | At moveX moveY \<Rightarrow> pos\<lparr>CurrentX := InitialX pos + moveX, CurrentY := InitialY pos + moveY\<rparr>
      | Past \<Rightarrow>
          let pos = pos\<lparr>CurrentWayPoint := CurrentWayPoint pos + 1\<rparr> in
          if CurrentWayPoint pos + 1 \<ge> int (length (WayPoints pos))
          then pos\<lparr>IsDeadReckoning := False, CurrentX := FinalX pos, CurrentY := FinalY pos\<rparr>
          else let (x, y) = WayPoints pos ! nat (CurrentWayPoint pos + 1) in
            reckon course elapsed (pos\<lparr>InitialX := FinalX pos, InitialY := FinalY pos, FinalX := x, FinalY := y\<rparr>))"
  by pat_completeness auto
termination
  by (relation "measure (\<lambda>(_, _, pos). nat (int (length (WayPoints pos)) - CurrentWayPoint pos))") auto

definition DeadReckoning :: "course \<Rightarrow> int \<Rightarrow> Position \<Rightarrow> Position" where
  "DeadReckoning course now pos = reckon course (now - MoveBegin pos) pos"

definition OpenDeadReckoning :: "int \<Rightarrow> Position \<Rightarrow> Position" where
  "OpenDeadReckoning now pos = pos\<lparr>IsMoving := True, IsDeadReckoning := True, MoveBegin := now\<rparr>"

definition findNewPath :: "nat \<Rightarrow> Position \<Rightarrow> 'm Game \<Rightarrow> (bool \<times> Position) \<times> 'm Game" where
  "findNewPath w pos g =
     (let (dx, g) = Intn 11 g; (dy, g) = Intn 11 g;
          newX = CurrentX pos + int dx - 5; newY = CurrentY pos + int dy - 5 in
      if newX < 0 \<or> newY < 0 then ((False, pos), g)
      else if \<not> IsMovable newX newY (Worlds g ! w) then ((False, pos), g)
      else ((True, pos\<lparr>FinalX := newX, FinalY := newY\<rparr>), g))"

definition adjustCell :: "nat \<Rightarrow> int \<Rightarrow> Position \<Rightarrow> 'm Game \<Rightarrow> 'm Game" where
  "adjustCell w i pos g =
     (case (FindMob w i g, getWorldCell (CurrentX pos) (CurrentY pos)) of
        (Some m, Some p) \<Rightarrow>
          if p = mcell m then g
          else
            let g = upd_cell w (mcell m) (RemoveMob i) g;
                g = upd_mob w i (\<lambda>m. m\<lparr>mcell := p\<rparr>) g in
            upd_cell w p (AddMob i) g
      | _ \<Rightarrow> g)"

definition MobMoveBegin :: "Mob \<Rightarrow> packet" where
  "MobMoveBegin m = (let pos = mposition m in (NFY_MOBSMOVEBGN, [FInt32 (word_of_int (MobId m)), FUint32 (word_of_int (MoveBegin pos)),
     FInt16 (word_of_int (InitialX pos)), FInt16 (word_of_int (InitialY pos)),
     FInt16 (word_of_int (FinalX pos)), FInt16 (word_of_int (FinalY pos))]))"

definition MobMoveEnd :: "Mob \<Rightarrow> packet" where
  "MobMoveEnd m = (let pos = mposition m in (NFY_MOBSMOVEEND, [FInt32 (word_of_int (MobId m)),
     FInt16 (word_of_int (FinalX pos)), FInt16 (word_of_int (FinalY pos))]))"

text \<open>A packet about a mob, to the cells around the one it points to.\<close>

definition announce :: "nat \<Rightarrow> int \<Rightarrow> (Mob \<Rightarrow> packet) \<Rightarrow> 'm Game \<Rightarrow> 'm Game" where
  "announce w i f g = (case FindMob w i g of None \<Rightarrow> g | Some m \<Rightarrow> BroadcastPacket w (mcell m) (f m) g)"

abbreviation set_state :: "nat \<Rightarrow> int \<Rightarrow> MobStateType \<Rightarrow> 'm Game \<Rightarrow> 'm Game" where
  "set_state w i state g \<equiv> upd_mob w i (SetState (now_ms g) state) g"

abbreviation set_position :: "nat \<Rightarrow> int \<Rightarrow> Position \<Rightarrow> 'm Game \<Rightarrow> 'm Game" where
  "set_position w i pos \<equiv> upd_mob w i (\<lambda>m. m\<lparr>mposition := pos\<rparr>)"

definition handleFind :: "nat \<Rightarrow> int \<Rightarrow> int \<Rightarrow> 'm Game \<Rightarrow> 'm Game" where
  "handleFind w i now g =
     (case FindMob w i g of
        None \<Rightarrow> g
      | Some m \<Rightarrow>
          if findRemain m \<le> 1 then set_state w i MobStateMove g
          else upd_mob w i (\<lambda>m. m\<lparr>findRemain := findRemain m - 1, nextRun := now + FindInterval m\<rparr>) g)"

text \<open>
  \<open>astar\<close> is \<open>astar.Path\<close>: the path from its end to its start, and its cost. The code takes the way point with
  the cost as its index, which panics when there is none.
\<close>

type_synonym astar = "World \<Rightarrow> int \<times> int \<Rightarrow> int \<times> int \<Rightarrow> (int \<times> int) list \<times> nat"

definition start_walk :: "astar \<Rightarrow> nat \<Rightarrow> int \<Rightarrow> Mob \<Rightarrow> 'm Game \<Rightarrow> 'm Game option" where
  "start_walk astar w i m g =
     (let ((found, pos), g) = findNewPath w (mposition m) g in
      if \<not> found then Some (set_state w i MobStateFind g)
      else
        let (path, distance) = astar (Worlds g ! w) (InitialX pos, InitialY pos) (FinalX pos, FinalY pos) in
        if distance = 0 then Some (set_state w i MobStateFind g)
        else if distance \<ge> length path then None
        else
          let pos = pos\<lparr>WayPoints := [path ! distance, path ! 0], CurrentWayPoint := 0, Speed := MoveSpeed m\<rparr>;
              g = set_position w i (OpenDeadReckoning (now_ms g) pos) g in
          Some (announce w i MobMoveBegin g))"

definition go_on :: "course \<Rightarrow> nat \<Rightarrow> int \<Rightarrow> Position \<Rightarrow> 'm Game \<Rightarrow> 'm Game" where
  "go_on course w i pos g =
     (let (pos, g) =
        (if CurrentX pos = FinalX pos \<and> CurrentY pos = FinalY pos then (pos\<lparr>IsDeadReckoning := False\<rparr>, g)
         else let pos = DeadReckoning course (now_ms g) pos in (pos, adjustCell w i pos (set_position w i pos g))) in
      if IsDeadReckoning pos then set_position w i pos g
      else
        let pos = pos\<lparr>InitialX := FinalX pos, InitialY := FinalY pos, IsMoving := False\<rparr>;
            g = announce w i MobMoveEnd (set_position w i pos g) in
        set_state w i MobStateFind g)"

definition handleMove :: "astar \<Rightarrow> course \<Rightarrow> nat \<Rightarrow> int \<Rightarrow> int \<Rightarrow> 'm Game \<Rightarrow> 'm Game option" where
  "handleMove astar course w i now g =
     (case FindMob w i g of
        None \<Rightarrow> Some g
      | Some m \<Rightarrow>
          let g = upd_mob w i (\<lambda>m. m\<lparr>nextRun := now + MoveInterval m\<rparr>) g in
          if \<not> IsMoving (mposition m) then start_walk astar w i m g
          else Some (go_on course w i (mposition m) g))"

definition Mob_Update :: "astar \<Rightarrow> course \<Rightarrow> nat \<Rightarrow> int \<Rightarrow> 'm Game \<Rightarrow> 'm Game option" where
  "Mob_Update astar course w i g =
     (let now = now_ms g in
      case FindMob w i g of
        None \<Rightarrow> Some g
      | Some m \<Rightarrow>
          if mdead m then Some (if respawnAt m > 0 \<and> now \<ge> respawnAt m then respawn w i now g else g)
          else if nextRun m > now then Some g
          else case mstate m of
            MobStateFind \<Rightarrow> Some (handleFind w i now g)
          | MobStateMove \<Rightarrow> handleMove astar course w i now g
          | MobStateNone \<Rightarrow> Some g)"

end
