(* ===== verification/Freya_World_Laws.thy ===== *)
theory Freya_World_Laws
  imports Freya_Mobs Freya_Party_Laws
begin

text \<open>
  Players on the maps: wherever the server gets by trades, parties, movement, drops and loot, every
  player is filed in exactly the cell its context records, and has been shown every player of its own and
  the eight neighbouring cells.
\<close>

section \<open>What a client has been shown\<close>

text \<open>The character ids in the entries of a \<open>NEWUSERLIST\<close> packet, thirty-one fields each.\<close>

fun entry_ids :: "field list \<Rightarrow> int32 list" where
  "entry_ids (FUint32 c # fs) = c # entry_ids (drop 30 fs)"
| "entry_ids _ = []"

text \<open>The characters a client draws after a packet: an announcement adds some, a departure removes one.\<close>

definition see :: "packet \<Rightarrow> int32 set \<Rightarrow> int32 set" where
  "see pkt S =
     (if fst pkt = NEWUSERLIST then S \<union> set (entry_ids (drop 2 (snd pkt)))
      else if fst pkt = DELUSERLIST then (case snd pkt of FUint32 c # _ \<Rightarrow> S - {c} | _ \<Rightarrow> S)
      else S)"

definition view :: "'m Game \<Rightarrow> uint16 \<Rightarrow> int32 set" where
  "view g i = fold (\<lambda>(k, pkt) S. if k = i then see pkt S else S) (sent g) {}"

text \<open>Where a player is, and the id of its character.\<close>

definition location :: "'m Game \<Rightarrow> uint16 \<Rightarrow> (nat \<times> place) option" where
  "location g i = Option.bind (Option.bind (users g i) id) ctxCell"

definition cid :: "'m Game \<Rightarrow> uint16 \<Rightarrow> int32 option" where
  "cid g i = map_option CharId (Option.bind (Option.bind (users g i) id) cChar)"

abbreviation standing :: "'m Game \<Rightarrow> nat \<Rightarrow> place \<Rightarrow> uint16 set" where
  "standing g w p \<equiv> set (Players (cell_of w p g))"

definition listeners :: "'m Game \<Rightarrow> nat \<Rightarrow> place \<Rightarrow> int \<Rightarrow> uint16 set" where
  "listeners g w p radius = {i. \<exists>q. nearby radius p q \<and> i \<in> standing g w q}"

section \<open>The invariant\<close>

text \<open>Contexts and cells agree.\<close>

definition placed :: "'m Game \<Rightarrow> bool" where
  "placed g \<longleftrightarrow>
     (\<forall>w p i. w < length (Worlds g) \<longrightarrow> (i \<in> standing g w p \<longleftrightarrow> location g i = Some (w, p))) \<and>
     (\<forall>i ctx. users g i = Some (Some ctx) \<longrightarrow> ctxWorld ctx = map_option fst (ctxCell ctx)) \<and>
     (\<forall>i w p. location g i = Some (w, p) \<longrightarrow> w < length (Worlds g) \<and> inside p \<and> cid g i \<noteq> None)"

text \<open>No character is played twice at a time.\<close>

definition unique_ids :: "'m Game \<Rightarrow> bool" where
  "unique_ids g \<longleftrightarrow> (\<forall>i j. location g i \<noteq> None \<and> location g j \<noteq> None \<and> cid g i = cid g j \<longrightarrow> i = j)"

text \<open>Neighbours are shown to each other.\<close>

definition aware :: "'m Game \<Rightarrow> bool" where
  "aware g \<longleftrightarrow> (\<forall>i j w p q c. i \<noteq> j \<and> location g i = Some (w, p) \<and> location g j = Some (w, q) \<and> nearby 1 p q \<and>
     cid g j = Some c \<longrightarrow> c \<in> view g i)"

definition map_inv :: "'m Game \<Rightarrow> bool" where
  "map_inv g \<longleftrightarrow> placed g \<and> unique_ids g \<and> aware g"

section \<open>What does not concern the map\<close>

definition stance :: "'m Context \<Rightarrow> (nat \<times> place) option \<times> nat option \<times> int32 option" where
  "stance ctx = (ctxCell ctx, ctxWorld ctx, map_option CharId (cChar ctx))"

text \<open>From \<open>g\<close> to \<open>h\<close> nobody has moved, and no packet about players has been sent.\<close>

definition aside :: "'m Game \<Rightarrow> 'm Game \<Rightarrow> bool" where
  "aside g h \<longleftrightarrow>
     (\<forall>i. map_option (map_option stance) (users h i) = map_option (map_option stance) (users g i)) \<and>
     length (Worlds h) = length (Worlds g) \<and> (\<forall>w p. standing h w p = standing g w p) \<and>
     (\<exists>ms. sent h = sent g @ ms \<and> (\<forall>m\<in>set ms. fst (snd m) \<noteq> NEWUSERLIST \<and> fst (snd m) \<noteq> DELUSERLIST))"

named_theorems aside_intro "rules for what does not concern the map"

lemma aside_refl [aside_intro]: "aside g g"
  by (simp add: aside_def)

lemma aside_trans: "aside f g \<Longrightarrow> aside g h \<Longrightarrow> aside f h"
  unfolding aside_def by (fastforce simp: ball_Un)

lemma aside_upd [aside_intro]:
  assumes "aside g h" "\<And>c. stance (f c) = stance c"
  shows "aside g (upd i f h)"
proof -
  have "map_option (map_option stance) (users (upd i f h) j) = map_option (map_option stance) (users h j)" for j
    using assms(2) by (simp add: users_upd option.map_comp comp_def)
  then show ?thesis using assms(1) by (simp add: aside_def cell_of_def)
qed

lemma aside_send [aside_intro]:
  assumes "aside g h" "fst pkt \<noteq> NEWUSERLIST" "fst pkt \<noteq> DELUSERLIST"
  shows "aside g (send i pkt h)"
proof -
  obtain ms where "sent h = sent g @ ms" "\<forall>m\<in>set ms. fst (snd m) \<noteq> NEWUSERLIST \<and> fst (snd m) \<noteq> DELUSERLIST"
    using assms(1) by (auto simp: aside_def)
  then have "sent (send i pkt h) = sent g @ (ms @ [(i, pkt)])"
    "\<forall>m\<in>set (ms @ [(i, pkt)]). fst (snd m) \<noteq> NEWUSERLIST \<and> fst (snd m) \<noteq> DELUSERLIST"
    using assms(2,3) by (simp_all add: send_def)
  then show ?thesis using assms(1) unfolding aside_def by (fastforce simp: cell_of_def)
qed

lemma aside_fields [aside_intro]:
  "aside g h \<Longrightarrow> aside g (h\<lparr>remote := m\<rparr>)" "aside g h \<Longrightarrow> aside g (h\<lparr>drawn := n\<rparr>)"
  "aside g h \<Longrightarrow> aside g (h\<lparr>clock := t\<rparr>)" "aside g h \<Longrightarrow> aside g (h\<lparr>partySequence := q\<rparr>)"
  by (simp_all add: aside_def cell_of_def)

lemma standing_upd_world:
  "cell_of v q (upd_world w f g) = (if v = w \<and> w < length (Worlds g) then Grid (f (Worlds g ! w)) q else cell_of v q g)"
  by (cases "w < length (Worlds g)")
    (simp_all add: cell_of_def upd_world_def nth_list_update linorder_not_less list_update_beyond)

lemma aside_world [aside_intro]:
  assumes "aside g h" "\<And>p. Players (Grid (f (Worlds h ! w)) p) = Players (Grid (Worlds h ! w) p)"
  shows "aside g (upd_world w f h)"
proof -
  have "standing (upd_world w f h) v q = standing h v q" for v q
    using assms(2) by (simp add: standing_upd_world) (simp add: cell_of_def)
  then show ?thesis using assms(1) by (simp add: aside_def upd_world_def)
qed

lemma aside_fold [aside_intro]:
  "aside g h \<Longrightarrow> (\<And>x h. aside g h \<Longrightarrow> aside g (f x h)) \<Longrightarrow> aside g (fold f xs h)"
  by (induction xs arbitrary: h) simp_all

lemma aside_if [aside_intro]: "(c \<Longrightarrow> aside g a) \<Longrightarrow> (\<not> c \<Longrightarrow> aside g b) \<Longrightarrow> aside g (if c then a else b)"
  by simp

lemma aside_option [aside_intro]:
  "(x = None \<Longrightarrow> aside g a) \<Longrightarrow> (\<And>y. x = Some y \<Longrightarrow> aside g (f y)) \<Longrightarrow> aside g (case x of None \<Rightarrow> a | Some y \<Rightarrow> f y)"
  by (cases x) simp_all

lemma aside_list [aside_intro]:
  "(ys = [] \<Longrightarrow> aside g u) \<Longrightarrow> (\<And>z zs. ys = z # zs \<Longrightarrow> aside g (k z zs)) \<Longrightarrow>
   aside g (case ys of [] \<Rightarrow> u | z # zs \<Rightarrow> k z zs)"
  by (cases ys) simp_all

lemma aside_prod [aside_intro]: "(\<And>a b. x = (a, b) \<Longrightarrow> aside g (f a b)) \<Longrightarrow> aside g (case x of (a, b) \<Rightarrow> f a b)"
  by (cases x) simp

section \<open>Trades, parties and packets stay aside\<close>

lemma aside_broadcast:
  assumes "fst pkt \<noteq> NEWUSERLIST" "fst pkt \<noteq> DELUSERLIST" "aside g h"
  shows "aside g (sendToNearbyCells pkt w p r h)" "aside g (BroadcastPacket w p pkt h)"
    "aside g (BroadcastSessionPacket w s pkt h)"
  using assms unfolding BroadcastSessionPacket_def BroadcastPacket_def sendToNearbyCells_def Cell_Send_def
  by (intro aside_intro; simp)+

lemma aside_members [aside_intro]:
  "(\<And>i h. aside g h \<Longrightarrow> aside g (f i h)) \<Longrightarrow> aside g h \<Longrightarrow> aside g (to_members f ms h)"
  unfolding to_members_def by (intro aside_intro)

lemma aside_notify [aside_intro]: "aside g h \<Longrightarrow> aside g (notifyPartyMemberStats s h)"
  unfolding notifyPartyMemberStats_def sendPartyMemberStatsToMembers_def sendPartyMemberStats_def Let_def
  by (intro aside_intro; simp)

lemma aside_CancelTrade [aside_intro]: "aside g h \<Longrightarrow> aside g (CancelTrade s h)"
  unfolding CancelTrade_def Let_def sendTradeEvent_def
  by (intro aside_intro; simp add: stance_def)

lemma aside_apply_members:
  "aside g h \<Longrightarrow> apply_members p seen ms h = (is, h') \<Longrightarrow> aside g h'"
proof (induction ms arbitrary: seen h "is" h')
  case (Cons m ms)
  have step: "aside g (upd i (\<lambda>ctx. ctx\<lparr>Party := p, PartyInvite := zero_PartyInviteState\<rparr>) h)" for i
    using Cons.prems(1) by (rule aside_upd) (simp add: stance_def)
  from Cons.prems show ?case
    by (auto simp: Let_def split: if_split_asm option.split_asm prod.split_asm
        dest: Cons.IH [OF step] Cons.IH [OF Cons.prems(1)])
qed simp

lemma aside_applyPartyState [aside_intro]:
  "aside g h \<Longrightarrow> (\<And>is h'. aside g h' \<Longrightarrow> aside g (f is h')) \<Longrightarrow> aside g (case applyPartyState p h of (is, h') \<Rightarrow> f is h')"
  by (cases "applyPartyState p h") (simp add: applyPartyState_def aside_apply_members)

lemma aside_clear [aside_intro]: "aside g h \<Longrightarrow> aside g (clearPartyState s h)"
  unfolding clearPartyState_def by (intro aside_intro; simp add: stance_def)

lemma aside_partyStats [aside_intro]:
  "aside g h \<Longrightarrow> aside g (sendPartyStats i p h)" "aside g h \<Longrightarrow> aside g (sendPartyMemberStatsToMembers p h)"
  "aside g h \<Longrightarrow> aside g (sendPartyStatsReconnect i h)" "aside g h \<Longrightarrow> aside g (sendPartyMemberOut i c h)"
  unfolding sendPartyStats_def sendPartyMemberStatsToMembers_def sendPartyMemberStats_def sendPartyStatsReconnect_def
    sendPartyMemberOut_def
  by (intro aside_intro; simp)+

lemma aside_snd [aside_intro]:
  "aside g b \<Longrightarrow> aside g (snd (a, b))"
  "(c \<Longrightarrow> aside g (snd u)) \<Longrightarrow> (\<not> c \<Longrightarrow> aside g (snd v)) \<Longrightarrow> aside g (snd (if c then u else v))"
  "(x = None \<Longrightarrow> aside g (snd u)) \<Longrightarrow> (\<And>y. x = Some y \<Longrightarrow> aside g (snd (e y))) \<Longrightarrow>
   aside g (snd (case x of None \<Rightarrow> u | Some y \<Rightarrow> e y))"
  "(ys = [] \<Longrightarrow> aside g (snd u)) \<Longrightarrow> (\<And>z zs. ys = z # zs \<Longrightarrow> aside g (snd (k z zs))) \<Longrightarrow>
   aside g (snd (case ys of [] \<Rightarrow> u | z # zs \<Rightarrow> k z zs))"
  "(\<And>is h'. applyPartyState p h = (is, h') \<Longrightarrow> aside g (snd (l is h'))) \<Longrightarrow>
   aside g (snd (case applyPartyState p h of (is, h') \<Rightarrow> l is h'))"
  by (auto split: option.split list.split prod.split)

lemma aside_applied: "applyPartyState p h = (is, h') \<Longrightarrow> aside g h \<Longrightarrow> aside g h'"
  by (simp add: applyPartyState_def aside_apply_members)

lemma aside_LeaveParty: "aside g h \<Longrightarrow> aside g (snd (LeaveParty s h))"
  unfolding LeaveParty_def Let_def
  by (intro aside_intro; (erule aside_applied)?; (intro aside_intro)?; simp add: stance_def)

text \<open>Every handler for trades and parties.\<close>

lemma aside_offer_changed:
  "aside g h \<Longrightarrow> (\<And>h. aside g h \<Longrightarrow> aside g (a h)) \<Longrightarrow> (\<And>h. aside g h \<Longrightarrow> aside g (n h)) \<Longrightarrow>
   aside g (offer_changed s p b a n h)"
  unfolding offer_changed_def Let_def sendTradeEvent_def
  by (cases b) (simp_all add: aside_intro stance_def)

lemma aside_abort: "aside g h \<Longrightarrow> ensures (aside g) (abortCompletedTrade a b c h)"
  unfolding abortCompletedTrade_def Let_def sendTradeEvent_def
  by (intro ensures_intro aside_intro) (simp_all add: stance_def)

lemma aside_settle: "aside g h \<Longrightarrow> aside g (settle a b d e h)"
  unfolding settle_def Let_def sendTradeEvent_def
  by (intro aside_intro) (simp_all add: stance_def option.map_comp comp_def)

lemma aside_completeTrade: "aside g h \<Longrightarrow> ensures (aside g) (completeTrade a b h)"
  unfolding completeTrade_def Let_def
  by (intro ensures_intro aside_intro aside_abort aside_settle)

lemma aside_trade_handlers:
  assumes "map_of trade_handlers code = Some f"
  shows "ensures (aside g) (f s r g)"
proof -
  have "ensures (aside g) (TradeRequestList s r g)"
    unfolding TradeRequestList_def Let_def
    by (intro ensures_intro aside_intro aside_completeTrade) (simp_all add: stance_def)
  moreover have "ensures (aside g) (TradeRequest_handler s r g)"
    unfolding TradeRequest_handler_def reserveTradeRequest_def Let_def send_trade_defs
    by (intro ensures_intro aside_intro) (auto simp: stance_def intro!: aside_intro split: if_split_asm option.split_asm)
  moreover have "ensures (aside g) (TradeOpenEvent s r g)"
    unfolding TradeOpenEvent_def open_event_def Let_def send_trade_defs
    by (intro ensures_intro aside_intro) (simp_all add: stance_def)
  moreover have "ensures (aside g) (TradeCloseEvent s r g)"
    unfolding TradeCloseEvent_def Let_def send_trade_defs
    by (intro ensures_intro aside_intro) (simp_all add: stance_def)
  moreover have "ensures (aside g) (TradeAddItem s r g)" "ensures (aside g) (TradeAddAlz s r g)"
    "ensures (aside g) (TradeRemoveItem s r g)"
    unfolding TradeAddItem_def TradeAddAlz_def TradeRemoveItem_def Let_def send_trade_defs
    by (intro ensures_intro aside_offer_changed aside_intro; simp add: stance_def)+
  ultimately show ?thesis using trade_handler_cases [OF assms] by auto
qed

lemma aside_makePartyState: "makePartyState a c b d h = (x, h') \<Longrightarrow> aside g h \<Longrightarrow> aside g h'"
  by (auto simp: makePartyState_def Let_def intro: aside_fields split: option.split_asm if_split_asm prod.split_asm)

lemma ensures_prod_app: "(\<And>x y. a = (x, y) \<Longrightarrow> ensures P (f x y b)) \<Longrightarrow> ensures P ((case a of (x, y) \<Rightarrow> f x y) b)"
  by (cases a) simp

lemma aside_party_handlers:
  assumes "map_of (party_handlers order) code = Some f"
  shows "ensures (aside g) (f s r g)"
proof -
  have invite: "ensures (aside g) (PartyInvite_handler ks s r g)" for ks
    unfolding PartyInvite_handler_def reserve_invite_def Let_def send_party_defs
    by (intro ensures_intro aside_intro) (simp_all add: stance_def)
  have answer: "ensures (aside g) (PartyInviteResult s r g)"
    unfolding PartyInviteResult_def answer_invite_def Let_def send_party_defs
    by (intro ensures_intro ensures_prod_app aside_intro; (erule aside_applied)?; (intro aside_intro)?;
        (erule aside_makePartyState)?; simp add: stance_def aside_refl)
  have cancel: "ensures (aside g) (PartyInviteCancel s r g)"
    unfolding PartyInviteCancel_def Let_def send_party_defs
    by (intro ensures_intro aside_intro) (simp_all add: stance_def)
  have leave: "ensures (aside g) (PartyLeave s r g)"
    unfolding PartyLeave_def send_party_defs using aside_LeaveParty [OF aside_refl, of g s]
    by (auto split: prod.split intro!: ensures_intro aside_intro)
  have kick: "ensures (aside g) (PartyKickout s r g)"
    unfolding PartyKickout_def Let_def send_party_defs
    by (intro ensures_intro aside_intro; (erule aside_applied)?; (intro aside_intro)?; simp)
  have "ensures (aside g) (PartyLeaderChange s r g)" "ensures (aside g) (PartyAuthChange s r g)"
    "ensures (aside g) (PartyLootingType s r g)"
    unfolding PartyLeaderChange_def PartyAuthChange_def PartyLootingType_def Let_def send_party_defs
    by (intro ensures_intro aside_intro; (erule aside_applied)?; (intro aside_intro)?; simp)+
  moreover have "ensures (aside g) (PartySearchRegist s r g)" "ensures (aside g) (PartySearchList ks s r g)" for ks
    unfolding PartySearchRegist_def PartySearchList_def Let_def send_party_defs
    by (intro ensures_intro aside_intro; simp add: stance_def)+
  ultimately show ?thesis using assms invite answer cancel leave kick
    by (auto simp: party_handlers_def split: if_split_asm)
qed

section \<open>The map before and after\<close>

lemma view_send: "view (send k pkt g) i = (if k = i then see pkt (view g i) else view g i)"
  by (simp add: view_def send_def)

lemma view_sent: "sent h = sent g \<Longrightarrow> view h i = view g i"
  by (simp add: view_def)

lemma see_twice [simp]: "see pkt (see pkt S) = see pkt S"
  by (auto simp: see_def split: list.splits field.splits)

lemma see_other [simp]: "fst pkt \<noteq> NEWUSERLIST \<Longrightarrow> fst pkt \<noteq> DELUSERLIST \<Longrightarrow> see pkt S = S"
  by (simp add: see_def)

lemma location_users: "users h = users g \<Longrightarrow> location h = location g" "users h = users g \<Longrightarrow> cid h = cid g"
  by (simp_all add: location_def cid_def fun_eq_iff)

lemma aside_D:
  assumes "aside g h"
  shows "location h = location g" "cid h = cid g" "length (Worlds h) = length (Worlds g)"
    "standing h w p = standing g w p" "view h i = view g i"
    "users h i = Some (Some ctx) \<Longrightarrow> \<exists>c. users g i = Some (Some c) \<and> stance c = stance ctx"
proof -
  have st: "map_option (map_option stance) (users h i) = map_option (map_option stance) (users g i)" for i
    using assms by (simp add: aside_def)
  have *: "Option.bind (Option.bind (users x i) id) ctxCell =
      Option.bind (Option.bind (map_option (map_option stance) (users x i)) id) fst"
    "map_option CharId (Option.bind (Option.bind (users x i) id) cChar) =
      Option.bind (Option.bind (map_option (map_option stance) (users x i)) id) (snd \<circ> snd)" for x :: "'a Game" and i
    by (auto simp: stance_def split: option.split bind_split)
  show "location h = location g" "cid h = cid g"
    unfolding location_def cid_def fun_eq_iff * st by simp_all
  show "length (Worlds h) = length (Worlds g)" "standing h w p = standing g w p"
    using assms unfolding aside_def by blast+
  obtain ms where ms: "sent h = sent g @ ms" "\<forall>m\<in>set ms. fst (snd m) \<noteq> NEWUSERLIST \<and> fst (snd m) \<noteq> DELUSERLIST"
    using assms by (auto simp: aside_def)
  from ms(2) have "fold (\<lambda>(k, pkt) S. if k = i then see pkt S else S) ms S = S" for S
    by (induction ms) (auto simp: split_beta)
  then show "view h i = view g i" by (simp add: view_def ms(1))
  show "\<exists>c. users g i = Some (Some c) \<and> stance c = stance ctx" if "users h i = Some (Some ctx)"
  proof -
    have "map_option (map_option stance) (users g i) = Some (Some (stance ctx))" using st [of i] that by simp
    then show ?thesis by (auto simp: map_option_eq_Some)
  qed
qed

lemma aside_inv:
  assumes "aside g h" "map_inv g"
  shows "map_inv h"
proof -
  note eq = aside_D(1-5) [OF assms(1)]
  have "ctxWorld ctx = map_option fst (ctxCell ctx)" if u: "users h i = Some (Some ctx)" for i ctx
  proof -
    obtain c where "users g i = Some (Some c)" "stance c = stance ctx" using aside_D(6) [OF assms(1) u] by blast
    then show ?thesis using assms(2) by (simp add: map_inv_def placed_def stance_def) metis
  qed
  then have "placed h" using assms(2) unfolding map_inv_def placed_def eq by blast
  moreover have "unique_ids h" "aware h"
    using assms(2) unfolding map_inv_def unique_ids_def aware_def eq by blast+
  ultimately show ?thesis by (simp add: map_inv_def)
qed

text \<open>The effect of the operations on the views, the cells and the contexts.\<close>

lemma send_map [simp]:
  "location (send k pkt g) = location g" "cid (send k pkt g) = cid g" "cell_of w p (send k pkt g) = cell_of w p g"
  by (simp_all add: location_def cid_def cell_of_def fun_eq_iff)

lemma sends:
  "users (fold (\<lambda>v. send v pkt) vs g) = users g" "Worlds (fold (\<lambda>v. send v pkt) vs g) = Worlds g"
  "view (fold (\<lambda>v. send v pkt) vs g) i = (if i \<in> set vs then see pkt (view g i) else view g i)"
  by (induction vs arbitrary: g) (simp_all add: view_send)

lemma Cell_Send_effect:
  "users (Cell_Send pkt w p g) = users g" "Worlds (Cell_Send pkt w p g) = Worlds g"
  "view (Cell_Send pkt w p g) i = (if i \<in> standing g w p then see pkt (view g i) else view g i)"
  unfolding Cell_Send_def by (simp_all add: sends)

lemma sendToNearbyCells_effect:
  "users (sendToNearbyCells pkt w p r g) = users g" "Worlds (sendToNearbyCells pkt w p r g) = Worlds g"
  "view (sendToNearbyCells pkt w p r g) i = (if i \<in> listeners g w p r then see pkt (view g i) else view g i)"
proof -
  have *: "users (fold (Cell_Send pkt w) qs g) = users g \<and> Worlds (fold (Cell_Send pkt w) qs g) = Worlds g \<and>
      view (fold (Cell_Send pkt w) qs g) i =
        (if i \<in> (\<Union>q\<in>set qs. standing g w q) then see pkt (view g i) else view g i)" for qs
    by (induction qs arbitrary: g) (auto simp: Cell_Send_effect cell_of_def)
  show "users (sendToNearbyCells pkt w p r g) = users g" "Worlds (sendToNearbyCells pkt w p r g) = Worlds g"
    using * by (simp_all add: sendToNearbyCells_def)
  have "listeners g w p r = (\<Union>q\<in>set (getNearbyCells p r). standing g w q)"
    by (auto simp: listeners_def set_getNearbyCells)
  then show "view (sendToNearbyCells pkt w p r g) i = (if i \<in> listeners g w p r then see pkt (view g i) else view g i)"
    using * by (simp add: sendToNearbyCells_def)
qed

lemma cid_char: "map_option CharId (Option.bind (Parse v g) cChar) = cid g v"
  by (auto simp: cid_def Parse_def split: option.split)

lemma entry_ids_info: "entry_ids (fillPlayerInfo v g @ fs) = (case cid g v of None \<Rightarrow> entry_ids fs | Some c \<Rightarrow> c # entry_ids fs)"
  unfolding cid_char [symmetric] fillPlayerInfo_def
  by (cases "Option.bind (Parse v g) cChar") (simp_all split: prod.split)

definition shown :: "'m Game \<Rightarrow> nat \<Rightarrow> place \<Rightarrow> int32 set" where
  "shown g w p = {c. \<exists>v\<in>standing g w p. cid g v = Some c}"

lemma see_list: "see (NewUserList vs reason g) S = S \<union> {c. \<exists>v\<in>set vs. cid g v = Some c}"
proof -
  have "set (entry_ids (concat (map (\<lambda>v. fillPlayerInfo v g) vs))) = {c. \<exists>v\<in>set vs. cid g v = Some c}"
    by (induction vs) (auto simp: entry_ids_info split: option.split)
  then show ?thesis by (simp add: see_def NewUserList_def)
qed

lemma see_single: "see (NewUserSingle v reason g) S = S \<union> {c. cid g v = Some c}"
  using entry_ids_info [of v g "[]"] by (auto simp: see_def NewUserSingle_def split: option.splits)

lemma SendState_effect:
  "users (SendState s w p g) = users g" "Worlds (SendState s w p g) = Worlds g"
  "view (SendState s w p g) i = (if i = s then view g i \<union> shown g w p else view g i)"
proof -
  have mobs: "users (sendMobs s w p g) = users g" "Worlds (sendMobs s w p g) = Worlds g" "view (sendMobs s w p g) i = view g i"
    for g :: "'a Game"
    by (simp_all add: sendMobs_def Let_def view_send NewMobsList_def)
  have items: "users (sendItems s w p g) = users g" "Worlds (sendItems s w p g) = Worlds g" "view (sendItems s w p g) i = view g i"
    for g :: "'a Game"
    by (simp_all add: sendItems_def Let_def view_send NewItemList_def)
  have players: "users (sendPlayers s w p g) = users g" "Worlds (sendPlayers s w p g) = Worlds g"
    "view (sendPlayers s w p g) i = (if i = s then view g i \<union> shown g w p else view g i)"
    by (auto simp: sendPlayers_def Let_def view_send see_list shown_def)
  show "users (SendState s w p g) = users g" "Worlds (SendState s w p g) = Worlds g"
    "view (SendState s w p g) i = (if i = s then view g i \<union> shown g w p else view g i)"
    unfolding SendState_def by (simp_all add: mobs items players)
qed

lemma shown_cong: "users h = users g \<Longrightarrow> Worlds h = Worlds g \<Longrightarrow> shown h w p = shown g w p"
  using location_users(2) [of h g] by (simp add: shown_def cell_of_def)

lemma SendStates_effect:
  "users (fold (SendState s w) qs g) = users g" "Worlds (fold (SendState s w) qs g) = Worlds g"
  "view (fold (SendState s w) qs g) i = (if i = s then view g i \<union> (\<Union>q\<in>set qs. shown g w q) else view g i)"
proof -
  have "users (fold (SendState s w) qs g) = users g \<and> Worlds (fold (SendState s w) qs g) = Worlds g \<and>
      view (fold (SendState s w) qs g) i = (if i = s then view g i \<union> (\<Union>q\<in>set qs. shown g w q) else view g i)"
  proof (induction qs arbitrary: g)
    case (Cons q qs)
    have "shown (SendState s w q g) w = shown g w"
      by (rule ext, rule shown_cong, rule SendState_effect(1), rule SendState_effect(2))
    with Cons show ?case by (auto simp: SendState_effect)
  qed simp
  then show "users (fold (SendState s w) qs g) = users g" "Worlds (fold (SendState s w) qs g) = Worlds g"
    "view (fold (SendState s w) qs g) i = (if i = s then view g i \<union> (\<Union>q\<in>set qs. shown g w q) else view g i)"
    by simp_all
qed

lemma upd_effect:
  "location (upd s f g) i = (if i = s then Option.bind (Option.bind (users g s) id) (ctxCell \<circ> f) else location g i)"
  "cid (upd s f g) i = (if i = s then map_option CharId (Option.bind (Option.bind (users g s) id) (cChar \<circ> f)) else cid g i)"
  "view (upd s f g) i = view g i" "cell_of w p (upd s f g) = cell_of w p g"
  by (auto simp: location_def cid_def users_upd view_def cell_of_def split: option.split bind_split)

lemma upd_world_effect:
  "users (upd_world w f g) = users g" "location (upd_world w f g) = location g" "cid (upd_world w f g) = cid g"
  "view (upd_world w f g) i = view g i" "length (Worlds (upd_world w f g)) = length (Worlds g)"
  by (simp_all add: upd_world_def view_def location_def cid_def fun_eq_iff)

lemma SaveCharacterPosition_aside: "aside g h \<Longrightarrow> aside g (SaveCharacterPosition s h)"
  unfolding SaveCharacterPosition_def Let_def by (intro aside_intro)

section \<open>Moving keeps the invariant\<close>

text \<open>\<open>s\<close> now stands in a cell, was shown the neighbours there, and was announced two cells around.\<close>

definition now_at :: "uint16 \<Rightarrow> nat \<Rightarrow> place \<Rightarrow> int32 \<Rightarrow> 'm Game \<Rightarrow> 'm Game \<Rightarrow> bool" where
  "now_at s w q c g h \<longleftrightarrow>
     (\<forall>i. location h i = (if i = s then Some (w, q) else location g i)) \<and>
     (\<forall>i. cid h i = (if i = s then Some c else cid g i)) \<and>
     (\<forall>i ctx. users h i = Some (Some ctx) \<longrightarrow> ctxWorld ctx = map_option fst (ctxCell ctx)) \<and>
     w < length (Worlds g) \<and> inside q \<and> length (Worlds h) = length (Worlds g) \<and>
     (\<forall>v r. v < length (Worlds g) \<longrightarrow>
        standing h v r = (if (v, r) = (w, q) then insert s (standing g v r) else standing g v r - {s})) \<and>
     (\<forall>i. view g i \<subseteq> view h i) \<and>
     (\<forall>i r. i \<noteq> s \<and> i \<in> standing g w r \<and> nearby 2 q r \<longrightarrow> c \<in> view h i) \<and>
     (\<forall>j r d. j \<noteq> s \<and> j \<in> standing g w r \<and> nearby 1 q r \<and> cid g j = Some d \<longrightarrow> d \<in> view h s)"

lemma nearby_sym: "nearby r p q \<Longrightarrow> inside p \<Longrightarrow> nearby r q p"
  by (simp add: nearby_def abs_minus_commute)

lemma nearby_mono: "nearby r p q \<Longrightarrow> r \<le> k \<Longrightarrow> nearby k p q"
  by (simp add: nearby_def)

lemma now_at_inv:
  assumes inv: "map_inv g" and moved: "now_at s w q c g h"
    and other: "\<And>j. j \<noteq> s \<Longrightarrow> location g j \<noteq> None \<Longrightarrow> cid g j \<noteq> Some c"
  shows "map_inv h"
proof -
  have placed: "placed g" and unique: "unique_ids g" and aware: "aware g" using inv by (simp_all add: map_inv_def)
  have loc: "location h i = (if i = s then Some (w, q) else location g i)"
    and cid: "cid h i = (if i = s then Some c else cid g i)"
    and len: "w < length (Worlds g)" "length (Worlds h) = length (Worlds g)"
    and q: "inside q"
    and st: "v < length (Worlds g) \<Longrightarrow>
      standing h v r = (if (v, r) = (w, q) then insert s (standing g v r) else standing g v r - {s})"
    and grows: "view g i \<subseteq> view h i"
    and announced: "i \<noteq> s \<Longrightarrow> i \<in> standing g w r \<Longrightarrow> nearby 2 q r \<Longrightarrow> c \<in> view h i"
    and sees: "i \<noteq> s \<Longrightarrow> i \<in> standing g w r \<Longrightarrow> nearby 1 q r \<Longrightarrow> cid g i = Some d \<Longrightarrow> d \<in> view h s" for i v r d
    using moved unfolding now_at_def by blast+
  have in_cell: "j \<in> standing g v r \<longleftrightarrow> location g j = Some (v, r)" if "v < length (Worlds g)" for j v r
    using placed that unfolding placed_def by blast
  have here: "location g j = Some (v, r) \<Longrightarrow> v < length (Worlds g) \<and> inside r \<and> cid g j \<noteq> None" for j v r
    using placed unfolding placed_def by blast
  have "placed h" unfolding placed_def
  proof (intro conjI allI impI)
    show "(i \<in> standing h v r) = (location h i = Some (v, r))" if "v < length (Worlds h)" for v r i
      using that len st in_cell by (auto simp: loc)
    show "ctxWorld ctx = map_option fst (ctxCell ctx)" if "users h i = Some (Some ctx)" for i ctx
      using moved that unfolding now_at_def by blast
    show "v < length (Worlds h)" "inside r" "cid h i \<noteq> None" if "location h i = Some (v, r)" for i v r
      using that len q here by (auto simp: loc cid split: if_split_asm)
  qed
  moreover have "unique_ids h" unfolding unique_ids_def
  proof (intro allI impI, elim conjE)
    fix i j
    assume "location h i \<noteq> None" "location h j \<noteq> None" "cid h i = cid h j"
    then show "i = j" using unique other unfolding unique_ids_def loc cid by (metis (no_types, lifting))
  qed
  moreover have "aware h" unfolding aware_def
  proof (intro allI impI, elim conjE)
    fix i j v a b d
    assume *: "i \<noteq> j" "location h i = Some (v, a)" "location h j = Some (v, b)" "nearby 1 a b" "cid h j = Some d"
    consider "i = s" | "j = s" | "i \<noteq> s" "j \<noteq> s" by blast
    then show "d \<in> view h i"
    proof cases
      case 1
      with * have "v = w" "a = q" "location g j = Some (w, b)" "cid g j = Some d" "j \<noteq> s" by (auto simp: loc cid)
      then show ?thesis using * 1 sees in_cell [OF len(1)] by blast
    next
      case 2
      with * have "v = w" "b = q" "location g i = Some (w, a)" "d = c" "i \<noteq> s" by (auto simp: loc cid)
      moreover have "nearby 2 q a"
        using here [OF calculation(3)] * \<open>b = q\<close> by (intro nearby_mono [OF nearby_sym [of 1 a q]]) auto
      ultimately show ?thesis using announced in_cell [OF len(1)] by blast
    next
      case 3
      with * have "location g i = Some (v, a)" "location g j = Some (v, b)" "cid g j = Some d" by (auto simp: loc cid)
      then show ?thesis using aware * grows unfolding aware_def by blast
    qed
  qed
  ultimately show ?thesis by (simp add: map_inv_def)
qed

declare split_paired_Ex [simp del] split_paired_All [simp del]

lemma player_known:
  assumes "placed g" "GetWorld s g = Some w"
  obtains ctx p c where "users g s = Some (Some ctx)" "ctxCell ctx = Some (w, p)" "cChar ctx = Some c"
    "location g s = Some (w, p)" "cid g s = Some (CharId c)" "w < length (Worlds g)" "inside p"
    "Parse s g = Some ctx"
proof -
  from assms(2) obtain ctx where ctx: "users g s = Some (Some ctx)" "ctxWorld ctx = Some w"
    by (auto simp: GetWorld_def bind_eq_Some_conv Parse_Some)
  then have "ctxWorld ctx = map_option fst (ctxCell ctx)" using assms(1) unfolding placed_def by blast
  then obtain p where p: "ctxCell ctx = Some (w, p)" using ctx(2) by (cases "ctxCell ctx") auto
  then have l: "location g s = Some (w, p)" using ctx by (simp add: location_def)
  then have "w < length (Worlds g) \<and> inside p \<and> cid g s \<noteq> None" using assms(1) unfolding placed_def by blast
  moreover then obtain c where "cChar ctx = Some c" using ctx by (auto simp: cid_def)
  ultimately show ?thesis using that [OF ctx(1) p _ l] ctx by (simp add: cid_def Parse_def)
qed

lemma cell_upd_cell: "cell_of v r (upd_cell w p f g) =
    (if v = w \<and> r = p \<and> w < length (Worlds g) then f (cell_of w p g) else cell_of v r g)"
  by (cases "w < length (Worlds g)")
    (auto simp: cell_of_def upd_world_def nth_list_update linorder_not_less list_update_beyond)

lemma cells_moved:
  assumes "w < length (Worlds g)" "p \<noteq> q" "\<And>v r. cell_of v r h = cell_of v r (upd_cell w p (RemovePlayer s) g)"
    "length (Worlds h) = length (Worlds g)"
  shows "standing (upd_cell w q (AddPlayer s) h) v r =
    (if (v, r) = (w, q) then insert s (standing g v r) else if (v, r) = (w, p) then standing g v r - {s} else standing g v r)"
proof -
  have "cell_of v r (upd_cell w q (AddPlayer s) h) =
      (if (v, r) = (w, q) then AddPlayer s (cell_of v r g) else if (v, r) = (w, p) then RemovePlayer s (cell_of v r g)
       else cell_of v r g)"
    unfolding cell_upd_cell assms(3,4) using assms(1,2) by auto
  then show ?thesis by simp
qed

lemma AdjustCell_inv:
  assumes inv: "map_inv g" and w: "GetWorld s g = Some w"
  shows "map_inv (AdjustCell w s g)"
proof -
  have placed: "placed g" and aware: "aware g" using inv by (simp_all add: map_inv_def)
  obtain ctx p c where s: "users g s = Some (Some ctx)" "ctxCell ctx = Some (w, p)" "cChar ctx = Some c"
      "location g s = Some (w, p)" "cid g s = Some (CharId c)" "w < length (Worlds g)" "inside p" "Parse s g = Some ctx"
    using player_known [OF placed w] .
  show ?thesis
  proof (cases "getCurrentCell s g")
    case None
    then show ?thesis using inv s by (simp add: AdjustCell_def)
  next
    case (Some q)
    have q: "inside q" using Some by (auto simp: getCurrentCell_def s getWorldCell_inside)
    show ?thesis
    proof (cases "p = q")
      case True
      then show ?thesis using inv s Some by (simp add: AdjustCell_def)
    next
      case False
      define h1 where "h1 = fold (SendState s w) (difference (getNearbyCells q 1) (getNearbyCells p 1)) g"
      define h2 where "h2 = upd_cell w p (RemovePlayer s) h1"
      define h3 where "h3 = upd s (\<lambda>ctx. ctx\<lparr>ctxCell := Some (w, q)\<rparr>) h2"
      define h4 where "h4 = sendToNearbyCells (NewUserSingle s NewUserMove h3) w q 2 h3"
      define h5 where "h5 = upd_cell w q (AddPlayer s) h4"
      have adjust: "AdjustCell w s g = SaveCharacterPosition s h5"
        using False by (simp add: AdjustCell_def s Some h1_def h2_def h3_def h4_def h5_def Let_def)
      have u1: "users h1 = users g" "Worlds h1 = Worlds g" unfolding h1_def by (rule SendStates_effect)+
      have lc1: "location h1 = location g" "cid h1 = cid g" using location_users u1 by blast+
      have u2: "users h2 = users g" unfolding h2_def by (simp add: upd_world_effect u1)
      have lc2: "location h2 = location g" "cid h2 = cid g" using location_users u2 by blast+
      have lc3: "location h3 i = (if i = s then Some (w, q) else location g i)" "cid h3 i = cid g i" for i
        unfolding h3_def upd_effect lc2 by (simp_all add: u2 s)
      have u4: "users h4 = users h3" "Worlds h4 = Worlds h3" unfolding h4_def by (rule sendToNearbyCells_effect)+
      have len: "length (Worlds h4) = length (Worlds g)"
        unfolding u4 by (simp add: h3_def h2_def upd_world_effect u1)
      have cell3: "cell_of v r h3 = cell_of v r (upd_cell w p (RemovePlayer s) g)" for v r
        unfolding h3_def h2_def upd_effect cell_upd_cell by (simp add: cell_of_def u1)
      have cells: "cell_of v r h4 = cell_of v r (upd_cell w p (RemovePlayer s) g)" for v r
        using cell3 by (simp add: cell_of_def u4)
      have u5: "users h5 = users h3" unfolding h5_def by (simp add: upd_world_effect u4)
      have lc5: "location h5 i = (if i = s then Some (w, q) else location g i)" "cid h5 i = cid g i" for i
        using location_users [OF u5] lc3 by simp_all
      have st: "standing h5 v r = (if (v, r) = (w, q) then insert s (standing g v r)
          else if (v, r) = (w, p) then standing g v r - {s} else standing g v r)" for v r
        unfolding h5_def by (rule cells_moved [OF s(6) False cells len])
      have gone: "standing g v r - {s} = standing g v r" if "v < length (Worlds g)" "(v, r) \<noteq> (w, p)" for v r
      proof -
        have "s \<notin> standing g v r" using placed that s(4) unfolding placed_def by auto
        then show ?thesis by blast
      qed
      have view3: "view h3 i = (if i = s then view g i \<union> (\<Union>r\<in>set (difference (getNearbyCells q 1) (getNearbyCells p 1)). shown g w r)
          else view g i)" for i
        by (simp only: h3_def h2_def h1_def upd_effect upd_world_effect SendStates_effect)
      have view5: "view h5 i = (if i \<in> listeners h3 w q 2 then view h3 i \<union> {CharId c} else view h3 i)" for i
        by (simp add: h5_def upd_world_effect h4_def sendToNearbyCells_effect see_single lc3 s(5))
      have listen: "listeners h3 w q 2 = {i. \<exists>r. nearby 2 q r \<and> i \<in> standing g w r \<and> (r = p \<longrightarrow> i \<noteq> s)}"
        unfolding listeners_def cell3 cell_upd_cell using s(6) by auto
      have "now_at s w q (CharId c) g h5" unfolding now_at_def
      proof (intro conjI allI impI)
        show "location h5 i = (if i = s then Some (w, q) else location g i)" for i by (rule lc5)
        show "cid h5 i = (if i = s then Some (CharId c) else cid g i)" for i using lc5 s(5) by simp
        show "ctxWorld x = map_option fst (ctxCell x)" if "users h5 i = Some (Some x)" for i x
        proof -
          have "users h5 i = (if i = s then map_option (map_option (\<lambda>ctx. ctx\<lparr>ctxCell := Some (w, q)\<rparr>)) (users g s) else users g i)"
            by (simp add: u5 h3_def users_upd u2)
          then show ?thesis using that placed s w unfolding placed_def
            by (cases "i = s") (auto simp: GetWorld_def)
        qed
        show "w < length (Worlds g)" "inside q" by (rule s q)+
        show "length (Worlds h5) = length (Worlds g)" by (simp add: h5_def upd_world_effect len)
        show "standing h5 v r = (if (v, r) = (w, q) then insert s (standing g v r) else standing g v r - {s})"
          if "v < length (Worlds g)" for v r
          using st [of v r] gone [OF that, of r] by (auto split: if_split_asm)
        show "view g i \<subseteq> view h5 i" for i by (auto simp: view5 view3)
        show "CharId c \<in> view h5 i" if "i \<noteq> s \<and> i \<in> standing g w r \<and> nearby 2 q r" for i r
          using that unfolding view5 listen by auto
        show "d \<in> view h5 s" if *: "j \<noteq> s \<and> j \<in> standing g w r \<and> nearby 1 q r \<and> cid g j = Some d" for j r d
        proof (cases "nearby 1 p r")
          case True
          have "location g j = Some (w, r)" "s \<noteq> j" using placed * s(6) unfolding placed_def by blast+
          then have "d \<in> view g s" using aware True * s(4) unfolding aware_def by blast
          then show ?thesis by (simp add: view5 view3)
        next
          case False
          then have "r \<in> set (difference (getNearbyCells q 1) (getNearbyCells p 1))"
            using * by (simp add: difference_def set_getNearbyCells)
          moreover have "d \<in> shown g w r" using * by (auto simp: shown_def)
          ultimately show ?thesis by (auto simp: view5 view3)
        qed
      qed
      then have "map_inv h5"
        by (rule now_at_inv [OF inv]) (use inv s(4,5) in \<open>auto simp: map_inv_def unique_ids_def\<close>)
      then show ?thesis unfolding adjust by (rule aside_inv [OF SaveCharacterPosition_aside [OF aside_refl]])
    qed
  qed
qed

lemma EnterWorld_inv:
  assumes inv: "map_inv g" and w: "w < length (Worlds g)" and away: "location g s = None"
    and other: "\<And>j c. location g j \<noteq> None \<Longrightarrow> cid g s = Some c \<Longrightarrow> cid g j \<noteq> Some c"
  shows "map_inv (EnterWorldWithReason w s reason g)"
proof (cases "getCurrentCell s g")
  case None
  then show ?thesis using inv by (simp add: EnterWorldWithReason_def)
next
  case (Some p)
  have placed: "placed g" using inv by (simp add: map_inv_def)
  have p: "inside p" using Some by (auto simp: getCurrentCell_def getWorldCell_inside split: option.splits)
  obtain ctx c where s: "users g s = Some (Some ctx)" "cChar ctx = Some c"
    using Some by (auto simp: getCurrentCell_def bind_eq_Some_conv Parse_Some split: option.splits)
  then have cid: "cid g s = Some (CharId c)" by (simp add: cid_def)
  define h1 where "h1 = sendToNearbyCells (NewUserSingle s reason g) w p 2 g"
  define h2 where "h2 = fold (SendState s w) (getNearbyCells p 2) h1"
  define h3 where "h3 = upd_cell w p (AddPlayer s) h2"
  define h4 where "h4 = upd s (\<lambda>ctx. ctx\<lparr>ctxWorld := Some w, ctxCell := Some (w, p)\<rparr>) h3"
  have enter: "EnterWorldWithReason w s reason g = h4"
    by (simp add: EnterWorldWithReason_def Some h1_def h2_def h3_def h4_def Let_def)
  have u1: "users h1 = users g" "Worlds h1 = Worlds g" unfolding h1_def by (rule sendToNearbyCells_effect)+
  have u2: "users h2 = users g" "Worlds h2 = Worlds g"
    unfolding h2_def SendStates_effect by (rule u1)+
  have u3: "users h3 = users g" unfolding h3_def by (simp add: upd_world_effect u2)
  have lc3: "location h3 = location g" "cid h3 = cid g" using location_users u3 by blast+
  have cells: "cell_of v r h4 = (if v = w \<and> r = p then AddPlayer s (cell_of v r g) else cell_of v r g)" for v r
    unfolding h4_def upd_effect h3_def cell_upd_cell using w by (simp add: cell_of_def u2)
  have sh: "shown h1 = shown g" by (intro ext shown_cong u1)
  have view: "view h4 i = view h1 i \<union> (if i = s then \<Union>q\<in>set (getNearbyCells p 2). shown g w q else {})" for i
    unfolding h4_def upd_effect h3_def upd_world_effect h2_def SendStates_effect sh by simp
  have view1: "view h1 i = view g i \<union> (if i \<in> listeners g w p 2 then {CharId c} else {})" for i
    unfolding h1_def sendToNearbyCells_effect see_single by (simp add: cid)
  have s_away: "s \<notin> standing g v r" if "v < length (Worlds g)" for v r
    using placed that away unfolding placed_def by auto
  have "now_at s w p (CharId c) g h4" unfolding now_at_def
  proof (intro conjI allI impI)
    show "location h4 i = (if i = s then Some (w, p) else location g i)" for i
      unfolding h4_def upd_effect lc3 u3 by (simp add: s)
    show "cid h4 i = (if i = s then Some (CharId c) else cid g i)" for i
      unfolding h4_def upd_effect lc3 u3 by (simp add: s)
    show "ctxWorld x = map_option fst (ctxCell x)" if "users h4 i = Some (Some x)" for i x
    proof (cases "i = s")
      case True
      then show ?thesis using that by (auto simp: h4_def users_upd u3 s)
    next
      case False
      then have "users g i = Some (Some x)" using that by (simp add: h4_def users_upd u3)
      then show ?thesis using placed unfolding placed_def by blast
    qed
    show "w < length (Worlds g)" "inside p" by (rule w p)+
    show "length (Worlds h4) = length (Worlds g)" by (simp add: h4_def h3_def upd_world_effect u2)
    show "standing h4 v r = (if (v, r) = (w, p) then insert s (standing g v r) else standing g v r - {s})"
      if "v < length (Worlds g)" for v r
      using s_away [OF that] by (auto simp: cells)
    show "view g i \<subseteq> view h4 i" for i by (auto simp: view view1)
    show "CharId c \<in> view h4 i" if "i \<noteq> s \<and> i \<in> standing g w r \<and> nearby 2 p r" for i r
      using that by (auto simp: view view1 listeners_def)
    show "d \<in> view h4 s" if *: "j \<noteq> s \<and> j \<in> standing g w r \<and> nearby 1 p r \<and> cid g j = Some d" for j r d
    proof -
      have "r \<in> set (getNearbyCells p 2)" using * nearby_mono [of 1 p r 2] by (simp add: set_getNearbyCells)
      moreover have "d \<in> shown g w r" using * by (auto simp: shown_def)
      ultimately show ?thesis by (auto simp: view)
    qed
  qed
  then show ?thesis unfolding enter by (rule now_at_inv [OF inv]) (use other cid in blast)
qed

lemma ExitWorld_inv:
  assumes inv: "map_inv g" and w: "GetWorld s g = Some w"
  shows "map_inv (ExitWorld w s reason g)" "location (ExitWorld w s reason g) s = None"
proof -
  have placed: "placed g" and unique: "unique_ids g" and aware: "aware g" using inv by (simp_all add: map_inv_def)
  obtain ctx p c where s: "users g s = Some (Some ctx)" "ctxCell ctx = Some (w, p)" "cChar ctx = Some c"
      "location g s = Some (w, p)" "cid g s = Some (CharId c)" "w < length (Worlds g)" "inside p" "Parse s g = Some ctx"
    using player_known [OF placed w] .
  define h1 where "h1 = upd s (\<lambda>ctx. ctx\<lparr>ctxWorld := None, ctxCell := None\<rparr>) g"
  define h2 where "h2 = upd_cell w p (RemovePlayer s) h1"
  define pkt where "pkt = (DELUSERLIST, [FUint32 (CharId c), FByte reason])"
  define h3 where "h3 = sendToNearbyCells pkt w p 2 h2"
  have "users h2 = users h1" unfolding h2_def by (simp add: upd_world_effect)
  then have "Parse s h2 = Some (ctx\<lparr>ctxWorld := None, ctxCell := None\<rparr>)"
    by (simp add: Parse_Some h1_def users_upd s)
  then have exit: "ExitWorld w s reason g = h3"
    using s by (simp add: ExitWorld_def Let_def h1_def [symmetric] h2_def [symmetric] h3_def pkt_def DelUserList_def)
  have u3: "users h3 = users h1" unfolding h3_def sendToNearbyCells_effect h2_def by (simp add: upd_world_effect)
  have loc: "location h3 i = (if i = s then None else location g i)" and cid: "cid h3 i = cid g i" for i
    unfolding location_users(1) [OF u3] location_users(2) [OF u3] h1_def upd_effect by (simp_all add: s)
  have cells: "cell_of v r h3 = (if v = w \<and> r = p then RemovePlayer s (cell_of v r g) else cell_of v r g)" for v r
  proof -
    have "cell_of v r h3 = cell_of v r h2" by (simp add: cell_of_def h3_def sendToNearbyCells_effect)
    then show ?thesis unfolding h2_def cell_upd_cell using s(6) by (simp add: h1_def upd_effect)
  qed
  have len: "length (Worlds h3) = length (Worlds g)" by (simp add: h3_def sendToNearbyCells_effect h2_def h1_def upd_world_effect)
  have view: "view g i - {CharId c} \<subseteq> view h3 i" for i
    by (auto simp: h3_def sendToNearbyCells_effect h2_def h1_def upd_world_effect upd_effect see_def pkt_def)
  have in_cell: "j \<in> standing g v r \<longleftrightarrow> location g j = Some (v, r)" if "v < length (Worlds g)" for j v r
    using placed that unfolding placed_def by blast
  have "placed h3" unfolding placed_def
  proof (intro conjI allI impI)
    show "(i \<in> standing h3 v r) = (location h3 i = Some (v, r))" if "v < length (Worlds h3)" for v r i
      using that in_cell s(4) by (auto simp: loc cells len)
    show "ctxWorld x = map_option fst (ctxCell x)" if "users h3 i = Some (Some x)" for i x
    proof (cases "i = s")
      case True
      then show ?thesis using that by (auto simp: u3 h1_def users_upd s)
    next
      case False
      then have "users g i = Some (Some x)" using that by (simp add: u3 h1_def users_upd)
      then show ?thesis using placed unfolding placed_def by blast
    qed
    show "v < length (Worlds h3)" "inside r" "cid h3 i \<noteq> None" if "location h3 i = Some (v, r)" for i v r
    proof -
      have "location g i = Some (v, r)" using that by (auto simp: loc split: if_split_asm)
      then show "v < length (Worlds h3)" "inside r" "cid h3 i \<noteq> None"
        using placed unfolding placed_def len cid by blast+
    qed
  qed
  moreover have "unique_ids h3" using unique unfolding unique_ids_def loc cid by auto
  moreover have "aware h3" unfolding aware_def
  proof (intro allI impI, elim conjE)
    fix i j v a b d
    assume *: "i \<noteq> j" "location h3 i = Some (v, a)" "location h3 j = Some (v, b)" "nearby 1 a b" "cid h3 j = Some d"
    then have "j \<noteq> s" "location g i = Some (v, a)" "location g j = Some (v, b)" "cid g j = Some d"
      by (auto simp: loc cid split: if_split_asm)
    moreover then have "d \<in> view g i" using aware * unfolding aware_def by blast
    moreover have "d \<noteq> CharId c" using unique calculation s(4,5) unfolding unique_ids_def by auto
    ultimately show "d \<in> view h3 i" using view by blast
  qed
  ultimately show "map_inv (ExitWorld w s reason g)" unfolding exit by (simp add: map_inv_def)
  show "location (ExitWorld w s reason g) s = None" unfolding exit loc by simp
qed

section \<open>The handlers on the map\<close>

lemma aside_char: "aside g h \<Longrightarrow> (\<And>c. CharId (f c) = CharId c) \<Longrightarrow> aside g (upd s (on_char f) h)"
  by (erule aside_upd) (simp add: stance_def option.map_comp comp_def)

lemma aside_dropItem: "aside g h \<Longrightarrow> aside g (snd (dropItem w item owner source x y e t i h))"
  unfolding dropItem_def Let_def Intn_def split_conv
  by (intro aside_intro aside_broadcast; simp add: NewItemSingle_def)

lemma aside_loot: "aside g h \<Longrightarrow> aside g (loot w s c i slot stacked item h)"
  unfolding loot_def keep_loot_def Let_def PickItem_def take_item_def
  by (auto intro!: aside_intro aside_char aside_broadcast simp: DelItemList_def split: option.split prod.split)

lemma aside_item_tick: "aside g (item_tick w g)"
  unfolding item_tick_def Schedule_def Let_def
  by (intro aside_intro aside_broadcast; simp add: DelItemList_def)

lemma aside_handlers:
  "ensures (aside g) (MoveBegined s r g)" "ensures (aside g) (MoveChanged s r g)" "ensures (aside g) (MoveEnded s r g)"
  "ensures (aside g) (ChangeDirection s r g)" "ensures (aside g) (key_move code s r g)"
  if "code \<noteq> NEWUSERLIST" "code \<noteq> DELUSERLIST"
  unfolding MoveBegined_def MoveChanged_def MoveEnded_def ChangeDirection_def key_move_def Let_def
  by (intro ensures_intro aside_notify aside_broadcast aside_char aside_refl; simp add: that)+

lemma aside_DurationSvcData: "ensures (aside g) (DurationSvcData s r g)"
  unfolding DurationSvcData_def sendDurationSvcData_def by (intro ensures_intro aside_intro) simp_all

lemma aside_items:
  "ensures (aside g) (ItemLooting s r g)" "ensures (aside g) (StorageItemDrop s r g)"
  unfolding ItemLooting_def StorageItemDrop_def Let_def refuse_looting_def DropItem_def
  by (intro ensures_intro ensures_prod_app aside_loot aside_intro aside_char aside_dropItem; simp)+

lemma GetWorld_aside:
  assumes "aside g h" "GetWorld s h = Some w"
  shows "map_inv g \<Longrightarrow> map_inv h" "map_inv g \<Longrightarrow> location g s \<noteq> None"
proof -
  show "map_inv h" if "map_inv g" using aside_inv [OF assms(1) that] .
  then show "location g s \<noteq> None" if "map_inv g"
    using that player_known [of h s w] assms(2) aside_D(1) [OF assms(1)] by (auto simp: map_inv_def)
qed

lemma GetWorld_char: "GetWorld s (upd s (on_char f) g) = GetWorld s g"
proof -
  have "Parse s (upd s (on_char f) g) = map_option (on_char f) (Parse s g)" by (subst Parse_upd) auto
  then show ?thesis by (cases "Parse s g") (simp_all add: GetWorld_def)
qed

lemma moved_inv:
  assumes "map_inv g" "GetWorld s g = Some w" "\<And>c. CharId (f c) = CharId c"
  shows "map_inv (AdjustCell w s (upd s (on_char f) g))"
  using assms aside_inv [OF aside_char [OF aside_refl, of f g s]]
  by (intro AdjustCell_inv) (simp_all add: GetWorld_char)

lemma notify_inv: "map_inv g \<Longrightarrow> map_inv (notifyPartyMemberStats s g)"
  using aside_inv [OF aside_notify [OF aside_refl]] .

lemma broadcast_inv:
  "map_inv g \<Longrightarrow> fst pkt \<noteq> NEWUSERLIST \<Longrightarrow> fst pkt \<noteq> DELUSERLIST \<Longrightarrow> map_inv (BroadcastSessionPacket w s pkt g)"
  using aside_inv [OF aside_broadcast(3) [OF _ _ aside_refl]] by blast

lemma tile_inv: "map_inv g \<Longrightarrow> ensures map_inv (MoveTilePos s r g)"
  unfolding MoveTilePos_def Let_def by (intro ensures_intro notify_inv moved_inv) simp_all

lemma key_end_inv: "map_inv g \<Longrightarrow> ensures map_inv (KeyMoveEnded s r g)"
  unfolding KeyMoveEnded_def Let_def
  by (intro ensures_intro broadcast_inv) (auto intro!: notify_inv moved_inv split: option.split)

lemma leave_inv:
  assumes "map_inv g"
  shows "map_inv (SaveCharacterPosition s (snd (LeaveParty s (CancelTrade s g))))"
    "map_inv (OnClientDisconnect s g)" "location (OnClientDisconnect s g) s = None"
    "ensures map_inv (Uninitialze s r g)"
proof -
  let ?h = "SaveCharacterPosition s (snd (LeaveParty s (CancelTrade s g)))"
  show h: "map_inv ?h"
    using aside_inv [OF SaveCharacterPosition_aside [OF aside_LeaveParty [OF aside_CancelTrade [OF aside_refl]]] assms] .
  have "location ?h s = None" if none: "GetWorld s ?h = None"
  proof (cases "users ?h s")
    case (Some u)
    show ?thesis
    proof (cases u)
      case (Some ctx)
      with \<open>users ?h s = Some u\<close> have ctx: "users ?h s = Some (Some ctx)" by simp
      show ?thesis
      proof (rule ccontr)
        assume "location ?h s \<noteq> None"
        then obtain w p where l: "location ?h s = Some (w, p)" by auto
        then have "cid ?h s \<noteq> None" using h unfolding map_inv_def placed_def by blast
        moreover have "ctxWorld ctx = map_option fst (ctxCell ctx)" using h ctx unfolding map_inv_def placed_def by blast
        ultimately show False using none ctx l by (auto simp: GetWorld_def cid_def Parse_def location_def)
      qed
    qed (simp add: \<open>users ?h s = Some u\<close> location_def)
  qed (simp add: location_def)
  then show "map_inv (OnClientDisconnect s g)" "location (OnClientDisconnect s g) s = None"
    using h ExitWorld_inv [OF h] by (auto simp: OnClientDisconnect_def Let_def split_beta split: option.split)
  have "map_inv (ExitWorld w s DelUserLogout (send s (143, [FByte 0]) ?h))" if "GetWorld s ?h = Some w" for w
  proof (rule ExitWorld_inv)
    show "map_inv (send s (143, [FByte 0]) ?h)" by (rule aside_inv [OF aside_send [OF aside_refl] h]) simp_all
    show "GetWorld s (send s (143, [FByte 0]) ?h) = Some w" using that by (simp add: GetWorld_def)
  qed
  then show "ensures map_inv (Uninitialze s r g)"
    unfolding Uninitialze_def Let_def by (intro ensures_intro) (use h in \<open>simp_all add: split_beta\<close>)
qed

lemma world_handlers_inv:
  assumes "map_of world_handlers code = Some f" "map_inv g"
  shows "ensures map_inv (f s r g)"
proof -
  have *: "ensures (aside g) m \<Longrightarrow> ensures map_inv m" for m
    using assms(2) aside_inv by (auto simp: ensures_def)
  show ?thesis using assms(1) *[OF aside_handlers(1), of 0] *[OF aside_handlers(2), of 0] *[OF aside_handlers(3), of 0]
      *[OF aside_handlers(4), of 0] *[OF aside_handlers(5), of 403] *[OF aside_handlers(5), of 406] *[OF aside_items(1)] *[OF aside_items(2)] *[OF aside_DurationSvcData]
      tile_inv [OF assms(2)] key_end_inv [OF assms(2)] leave_inv(4) [OF assms(2)]
    by (auto simp: world_handlers_def KeyMoveBegined_def KeyMoveChanged_def split: if_split_asm)
qed

text \<open>Mobs do not move players either.\<close>

lemma aside_upd_mob: "aside g h \<Longrightarrow> aside g (upd_mob w i f h)"
  unfolding upd_mob_def by (intro aside_intro) simp_all

lemma aside_mob_cell: "aside g h \<Longrightarrow> aside g (upd_cell w p (AddMob i) h)" "aside g h \<Longrightarrow> aside g (upd_cell w p (RemoveMob i) h)"
  by (intro aside_intro; simp)+

lemma aside_Intn: "aside g h \<Longrightarrow> aside g (snd (Intn n h))"
  by (simp add: Intn_def aside_intro)

lemma aside_DropMobItems: "aside g h \<Longrightarrow> aside g (snd (DropMobItems w es m x y h))"
  by (induction es arbitrary: h) (auto simp: Let_def split_beta DropMobItem_def intro!: aside_Intn aside_dropItem)

lemmas aside_mobs = aside_upd_mob aside_mob_cell aside_Intn aside_DropMobItems

lemma aside_SubHealth: "aside g h \<Longrightarrow> ensures (\<lambda>(died, k). aside g k) (SubHealth d w i hp h)"
  unfolding SubHealth_def die_def Let_def
  by (intro ensures_intro) (auto intro!: aside_mobs aside_broadcast)

lemma aside_announce: "aside g h \<Longrightarrow> (\<And>m. fst (f m) \<noteq> NEWUSERLIST \<and> fst (f m) \<noteq> DELUSERLIST) \<Longrightarrow> aside g (announce w i f h)"
  unfolding announce_def by (auto intro!: aside_broadcast split: option.split)

lemma aside_adjustCell: "aside g h \<Longrightarrow> aside g (adjustCell w i pos h)"
  unfolding adjustCell_def Let_def by (auto intro!: aside_mobs split: option.split)

lemma aside_Mob_Update: "ensures (aside g) (Mob_Update astar course w i g)"
proof -
  have path: "findNewPath w pos h = (r, k) \<Longrightarrow> aside g h \<Longrightarrow> aside g k" for pos h r k
    by (auto simp: findNewPath_def Let_def split_beta intro!: aside_Intn split: if_split_asm)
  have idle: "aside g h \<Longrightarrow> aside g (respawn w i now h)" "aside g h \<Longrightarrow> aside g (handleFind w i now h)" for now h
    unfolding respawn_def handleFind_def Let_def
    by (auto intro!: aside_mobs aside_broadcast simp: NewMobsList_def split: option.split)
  have go: "aside g h \<Longrightarrow> aside g (go_on course w i pos h)" for pos h
    unfolding go_on_def Let_def
    by (auto intro!: aside_mobs aside_announce aside_adjustCell simp: MobMoveEnd_def Let_def)
  have walk: "aside g h \<Longrightarrow> ensures (aside g) (start_walk astar w i m h)" for m h
    unfolding start_walk_def Let_def ensures_def
    by (auto intro!: aside_mobs aside_announce simp: MobMoveBegin_def Let_def dest: path split: prod.splits if_splits)
  have move: "ensures (aside g) (handleMove astar course w i now g)" for now
    unfolding handleMove_def Let_def by (intro ensures_intro walk go aside_mobs aside_refl)
  show ?thesis unfolding Mob_Update_def Let_def
    by (auto simp: ensures_Some move idle aside_refl split: option.split MobStateType.split)
qed

section \<open>Everything that happens on the maps\<close>

text \<open>A client starts with an empty screen: what its index was sent before does not count.\<close>

definition forget :: "uint16 \<Rightarrow> 'm Game \<Rightarrow> 'm Game" where
  "forget i g = g\<lparr>sent := filter (\<lambda>m. fst m \<noteq> i) (sent g)\<rparr>"

definition free_index :: "uint16 \<Rightarrow> 'm Game \<Rightarrow> 'm Game" where
  "free_index i g = forget i (g\<lparr>users := (users g)(i := None)\<rparr>)"

text \<open>
  The client of \<open>start\<close> is not in the world yet, and its character not played by another. \<open>order\<close> is the
  order in which the party code walks the client table.
\<close>

inductive world_step :: "('m Game \<Rightarrow> uint16 list) \<Rightarrow> 'm Game \<Rightarrow> 'm Game \<Rightarrow> bool" for order where
  connect: "users g i = None \<Longrightarrow> world_step order g (g\<lparr>users := (users g)(i \<mapsto> Some zero_Context)\<rparr>)"
| start: "location g i = None \<Longrightarrow> \<forall>j. location g j \<noteq> None \<longrightarrow> cid g j \<noteq> Some (CharId c) \<Longrightarrow>
    world_step order g (start_playing i c (forget i g))"
| packet: "users g i \<noteq> None \<Longrightarrow> map_of (trade_handlers @ party_handlers order @ world_handlers) code = Some f \<Longrightarrow>
    f i r g = Some h \<Longrightarrow> world_step order g h"
| disconnect: "world_step order g (free_index i (OnClientDisconnect i g))"
| hit: "SubHealth dropList w m hp g = Some (died, h) \<Longrightarrow> world_step order g h"
| walk: "Mob_Update astar course w m g = Some h \<Longrightarrow> world_step order g h"
| timer: "world_step order g (item_tick w g)"
| clock: "clock g \<le> t \<Longrightarrow> world_step order g (g\<lparr>clock := t\<rparr>)"

definition new_server :: "'m Game \<Rightarrow> bool" where
  "new_server g \<longleftrightarrow> users g = Map.empty \<and> (\<forall>w\<in>set (Worlds g). \<forall>p. Players (Grid w p) = [])"

lemma forget_effect:
  "users (forget i g) = users g" "Worlds (forget i g) = Worlds g"
  "view (forget i g) j = (if j = i then {} else view g j)"
proof -
  have "fold (\<lambda>(k, pkt) S. if k = j then see pkt S else S) (filter (\<lambda>m. fst m \<noteq> i) ms) S =
      (if j = i then S else fold (\<lambda>(k, pkt) S. if k = j then see pkt S else S) ms S)" for ms S
    by (induction ms arbitrary: S) (auto simp: split_beta)
  then show "view (forget i g) j = (if j = i then {} else view g j)" by (simp add: view_def forget_def)
qed (simp_all add: forget_def)

lemma view_users: "view (g\<lparr>users := u\<rparr>) i = view g i"
  by (simp add: view_def)

text \<open>A change of the context of a player who is not in the world.\<close>

lemma away_inv:
  assumes inv: "map_inv g" and away: "location g s = None" "location h s = None"
    and others: "\<And>i. i \<noteq> s \<Longrightarrow> users h i = users g i" and worlds: "Worlds h = Worlds g"
    and ctx: "\<And>ctx. users h s = Some (Some ctx) \<Longrightarrow> ctxWorld ctx = None"
    and view: "\<And>i. i \<noteq> s \<Longrightarrow> view h i = view g i"
  shows "map_inv h"
proof -
  have placed: "placed g" and unique: "unique_ids g" and aware: "aware g" using inv by (simp_all add: map_inv_def)
  have loc: "location h i = location g i" for i
    using away others [of i] by (cases "i = s") (simp_all add: location_def)
  have cid: "cid h i = cid g i" if "i \<noteq> s" for i using others [OF that] by (simp add: cid_def)
  have "placed h" unfolding placed_def
  proof (intro conjI allI impI)
    show "(i \<in> standing h w p) = (location h i = Some (w, p))" if "w < length (Worlds h)" for w p i
      using placed that unfolding placed_def loc by (simp add: worlds cell_of_def)
    show "ctxWorld x = map_option fst (ctxCell x)" if "users h i = Some (Some x)" for i x
    proof (cases "i = s")
      case True
      with that away(2) ctx show ?thesis by (simp add: location_def)
    next
      case False
      with that placed show ?thesis unfolding placed_def others [OF False] by blast
    qed
    show "w < length (Worlds h)" "inside p" "cid h i \<noteq> None" if "location h i = Some (w, p)" for i w p
    proof -
      have l: "location g i = Some (w, p)" "i \<noteq> s" using that away by (auto simp: loc)
      with placed show "w < length (Worlds h)" "inside p" "cid h i \<noteq> None"
        unfolding placed_def cid [OF l(2)] worlds by blast+
    qed
  qed
  moreover have "unique_ids h" unfolding unique_ids_def loc
  proof (intro allI impI, elim conjE)
    fix i j
    assume *: "location g i \<noteq> None" "location g j \<noteq> None" "cid h i = cid h j"
    then have "i \<noteq> s" "j \<noteq> s" using away by auto
    with * show "i = j" using unique unfolding unique_ids_def by (metis cid)
  qed
  moreover have "aware h" unfolding aware_def loc
  proof (intro allI impI, elim conjE)
    fix i j w p q c
    assume *: "i \<noteq> j" "location g i = Some (w, p)" "location g j = Some (w, q)" "nearby 1 p q" "cid h j = Some c"
    then have "i \<noteq> s" "j \<noteq> s" using away by auto
    with * show "c \<in> view h i" using aware unfolding aware_def by (metis cid view)
  qed
  ultimately show ?thesis by (simp add: map_inv_def)
qed

lemma start_inv:
  assumes inv: "map_inv g" and away: "location g s = None"
    and other: "\<forall>j. location g j \<noteq> None \<longrightarrow> cid g j \<noteq> Some (CharId c)"
  shows "map_inv (start_playing s c (forget s g))"
proof -
  define c' where "c' = (let c = c\<lparr>BeginX := ucast (X c), BeginY := ucast (Y c), EndX := ucast (X c), EndY := ucast (Y c)\<rparr>
    in c\<lparr>CharInventory := Inventory_Setup (Some (g_RPCHandler (forget s g))) (CharId c) (ServerId (forget s g)) (CharInventory c),
      CharEquipment := Equipment_Setup (Some (g_RPCHandler (forget s g))) (CharId c) (ServerId (forget s g)) (CharEquipment c)\<rparr>)"
  define h1 where "h1 = upd s (\<lambda>ctx. ctx\<lparr>cChar := Some c'\<rparr>) (forget s g)"
  define h2 where "h2 = sendPartyStatsReconnect s (sendDurationSvcData s (sendChargeNotification s h1))"
  have c': "CharId c' = CharId c" by (simp add: c'_def Let_def)
  have start: "start_playing s c (forget s g) =
      (case FindWorld (World c') h2 of None \<Rightarrow> h2 | Some w \<Rightarrow> EnterWorld w s h2)"
    by (simp only: start_playing_def Let_def h2_def h1_def c'_def)
  have loc1: "location h1 i = location g i" for i
    unfolding h1_def upd_effect location_users(1) [OF forget_effect(1)] forget_effect(1)
    using away by (simp add: location_def comp_def)
  have cid1: "cid h1 i = (if i = s then map_option (\<lambda>_. CharId c) (Option.bind (users g s) id) else cid g i)" for i
    unfolding h1_def upd_effect location_users(2) [OF forget_effect(1)] forget_effect(1)
    by (cases "Option.bind (users g s) id") (simp_all add: c')
  have h1: "map_inv h1"
  proof (rule away_inv [OF inv away])
    show "ctxWorld ctx = None" if u: "users h1 s = Some (Some ctx)" for ctx
    proof -
      obtain d where d: "users g s = Some (Some d)" "ctx = d\<lparr>cChar := Some c'\<rparr>"
        using u by (auto simp: h1_def users_upd forget_effect)
      then have "ctxWorld d = map_option fst (ctxCell d)" using inv unfolding map_inv_def placed_def by blast
      then show ?thesis using away d by (simp add: location_def)
    qed
    show "location h1 s = None" by (simp add: loc1 away)
  qed (simp_all add: h1_def users_upd upd_effect forget_effect)
  have a: "aside h1 h2" unfolding h2_def sendDurationSvcData_def sendChargeNotification_def
    by (intro aside_partyStats aside_intro) (simp_all add: aside_refl aside_send split_beta)
  show ?thesis
  proof (cases "FindWorld (World c') h2")
    case None
    then show ?thesis unfolding start using aside_inv [OF a h1] by simp
  next
    case (Some w)
    have "w < length (Worlds h2)" using Some by (auto simp: FindWorld_def find_Some_iff)
    moreover have "location h2 s = None" using aside_D(1) [OF a] loc1 away by simp
    moreover have "cid h2 j \<noteq> Some d" if "location h2 j \<noteq> None" "cid h2 s = Some d" for j d
    proof -
      have "location g j \<noteq> None" "d = CharId c" "j \<noteq> s"
        using that away aside_D(1,2) [OF a] loc1 cid1 by auto
      then show ?thesis using other aside_D(2) [OF a] cid1 by simp
    qed
    ultimately have "map_inv (EnterWorldWithReason w s NewUserInit h2)"
      by (intro EnterWorld_inv aside_inv [OF a h1]) blast+
    then show ?thesis unfolding start EnterWorld_def Some by simp
  qed
qed

lemma world_step_inv: "world_step order g h \<Longrightarrow> map_inv g \<Longrightarrow> map_inv h"
proof (induction rule: world_step.induct)
  case (connect g i)
  then show ?case
    by (intro away_inv [OF connect(2), of i]) (auto simp: location_def zero_Context_def view_users)
next
  case (start g i c)
  then show ?case by (intro start_inv)
next
  case (packet g i code f r h)
  from packet(2) consider "map_of trade_handlers code = Some f" | "map_of (party_handlers order) code = Some f"
    | "map_of world_handlers code = Some f"
    unfolding map_of_append map_add_Some_iff by blast
  then have "ensures map_inv (f i r g)"
  proof cases
    case 1
    show ?thesis using aside_trade_handlers [OF 1] aside_inv [OF _ packet(4)] unfolding ensures_def by blast
  next
    case 2
    show ?thesis using aside_party_handlers [OF 2] aside_inv [OF _ packet(4)] unfolding ensures_def by blast
  next
    case 3
    then show ?thesis by (rule world_handlers_inv [OF _ packet(4)])
  qed
  then show ?case using packet(3) by (simp add: ensures_def)
next
  case (disconnect g i)
  then show ?case
    by (intro away_inv [OF leave_inv(2,3) [OF disconnect], of _ i])
      (auto simp: free_index_def forget_effect location_def view_users)
next
  case (hit dropList w m hp g died h)
  then show ?case using aside_SubHealth [OF aside_refl, of g dropList w m hp] by (auto simp: ensures_def intro: aside_inv)
next
  case (walk astar course w m g h)
  then show ?case using aside_Mob_Update [of g astar course w m] by (auto simp: ensures_def intro: aside_inv)
next
  case (timer g w)
  then show ?case by (rule aside_inv [OF aside_item_tick])
next
  case (clock g t)
  then show ?case using aside_inv [OF aside_fields(3) [OF aside_refl]] by blast
qed

lemma new_server_inv: "new_server g \<Longrightarrow> map_inv g"
  unfolding new_server_def map_inv_def placed_def unique_ids_def aware_def
  by (auto simp: location_def cell_of_def)


text \<open>One empty world, and the character of a trader at its origin.\<close>

definition meadow :: "world Game" where
  "meadow = (market [] [] [])\<lparr>Worlds := [\<lparr>WorldId = 1, Grid = \<lambda>_. empty_Cell, mobs = Map.empty\<rparr>]\<rparr>"

definition walker :: "int32 \<Rightarrow> world Character" where
  "walker i = the (cChar (trader i 1000 [] zero_TradeState))"

lemma meadow_steps:
  "new_server meadow"
  "(world_step order)\<^sup>*\<^sup>* meadow (start_playing 1 (walker 8) (forget 1 (meadow\<lparr>users := [1 \<mapsto> Some zero_Context]\<rparr>)))"
proof -
  let ?g = "meadow\<lparr>users := [1 \<mapsto> Some zero_Context]\<rparr>"
  have u: "users meadow = Map.empty" by (simp add: meadow_def market_def fun_eq_iff)
  show "new_server meadow" unfolding new_server_def u by (simp add: meadow_def empty_Cell_def)
  have "location ?g j = None" for j by (simp add: location_def zero_Context_def)
  then have "world_step order ?g (start_playing 1 (walker 8) (forget 1 ?g))" by (intro start) simp_all
  moreover have "world_step order meadow ?g" using connect [of meadow 1] u by simp
  ultimately show "(world_step order)\<^sup>*\<^sup>* meadow (start_playing 1 (walker 8) (forget 1 ?g))"
    by (meson r_into_rtranclp rtranclp_trans)
qed

lemma meadow_start:
  "location (start_playing 1 (walker 8) (forget 1 (meadow\<lparr>users := [1 \<mapsto> Some zero_Context]\<rparr>))) 1 = Some (0, 0, 0)"
proof -
  define c where "c = walker 8"
  have c: "World c = 1" "X c = 0" "Y c = 0" by (simp_all add: c_def walker_def trader_def)
  define h where "h = upd 1 (cChar_update (\<lambda>_. Some (c\<lparr>BeginX := 0, BeginY := 0, EndX := 0, EndY := 0,
      CharInventory := Inventory_Setup (Some master) (CharId c) 1 (CharInventory c),
      CharEquipment := Equipment_Setup (Some master) (CharId c) 1 (CharEquipment c)\<rparr>)))
    (forget 1 (meadow\<lparr>users := [1 \<mapsto> Some zero_Context]\<rparr>))"
  have h: "users h 1 = Some (Some (zero_Context\<lparr>cChar := Some (c\<lparr>BeginX := 0, BeginY := 0, EndX := 0, EndY := 0,
      CharInventory := Inventory_Setup (Some master) (CharId c) 1 (CharInventory c),
      CharEquipment := Equipment_Setup (Some master) (CharId c) 1 (CharEquipment c)\<rparr>)\<rparr>))"
    by (simp add: h_def users_upd forget_def)
  define k where "k = sendPartyStatsReconnect 1 (sendDurationSvcData 1 (sendChargeNotification 1 h))"
  have "users k = users h \<and> Worlds k = Worlds h"
    by (simp add: k_def sendDurationSvcData_def sendChargeNotification_def sendPartyStatsReconnect_def split_beta Parse_def h
        zero_Context_def)
  then have k: "users k = users h" "Worlds k = Worlds h" by simp_all
  moreover have "FindWorld 1 k = Some 0"
    by (simp add: FindWorld_def k h_def forget_def meadow_def)
  moreover have "g_RPCHandler (forget 1 (meadow\<lparr>users := [1 \<mapsto> Some zero_Context]\<rparr>)) = master"
    "ServerId (forget 1 (meadow\<lparr>users := [1 \<mapsto> Some zero_Context]\<rparr>)) = 1"
    by (simp_all add: forget_def meadow_def market_def)
  ultimately have start: "start_playing 1 c (forget 1 (meadow\<lparr>users := [1 \<mapsto> Some zero_Context]\<rparr>)) = EnterWorld 0 1 k"
    by (simp add: start_playing_def c h_def k_def Let_def)
  have "getCurrentCell 1 k = Some (0, 0)"
    by (simp add: getCurrentCell_def Parse_def k h c getWorldCell_byte) (simp add: getWorldCell_def isCellValid_def)
  then show ?thesis unfolding c_def [symmetric] start EnterWorld_def EnterWorldWithReason_def
    by (simp add: Let_def upd_effect upd_world_effect SendStates_effect sendToNearbyCells_effect k h)
qed


end
