(* ===== verification/Freya_Loot.thy ===== *)
theory Freya_Loot
  imports Freya_World_Laws
begin

text \<open>
  Items on the ground: what dropping, picking up and looting do to them, where ids collide, and what
  the missing lock around a pick-up lets happen.
\<close>

section \<open>The ground of a world\<close>

text \<open>Every item of a world, in the order in which \<open>iterateCells\<close> walks the cells.\<close>

definition ground :: "World \<Rightarrow> (int32 \<times> GroundItem) list" where
  "ground w = concat (map (\<lambda>p. Items (Grid w p)) all_cells)"

definition item_at_place :: "World \<Rightarrow> place \<Rightarrow> int32 \<Rightarrow> GroundItem option" where
  "item_at_place w p i = FindItem i (Grid w p)"

lemma iterate_continue: "iterate (\<lambda>p c s. (False, f p c s)) w ps s = fold (\<lambda>p. f p (Grid w p)) ps s"
  by (induction ps arbitrary: s) simp_all

lemma drop_id_ground: "drop_id w = word_of_nat (length (ground w)) + 1"
proof -
  have "fold (\<lambda>p i. i + GetItemCount (Grid w p)) ps i = i + word_of_nat (length (concat (map (\<lambda>p. Items (Grid w p)) ps)))"
    for ps and i :: int32
    by (induction ps arbitrary: i) (simp_all add: GetItemCount_def)
  then show ?thesis by (simp add: drop_id_def iterateCells_def iterate_continue ground_def)
qed

text \<open>The first cell that satisfies a test, or else the last one.\<close>

lemma iterate_find:
  "iterate (\<lambda>p c s. (P p c, f p c)) w ps s =
     (case List.find (\<lambda>p. P p (Grid w p)) ps of
        Some p \<Rightarrow> f p (Grid w p)
      | None \<Rightarrow> (if ps = [] then s else f (last ps) (Grid w (last ps))))"
  by (induction ps arbitrary: s) (simp_all add: Let_def split: option.split)

lemma last_cell: "last all_cells = (15, 15)" "all_cells \<noteq> []"
  by (simp_all add: all_cells_def upt_conv_Cons)

lemma PeekItem_find:
  "PeekItem i k w =
     (case List.find (\<lambda>p. \<exists>it. item_at_place w p i = Some it \<and> GKey it = k) all_cells of
        Some p \<Rightarrow> item_at_place w p i | None \<Rightarrow> item_at_place w (15, 15) i)"
proof -
  have "(\<lambda>p. case FindItem i (Grid w p) of None \<Rightarrow> False | Some it \<Rightarrow> GKey it = k) =
      (\<lambda>p. \<exists>it. item_at_place w p i = Some it \<and> GKey it = k)"
    by (auto simp: item_at_place_def fun_eq_iff split: option.split)
  then show ?thesis
    by (simp add: PeekItem_def iterateCells_def Let_def iterate_find last_cell item_at_place_def cong: option.case_cong)
qed

lemma find_item_find:
  "find_item i w =
     (case List.find (\<lambda>p. item_at_place w p i \<noteq> None) all_cells of
        Some p \<Rightarrow> (item_at_place w p i, p) | None \<Rightarrow> (None, (15, 15)))"
proof -
  have "item_at_place w (15, 15) i = None" if "List.find (\<lambda>p. item_at_place w p i \<noteq> None) all_cells = None"
  proof -
    have "(15, 15) \<in> set all_cells" by (simp add: set_all_cells inside_def)
    then show ?thesis using that by (auto simp: find_None_iff)
  qed
  moreover have "find_item i w = (case List.find (\<lambda>p. item_at_place w p i \<noteq> None) all_cells of
        Some p \<Rightarrow> (item_at_place w p i, p) | None \<Rightarrow> (item_at_place w (15, 15) i, (15, 15)))"
    by (simp add: find_item_def iterateCells_def Let_def iterate_find last_cell item_at_place_def cong: option.case_cong)
  ultimately show ?thesis by (simp split: option.split)
qed

lemma find_item_Some: "find_item i w = (Some it, p) \<Longrightarrow> inside p \<and> item_at_place w p i = Some it"
proof -
  assume "find_item i w = (Some it, p)"
  then have "List.find (\<lambda>p. item_at_place w p i \<noteq> None) all_cells = Some p" "item_at_place w p i = Some it"
    by (auto simp: find_item_find split: option.splits)
  moreover have "p \<in> set all_cells" using calculation(1) by (auto simp: find_Some_iff)
  ultimately show ?thesis by (simp add: set_all_cells)
qed

section \<open>Dropping and picking up\<close>

lemma ground_cong: "(\<And>p. Items (Grid v p) = Items (Grid w p)) \<Longrightarrow> ground v = ground w"
  by (simp add: ground_def)

lemma world_sent: "Worlds (sendToNearbyCells pkt w p r g) = Worlds g"
  by (rule sendToNearbyCells_effect)

lemma world_upd_cell: "Worlds (upd_cell w p f g) ! v =
    (if v = w \<and> w < length (Worlds g) then at_cell p f (Worlds g ! w) else Worlds g ! v)"
  by (cases "w < length (Worlds g)") (auto simp: upd_world_def nth_list_update linorder_not_less list_update_beyond)

text \<open>The item \<open>dropItem\<close> puts on the ground.\<close>

definition dropped ::
    "nat \<Rightarrow> Item \<Rightarrow> int32 \<Rightarrow> int32 \<Rightarrow> int \<Rightarrow> int \<Rightarrow> bool \<Rightarrow> byte \<Rightarrow> byte \<Rightarrow> 'm Game \<Rightarrow> GroundItem" where
  "dropped w item owner source x y e t i g =
     NewItem (fst (Intn 65536 g)) (clock g) item (drop_id (Worlds g ! w)) owner source x y e t i"

lemma dropItem_world:
  assumes "getWorldCell x y = Some p" "w < length (Worlds g)"
    "dropItem w item owner source x y e t i g = (ok, h)"
  shows "ok" "Worlds h ! w = at_cell p (Cell_AddItem (dropped w item owner source x y e t i g)) (Worlds g ! w)"
    "length (Worlds h) = length (Worlds g)" "users h = users g"
  using assms by (auto simp: dropItem_def Let_def Intn_def dropped_def world_upd_cell world_sent upd_world_def
      sendToNearbyCells_effect)

lemma take_item_world:
  "w < length (Worlds g) \<Longrightarrow> Worlds (snd (take_item w it p g)) ! w = at_cell p (Cell_RemoveItem it) (Worlds g ! w)"
  "length (Worlds (snd (take_item w it p g))) = length (Worlds g)"
  "users (snd (take_item w it p g)) = users g" "fst (take_item w it p g) = Some (GItem it)"
  by (simp_all add: take_item_def Let_def world_upd_cell world_sent upd_world_def sendToNearbyCells_effect)

text \<open>An id that one cell has and no other is found there.\<close>

lemma find_item_at:
  assumes "inside p" "FindItem i (Grid w p) = Some it" "\<And>q. inside q \<Longrightarrow> q \<noteq> p \<Longrightarrow> FindItem i (Grid w q) = None"
  shows "find_item i w = (Some it, p)"
proof (cases "List.find (\<lambda>p. item_at_place w p i \<noteq> None) all_cells")
  case None
  then show ?thesis using assms(1,2) by (auto simp: find_None_iff set_all_cells item_at_place_def)
next
  case (Some q)
  then have "item_at_place w q i \<noteq> None" "q \<in> set all_cells" by (auto simp: find_Some_iff)
  then have "q = p" by (intro ccontr [of "q = p"]) (use assms(3) [of q] in \<open>auto simp: item_at_place_def set_all_cells\<close>)
  then show ?thesis unfolding find_item_find Some using assms(2) by (simp add: item_at_place_def)
qed

lemma PeekItem_at:
  assumes "inside p" "FindItem i (Grid w p) = Some it" "\<And>q. inside q \<Longrightarrow> q \<noteq> p \<Longrightarrow> FindItem i (Grid w q) = None"
  shows "PeekItem i (GKey it) w = Some it"
proof (cases "List.find (\<lambda>p. \<exists>j. item_at_place w p i = Some j \<and> GKey j = GKey it) all_cells")
  case None
  then have "p \<notin> set all_cells" using assms(2) by (auto simp: find_None_iff item_at_place_def)
  then show ?thesis using assms(1) by (simp add: set_all_cells)
next
  case (Some q)
  then have "item_at_place w q i \<noteq> None" "q \<in> set all_cells" by (auto simp: find_Some_iff)
  then have "q = p" by (intro ccontr [of "q = p"]) (use assms(3) [of q] in \<open>auto simp: item_at_place_def set_all_cells\<close>)
  then show ?thesis unfolding PeekItem_find Some using assms(2) by (simp add: item_at_place_def)
qed

text \<open>
  C31: An item dropped inside the map can be seen by its id and key with the properties it was dropped
  with, and picking it up hands out the same item and leaves the ground as it was, as long as its id,
  one more than the number of items on the ground, is not already taken.
\<close>

theorem drop_pick_round_trip:
  assumes "getWorldCell x y = Some p" "w < length (Worlds g)" "n = drop_id (Worlds g ! w)"
    and "\<forall>q. inside q \<longrightarrow> FindItem n (Grid (Worlds g ! w) q) = None"
    and "DropItem w item owner x y g = (ok, h)" "PickItem w n h = (picked, k)"
  shows "ok \<and> picked = Some item \<and>
     (\<exists>it. PeekItem n (GKey it) (Worlds h ! w) = Some it \<and> GItem it = item \<and> GOwner it = owner \<and>
        GX it = word_of_int x \<and> GY it = word_of_int y \<and> Created it = clock g) \<and>
     (\<forall>q i. FindItem i (Grid (Worlds k ! w) q) = FindItem i (Grid (Worlds g ! w) q))"
proof -
  define it where "it = dropped w item owner owner x y (owner \<noteq> 0) 2 0x06 g"
  have it: "GId it = n" "GItem it = item" "GOwner it = owner" "GX it = word_of_int x" "GY it = word_of_int y"
    "Created it = clock g"
    by (simp_all add: it_def dropped_def NewItem_def assms(3))
  have p: "inside p" using getWorldCell_inside [OF assms(1)] .
  note drop = dropItem_world [OF assms(1,2) assms(5) [unfolded DropItem_def], folded it_def]
  have here: "FindItem n (Grid (Worlds h ! w) p) = Some it"
    and else_: "inside q \<Longrightarrow> q \<noteq> p \<Longrightarrow> FindItem n (Grid (Worlds h ! w) q) = None" for q
    using assms(4) by (simp_all add: drop(2) it)
  have "find_item n (Worlds h ! w) = (Some it, p)" by (rule find_item_at [OF p here else_])
  then have "PickItem w n h = take_item w it p h" by (simp add: PickItem_def)
  with assms(6) have pick: "take_item w it p h = (picked, k)" by simp
  then have "Worlds k ! w = at_cell p (Cell_RemoveItem it) (Worlds h ! w)" "picked = Some item"
    using take_item_world(1,4) [where it = it and p = p and g = h and w = w] assms(2) drop(3) it by auto
  moreover have "FindItem i (Grid (Worlds k ! w) q) = FindItem i (Grid (Worlds g ! w) q)" for q i
    using assms(4) p by (auto simp: calculation(1) drop(2) it)
  moreover have "PeekItem n (GKey it) (Worlds h ! w) = Some it" by (rule PeekItem_at [OF p here else_])
  ultimately show ?thesis using drop(1) it by blast
qed

theorem drop_pick_round_trip_witness:
  "\<exists>h k. DropItem 0 (sample_item 9 3 1) 7 20 35 meadow = (True, h) \<and> PickItem 0 1 h = (Some (sample_item 9 3 1), k)"
proof -
  have p: "getWorldCell 20 35 = Some (1, 2)" by (simp add: getWorldCell_def isCellValid_def drop_bit4)
  have ground: "ground (Worlds meadow ! 0) = []"
    by (simp add: ground_def meadow_def empty_Cell_def)
  then have n: "1 = drop_id (Worlds meadow ! 0)" by (simp add: drop_id_ground)
  have free: "\<forall>q. inside q \<longrightarrow> FindItem 1 (Grid (Worlds meadow ! 0) q) = None"
    by (simp add: meadow_def empty_Cell_def FindItem_def)
  have w: "0 < length (Worlds meadow)" by (simp add: meadow_def)
  obtain ok h where h: "DropItem 0 (sample_item 9 3 1) 7 20 35 meadow = (ok, h)" by fastforce
  obtain x k where k: "PickItem 0 1 h = (x, k)" by fastforce
  from drop_pick_round_trip [OF p w n free h k] have "ok" "x = Some (sample_item 9 3 1)" by blast+
  with h k show ?thesis by auto
qed

section \<open>Ids are reused\<close>

lemma distinct_all_cells: "distinct all_cells"
proof -
  have cells: "all_cells = map (\<lambda>(i, j). (word_of_nat i, word_of_nat j)) (List.product [0..<16] [0..<16])"
    unfolding all_cells_def product_concat_map map_concat by (simp only: comp_def map_map split_conv)
  have "i = j" if "i < 16" "j < 16" "(word_of_nat i :: byte) = word_of_nat j" for i j
  proof -
    have "unat (word_of_nat i :: byte) = i" "unat (word_of_nat j :: byte) = j"
      using that(1,2) by (intro unat_word_of_nat; simp)+
    then show ?thesis using that(3) by metis
  qed
  then have "inj_on (\<lambda>(i, j). (word_of_nat i :: byte, word_of_nat j :: byte)) ({0..<16} \<times> {0..<16})"
    by (auto simp: inj_on_def)
  then show ?thesis unfolding cells distinct_map
    by (simp only: set_product distinct_product distinct_upt set_upt simp_thms)
qed

lemma ground_count: "length (ground w) = (\<Sum>p | inside p. length (Items (Grid w p)))"
  unfolding ground_def length_concat map_map comp_def set_all_cells [symmetric]
  by (rule sum_list_distinct_conv_sum_set [OF distinct_all_cells])

lemma finite_inside: "finite {p. inside p}"
  unfolding set_all_cells [symmetric] by simp

lemma ground_at_cell:
  assumes "inside p"
  shows "length (ground (at_cell p f w)) + length (Items (Grid w p)) = length (ground w) + length (Items (f (Grid w p)))"
proof -
  have "length (ground v) = length (Items (Grid v p)) + (\<Sum>q\<in>{p. inside p} - {p}. length (Items (Grid v q)))" for v
    unfolding ground_count by (rule sum.remove) (simp_all add: finite_inside assms)
  moreover have "(\<Sum>q\<in>{p. inside p} - {p}. length (Items (Grid (at_cell p f w) q))) =
      (\<Sum>q\<in>{p. inside p} - {p}. length (Items (Grid w q)))"
    by (rule sum.cong) simp_all
  ultimately show ?thesis by simp
qed

lemma length_delete: "distinct (map fst xs) \<Longrightarrow> map_of xs i \<noteq> None \<Longrightarrow> Suc (length (AList.delete i xs)) = length xs"
proof (induction xs)
  case (Cons x xs)
  have "AList.delete i xs = xs" if "i \<notin> fst ` set xs"
    using that by (induction xs) (auto simp: AList.delete_eq)
  with Cons show ?case by (cases x) (auto simp: AList.delete_eq split: if_split_asm)
qed simp

lemma length_update: "map_of xs i \<noteq> None \<Longrightarrow> length (AList.update i x xs) = length xs"
  by (induction xs) (auto split: if_split_asm)

text \<open>The map of a cell has each id once.\<close>

definition item_maps :: "World \<Rightarrow> bool" where
  "item_maps w \<longleftrightarrow> (\<forall>p. distinct (map fst (Items (Grid w p))))"

text \<open>
  C34: A new item gets one more than the number of items on the ground as its id. With \<open>n\<close> items there, the
  last of them numbered \<open>n\<close>, after any other of them is picked up the id \<open>n\<close> is given out again: the next
  item dropped in the same cell takes the place of the last one, which is lost.
\<close>

theorem next_drop_destroys:
  assumes "w < length (Worlds g)" "item_maps (Worlds g ! w)" "length (ground (Worlds g ! w)) = n"
    and "FindItem (word_of_nat n) (Grid (Worlds g ! w) q) = Some victim" "i \<noteq> GId victim" "GId victim = word_of_nat n"
    and "find_item i (Worlds g ! w) = (Some it, p)" "GId it = i"
    and "PickItem w i g = (Some x, h)" "getWorldCell c r = Some q" "DropItem w item owner c r h = (ok, k)"
  shows "FindItem (word_of_nat n) (Grid (Worlds h ! w) q) = Some victim \<and>
     (\<exists>new. FindItem (word_of_nat n) (Grid (Worlds k ! w) q) = Some new \<and> GItem new = item \<and> Created new = clock h) \<and>
     Suc (length (ground (Worlds k ! w))) = n"
proof -
  have "take_item w it p g = (Some x, h)" using assms(7,9) by (simp add: PickItem_def)
  then have h: "Worlds h ! w = at_cell p (Cell_RemoveItem it) (Worlds g ! w)" "length (Worlds h) = length (Worlds g)"
    using take_item_world(1,2) [where it = it and p = p and g = g and w = w] assms(1) by auto
  have p: "inside p" "FindItem i (Grid (Worlds g ! w) p) = Some it"
    using find_item_Some [OF assms(7)] by (simp_all add: item_at_place_def)
  have "distinct (map fst (Items (Grid (Worlds g ! w) p)))" using assms(2) unfolding item_maps_def by blast
  then have "Suc (length (AList.delete i (Items (Grid (Worlds g ! w) p)))) = length (Items (Grid (Worlds g ! w) p))"
    using p(2) by (intro length_delete) (simp_all add: FindItem_def)
  then have n: "Suc (length (ground (Worlds h ! w))) = n"
    using ground_at_cell [OF p(1), of "Cell_RemoveItem it" "Worlds g ! w"] assms(3,8)
    by (simp add: h Cell_RemoveItem_def)
  then have id: "drop_id (Worlds h ! w) = word_of_nat n" by (auto simp: drop_id_ground)
  have there: "FindItem (word_of_nat n) (Grid (Worlds h ! w) q) = Some victim"
    using assms(4,5,6,8) by (auto simp: h)
  let ?new = "dropped w item owner owner c r (owner \<noteq> 0) 2 0x06 h"
  have new: "GId ?new = word_of_nat n" "GItem ?new = item" "Created ?new = clock h"
    by (simp_all add: dropped_def NewItem_def id)
  have k: "Worlds k ! w = at_cell q (Cell_AddItem ?new) (Worlds h ! w)"
    using dropItem_world(2) [OF assms(10) _ assms(11) [unfolded DropItem_def]] assms(1) h(2) by simp
  have "length (Items (Cell_AddItem ?new (Grid (Worlds h ! w) q))) = length (Items (Grid (Worlds h ! w) q))"
    using there by (simp add: Cell_AddItem_def length_update FindItem_def new(1))
  then have "length (ground (Worlds k ! w)) = length (ground (Worlds h ! w))"
    using ground_at_cell [OF getWorldCell_inside [OF assms(10)], of "Cell_AddItem ?new" "Worlds h ! w"] by (simp add: k)
  moreover have "FindItem (word_of_nat n) (Grid (Worlds k ! w) q) = Some ?new" by (simp add: k new)
  ultimately show ?thesis using n there new by auto
qed

text \<open>Two items in the first cell of the meadow.\<close>

definition littered :: "world Game" where
  "littered = meadow\<lparr>Worlds := [at_cell (0, 0) (Cell_AddItem (NewItem 6 0 (sample_item 9 1 0) 2 7 7 3 4 True 2 6) \<circ>
     Cell_AddItem (NewItem 5 0 (sample_item 8 1 0) 1 7 7 1 2 True 2 6)) (Worlds meadow ! 0)]\<rparr>"

lemma littered_world:
  "Worlds littered ! 0 = at_cell (0, 0) (Cell_AddItem (NewItem 6 0 (sample_item 9 1 0) 2 7 7 3 4 True 2 6) \<circ>
     Cell_AddItem (NewItem 5 0 (sample_item 8 1 0) 1 7 7 1 2 True 2 6)) (Worlds meadow ! 0)"
  "length (Worlds littered) = 1" "Grid (Worlds meadow ! 0) p = empty_Cell"
  by (simp_all add: littered_def meadow_def)

lemma meadow_ground: "ground (Worlds meadow ! 0) = []"
  by (simp add: ground_def littered_world empty_Cell_def)

lemma NewItem_simps [simp]:
  "GId (NewItem k t item i owner source x y e d f) = i" "GItem (NewItem k t item i owner source x y e d f) = item"
  "GKey (NewItem k t item i owner source x y e d f) = word_of_nat k" "GOwner (NewItem k t item i owner source x y e d f) = owner"
  "GX (NewItem k t item i owner source x y e d f) = word_of_int x" "GY (NewItem k t item i owner source x y e d f) = word_of_int y"
  by (simp_all add: NewItem_def)

lemma FindItem_empty [simp]: "FindItem i empty_Cell = None"
  by (simp add: FindItem_def empty_Cell_def)

lemma littered_find:
  "FindItem 1 (Grid (Worlds littered ! 0) (0, 0)) = Some (NewItem 5 0 (sample_item 8 1 0) 1 7 7 1 2 True 2 6)"
  "FindItem 2 (Grid (Worlds littered ! 0) (0, 0)) = Some (NewItem 6 0 (sample_item 9 1 0) 2 7 7 3 4 True 2 6)"
  "q \<noteq> (0, 0) \<Longrightarrow> FindItem i (Grid (Worlds littered ! 0) q) = None"
  by (simp_all add: littered_world)

theorem next_drop_destroys_witness:
  "\<exists>h k. PickItem 0 1 littered = (Some (sample_item 8 1 0), h) \<and> DropItem 0 (sample_item 4 0 0) 7 1 1 h = (True, k) \<and>
     FindItem 2 (Grid (Worlds h ! 0) (0, 0)) \<noteq> None \<and> length (ground (Worlds k ! 0)) = 1"
proof -
  let ?victim = "NewItem 6 0 (sample_item 9 1 0) 2 7 7 3 4 True 2 6" and ?it = "NewItem 5 0 (sample_item 8 1 0) 1 7 7 1 2 True 2 6"
  have origin: "inside (0, 0)" by (simp add: inside_def)
  have items: "Items (Grid (Worlds littered ! 0) (0, 0)) = [(1, ?it), (2, ?victim)]"
    by (simp add: littered_world Cell_AddItem_def empty_Cell_def)
  have "length (ground (Worlds littered ! 0)) = 2"
    using ground_at_cell [OF origin, of "Cell_AddItem ?victim \<circ> Cell_AddItem ?it" "Worlds meadow ! 0"] items
    by (simp add: littered_world(1) meadow_ground littered_world(3)) (simp add: empty_Cell_def Cell_AddItem_def)
  moreover have "item_maps (Worlds littered ! 0)" unfolding item_maps_def
  proof
    fix p
    show "distinct (map fst (Items (Grid (Worlds littered ! 0) p)))"
      by (cases "p = (0, 0)") (simp add: items, simp add: littered_world empty_Cell_def)
  qed
  moreover have find: "find_item 1 (Worlds littered ! 0) = (Some ?it, 0, 0)"
    by (rule find_item_at [OF origin littered_find(1) littered_find(3)])
  obtain h where h: "PickItem 0 1 littered = (Some (sample_item 8 1 0), h)"
    using find by (simp add: PickItem_def take_item_def Let_def)
  obtain ok k where k: "DropItem 0 (sample_item 4 0 0) 7 1 1 h = (ok, k)" by fastforce
  have c: "getWorldCell 1 1 = Some (0, 0)" by (simp add: getWorldCell_def isCellValid_def drop_bit4)
  have "ok" using k c by (simp add: DropItem_def dropItem_def Let_def split_beta)
  moreover note next_drop_destroys [OF _ calculation(2,1) _ _ _ find _ h c k, of ?victim]
  ultimately show ?thesis using h k littered_find(2) littered_world(2) by (simp add: numeral_2_eq_2 [symmetric])
qed

section \<open>The right item and the wrong one\<close>

text \<open>
  With two items on the ground that share an id, a player who names the id and key of the one has its
  distance and owner checked, but is handed the one in the cell that comes first.
\<close>

theorem loots_another:
  assumes "all_cells = ps @ p # qs" "\<forall>c\<in>set ps. FindItem i (Grid (Worlds g ! w) c) = None"
    and "FindItem i (Grid (Worlds g ! w) p) = Some a" "q \<in> set qs" "FindItem i (Grid (Worlds g ! w) q) = Some b"
    and "GKey b \<noteq> GKey a" "\<forall>c\<in>set qs - {q}. FindItem i (Grid (Worlds g ! w) c) = None"
  shows "PeekItem i (GKey b) (Worlds g ! w) = Some b \<and> fst (PickItem w i g) = Some (GItem a)"
proof
  let ?P = "\<lambda>p. \<exists>it. item_at_place (Worlds g ! w) p i = Some it \<and> GKey it = GKey b"
  have "\<not> ?P c" if "c \<in> set ps \<union> {p}" for c using that assms(2,3,6) by (auto simp: item_at_place_def)
  then have "List.find ?P all_cells = List.find ?P qs"
    unfolding assms(1) by (induction ps) auto
  moreover have "List.find ?P qs = Some q" using assms(4,5,7)
  proof (induction qs)
    case (Cons c qs)
    show ?case
    proof (cases "c = q")
      case True
      then show ?thesis using assms(5) by (simp add: item_at_place_def)
    next
      case False
      then have "\<not> ?P c" using Cons.prems(3) by (auto simp: item_at_place_def)
      then show ?thesis using Cons False by auto
    qed
  qed simp
  ultimately show "PeekItem i (GKey b) (Worlds g ! w) = Some b" by (simp add: PeekItem_find assms(5) item_at_place_def)
  have "List.find (\<lambda>p. item_at_place (Worlds g ! w) p i \<noteq> None) all_cells = Some p"
    unfolding assms(1) using assms(2,3) by (induction ps) (auto simp: item_at_place_def)
  then have "find_item i (Worlds g ! w) = (Some a, p)" by (simp add: find_item_find assms(3) item_at_place_def)
  then show "fst (PickItem w i g) = Some (GItem a)" by (simp add: PickItem_def take_item_world)
qed

text \<open>The littered meadow with a third item, numbered 2 as well, in the next cell.\<close>

theorem loots_another_witness:
  "let b = NewItem 9 0 (sample_item 4 1 0) 2 7 7 20 200 True 2 6;
       g = upd_cell 0 (15, 15) (Cell_AddItem b) littered in
   PeekItem 2 9 (Worlds g ! 0) = Some b \<and> fst (PickItem 0 2 g) = Some (sample_item 9 1 0)"
proof -
  let ?b = "NewItem 9 0 (sample_item 4 1 0) 2 7 7 20 200 True 2 6"
  let ?g = "upd_cell 0 (15, 15) (Cell_AddItem ?b) littered"
  let ?a = "NewItem 6 0 (sample_item 9 1 0) 2 7 7 3 4 True 2 6"
  have w: "Worlds ?g ! 0 = at_cell (15, 15) (Cell_AddItem ?b) (Worlds littered ! 0)"
    by (simp add: world_upd_cell littered_world(2))
  have "hd all_cells = (0, 0)" by (simp add: all_cells_def upt_conv_Cons)
  then obtain cs where cs: "all_cells = (0, 0) # cs" using last_cell(2) by (metis list.collapse)
  then have cells: "all_cells = [] @ (0, 0) # cs" by simp
  have "(15, 15) \<in> set all_cells" by (simp add: set_all_cells inside_def)
  then have q: "(15, 15) \<in> set cs" by (simp add: cs)
  have o: "(0, 0) \<notin> set cs" using distinct_all_cells by (simp add: cs)
  have a: "FindItem 2 (Grid (Worlds ?g ! 0) (0, 0)) = Some ?a" and b: "FindItem 2 (Grid (Worlds ?g ! 0) (15, 15)) = Some ?b"
    by (simp_all add: w littered_find(2))
  have "FindItem 2 (Grid (Worlds ?g ! 0) c) = None" if "c \<in> set cs - {(15, 15)}" for c
  proof -
    have "c \<noteq> (0, 0)" "c \<noteq> (15, 15)" using that o by auto
    then show ?thesis by (simp add: w littered_find(3))
  qed
  then show ?thesis using loots_another [OF cells _ a q b] by simp
qed

text \<open>
  The item \<open>PeekItem\<close> finds: the first one with the key, or else what the last cell has. The key is checked only
  to decide whether to go on to the next cell.
\<close>

lemma PeekItem_iff:
  "PeekItem i k w = Some it \<longleftrightarrow>
     (\<exists>ps p qs. all_cells = ps @ p # qs \<and> FindItem i (Grid w p) = Some it \<and> (GKey it = k \<or> p = (15, 15)) \<and>
        (\<forall>q\<in>set ps. \<forall>j. FindItem i (Grid w q) = Some j \<longrightarrow> GKey j \<noteq> k))"
proof
  let ?P = "\<lambda>p. \<exists>it. item_at_place w p i = Some it \<and> GKey it = k"
  let ?first = "\<lambda>ps p qs. all_cells = ps @ p # qs \<and> FindItem i (Grid w p) = Some it \<and> (GKey it = k \<or> p = (15, 15)) \<and>
        (\<forall>q\<in>set ps. \<forall>j. FindItem i (Grid w q) = Some j \<longrightarrow> GKey j \<noteq> k)"
  have butlast: "all_cells = butlast all_cells @ [(15, 15)]" using last_cell by (metis append_butlast_last_id)
  show "\<exists>ps p qs. ?first ps p qs" if peek: "PeekItem i k w = Some it"
  proof (cases "List.find ?P all_cells")
    case None
    then have "\<forall>p\<in>set all_cells. \<not> ?P p" by (simp add: find_None_iff)
    then have "?first (butlast all_cells) (15, 15) []"
      using peek None butlast by (auto simp: PeekItem_find item_at_place_def dest: in_set_butlastD)
    then show ?thesis by blast
  next
    case (Some p)
    then obtain n where n: "n < length all_cells" "?P (all_cells ! n)" "p = all_cells ! n" "\<forall>m<n. \<not> ?P (all_cells ! m)"
      by (auto simp: find_Some_iff)
    have "?first (take n all_cells) p (drop (Suc n) all_cells)"
      using n peek Some by (auto simp: PeekItem_find id_take_nth_drop item_at_place_def in_set_conv_nth)
    then show ?thesis by blast
  qed
  show "PeekItem i k w = Some it" if "\<exists>ps p qs. ?first ps p qs"
  proof -
    from that obtain ps p qs where f: "?first ps p qs" by blast
    then have ps: "\<forall>q\<in>set ps. \<not> ?P q" by (auto simp: item_at_place_def)
    have find: "List.find ?P (ps @ p # qs) = (if ?P p then Some p else List.find ?P qs)"
      using ps by (induction ps) auto
    show ?thesis
    proof (cases "GKey it = k")
      case True
      then have "?P p" using f by (auto simp: item_at_place_def)
      then have "List.find ?P all_cells = Some p" using f find by simp
      then show ?thesis using f by (simp add: PeekItem_find item_at_place_def)
    next
      case False
      then have "p = (15, 15)" "\<not> ?P p" using f by (auto simp: item_at_place_def)
      moreover have "qs = []"
      proof (rule ccontr)
        assume "qs \<noteq> []"
        then have "p \<in> set qs" using f last_cell(1) \<open>p = (15, 15)\<close> by (metis last_appendR last_in_set last_ConsR list.distinct(1))
        then show False using f distinct_all_cells by (metis distinct.simps(2) distinct_append)
      qed
      ultimately have "List.find ?P all_cells = None" using f find by simp
      then show ?thesis using f \<open>p = (15, 15)\<close> by (simp add: PeekItem_find item_at_place_def)
    qed
  qed
qed

text \<open>
  An item in the last cell of a map is found under every key, unless another item with its id has that key.
\<close>

theorem last_cell_any_key:
  assumes "FindItem i (Grid w (15, 15)) = Some it"
    and "\<And>p j. inside p \<Longrightarrow> p \<noteq> (15, 15) \<Longrightarrow> FindItem i (Grid w p) = Some j \<Longrightarrow> GKey j \<noteq> k"
  shows "PeekItem i k w = Some it"
proof -
  obtain bs where cells: "all_cells = bs @ (15, 15) # []" using last_cell by (metis append_butlast_last_id)
  have last: "(15, 15) \<notin> set bs" using distinct_all_cells by (simp add: cells)
  have "\<forall>q\<in>set bs. \<forall>j. FindItem i (Grid w q) = Some j \<longrightarrow> GKey j \<noteq> k"
  proof (intro ballI allI impI)
    fix q j
    assume q: "q \<in> set bs" "FindItem i (Grid w q) = Some j"
    then have "inside q" using set_all_cells by (auto simp: cells)
    moreover have "q \<noteq> (15, 15)" using q(1) last by blast
    ultimately show "GKey j \<noteq> k" using assms(2) q(2) by blast
  qed
  then show ?thesis unfolding PeekItem_iff
    by (intro exI [of _ "bs"] exI [of _ "(15, 15)"] exI [of _ "[]"]) (use cells assms(1) in simp)
qed

theorem last_cell_any_key_witness:
  "PeekItem 2 77 (at_cell (15, 15) (Cell_AddItem (NewItem 9 0 (sample_item 4 1 0) 2 7 7 250 250 True 2 6)) (Worlds meadow ! 0))
     = Some (NewItem 9 0 (sample_item 4 1 0) 2 7 7 250 250 True 2 6)"
  by (rule last_cell_any_key) (simp_all add: littered_world(3))

text \<open>What a looting packet can lead to.\<close>

definition lootable :: "nat \<Rightarrow> uint16 \<Rightarrow> 'm Character \<Rightarrow> 'm Game \<Rightarrow> 'm Game \<Rightarrow> bool" where
  "lootable w s c g h \<longleftrightarrow> Worlds h = Worlds g \<or>
     (\<exists>j k it slot st cur. PeekItem j k (Worlds g ! w) = Some it \<and> h = loot w s c j slot st cur g \<and>
        \<bar>uint (X c) - uint (GX it)\<bar> \<le> 10 \<and> \<bar>uint (Y c) - uint (GY it)\<bar> \<le> 10 \<and>
        (IsOwnerExpired (clock g) it \<or> GOwner it = CharId c) \<and>
        Kind (Inventory_Get slot (CharInventory c)) \<in> {0, Kind (GItem it)})"

lemma ItemLooting_cases:
  assumes "Option.bind (Parse s g) (\<lambda>ctx. map_option (Pair (ctxWorld ctx)) (cChar ctx)) = Some (Some w, c)"
  shows "ensures (lootable w s c g) (ItemLooting s r g)"
proof -
  have same: "Worlds h = Worlds g \<Longrightarrow> lootable w s c g h" for h by (simp add: lootable_def)
  have loot: "lootable w s c g (loot w s c j slot st cur g)"
    if "PeekItem j k (Worlds g ! w) = Some it" "stack_on (Inventory_Get slot (CharInventory c)) it = (st, cur)"
      "\<not> (uint (X c) - uint (GX it) < -10 \<or> uint (X c) - uint (GX it) > 10 \<or>
         uint (Y c) - uint (GY it) < -10 \<or> uint (Y c) - uint (GY it) > 10)"
      "\<not> (\<not> IsOwnerExpired (clock g) it \<and> GOwner it \<noteq> CharId c)" "\<not> (\<not> st \<and> Kind cur \<noteq> 0)"
    for j k it slot st cur
  proof -
    have "\<bar>uint (X c) - uint (GX it)\<bar> \<le> 10" "\<bar>uint (Y c) - uint (GY it)\<bar> \<le> 10" using that(3) by arith+
    moreover have "Kind (Inventory_Get slot (CharInventory c)) \<in> {0, Kind (GItem it)}"
      using that(2,5) by (auto simp: stack_on_def split: if_splits)
    ultimately show ?thesis using that(1,4) unfolding lootable_def by blast
  qed
  show ?thesis
    unfolding ItemLooting_def assms option.case prod.case Let_def
    by (intro ensures_intro) (auto simp: refuse_looting_def intro: loot same)
qed

lemma looted_world:
  assumes "h = loot w s c j slot st cur g" "w < length (Worlds g)"
  obtains "fst (find_item j (Worlds g ! w)) = None" "Worlds h ! w = Worlds g ! w"
  | it p where "find_item j (Worlds g ! w) = (Some it, p)" "Worlds h ! w = at_cell p (Cell_RemoveItem it) (Worlds g ! w)"
proof (cases "find_item j (Worlds g ! w)")
  case (fields x a b)
  let ?p = "(a, b)"
  have keep: "Worlds (keep_loot s c slot st cur inv k) = Worlds k" for inv k
    by (auto simp: keep_loot_def Let_def split: prod.split)
  show ?thesis
  proof (cases x)
    case None
    then show ?thesis using that(1) fields assms by (simp add: loot_def PickItem_def)
  next
    case (Some it)
    have "h = keep_loot s c slot st cur (GItem it) (snd (take_item w it ?p g))"
      using assms(1) fields Some take_item_world(4) [of w it ?p g]
      by (cases "take_item w it ?p g") (simp add: loot_def PickItem_def)
    then show ?thesis using that(2) fields Some take_item_world(1) [OF assms(2)] keep by metis
  qed
qed


text \<open>The owner of the two items stands beside them.\<close>

definition gleaner :: "world Game" where
  "gleaner = littered\<lparr>users := [1 \<mapsto> Some (zero_Context\<lparr>cChar := Some (walker 7), ctxWorld := Some 0, ctxCell := Some (0, 0, 0)\<rparr>)]\<rparr>"

lemma gleaner_simps:
  "Worlds gleaner = Worlds littered" "clock gleaner = 0"
  "Parse 1 gleaner = Some (zero_Context\<lparr>cChar := Some (walker 7), ctxWorld := Some 0, ctxCell := Some (0, 0, 0)\<rparr>)"
  "X (walker 7) = 0" "Y (walker 7) = 0" "CharId (walker 7) = 7" "Inventory_Get t (CharInventory (walker 7)) = zero_Item"
  by (simp_all add: gleaner_def littered_def meadow_def market_def Parse_def walker_def trader_def Inventory_Get_def
      sample_inv_def)

lemma littered_peek: "PeekItem 1 5 (Worlds littered ! 0) = Some (NewItem 5 0 (sample_item 8 1 0) 1 7 7 1 2 True 2 6)"
  using PeekItem_at [OF _ littered_find(1) littered_find(3)] by (simp add: inside_def)

lemma littered_unique:
  "FindItem i (Grid (Worlds littered ! 0) p) \<noteq> None \<Longrightarrow> p = (0, 0)"
  "FindItem i (Grid (Worlds littered ! 0) p) = Some it \<Longrightarrow> GId it = i"
  by (cases "p = (0, 0)"; auto simp: littered_world split: if_split_asm)+


section \<open>Two at once\<close>

lemma sent_remote: "remote (sendToNearbyCells pkt w p r g) = remote g"
proof -
  have "remote (fold (\<lambda>v. send v pkt) vs g) = remote g" for vs and g :: "'a Game"
    by (induction vs arbitrary: g) (simp_all add: send_def)
  then have "remote (fold (Cell_Send pkt w) qs g) = remote g" for qs
    by (induction qs arbitrary: g) (simp_all add: Cell_Send_def)
  then show ?thesis by (simp add: sendToNearbyCells_def)
qed

lemma take_item_remote: "remote (snd (take_item w it p g)) = remote g"
  by (simp add: take_item_def Let_def upd_world_def sent_remote)

lemma Set_rows:
  assumes "coherent master world_rows e m" "Inventory_Set a it e m = ((True, nil), e', m')" "Slot it = a"
  shows "e' = e\<lparr>Inv := (Inv e)(key a \<mapsto> it)\<rparr>"
    "world_rows m' c = (if c = character e then (world_rows m c)(a \<mapsto> it) else world_rows m c)"
proof -
  have s: "sync ''AddItem'' it None e m = ((True, nil), m')" and e': "e' = e\<lparr>Inv := (Inv e)(key a \<mapsto> it)\<rparr>"
    using assms(2) by (auto simp: Inventory_Set_def split: prod.splits)
  show "e' = e\<lparr>Inv := (Inv e)(key a \<mapsto> it)\<rparr>" by (rule e')
  obtain res where call: "serve AddItem \<lparr>iServer = serverId e, iId = character e, iCommand = ''AddItem'', iItem = it,
      iNewItem = None\<rparr> m = (res, m')" "accepted iResult res"
    using world.sync_call [OF assms(1) s] by auto
  obtain io r where "AddItem io \<lparr>iServer = serverId e, iId = character e, iCommand = ''AddItem'', iItem = it,
      iNewItem = None\<rparr> (database m) = (r, database m')" "success iResult r"
    using serve_success [OF call] .
  from AddItem_effect [OF this(1)] this(2) assms(3)
  show "world_rows m' c = (if c = character e then (world_rows m c)(a \<mapsto> it) else world_rows m c)"
    by (simp add: world_rows_def)
qed

text \<open>
  C33: Between finding an item on the ground and removing it \<open>PickItem\<close> holds no lock. When two players' looting
  packets are handled at the same time and both find the item before either removes it, both are handed the
  item, and both end up with it in memory and in the database.
\<close>

theorem looting_race:
  assumes "find_item i (Worlds g ! w) = (Some it, p)" "take_item w it p g = (Some x, g1)" "take_item w it p g1 = (Some y, g2)"
    and "Parse s g = Some ctx" "cChar ctx = Some c" "Parse t g = Some dtx" "cChar dtx = Some d" "s \<noteq> t"
    and "coherent master world_rows (CharInventory c) (remote g)" "coherent master world_rows (CharInventory d) m"
    and "character (CharInventory c) \<noteq> character (CharInventory d)"
    and "Inventory_Set a (x\<lparr>Slot := a\<rparr>) (CharInventory c) (remote g) = ((True, nil), e, m)"
    and "Inventory_Set b (y\<lparr>Slot := b\<rparr>) (CharInventory d) m = ((True, nil), e', m')"
    and "h = keep_loot t d b False zero_Item y (keep_loot s c a False zero_Item x g2)"
  shows "(\<exists>c'. Option.bind (Parse s h) cChar = Some c' \<and> Inv (CharInventory c') (key a) = Some ((GItem it)\<lparr>Slot := a\<rparr>)) \<and>
     (\<exists>d'. Option.bind (Parse t h) cChar = Some d' \<and> Inv (CharInventory d') (key b) = Some ((GItem it)\<lparr>Slot := b\<rparr>)) \<and>
     world_rows (remote h) (character (CharInventory c)) a = Some ((GItem it)\<lparr>Slot := a\<rparr>) \<and>
     world_rows (remote h) (character (CharInventory d)) b = Some ((GItem it)\<lparr>Slot := b\<rparr>)"
proof -
  have x: "x = GItem it" "y = GItem it" "users g2 = users g" "remote g2 = remote g"
    using assms(2,3) take_item_world(3,4) take_item_remote by (metis fst_conv snd_conv option.inject)+
  define k where "k = keep_loot s c a False zero_Item x g2"
  have k: "users k = users (upd s (on_char (CharInventory_update (\<lambda>_. e))) g)" "remote k = m"
    using assms(12) by (auto simp: k_def keep_loot_def x users_upd fun_eq_iff)
  have h: "users h = users (upd t (on_char (CharInventory_update (\<lambda>_. e'))) k)" "remote h = m'"
    using assms(13) unfolding assms(14) k_def [symmetric] by (auto simp: keep_loot_def x k(2) users_upd fun_eq_iff)
  have ps: "users g s = Some (Some ctx)" "users g t = Some (Some dtx)" using assms(4,6) by (simp_all add: Parse_Some)
  have "Option.bind (Parse s h) cChar = Some (c\<lparr>CharInventory := e\<rparr>)"
    "Option.bind (Parse t h) cChar = Some (d\<lparr>CharInventory := e'\<rparr>)"
    using assms(5,7,8) ps by (simp_all add: Parse_def h k users_upd)
  moreover have "e = (CharInventory c)\<lparr>Inv := (Inv (CharInventory c))(key a \<mapsto> x\<lparr>Slot := a\<rparr>)\<rparr>"
    "e' = (CharInventory d)\<lparr>Inv := (Inv (CharInventory d))(key b \<mapsto> y\<lparr>Slot := b\<rparr>)\<rparr>"
    using Set_rows(1) [OF assms(9,12)] Set_rows(1) [OF assms(10,13)] by simp_all
  moreover have "world_rows m' (character (CharInventory c)) a = Some (x\<lparr>Slot := a\<rparr>)"
    "world_rows m' (character (CharInventory d)) b = Some (y\<lparr>Slot := b\<rparr>)"
    using assms(11) by (simp_all add: Set_rows(2) [OF assms(10,13)] Set_rows(2) [OF assms(9,12)])
  ultimately show ?thesis by (simp add: h(2) x(1,2))
qed

lemma walker_inv:
  "CharInventory (walker i) = \<lparr>Inv = Map.empty, rpcHandler = Some master, character = i, serverId = 1\<rparr>"
  by (simp add: walker_def trader_def sample_inv_def)

lemma walker_set:
  assumes "world_rows m i = Map.empty" "up m" "calls m = []" "Slot it = a"
  obtains e m' where "Inventory_Set a it (CharInventory (walker i)) m = ((True, nil), e, m')" "up m'" "calls m' = []"
    "coherent master world_rows (CharInventory (walker i)) m"
proof -
  have "tables (database m) characters_inventory i a = None"
    using assms(1) by (simp add: tables_stored world_rows_def)
  then show ?thesis using that assms
    by (auto simp: Inventory_Set_def sync_def walker_inv serve_def next_call_def AddItem_def MustExec_def sql_insert_def
        faulty_def Let_def coherent_def)
qed

theorem looting_race_witness:
  "\<exists>h :: world Game. world_rows (remote h) 7 3 = Some ((sample_item 8 1 0)\<lparr>Slot := 3\<rparr>) \<and>
     world_rows (remote h) 9 4 = Some ((sample_item 8 1 0)\<lparr>Slot := 4\<rparr>)"
proof -
  let ?it = "NewItem 5 0 (sample_item 8 1 0) 1 7 7 1 2 True 2 6"
  let ?ctx = "\<lambda>i. zero_Context\<lparr>cChar := Some (walker i), ctxWorld := Some 0, ctxCell := Some (0, 0, 0)\<rparr>"
  define g where "g = littered\<lparr>users := [1 \<mapsto> Some (?ctx 7), 2 \<mapsto> Some (?ctx 9)]\<rparr>"
  have find: "find_item 1 (Worlds g ! 0) = (Some ?it, 0, 0)"
    by (simp add: g_def find_item_at [OF _ littered_find(1) littered_find(3)] inside_def)
  have P: "Parse 1 g = Some (?ctx 7)" "Parse 2 g = Some (?ctx 9)" by (simp_all add: g_def Parse_def)
  have empty: "world_rows (remote g) i = Map.empty" "up (remote g)" "calls (remote g) = []" for i
    by (simp_all add: g_def littered_def meadow_def market_def world_rows_def sample_world_def sample_db_def stored_def)
  obtain x g1 where 1: "take_item 0 ?it (0, 0) g = (Some x, g1)" by (simp add: take_item_def Let_def)
  obtain y g2 where 2: "take_item 0 ?it (0, 0) g1 = (Some y, g2)" by (simp add: take_item_def Let_def)
  have xy: "x = sample_item 8 1 0" "y = sample_item 8 1 0"
    using 1 2 take_item_world(4) by (metis NewItem_simps(2) fst_conv option.inject)+
  obtain e m where s: "Inventory_Set 3 (x\<lparr>Slot := 3\<rparr>) (CharInventory (walker 7)) (remote g) = ((True, nil), e, m)"
    "up m" "calls m = []" and c: "coherent master world_rows (CharInventory (walker 7)) (remote g)"
    using walker_set [OF empty(1) empty(2,3), of "x\<lparr>Slot := 3\<rparr>" 3 7] by auto
  have m9: "world_rows m 9 = Map.empty" using Set_rows(2) [OF c s(1)] empty(1) by (simp add: walker_inv)
  have slot: "Slot (y\<lparr>Slot := 4\<rparr>) = 4" by simp
  obtain e' m' where t: "Inventory_Set 4 (y\<lparr>Slot := 4\<rparr>) (CharInventory (walker 9)) m = ((True, nil), e', m')"
    and d: "coherent master world_rows (CharInventory (walker 9)) m"
    using walker_set [OF m9 s(2,3) slot] by blast
  have ne: "character (CharInventory (walker 7)) \<noteq> character (CharInventory (walker 9))" by (simp add: walker_inv)
  let ?h = "keep_loot 2 (walker 9) 4 False zero_Item y (keep_loot 1 (walker 7) 3 False zero_Item x g2)"
  have r: "(\<exists>c'. Option.bind (Parse 1 ?h) cChar = Some c' \<and> Inv (CharInventory c') (key 3) = Some ((sample_item 8 1 0)\<lparr>Slot := 3\<rparr>)) \<and>
     (\<exists>d'. Option.bind (Parse 2 ?h) cChar = Some d' \<and> Inv (CharInventory d') (key 4) = Some ((sample_item 8 1 0)\<lparr>Slot := 4\<rparr>)) \<and>
     world_rows (remote ?h) 7 3 = Some ((sample_item 8 1 0)\<lparr>Slot := 3\<rparr>) \<and>
     world_rows (remote ?h) 9 4 = Some ((sample_item 8 1 0)\<lparr>Slot := 4\<rparr>)"
    using looting_race [OF find 1 2 P(1) _ P(2) _ _ c d ne s(1) t refl] by (simp add: walker_inv)
  then show ?thesis by blast
qed

end
