(* ===== verification/Freya_Mob_Laws.thy ===== *)
theory Freya_Mob_Laws
  imports Freya_Mobs Freya_Loot
begin

text \<open>
  Mobs: each living mob is filed in the one cell it points to, a dead one in none, and its health stays
  within its bounds, whatever hits and timer ticks come. One interleaving breaks this.
\<close>

declare split_paired_Ex [simp del] split_paired_All [simp del]

section \<open>Reading the state\<close>

definition mobs_at :: "nat \<Rightarrow> place \<Rightarrow> 'm Game \<Rightarrow> int set" where
  "mobs_at w p g = set (Mobs (cell_of w p g))"

lemma same_worlds: "Worlds h = Worlds g \<Longrightarrow> FindMob w i h = FindMob w i g"
  "Worlds h = Worlds g \<Longrightarrow> mobs_at w p h = mobs_at w p g"
  by (simp_all add: FindMob_def mobs_at_def cell_of_def)

lemma broadcast_worlds [simp]: "Worlds (BroadcastPacket w p pkt g) = Worlds g"
  by (simp add: BroadcastPacket_def sendToNearbyCells_effect)

lemma mob_broadcast [simp]:
  "FindMob v i (BroadcastPacket w p pkt g) = FindMob v i g" "mobs_at v q (BroadcastPacket w p pkt g) = mobs_at v q g"
  by (rule same_worlds, simp)+

lemma upd_world_nth: "Worlds (upd_world w f g) ! v = (if v = w \<and> w < length (Worlds g) then f (Worlds g ! w) else Worlds g ! v)"
  by (cases "w < length (Worlds g)") (simp_all add: upd_world_def nth_list_update list_update_beyond not_less)

lemma length_upd_world [simp]: "length (Worlds (upd_world w f g)) = length (Worlds g)" "clock (upd_world w f g) = clock g"
  by (simp_all add: upd_world_def)

lemma mob_upd_mob [simp]:
  "FindMob v j (upd_mob w i f g) =
     (if v = w \<and> j = i \<and> w < length (Worlds g) then map_option f (FindMob w i g) else FindMob v j g)"
  by (simp only: FindMob_def upd_mob_def upd_world_nth) simp

lemma upd_mob_simps [simp]:
  "mobs_at v p (upd_mob w i f g) = mobs_at v p g" "length (Worlds (upd_mob w i f g)) = length (Worlds g)"
  "clock (upd_mob w i f g) = clock g"
  unfolding mobs_at_def cell_of_def upd_mob_def length_upd_world by (simp_all only: upd_world_nth) simp

lemma mob_upd_cell:
  "FindMob v j (upd_cell w p f g) = FindMob v j g"
  "mobs_at v q (upd_cell w p f g) =
     (if v = w \<and> q = p \<and> w < length (Worlds g) then set (Mobs (f (cell_of w p g))) else mobs_at v q g)"
  by (simp only: FindMob_def upd_world_nth, simp, simp only: mobs_at_def cell_upd_cell, simp)

lemma cell_mobs [simp]:
  "FindMob v j (upd_cell w p f g) = FindMob v j g"
  "mobs_at v q (upd_cell w p (AddMob i) g) =
     (if v = w \<and> q = p \<and> w < length (Worlds g) then insert i (mobs_at w p g) else mobs_at v q g)"
  "mobs_at v q (upd_cell w p (RemoveMob i) g) =
     (if v = w \<and> q = p \<and> w < length (Worlds g) then mobs_at w p g - {i} else mobs_at v q g)"
  "mobs_at v q (upd_cell w p (Cell_AddItem it) g) = mobs_at v q g"
  unfolding mob_upd_cell by (auto simp: mobs_at_def)

lemma mob_Intn [simp]: "Worlds (snd (Intn n g)) = Worlds g"
  by (simp add: Intn_def)

lemma mob_dropItem:
  "FindMob v j (snd (dropItem w item owner source x y e t f g)) = FindMob v j g \<and>
   mobs_at v q (snd (dropItem w item owner source x y e t f g)) = mobs_at v q g \<and>
   length (Worlds (snd (dropItem w item owner source x y e t f g))) = length (Worlds g)"
proof (cases "getWorldCell x y")
  case (Some p)
  have w: "Worlds (sendToNearbyCells pkt w p 2 (snd (Intn n g))) = Worlds g" for pkt n
    by (simp add: sendToNearbyCells_effect Intn_def)
  have c: "cell_of u r (sendToNearbyCells pkt w p 2 (snd (Intn n g))) = cell_of u r g" for u r pkt n
    by (simp add: cell_of_def w)
  show ?thesis
    by (simp add: dropItem_def Some Let_def split_beta w c same_worlds [OF w])
qed (simp add: dropItem_def)

lemma mob_drops [simp]:
  "FindMob v j (snd (DropMobItems w es m x y g)) = FindMob v j g \<and>
   mobs_at v q (snd (DropMobItems w es m x y g)) = mobs_at v q g \<and>
   length (Worlds (snd (DropMobItems w es m x y g))) = length (Worlds g)"
proof (induction es arbitrary: g)
  case (Cons e es)
  have "FindMob v j (snd (DropMobItem w it m x y h)) = FindMob v j h \<and> mobs_at v q (snd (DropMobItem w it m x y h)) = mobs_at v q h \<and>
      length (Worlds (snd (DropMobItem w it m x y h))) = length (Worlds h)" for it and h :: "'a Game"
    by (simp add: DropMobItem_def mob_dropItem)
  with Cons show ?case by (simp add: Let_def split_beta same_worlds [OF mob_Intn])
qed simp

section \<open>The invariant\<close>

definition healthy :: "int \<Rightarrow> Mob \<Rightarrow> bool" where
  "healthy i m \<longleftrightarrow> MobId m = i \<and> inside (mcell m) \<and>
     (if mdead m then MobCurrentHP m = 0 else MobCurrentHP m = MobMaxHP m \<or> 0 < MobCurrentHP m \<and> MobCurrentHP m \<le> MobMaxHP m)"

definition filed :: "nat \<Rightarrow> 'm Game \<Rightarrow> int \<Rightarrow> bool" where
  "filed w g i \<longleftrightarrow> (\<forall>p. inside p \<longrightarrow> (i \<in> mobs_at w p g \<longleftrightarrow>
     (\<exists>m. FindMob w i g = Some m \<and> \<not> mdead m \<and> mcell m = p)))"

definition mob_inv :: "nat \<Rightarrow> 'm Game \<Rightarrow> bool" where
  "mob_inv w g \<longleftrightarrow> w < length (Worlds g) \<and> (\<forall>i. filed w g i) \<and> (\<forall>i m. FindMob w i g = Some m \<longrightarrow> healthy i m)"

text \<open>An operation on one mob leaves the others alone.\<close>

definition touches :: "nat \<Rightarrow> int \<Rightarrow> 'm Game \<Rightarrow> 'm Game \<Rightarrow> bool" where
  "touches w i g h \<longleftrightarrow> length (Worlds h) = length (Worlds g) \<and>
     (\<forall>j. j \<noteq> i \<longrightarrow> FindMob w j h = FindMob w j g \<and> (\<forall>p. j \<in> mobs_at w p h \<longleftrightarrow> j \<in> mobs_at w p g))"

named_theorems touches_intro "operations on one mob"

lemma touches_refl [touches_intro]: "touches w i g g"
  by (simp add: touches_def)

lemma touches_steps [touches_intro]:
  "touches w i g h \<Longrightarrow> touches w i g (upd_mob w i f h)"
  "touches w i g h \<Longrightarrow> touches w i g (upd_cell w p (AddMob i) h)"
  "touches w i g h \<Longrightarrow> touches w i g (upd_cell w p (RemoveMob i) h)"
  "touches w i g h \<Longrightarrow> touches w i g (BroadcastPacket w p pkt h)"
  "touches w i g h \<Longrightarrow> touches w i g (snd (DropMobItems w es m x y h))"
  "touches w i g h \<Longrightarrow> touches w i g (snd (Intn n h))"
  by (simp_all add: touches_def same_worlds [OF mob_Intn])

lemma mob_step:
  assumes "mob_inv w g" "touches w i g h"
    and "\<And>m. FindMob w i h = Some m \<Longrightarrow> healthy i m" "filed w h i"
  shows "mob_inv w h"
proof -
  have "filed w h j" for j
    using assms unfolding mob_inv_def filed_def touches_def by (cases "j = i") auto
  moreover have "healthy j m" if "FindMob w j h = Some m" for j m
    using that assms unfolding mob_inv_def touches_def by (cases "j = i") auto
  ultimately show ?thesis using assms(1,2) by (simp add: mob_inv_def touches_def)
qed

text \<open>Changes of a mob that keep its health, its cell and whether it is alive.\<close>

lemma mob_update:
  fixes g h :: "'m Game"
  assumes "mob_inv w g" "Worlds h = Worlds (upd_mob w i f g)"
    and "\<And>m. MobId (f m) = MobId m \<and> mcell (f m) = mcell m \<and> mdead (f m) = mdead m \<and> MobCurrentHP (f m) = MobCurrentHP m \<and>
      MobMaxHP (f m) = MobMaxHP m"
  shows "mob_inv w h"
proof (rule mob_step [OF assms(1)])
  have w: "w < length (Worlds g)" using assms(1) by (simp add: mob_inv_def)
  note h = same_worlds [OF assms(2)]
  show "touches w i g h" unfolding touches_def h assms(2) by simp
  show "healthy i m" if found: "FindMob w i h = Some m" for m
  proof -
    obtain k where k: "FindMob w i g = Some k" "m = f k" using found w unfolding h by auto
    then have "healthy i k" using assms(1) by (simp add: mob_inv_def)
    then show ?thesis using assms(3) [of k] by (simp add: k(2) healthy_def)
  qed
  show "filed w h i"
    using assms(1,3) w unfolding h filed_def mob_inv_def by (cases "FindMob w i g") auto
qed

lemma mob_inv_cong: "mob_inv w (g :: 'm Game) \<Longrightarrow> Worlds h = Worlds g \<Longrightarrow> mob_inv w (h :: 'm Game)"
  by (simp add: mob_inv_def filed_def same_worlds [of h g])

section \<open>Every operation keeps it\<close>

lemma die_effect:
  assumes "w < length (Worlds g)" "FindMob w i g = Some m"
  shows "touches w i g (die d w i m' g)" "\<exists>t. FindMob w i (die d w i m' g) = Some (m\<lparr>mdead := True, respawnAt := t\<rparr>)"
    "mobs_at w p (die d w i m' g) = (if p = mcell m' then mobs_at w p g - {i} else mobs_at w p g)"
proof -
  show "touches w i g (die d w i m' g)" unfolding die_def Let_def by (intro touches_intro)
  show "\<exists>t. FindMob w i (die d w i m' g) = Some (m\<lparr>mdead := True, respawnAt := t\<rparr>)"
    using assms by (intro exI [of _ "if SpawnInterval m > 0 then now_ms g + SpawnInterval m else respawnAt m"])
      (simp add: die_def Let_def)
  show "mobs_at w p (die d w i m' g) = (if p = mcell m' then mobs_at w p g - {i} else mobs_at w p g)"
    using assms by (simp add: die_def Let_def)
qed

lemma SubHealth_inv:
  assumes inv: "mob_inv w g" and hit: "SubHealth d w i hp g = Some (died, h)"
  shows "mob_inv w h"
proof -
  have w: "w < length (Worlds g)" using inv by (simp add: mob_inv_def)
  obtain m where m: "FindMob w i g = Some m" using hit by (auto simp: SubHealth_def bind_eq_Some_conv)
  then have ok: "healthy i m" "filed w g i" using inv by (auto simp: mob_inv_def)
  show ?thesis
  proof (cases "hp \<le> 0 \<or> MobCurrentHP m \<le> 0")
    case True
    then show ?thesis using hit inv by (simp add: SubHealth_def m)
  next
    case False
    then have alive: "\<not> mdead m" using ok(1) by (auto simp: healthy_def)
    define left where "left = (if MobCurrentHP m - hp < 0 then 0 else MobCurrentHP m - hp)"
    define g1 where "g1 = upd_mob w i (\<lambda>m. m\<lparr>MobCurrentHP := left\<rparr>) g"
    have "SubHealth d w i hp g = Some (if left \<le> 0 then (True, die d w i m g1) else (False, g1))"
      using False by (simp add: SubHealth_def m left_def g1_def Let_def)
    then have h: "h = (if left \<le> 0 then die d w i m g1 else g1)" using hit by (simp split: if_split_asm)
    have g1: "FindMob w i g1 = Some (m\<lparr>MobCurrentHP := left\<rparr>)" "w < length (Worlds g1)" "touches w i g g1"
      using w by (simp_all add: g1_def m touches_intro)
    show ?thesis
    proof (rule mob_step [OF inv])
      show "touches w i g h"
        using g1(3) die_effect(1) [OF g1(2,1)] unfolding h touches_def by simp
      show "healthy i k" if "FindMob w i h = Some k" for k
        using that ok(1) alive False die_effect(2) [OF g1(2,1), of d m] unfolding h
        by (auto simp: g1(1) healthy_def left_def split: if_split_asm)
      have "\<not> left \<le> 0 \<longrightarrow> filed w h i" using ok(2) by (simp add: h filed_def g1(1) m) (simp add: g1_def)
      moreover have "left \<le> 0 \<longrightarrow> filed w h i"
        using ok(2) die_effect(2) [OF g1(2,1), of d m] die_effect(3) [OF g1(2,1)]
        by (auto simp: h filed_def m g1_def)
      ultimately show "filed w h i" by blast
    qed
  qed
qed

lemma respawn_inv:
  assumes inv: "mob_inv w g"
  shows "mob_inv w (respawn w i now g)"
proof (cases "FindMob w i g")
  case None
  then show ?thesis using inv by (simp add: respawn_def)
next
  case (Some m)
  then have ok: "healthy i m" "filed w g i" and w: "w < length (Worlds g)" using inv by (auto simp: mob_inv_def)
  show ?thesis
  proof (cases "\<not> mdead m \<or> respawnAt m = 0 \<or> now < respawnAt m \<or> getWorldCell (sint (SpawnX m)) (sint (SpawnY m)) = None")
    case True
    then show ?thesis using inv by (auto simp: respawn_def Some)
  next
    case False
    then obtain p where p: "getWorldCell (sint (SpawnX m)) (sint (SpawnY m)) = Some p" by auto
    define k where "k = m\<lparr>MobCurrentHP := MobMaxHP m, mdead := False, respawnAt := 0, mcell := p, mposition := spawn_position m,
        mstate := MobStateFind, findRemain := FindCount m, nextRun := now + FindInterval m\<rparr>"
    have h: "respawn w i now g = BroadcastPacket w p (NewMobsList [k]) (upd_cell w p (AddMob i) (upd_mob w i (\<lambda>_. k) g))"
      using False by (simp add: respawn_def Some p k_def Let_def)
    show ?thesis unfolding h
    proof (rule mob_step [OF inv])
      show "touches w i g (BroadcastPacket w p (NewMobsList [k]) (upd_cell w p (AddMob i) (upd_mob w i (\<lambda>_. k) g)))"
        by (intro touches_intro)
      show "healthy i k'" if "FindMob w i (BroadcastPacket w p (NewMobsList [k]) (upd_cell w p (AddMob i) (upd_mob w i (\<lambda>_. k) g))) = Some k'" for k'
        using that ok(1) w getWorldCell_inside [OF p] by (auto simp: Some healthy_def k_def)
      show "filed w (BroadcastPacket w p (NewMobsList [k]) (upd_cell w p (AddMob i) (upd_mob w i (\<lambda>_. k) g))) i"
        using ok(2) w False by (auto simp: filed_def Some k_def)
    qed
  qed
qed

lemma SetState_keeps:
  "MobId (SetState t st m) = MobId m \<and> mcell (SetState t st m) = mcell m \<and> mdead (SetState t st m) = mdead m \<and>
   MobCurrentHP (SetState t st m) = MobCurrentHP m \<and> MobMaxHP (SetState t st m) = MobMaxHP m"
  by (simp add: SetState_def Let_def)

lemma simple_updates:
  assumes "mob_inv w g"
  shows "mob_inv w (set_state w i st g)" "mob_inv w (set_position w i pos g)"
    "mob_inv w (upd_mob w i (\<lambda>m. m\<lparr>nextRun := t + MoveInterval m\<rparr>) g)" "mob_inv w (announce w i f g)"
    "mob_inv w (snd (Intn n g))"
  by (rule mob_update [OF assms refl SetState_keeps], rule mob_update [OF assms refl], simp,
      rule mob_update [OF assms refl], simp)
    (auto simp: announce_def assms mob_inv_cong [OF assms] split: option.split)

lemma handleFind_inv: "mob_inv w g \<Longrightarrow> mob_inv w (handleFind w i now g)"
  by (auto simp: handleFind_def simple_updates intro: mob_update split: option.split)

lemma adjustCell_inv:
  assumes inv: "mob_inv w g" and alive: "\<And>m. FindMob w i g = Some m \<Longrightarrow> \<not> mdead m"
  shows "mob_inv w (adjustCell w i pos g)"
proof (cases "FindMob w i g")
  case None
  then show ?thesis using inv by (simp add: adjustCell_def)
next
  case (Some m)
  then have ok: "healthy i m" "filed w g i" and w: "w < length (Worlds g)" using inv by (auto simp: mob_inv_def)
  show ?thesis
  proof (cases "getWorldCell (CurrentX pos) (CurrentY pos)")
    case None
    then show ?thesis using inv by (simp add: adjustCell_def split: option.split)
  next
    case cell: (Some p)
    show ?thesis
    proof (cases "p = mcell m")
      case True
      then show ?thesis using inv by (simp add: adjustCell_def cell Some)
    next
      case False
      define h where "h = upd_cell w p (AddMob i) (upd_mob w i (\<lambda>m. m\<lparr>mcell := p\<rparr>) (upd_cell w (mcell m) (RemoveMob i) g))"
      have h: "adjustCell w i pos g = h" using False by (simp add: adjustCell_def Some cell Let_def h_def)
      have find: "FindMob w i h = Some (m\<lparr>mcell := p\<rparr>)" using w by (simp add: h_def Some)
      show ?thesis unfolding h
      proof (rule mob_step [OF inv])
        show "touches w i g h" unfolding h_def by (intro touches_intro)
        show "healthy i k" if "FindMob w i h = Some k" for k
          using that ok(1) getWorldCell_inside [OF cell] by (auto simp: find healthy_def)
        show "filed w h i" using ok(2) w False alive [OF Some] unfolding filed_def find by (auto simp: h_def Some)
      qed
    qed
  qed
qed

lemma go_on_inv:
  assumes inv: "mob_inv w g" and alive: "\<And>m. FindMob w i g = Some m \<Longrightarrow> \<not> mdead m"
  shows "mob_inv w (go_on course w i pos g)"
proof -
  have w: "w < length (Worlds g)" using inv by (simp add: mob_inv_def)
  have moved: "mob_inv w (adjustCell w i p (set_position w i q g))" for p q
    by (rule adjustCell_inv [OF simple_updates(2) [OF inv]]) (use alive w in auto)
  show ?thesis
    by (auto simp: go_on_def Let_def intro!: simple_updates moved inv)
qed

lemma start_walk_inv:
  assumes "mob_inv w g"
  shows "ensures (mob_inv w) (start_walk astar w i m g)"
proof -
  have "mob_inv w (snd (findNewPath w pos g))" for pos
    using simple_updates(5) [OF simple_updates(5) [OF assms]] by (simp add: findNewPath_def Let_def split_beta)
  then have path: "findNewPath w pos g = (r, h) \<Longrightarrow> mob_inv w h" for pos r h by (metis snd_conv)
  show ?thesis unfolding start_walk_def Let_def ensures_def
    by (auto intro!: simple_updates dest: path split: prod.splits if_splits)
qed

lemma Mob_Update_inv:
  assumes inv: "mob_inv w g"
  shows "ensures (mob_inv w) (Mob_Update astar course w i g)"
proof -
  have w: "w < length (Worlds g)" using inv by (simp add: mob_inv_def)
  have "ensures (mob_inv w) (handleMove astar course w i now g)" if "FindMob w i g = Some m" "\<not> mdead m" for m now
    unfolding handleMove_def Let_def
    by (intro ensures_intro start_walk_inv go_on_inv simple_updates inv) (use that w in auto)
  then show ?thesis unfolding Mob_Update_def Let_def
    by (cases "FindMob w i g") (auto simp: inv respawn_inv handleFind_inv intro!: ensures_intro split: MobStateType.split)
qed

section \<open>From the start\<close>

lemma Merge_keeps [simp]: "MobId (Merge m t) = MobId m" "mcell (Merge m t) = mcell m"
  by (simp_all add: Merge_def Let_def)

lemma Mob_Initialize_healthy: "MobId m = i \<Longrightarrow> inside (mcell m) \<Longrightarrow> healthy i (Mob_Initialize t m)"
  "\<not> mdead (Mob_Initialize t m)" "mcell (Mob_Initialize t m) = mcell m" "MobId (Mob_Initialize t m) = MobId m"
  by (simp_all add: Mob_Initialize_def SetState_def Let_def healthy_def)

definition add_mob :: "nat \<Rightarrow> Mob \<Rightarrow> 'm Game \<Rightarrow> 'm Game" where
  "add_mob w m g = upd_cell w (mcell m) (AddMob (MobId m)) (upd_world w (\<lambda>v. v\<lparr>mobs := (mobs v)(MobId m \<mapsto> m)\<rparr>) g)"

lemma add_mob_find:
  "w < length (Worlds g) \<Longrightarrow> FindMob w j (add_mob w m g) = (if j = MobId m then Some m else FindMob w j g)"
  "w < length (Worlds g) \<Longrightarrow> mobs_at w p (add_mob w m g) = (if p = mcell m then insert (MobId m) (mobs_at w p g) else mobs_at w p g)"
  "length (Worlds (add_mob w m g)) = length (Worlds g)"
proof -
  have c: "cell_of v q (upd_world w (\<lambda>v. v\<lparr>mobs := f v\<rparr>) g) = cell_of v q g" for v q f
    by (simp add: cell_of_def upd_world_nth)
  show "w < length (Worlds g) \<Longrightarrow> FindMob w j (add_mob w m g) = (if j = MobId m then Some m else FindMob w j g)"
    by (simp add: add_mob_def) (simp add: FindMob_def upd_world_nth)
  show "w < length (Worlds g) \<Longrightarrow>
      mobs_at w p (add_mob w m g) = (if p = mcell m then insert (MobId m) (mobs_at w p g) else mobs_at w p g)"
    by (simp add: add_mob_def) (simp add: mobs_at_def c)
qed (simp add: add_mob_def)

lemma add_mob_inv:
  assumes "mob_inv w g" "FindMob w (MobId m) g = None" "healthy (MobId m) m" "\<not> mdead m"
  shows "mob_inv w (add_mob w m g)"
proof -
  have w: "w < length (Worlds g)" and f: "filed w g (MobId m)" using assms(1) by (auto simp: mob_inv_def)
  show ?thesis
  proof (rule mob_step [OF assms(1)])
    show "touches w (MobId m) g (add_mob w m g)" using w by (simp add: touches_def add_mob_find)
    show "healthy (MobId m) k" if "FindMob w (MobId m) (add_mob w m g) = Some k" for k
      using that assms(3) w by (simp add: add_mob_find)
    show "filed w (add_mob w m g) (MobId m)" using f w assms(2,4) by (auto simp: filed_def add_mob_find)
  qed
qed

lemma init_mobs_inv:
  "mob_inv w g \<Longrightarrow> (\<And>i. i > int k \<Longrightarrow> FindMob w i g = None) \<Longrightarrow> mob_inv w (init_mobs w ts k vs g)"
proof (induction vs arbitrary: k g)
  case (Cons v vs)
  show ?case
  proof (cases "getWorldCell (sint (SpawnX v)) (sint (SpawnY v))")
    case None
    then show ?thesis using Cons by simp
  next
    case (Some p)
    define m where "m = Mob_Initialize (now_ms g) (case GetMob ts (Species v) of
        None \<Rightarrow> v\<lparr>MobId := int k + 1, mcell := p\<rparr> | Some t \<Rightarrow> Merge (v\<lparr>MobId := int k + 1, mcell := p\<rparr>) t)"
    have m: "MobId m = int k + 1" "mcell m = p" "\<not> mdead m"
      by (cases "GetMob ts (Species v)"; simp add: m_def Mob_Initialize_healthy)+
    have ok: "healthy (MobId m) m" unfolding m(1) unfolding m_def
      by (rule Mob_Initialize_healthy(1)) (simp_all add: getWorldCell_inside [OF Some] split: option.split)
    have step: "init_mobs w ts k (v # vs) g = init_mobs w ts (k + 1) vs (add_mob w m g)"
      using m by (simp add: Some Let_def m_def [symmetric] add_mob_def)
    have w: "w < length (Worlds g)" using Cons.prems(1) by (simp add: mob_inv_def)
    show ?thesis unfolding step
    proof (rule Cons.IH)
      show "mob_inv w (add_mob w m g)" by (rule add_mob_inv [OF Cons.prems(1) _ ok]) (simp_all add: m Cons.prems(2))
      show "FindMob w i (add_mob w m g) = None" if "i > int (k + 1)" for i
        using that w Cons.prems(2) by (simp add: add_mob_find m)
    qed
  qed
qed simp

lemma initializeMobs_inv:
  assumes "w < length (Worlds g)" "\<And>p. Mobs (cell_of w p g) = []"
  shows "mob_inv w (initializeMobs w ts ms g)"
  unfolding initializeMobs_def
proof (rule init_mobs_inv)
  let ?g = "upd_world w (\<lambda>v. v\<lparr>mobs := Map.empty\<rparr>) g"
  have "FindMob w i ?g = None" for i using assms(1) by (simp add: FindMob_def upd_world_nth)
  moreover have "mobs_at w p ?g = {}" for p
    using assms(2) by (simp add: mobs_at_def cell_of_def upd_world_nth)
  ultimately show "mob_inv w ?g" "\<And>i. int 0 < i \<Longrightarrow> FindMob w i ?g = None"
    using assms(1) by (simp_all add: mob_inv_def filed_def)
qed

text \<open>What happens to the mobs of a world: one is hit, a timer tick comes to one, time passes.\<close>

datatype mob_event = Hit int int | Tick int | Wait nat

primrec mob_happen :: "drops \<Rightarrow> astar \<Rightarrow> course \<Rightarrow> nat \<Rightarrow> mob_event \<Rightarrow> 'm Game \<Rightarrow> 'm Game option" where
  "mob_happen d astar course w (Hit i hp) g =
     (if FindMob w i g = None then Some g else map_option snd (SubHealth d w i hp g))"
| "mob_happen d astar course w (Tick i) g = Mob_Update astar course w i g"
| "mob_happen d astar course w (Wait n) g = Some (g\<lparr>clock := clock g + int n\<rparr>)"

primrec mob_happens :: "drops \<Rightarrow> astar \<Rightarrow> course \<Rightarrow> nat \<Rightarrow> mob_event list \<Rightarrow> 'm Game \<Rightarrow> 'm Game option" where
  "mob_happens d astar course w [] g = Some g"
| "mob_happens d astar course w (e # es) g = Option.bind (mob_happen d astar course w e g) (mob_happens d astar course w es)"

lemma mob_happen_returns:
  assumes path: "\<And>v a b. snd (astar v a b) = 0 \<or> snd (astar v a b) < length (fst (astar v a b))" and inv: "mob_inv w g"
  shows "\<exists>h. mob_happen d astar course w e g = Some h \<and> mob_inv w h"
proof (cases e)
  case (Hit i hp)
  show ?thesis
  proof (cases "FindMob w i g")
    case None
    then show ?thesis using inv Hit by simp
  next
    case (Some m)
    then obtain died h where "SubHealth d w i hp g = Some (died, h)"
      by (cases "SubHealth d w i hp g") (auto simp: SubHealth_def Let_def split: if_split_asm)
    then show ?thesis using Hit Some SubHealth_inv [OF inv] by simp
  qed
next
  case (Tick i)
  have "start_walk astar w i m h \<noteq> None" for m and h :: "'a Game"
  proof -
    obtain found pos k where f: "findNewPath w (mposition m) h = ((found, pos), k)" by (metis surj_pair)
    obtain ps n where a: "astar (Worlds k ! w) (InitialX pos, InitialY pos) (FinalX pos, FinalY pos) = (ps, n)" by fastforce
    then have "n = 0 \<or> n < length ps" using path by (metis fst_conv snd_conv)
    then show ?thesis by (auto simp: start_walk_def f a Let_def)
  qed
  then have "Mob_Update astar course w i g \<noteq> None"
    by (auto simp: Mob_Update_def Let_def handleMove_def split: option.splits MobStateType.splits)
  then show ?thesis using Tick Mob_Update_inv [OF inv] by (auto simp: ensures_def)
next
  case (Wait n)
  then show ?thesis using mob_inv_cong [OF inv, of "g\<lparr>clock := clock g + int n\<rparr>"] by simp
qed


text \<open>A world with one rat, and a search that finds the straight line of one step.\<close>

definition rat :: Mob where
  "rat = \<lparr>MobId = 0, Species = 5, SpawnX = 20, SpawnY = 20, MoveSpeed = 0, FindCount = 1, FindInterval = 0, MoveInterval = 0,
     SpawnInterval = 10, MobLevel = 1, MobExperience = 7, MobMaxHP = 30, MobCurrentHP = 0,
     mposition = \<lparr>IsMoving = False, IsDeadReckoning = False, InitialX = 0, InitialY = 0, CurrentX = 0, CurrentY = 0,
       FinalX = 0, FinalY = 0, WayPoints = [], CurrentWayPoint = 0, MoveBegin = 0, Speed = 0\<rparr>,
     mstate = MobStateNone, findRemain = 0, nextRun = 0, mdead = False, respawnAt = 0, mcell = (0, 0)\<rparr>"


text \<open>
  C35: \<open>Update\<close> looks at whether the mob is alive before it moves it, and the walk does not look again. A mob that is
  killed in between and whose next step leaves its cell is filed in the new cell although it is dead, and stays
  there when it respawns elsewhere.
\<close>

theorem dead_mob_walks:
  assumes "mob_inv w g" "FindMob w i g = Some m" "SubHealth d w i hp g = Some (True, h)"
    and "CurrentX (mposition m) \<noteq> FinalX (mposition m)"
    and "pos = DeadReckoning course (now_ms h) (mposition m)" "getWorldCell (CurrentX pos) (CurrentY pos) = Some q" "q \<noteq> mcell m"
  shows "\<exists>k. FindMob w i (go_on course w i (mposition m) h) = Some k \<and> mdead k \<and>
     i \<in> mobs_at w q (go_on course w i (mposition m) h)"
proof -
  have w: "w < length (Worlds g)" using assms(1) by (simp add: mob_inv_def)
  define left where "left = (if MobCurrentHP m - hp < 0 then 0 else MobCurrentHP m - hp)"
  define g1 where "g1 = upd_mob w i (\<lambda>m. m\<lparr>MobCurrentHP := left\<rparr>) g"
  have h: "h = die d w i m g1"
    using assms(2,3) by (simp add: SubHealth_def left_def [symmetric] g1_def [symmetric] Let_def split: if_split_asm) (auto simp: g1_def left_def)
  have g1: "FindMob w i g1 = Some (m\<lparr>MobCurrentHP := left\<rparr>)" "w < length (Worlds g1)" using w assms(2) by (simp_all add: g1_def)
  obtain t where dead: "FindMob w i h = Some (m\<lparr>MobCurrentHP := left, mdead := True, respawnAt := t\<rparr>)"
    using die_effect(2) [OF g1(2,1), of d m] by (auto simp: h)
  have len: "w < length (Worlds h)" using die_effect(1) [OF g1(2,1), of d m] g1(2) by (simp add: h touches_def)
  define h1 where "h1 = adjustCell w i pos (set_position w i pos h)"
  have find: "FindMob w i h1 = Some (m\<lparr>MobCurrentHP := left, mdead := True, respawnAt := t, mposition := pos, mcell := q\<rparr>)"
    and at: "i \<in> mobs_at w q h1"
    using assms(6,7) len by (simp_all add: h1_def adjustCell_def dead Let_def)
  have go: "go_on course w i (mposition m) h =
      (if IsDeadReckoning pos then set_position w i pos h1
       else set_state w i MobStateFind (announce w i MobMoveEnd
         (set_position w i (pos\<lparr>InitialX := FinalX pos, InitialY := FinalY pos, IsMoving := False\<rparr>) h1)))"
    using assms(4) by (simp add: go_on_def Let_def assms(5) [symmetric] h1_def)
  have len1: "w < length (Worlds h1)" using len by (simp add: h1_def adjustCell_def dead assms(6) Let_def)
  show ?thesis unfolding go using find at len1 by (simp add: announce_def SetState_def Let_def)
qed

text \<open>The rat on its way to the next cell.\<close>

definition running_rat :: Mob where
  "running_rat = rat\<lparr>MobId := 1, MobCurrentHP := 30, mcell := (1, 1),
     mposition := \<lparr>IsMoving = True, IsDeadReckoning = True, InitialX = 30, InitialY = 20, CurrentX = 30, CurrentY = 20,
       FinalX = 33, FinalY = 20, WayPoints = [(30, 20), (33, 20)], CurrentWayPoint = 0, MoveBegin = 0, Speed = 0\<rparr>\<rparr>"

theorem dead_mob_walks_witness:
  "\<exists>h k. SubHealth (\<lambda>_. []) 0 1 50 (add_mob 0 running_rat meadow) = Some (True, h) \<and>
     FindMob 0 1 (go_on (\<lambda>_ _. Past) 0 1 (mposition running_rat) h) = Some k \<and> mdead k \<and>
     1 \<in> mobs_at 0 (2, 1) (go_on (\<lambda>_ _. Past) 0 1 (mposition running_rat) h)"
proof -
  let ?g = "add_mob 0 running_rat meadow"
  have w: "0 < length (Worlds meadow)" by (simp add: meadow_def)
  have "mob_inv 0 meadow"
    by (simp add: mob_inv_def filed_def FindMob_def mobs_at_def meadow_def cell_of_def empty_Cell_def)
  then have inv: "mob_inv 0 ?g"
    by (rule add_mob_inv) (simp_all add: FindMob_def meadow_def healthy_def running_rat_def rat_def inside_def)
  have m: "FindMob 0 1 ?g = Some running_rat" using w by (simp add: add_mob_find running_rat_def)
  obtain h where h: "SubHealth (\<lambda>_. []) 0 1 50 ?g = Some (True, h)"
    by (simp add: SubHealth_def m Let_def) (simp add: running_rat_def)
  have pos: "DeadReckoning (\<lambda>_ _. Past) t (mposition running_rat) =
      (mposition running_rat)\<lparr>CurrentWayPoint := 1, IsDeadReckoning := False, CurrentX := 33, CurrentY := 20\<rparr>" for t
    by (simp add: DeadReckoning_def reckon.simps running_rat_def Let_def)
  have q: "getWorldCell 33 20 = Some (2, 1)" by (simp add: getWorldCell_def isCellValid_def drop_bit4)
  from dead_mob_walks [OF inv m h _ pos [symmetric], of "(2, 1)"] q h show ?thesis
    by (simp add: running_rat_def)
qed

end
