(* ===== verification/Freya_Xml.thy ===== *)
theory Freya_Xml
  imports Freya_Prelude
begin

text \<open>
  Reading the client's data files (\<open>cmd/gameserver/clientdata\<close>): the tokens \<open>encoding/xml\<close> delivers, the loop
  every parser runs over them, the attributes of an element (\<open>skillbooks.go\<close>, \<open>skills.go\<close>, \<open>mastery.go\<close>, \<open>quests.go\<close>,
  \<open>rankup.go\<close>) and the functions of \<open>strconv\<close> and \<open>strings\<close> they use. A document is the list of its tokens;
  the decoder ends with a \<open>SyntaxError\<close> where it returns an error other than the end of the file. Error
  messages are kept without the values formatted into them. Attribute values are ASCII.
\<close>

section \<open>Errors as sums\<close>

definition attempt :: "'e + 'a \<Rightarrow> ('a \<Rightarrow> 'e + 'b) \<Rightarrow> 'e + 'b" where
  "attempt x f = (case x of Inl e \<Rightarrow> Inl e | Inr a \<Rightarrow> f a)"

definition refuse :: "bool \<Rightarrow> 'e \<Rightarrow> 'e + unit" where
  "refuse b e = (if b then Inl e else Inr ())"

primrec attempts :: "('a \<Rightarrow> 's \<Rightarrow> 'e + 's) \<Rightarrow> 'a list \<Rightarrow> 's \<Rightarrow> 'e + 's" where
  "attempts f [] s = Inr s"
| "attempts f (x # xs) s = attempt (f x s) (attempts f xs)"

lemma attempt_simps [simp]: "attempt (Inl e) f = Inl e" "attempt (Inr a) f = f a"
  by (simp_all add: attempt_def)

lemma attempt_Inr [simp]: "attempt x f = Inr b \<longleftrightarrow> (\<exists>a. x = Inr a \<and> f a = Inr b)"
  by (cases x) simp_all

lemma refuse_Inr [simp]: "refuse b e = Inr u \<longleftrightarrow> \<not> b"
  by (simp add: refuse_def)

lemma attempts_append: "attempts f (xs @ ys) s = attempt (attempts f xs s) (attempts f ys)"
  by (induction xs arbitrary: s) (auto simp: attempt_def split: sum.split)

lemma attempts_invariant:
  assumes "attempts f xs s = Inr s'" "P s" "\<And>x s s'. x \<in> set xs \<Longrightarrow> P s \<Longrightarrow> f x s = Inr s' \<Longrightarrow> P s'"
  shows "P s'"
  using assms by (induction xs arbitrary: s) auto

text \<open>What each element leaves behind, when the others do not undo it.\<close>

lemma attempts_each:
  assumes "attempts f xs s = Inr s'" "x \<in> set xs"
    and "\<And>s s'. f x s = Inr s' \<Longrightarrow> P x s'"
    and "\<And>y s s'. y \<in> set xs \<Longrightarrow> P x s \<Longrightarrow> f y s = Inr s' \<Longrightarrow> P x s'"
  shows "P x s'"
  using assms(1,2,4)
proof (induction xs arbitrary: s)
  case (Cons y ys)
  from Cons.prems(1) obtain t where t: "f y s = Inr t" "attempts f ys t = Inr s'" by auto
  show ?case
  proof (cases "x \<in> set ys")
    case True
    show ?thesis by (rule Cons.IH [OF t(2) True]) (use Cons.prems(3) in auto)
  next
    case False
    with Cons.prems(2) have "y = x" by simp
    with t(1) have "P x t" by (simp add: assms(3))
    with t(2) show ?thesis
      by (rule attempts_invariant) (use Cons.prems(3) in auto)
  qed
qed simp

section \<open>Numbers and strings\<close>

definition digit :: "char \<Rightarrow> nat option" where
  "digit c = (let n = of_char c in if 48 \<le> n \<and> n \<le> (57 :: nat) then Some (n - 48) else None)"

primrec digits :: "string \<Rightarrow> nat \<Rightarrow> nat option" where
  "digits [] n = Some n"
| "digits (c # cs) n = (case digit c of None \<Rightarrow> None | Some d \<Rightarrow> digits cs (10 * n + d))"

text \<open>\<open>strconv.ParseUint(s, 10, bits)\<close>, \<open>ParseInt(s, 10, bits)\<close> and \<open>Atoi(s)\<close>.\<close>

definition ParseUint :: "string \<Rightarrow> nat \<Rightarrow> nat option" where
  "ParseUint s bits =
     (if s = [] then None
      else case digits s 0 of None \<Rightarrow> None | Some n \<Rightarrow> if n < 2 ^ bits then Some n else None)"

definition ParseInt :: "string \<Rightarrow> nat \<Rightarrow> int option" where
  "ParseInt s bits =
     (let neg = (s \<noteq> [] \<and> hd s = CHR ''-'');
          s = (if s \<noteq> [] \<and> (hd s = CHR ''+'' \<or> hd s = CHR ''-'') then tl s else s) in
      if s = [] then None
      else case digits s 0 of
        None \<Rightarrow> None
      | Some n \<Rightarrow>
          if \<not> neg \<and> n < 2 ^ (bits - 1) then Some (int n)
          else if neg \<and> n \<le> 2 ^ (bits - 1) then Some (- int n)
          else None)"

abbreviation Atoi :: "string \<Rightarrow> int option" where
  "Atoi s \<equiv> ParseInt s 64"

text \<open>\<open>strings.TrimSpace\<close> on ASCII, and \<open>strings.Split\<close> with a separator of one byte.\<close>

definition is_space :: "char \<Rightarrow> bool" where
  "is_space c \<longleftrightarrow> (let n = of_char c :: nat in n = 32 \<or> 9 \<le> n \<and> n \<le> 13)"

definition TrimSpace :: "string \<Rightarrow> string" where
  "TrimSpace s = rev (dropWhile is_space (rev (dropWhile is_space s)))"

fun Split :: "string \<Rightarrow> char \<Rightarrow> string list" where
  "Split [] sep = [[]]"
| "Split (c # cs) sep =
     (if c = sep then [] # Split cs sep else (c # hd (Split cs sep)) # tl (Split cs sep))"

lemma Split_nonempty [simp]: "Split s sep \<noteq> []"
  by (induction s) auto

section \<open>Tokens\<close>

type_synonym attributes = "(string \<times> string) list"

datatype Token = StartElement string attributes | EndElement string | OtherToken | SyntaxError string

text \<open>The bytes from \<open><cabal>\<close> on, as tokens; \<open>None\<close> when the file has no such section.\<close>

type_synonym Document = "Token list option"

primrec scan :: "(Token \<Rightarrow> 's \<Rightarrow> string + 's) \<Rightarrow> Token list \<Rightarrow> 's \<Rightarrow> string + 's" where
  "scan f [] s = Inr s"
| "scan f (t # ts) s = (case t of SyntaxError e \<Rightarrow> Inl e | _ \<Rightarrow> attempt (f t s) (scan f ts))"

lemma scan_invariant:
  assumes "scan f ts s = Inr s'" "P s" "\<And>t s s'. P s \<Longrightarrow> f t s = Inr s' \<Longrightarrow> P s'"
  shows "P s'"
  using assms(1,2)
proof (induction ts arbitrary: s)
  case (Cons t ts)
  then obtain u where "f t s = Inr u" "scan f ts u = Inr s'" by (auto split: Token.splits)
  with Cons assms(3) show ?case by blast
qed simp

section \<open>Attributes\<close>

text \<open>The first attribute with a name counts.\<close>

definition uintAttribute :: "attributes \<Rightarrow> string \<Rightarrow> nat \<Rightarrow> string + nat" where
  "uintAttribute attrs name bits =
     (case map_of attrs name of
        None \<Rightarrow> Inl ''missing attribute''
      | Some v \<Rightarrow> (case ParseUint v bits of None \<Rightarrow> Inl ''invalid attribute'' | Some n \<Rightarrow> Inr n))"

definition intAttribute :: "attributes \<Rightarrow> string \<Rightarrow> nat \<Rightarrow> string + int" where
  "intAttribute attrs name bits =
     (case map_of attrs name of
        None \<Rightarrow> Inl ''missing attribute''
      | Some v \<Rightarrow> (case ParseInt v bits of None \<Rightarrow> Inl ''invalid attribute'' | Some n \<Rightarrow> Inr n))"

definition stringAttribute :: "attributes \<Rightarrow> string \<Rightarrow> string + string" where
  "stringAttribute attrs name =
     (case map_of attrs name of None \<Rightarrow> Inl ''element has no attribute'' | Some v \<Rightarrow> Inr v)"

text \<open>A value that is absent or empty is \<open>None\<close>.\<close>

definition optionalUintAttribute :: "attributes \<Rightarrow> string \<Rightarrow> nat \<Rightarrow> string + nat option" where
  "optionalUintAttribute attrs name bits =
     (case map_of attrs name of
        None \<Rightarrow> Inr None
      | Some v \<Rightarrow> (if v = [] then Inr None
          else case ParseUint v bits of None \<Rightarrow> Inl ''invalid attribute'' | Some n \<Rightarrow> Inr (Some n)))"

definition optionalQuestIntAttribute :: "attributes \<Rightarrow> string \<Rightarrow> string + int option" where
  "optionalQuestIntAttribute attrs name =
     (case map_of attrs name of
        None \<Rightarrow> Inr None
      | Some v \<Rightarrow> (if v = [] then Inr None
          else case ParseInt v 32 of None \<Rightarrow> Inl ''invalid attribute'' | Some n \<Rightarrow> Inr (Some n)))"

definition questAttribute :: "attributes \<Rightarrow> string \<Rightarrow> string option" where
  "questAttribute attrs name = map_of attrs name"

text \<open>Attributes with a value that is no number are passed over here.\<close>

primrec optionalIntAttribute :: "attributes \<Rightarrow> string \<Rightarrow> int" where
  "optionalIntAttribute [] name = 0"
| "optionalIntAttribute (a # as) name =
     (if fst a \<noteq> name \<or> snd a = [] then optionalIntAttribute as name
      else case ParseInt (snd a) 64 of Some n \<Rightarrow> n | None \<Rightarrow> optionalIntAttribute as name)"

section \<open>Laws\<close>

lemma ParseUint_bound: "ParseUint s bits = Some n \<Longrightarrow> n < 2 ^ bits"
  by (auto simp: ParseUint_def split: if_splits option.splits)

lemma uintAttribute_bound [dest]: "uintAttribute attrs name bits = Inr n \<Longrightarrow> n < 2 ^ bits"
  by (auto simp: uintAttribute_def dest: ParseUint_bound split: option.splits)

lemma optionalUintAttribute_bound [dest]: "optionalUintAttribute attrs name bits = Inr (Some n) \<Longrightarrow> n < 2 ^ bits"
  by (auto simp: optionalUintAttribute_def dest: ParseUint_bound split: option.splits if_splits)

end
