(* ===== verification/Freya_Levels.thy ===== *)
theory Freya_Levels
  imports Freya_Xml
begin

text \<open>
  The tables that levels and skill ranks come from (\<open>clientdata/levels.go\<close>, \<open>clientdata/rankup.go\<close>): how they
  are read and looked up, and what a table that was accepted guarantees.
\<close>

section \<open>Character levels (levels.go)\<close>

record CharacterLevel =
  lvLevel :: uint16
  RequiredExp :: uint64
  AccumulatedExp :: uint64

type_synonym level_table = "uint16 \<rightharpoonup> CharacterLevel"

text \<open>The loop has no bound of its own, so it is a partial function, \<open>None\<close> when it does not return.\<close>

partial_function (option) level_loop :: "level_table \<Rightarrow> uint64 \<Rightarrow> uint16 \<Rightarrow> uint16 option" where
  "level_loop levels experience currentLevel =
     (case levels currentLevel of
        None \<Rightarrow> Some currentLevel
      | Some entry \<Rightarrow>
          if experience < AccumulatedExp entry then Some currentLevel
          else let nextLevel = currentLevel + 1 in
            case levels nextLevel of None \<Rightarrow> Some currentLevel | Some _ \<Rightarrow> level_loop levels experience nextLevel)"

definition LevelForExperience :: "level_table \<Rightarrow> uint16 \<Rightarrow> uint64 \<Rightarrow> uint16 option" where
  "LevelForExperience levels currentLevel experience =
     level_loop levels experience (if currentLevel = 0 then 1 else currentLevel)"

definition parseCharacterLevel :: "attributes \<Rightarrow> level_table \<Rightarrow> string + level_table" where
  "parseCharacterLevel attrs loaded =
     attempt (uintAttribute attrs ''level'' 16) (\<lambda>level.
     attempt (uintAttribute attrs ''exp'' 64) (\<lambda>required.
     attempt (uintAttribute attrs ''accuexp'' 64) (\<lambda>accumulated.
     attempt (refuse (level = 0 \<or> accumulated < required) ''invalid level_up entry'') (\<lambda>_.
     let key = word_of_nat level in
     attempt (refuse (loaded key \<noteq> None) ''duplicate level_up entry'') (\<lambda>_.
     Inr (loaded(key \<mapsto> \<lparr>lvLevel = key, RequiredExp = word_of_nat required,
       AccumulatedExp = word_of_nat accumulated\<rparr>)))))))"

definition level_step :: "Token \<Rightarrow> level_table \<times> bool \<Rightarrow> string + level_table \<times> bool" where
  "level_step t s = (case s of (loaded, inLevelUp) \<Rightarrow>
     (case t of
        StartElement name attrs \<Rightarrow>
          if name = ''level_up'' then Inr (loaded, True)
          else if name = ''con'' \<and> inLevelUp
            then attempt (parseCharacterLevel attrs loaded) (\<lambda>loaded. Inr (loaded, inLevelUp))
          else Inr s
      | EndElement name \<Rightarrow> Inr (if name = ''level_up'' then (loaded, False) else s)
      | _ \<Rightarrow> Inr s))"

definition parseCharacterLevels :: "Document \<Rightarrow> string + level_table" where
  "parseCharacterLevels cabalData =
     (case cabalData of
        None \<Rightarrow> Inl ''cabal.dec does not contain a cabal XML section''
      | Some tokens \<Rightarrow>
          attempt (scan level_step tokens (Map.empty, False)) (\<lambda>(loaded, _).
          attempt (refuse (loaded = Map.empty) ''cabal.dec does not contain a level_up table'') (\<lambda>_. Inr loaded)))"

section \<open>Skill ranks (rankup.go)\<close>

abbreviation (input) maxSkillRank :: byte where "maxSkillRank \<equiv> 10"

record SkillRankProgress =
  SwordExpForPoint :: uint16
  MagicExpForPoint :: uint16
  SwordRankPoints :: uint16
  MagicRankPoints :: uint16

record SkillRankBonus =
  bonusSTR :: uint32
  bonusDEX :: uint32
  bonusINT :: uint32

record SkillRankLimit =
  limitRank :: byte
  CharacterLevel :: uint16
  BattleStyleLevel :: byte

datatype SkillRankLimitType =
  SkillRankLimitNone | SkillRankLimitCharacterLevel | SkillRankLimitBattleStyleLevel

text \<open>Progress is kept under style and rank, a bonus under rank and type of skill, a limit under the battle style level.\<close>

type_synonym progress_table = "byte \<times> byte \<rightharpoonup> SkillRankProgress"
type_synonym bonus_table = "byte \<times> byte \<rightharpoonup> SkillRankBonus"
type_synonym limit_table = "byte \<rightharpoonup> SkillRankLimit"

definition skillRankClassNames :: "(byte \<times> string) list" where
  "skillRankClassNames = [(1, ''twohand''), (2, ''dual''), (3, ''magic''), (4, ''magic_arrow''),
     (5, ''sword_shield''), (6, ''magic_sword'')]"

definition FindSkillRankProgress :: "progress_table \<Rightarrow> byte \<Rightarrow> byte \<Rightarrow> byte \<Rightarrow> SkillRankProgress option" where
  "FindSkillRankProgress table style rank skillType =
     (if style < 1 \<or> 6 < style \<or> rank < 1 \<or> maxSkillRank < rank \<or> skillType \<noteq> 1 \<and> skillType \<noteq> 2 then None
      else table (style, rank))"

definition SkillRankLimitFor :: "limit_table \<Rightarrow> uint16 \<Rightarrow> byte \<Rightarrow> byte \<times> SkillRankLimitType" where
  "SkillRankLimitFor limits level battleStyleLevel =
     (case limits battleStyleLevel of
        None \<Rightarrow> (maxSkillRank, SkillRankLimitBattleStyleLevel)
      | Some limit \<Rightarrow>
          if (ucast level :: uint32) < ucast (CharacterLevel limit) + 10
          then (limitRank limit, SkillRankLimitCharacterLevel)
          else (limitRank limit, SkillRankLimitBattleStyleLevel))"

definition MaxSkillRankForLevel :: "limit_table \<Rightarrow> uint16 \<Rightarrow> byte \<Rightarrow> byte" where
  "MaxSkillRankForLevel limits level battleStyleLevel = fst (SkillRankLimitFor limits level battleStyleLevel)"

definition FindSkillRankBonus :: "bonus_table \<Rightarrow> byte \<Rightarrow> byte \<Rightarrow> SkillRankBonus option" where
  "FindSkillRankBonus bonuses rank skillType =
     (if rank < 1 \<or> maxSkillRank \<le> rank \<or> skillType \<noteq> 1 \<and> skillType \<noteq> 2 then None else bonuses (rank, skillType))"

definition styleForSkillClass :: "string \<Rightarrow> byte" where
  "styleForSkillClass className =
     (if className = ''2hand'' then 1
      else case List.find (\<lambda>(_, name). name = className) skillRankClassNames of Some (style, _) \<Rightarrow> style | None \<Rightarrow> 0)"

text \<open>The conditions of a rank: the points it takes, for each style.\<close>

record rankConditionValues =
  condSword :: "byte \<Rightarrow> uint16"
  condMagic :: "byte \<Rightarrow> uint16"

definition zero_condition :: rankConditionValues where
  "zero_condition = \<lparr>condSword = (\<lambda>_. 0), condMagic = (\<lambda>_. 0)\<rparr>"

record rank_parser =
  conditions :: "uint16 \<rightharpoonup> rankConditionValues"
  rprogress :: progress_table
  rbonuses :: bonus_table
  inRankupCondition :: bool
  conditionRank :: uint16
  inExpForPoint :: bool
  expForPointRank :: uint16
  inRankBonus :: bool
  bonusRank :: uint16

definition zero_progress :: SkillRankProgress where
  "zero_progress = \<lparr>SwordExpForPoint = 0, MagicExpForPoint = 0, SwordRankPoints = 0, MagicRankPoints = 0\<rparr>"

definition rankup_condition :: "attributes \<Rightarrow> rank_parser \<Rightarrow> string + rank_parser" where
  "rankup_condition attrs s =
     attempt (uintAttribute attrs ''type'' 8) (\<lambda>conditionType.
     attempt (refuse (conditionType \<noteq> 0 \<and> conditionType \<noteq> 1) ''invalid rankup condition type'') (\<lambda>_.
     let values = (case conditions s (conditionRank s) of Some v \<Rightarrow> v | None \<Rightarrow> zero_condition) in
     attempt (attempts (\<lambda>(style, className) values.
         attempt (uintAttribute attrs className 16) (\<lambda>value.
         Inr (if conditionType = 0
              then values\<lparr>condSword := (condSword values)(style := word_of_nat value)\<rparr>
              else values\<lparr>condMagic := (condMagic values)(style := word_of_nat value)\<rparr>)))
       skillRankClassNames values) (\<lambda>values.
     Inr (s\<lparr>conditions := (conditions s)(conditionRank s \<mapsto> values)\<rparr>))))"

definition point_condition :: "attributes \<Rightarrow> rank_parser \<Rightarrow> string + rank_parser" where
  "point_condition attrs s =
     attempt (stringAttribute attrs ''class'') (\<lambda>className.
     let style = styleForSkillClass className in
     attempt (refuse (style = 0) ''unknown skill rank class'') (\<lambda>_.
     attempt (uintAttribute attrs ''sword'' 16) (\<lambda>sword.
     attempt (uintAttribute attrs ''magic'' 16) (\<lambda>magic.
     let k = (style, ucast (expForPointRank s));
         current = (case rprogress s k of Some p \<Rightarrow> p | None \<Rightarrow> zero_progress);
         current = current\<lparr>SwordExpForPoint := word_of_nat sword, MagicExpForPoint := word_of_nat magic\<rparr> in
     Inr (s\<lparr>rprogress := (rprogress s)(k \<mapsto> current)\<rparr>)))))"

definition bonus_condition :: "attributes \<Rightarrow> rank_parser \<Rightarrow> string + rank_parser" where
  "bonus_condition attrs s =
     attempt (uintAttribute attrs ''type'' 8) (\<lambda>bonusType.
     attempt (refuse (bonusType \<noteq> 0 \<and> bonusType \<noteq> 1) ''invalid rank bonus type'') (\<lambda>_.
     let bonus = \<lparr>bonusSTR = word_of_int (optionalIntAttribute attrs ''str''),
           bonusDEX = word_of_int (optionalIntAttribute attrs ''dex''),
           bonusINT = word_of_int (optionalIntAttribute attrs ''int'')\<rparr> in
     Inr (s\<lparr>rbonuses := (rbonuses s)((ucast (bonusRank s), word_of_nat (bonusType + 1)) \<mapsto> bonus)\<rparr>)))"

definition rank_step :: "Token \<Rightarrow> rank_parser \<Rightarrow> string + rank_parser" where
  "rank_step t s =
     (case t of
        StartElement name attrs \<Rightarrow>
          if name = ''rankup_condition'' then
            attempt (uintAttribute attrs ''rank'' 16) (\<lambda>rank.
            Inr (s\<lparr>conditionRank := word_of_nat rank, inRankupCondition := True\<rparr>))
          else if name = ''exp_for_point'' then
            attempt (uintAttribute attrs ''rank'' 16) (\<lambda>rank.
            Inr (s\<lparr>expForPointRank := word_of_nat rank, inExpForPoint := True\<rparr>))
          else if name = ''rank_bonus'' then
            attempt (uintAttribute attrs ''readyrank'' 16) (\<lambda>rank.
            attempt (refuse (unat maxSkillRank \<le> rank) ''invalid rank bonus rank'') (\<lambda>_.
            Inr (s\<lparr>bonusRank := word_of_nat rank + 1, inRankBonus := True\<rparr>)))
          else if name = ''condition'' then
            if inRankupCondition s then rankup_condition attrs s
            else if inExpForPoint s then point_condition attrs s
            else if inRankBonus s then bonus_condition attrs s
            else Inr s
          else Inr s
      | EndElement name \<Rightarrow>
          Inr (if name = ''rankup_condition'' then s\<lparr>inRankupCondition := False\<rparr>
               else if name = ''exp_for_point'' then s\<lparr>inExpForPoint := False\<rparr>
               else if name = ''rank_bonus'' then s\<lparr>inRankBonus := False\<rparr>
               else s)
      | _ \<Rightarrow> Inr s)"

text \<open>The check of every rank and style at the end, which also fills in the points of a rank.\<close>

definition rank_style_check :: "byte \<Rightarrow> rankConditionValues \<Rightarrow> byte \<Rightarrow> progress_table \<Rightarrow> string + progress_table" where
  "rank_style_check rank values style progress =
     attempt (case progress (style, rank) of None \<Rightarrow> Inl ''cabal.dec has no exp_for_point'' | Some c \<Rightarrow> Inr c) (\<lambda>current.
     attempt (refuse (SwordExpForPoint current = 0 \<or> MagicExpForPoint current = 0)
       ''cabal.dec has no exp_for_point'') (\<lambda>_.
     let current = current\<lparr>SwordRankPoints := condSword values style, MagicRankPoints := condMagic values style\<rparr> in
     attempt (refuse (SwordRankPoints current = 0 \<or> MagicRankPoints current = 0)
       ''cabal.dec has no rankup condition'') (\<lambda>_.
     Inr (progress((style, rank) \<mapsto> current)))))"

definition rank_check :: "(uint16 \<rightharpoonup> rankConditionValues) \<Rightarrow> byte \<Rightarrow> progress_table \<Rightarrow> string + progress_table" where
  "rank_check conds rank progress =
     (case conds (ucast rank) of
        None \<Rightarrow> Inl ''cabal.dec has no rankup condition''
      | Some values \<Rightarrow> attempts (rank_style_check rank values) [1, 2, 3, 4, 5, 6] progress)"

definition parseSkillRankData :: "Document \<Rightarrow> string + progress_table \<times> bonus_table" where
  "parseSkillRankData cabalData =
     (case cabalData of
        None \<Rightarrow> Inl ''cabal.dec does not contain a cabal XML section''
      | Some tokens \<Rightarrow>
          attempt (scan rank_step tokens \<lparr>conditions = Map.empty, rprogress = Map.empty, rbonuses = Map.empty,
            inRankupCondition = False, conditionRank = 0, inExpForPoint = False, expForPointRank = 0,
            inRankBonus = False, bonusRank = 0\<rparr>) (\<lambda>s.
          attempt (attempts (rank_check (conditions s)) [1, 2, 3, 4, 5, 6, 7, 8, 9, 10] (rprogress s)) (\<lambda>progress.
          Inr (progress, rbonuses s))))"

definition parseSkillRankLimit :: "attributes \<Rightarrow> limit_table \<Rightarrow> string + limit_table" where
  "parseSkillRankLimit attrs limits =
     attempt (uintAttribute attrs ''rank'' 8) (\<lambda>rank.
     attempt (refuse (rank < 1 \<or> unat maxSkillRank < rank) ''invalid skill rank limit'') (\<lambda>_.
     attempt (uintAttribute attrs ''level'' 16) (\<lambda>characterLevel.
     attempt (uintAttribute attrs ''bs_lv'' 8) (\<lambda>battleStyleLevel.
     attempt (refuse (battleStyleLevel = 0) ''invalid skill rank limit battle-style level'') (\<lambda>_.
     let k = word_of_nat battleStyleLevel in
     attempt (refuse (limits k \<noteq> None) ''duplicate skill rank limit battle-style level'') (\<lambda>_.
     Inr (limits(k \<mapsto> \<lparr>limitRank = word_of_nat rank, CharacterLevel = word_of_nat characterLevel,
       BattleStyleLevel = k\<rparr>))))))))"

definition limit_step :: "Token \<Rightarrow> limit_table \<times> bool \<Rightarrow> string + limit_table \<times> bool" where
  "limit_step t s = (case s of (limits, inRankLimit) \<Rightarrow>
     (case t of
        StartElement name attrs \<Rightarrow>
          if name = ''rank_limit'' then Inr (limits, True)
          else if name = ''limit'' \<and> inRankLimit
            then attempt (parseSkillRankLimit attrs limits) (\<lambda>limits. Inr (limits, inRankLimit))
          else Inr s
      | EndElement name \<Rightarrow> Inr (if name = ''rank_limit'' then (limits, False) else s)
      | _ \<Rightarrow> Inr s))"

definition parseSkillRankLimitData :: "Document \<Rightarrow> string + limit_table" where
  "parseSkillRankLimitData cabalData =
     (case cabalData of
        None \<Rightarrow> Inl ''cabal.dec does not contain a cabal XML section''
      | Some tokens \<Rightarrow>
          attempt (scan limit_step tokens (Map.empty, False)) (\<lambda>(limits, _).
          attempt (refuse (limits = Map.empty) ''cabal.dec does not contain skill rank limits'') (\<lambda>_. Inr limits)))"

section \<open>What a table guarantees\<close>

lemma word_of_nat_zero_iff: "n < 2 ^ LENGTH('a) \<Longrightarrow> (word_of_nat n :: 'a::len word) = 0 \<longleftrightarrow> n = 0"
  by (auto simp: word_unat_eq_iff unat_word_of_nat simp del: unsigned_of_nat)

text \<open>No table has an entry for level 0, so the search for a level cannot wrap around.\<close>

lemma parseCharacterLevel_0:
  assumes "parseCharacterLevel attrs loaded = Inr loaded'" "loaded 0 = None"
  shows "loaded' 0 = None"
proof -
  have "level \<noteq> 0 \<Longrightarrow> uintAttribute attrs ''level'' 16 = Inr level \<Longrightarrow> word_of_nat level \<noteq> (0 :: uint16)" for level
    by (frule uintAttribute_bound) (simp add: word_of_nat_zero_iff del: word_of_nat_eq_0_iff)
  with assms show ?thesis by (auto simp: parseCharacterLevel_def Let_def)
qed

lemma parseCharacterLevels_0:
  assumes "parseCharacterLevels doc = Inr levels"
  shows "levels 0 = None"
proof -
  obtain tokens b where "scan level_step tokens (Map.empty, False) = Inr (levels, b)"
    using assms by (auto simp: parseCharacterLevels_def split: option.splits)
  from scan_invariant [OF this, of "\<lambda>(l, _). l 0 = None"] show ?thesis
    by (fastforce simp: level_step_def dest: parseCharacterLevel_0 split: Token.splits if_splits prod.splits)
qed

lemma level_loop_search:
  assumes "levels 0 = None"
  shows "\<exists>l \<ge> currentLevel. level_loop levels experience currentLevel = Some l \<and>
     (\<forall>k. currentLevel \<le> k \<and> k < l \<longrightarrow> (\<exists>e. levels k = Some e \<and> AccumulatedExp e \<le> experience)) \<and>
     (levels l = None \<or> levels (l + 1) = None \<or> (\<exists>e. levels l = Some e \<and> experience < AccumulatedExp e))"
proof (induction "65536 - unat currentLevel" arbitrary: currentLevel rule: less_induct)
  case less
  consider (stop) "level_loop levels experience currentLevel = Some currentLevel"
      "levels currentLevel = None \<or> levels (currentLevel + 1) = None \<or>
       (\<exists>e. levels currentLevel = Some e \<and> experience < AccumulatedExp e)"
    | (step) e where "levels currentLevel = Some e" "AccumulatedExp e \<le> experience" "levels (currentLevel + 1) \<noteq> None"
    by (cases "levels currentLevel"; cases "levels (currentLevel + 1)";
        cases "experience < AccumulatedExp (the (levels currentLevel))")
      (auto simp: not_less level_loop.simps [of levels experience currentLevel])
  then show ?case
  proof cases
    case stop
    then show ?thesis by (intro exI [of _ currentLevel]) auto
  next
    case step
    then have "currentLevel \<noteq> - 1" using assms by auto
    then have up: "unat (currentLevel + 1) = unat currentLevel + 1" by (rule unat_plus_one)
    have "unat currentLevel < 65536" using unsigned_less [of currentLevel] by simp
    then have "65536 - unat (currentLevel + 1) < 65536 - unat currentLevel" using up by simp
    from less [OF this] obtain l where l: "currentLevel + 1 \<le> l" "level_loop levels experience (currentLevel + 1) = Some l"
      "\<forall>k. currentLevel + 1 \<le> k \<and> k < l \<longrightarrow> (\<exists>e. levels k = Some e \<and> AccumulatedExp e \<le> experience)"
      "levels l = None \<or> levels (l + 1) = None \<or> (\<exists>e. levels l = Some e \<and> experience < AccumulatedExp e)"
      by blast
    have "level_loop levels experience currentLevel = Some l"
      using step l(2) by (subst level_loop.simps) (auto simp: not_less Let_def)
    moreover have "k = currentLevel \<or> currentLevel + 1 \<le> k" if "currentLevel \<le> k" for k
      using that up by (auto simp: word_le_nat_alt word_unat_eq_iff)
    moreover have "currentLevel \<le> l" using l(1) up by (simp add: word_le_nat_alt)
    ultimately show ?thesis using step l(3,4) by (intro exI [of _ l]) auto
  qed
qed

text \<open>An accepted table has thresholds above zero for every style and rank.\<close>

definition complete_progress :: "progress_table \<Rightarrow> bool" where
  "complete_progress table \<longleftrightarrow> (\<forall>style rank. 1 \<le> style \<and> style \<le> 6 \<and> 1 \<le> rank \<and> rank \<le> maxSkillRank \<longrightarrow>
     (\<exists>p. table (style, rank) = Some p \<and> SwordExpForPoint p \<noteq> 0 \<and> MagicExpForPoint p \<noteq> 0 \<and>
       SwordRankPoints p \<noteq> 0 \<and> MagicRankPoints p \<noteq> 0))"

abbreviation thresholds :: "byte \<times> byte \<Rightarrow> progress_table \<Rightarrow> bool" where
  "thresholds k table \<equiv> (\<exists>p. table k = Some p \<and> SwordExpForPoint p \<noteq> 0 \<and> MagicExpForPoint p \<noteq> 0 \<and>
       SwordRankPoints p \<noteq> 0 \<and> MagicRankPoints p \<noteq> 0)"

lemma rank_style_check_thresholds:
  assumes "rank_style_check rank values style progress = Inr progress'"
  shows "thresholds (style, rank) progress'" "thresholds k progress \<Longrightarrow> thresholds k progress'"
  using assms by (auto simp: rank_style_check_def Let_def split: option.splits)

lemma rank_check_thresholds:
  assumes "rank_check conds rank progress = Inr progress'"
  shows "style \<in> {1, 2, 3, 4, 5, 6} \<Longrightarrow> thresholds (style, rank) progress'"
    and "thresholds k progress \<Longrightarrow> thresholds k progress'"
proof -
  obtain vs where v: "attempts (rank_style_check rank vs) [1, 2, 3, 4, 5, 6] progress = Inr progress'"
    using assms by (auto simp: rank_check_def split: option.splits)
  show "thresholds (style, rank) progress'" if "style \<in> {1, 2, 3, 4, 5, 6}"
    by (rule attempts_each [OF v, of style "\<lambda>style. thresholds (style, rank)"])
      (use that in \<open>auto dest: rank_style_check_thresholds\<close>)
  show "thresholds k progress'" if "thresholds k progress"
    by (rule attempts_invariant [OF v]) (use that in \<open>auto dest: rank_style_check_thresholds(2)\<close>)
qed

lemma byte_range:
  fixes b :: byte
  shows "1 \<le> b \<Longrightarrow> b \<le> 6 \<Longrightarrow> b \<in> {1, 2, 3, 4, 5, 6}"
    and "1 \<le> b \<Longrightarrow> b \<le> 10 \<Longrightarrow> b \<in> {1, 2, 3, 4, 5, 6, 7, 8, 9, 10}"
proof -
  have "unat b \<in> {1, 2, 3, 4, 5, 6}" if "1 \<le> b" "b \<le> 6"
    using that by (simp add: word_le_nat_alt) presburger
  then show "1 \<le> b \<Longrightarrow> b \<le> 6 \<Longrightarrow> b \<in> {1, 2, 3, 4, 5, 6}" by (simp add: word_unat_eq_iff)
  have "unat b \<in> {1, 2, 3, 4, 5, 6, 7, 8, 9, 10}" if "1 \<le> b" "b \<le> 10"
    using that by (simp add: word_le_nat_alt) presburger
  then show "1 \<le> b \<Longrightarrow> b \<le> 10 \<Longrightarrow> b \<in> {1, 2, 3, 4, 5, 6, 7, 8, 9, 10}" by (simp add: word_unat_eq_iff)
qed

lemma parseSkillRankData_complete:
  assumes "parseSkillRankData doc = Inr (progress, bonuses)"
  shows "complete_progress progress"
proof -
  obtain conds progress0 where c: "attempts (rank_check conds) [1, 2, 3, 4, 5, 6, 7, 8, 9, 10] progress0 = Inr progress"
    using assms by (auto simp: parseSkillRankData_def split: option.splits simp del: attempts.simps)
  show ?thesis unfolding complete_progress_def
  proof (intro allI impI)
    fix style rank :: byte
    assume "1 \<le> style \<and> style \<le> 6 \<and> 1 \<le> rank \<and> rank \<le> 10"
    then have style: "style \<in> {1, 2, 3, 4, 5, 6}" and rank: "rank \<in> set [1, 2, 3, 4, 5, 6, 7, 8, 9, 10]"
      using byte_range(1) [of style] byte_range(2) [of rank] by simp_all
    show "thresholds (style, rank) progress"
    proof (rule attempts_each [OF c rank, of "\<lambda>rank. thresholds (style, rank)"])
      fix t t'
      assume "rank_check conds rank t = Inr t'"
      then show "thresholds (style, rank) t'" by (rule rank_check_thresholds(1) [OF _ style])
    next
      fix y t t'
      assume "thresholds (style, rank) t" "rank_check conds y t = Inr t'"
      then show "thresholds (style, rank) t'" by (rule rank_check_thresholds(2) [rotated])
    qed
  qed
qed

text \<open>The limits of an accepted table are ranks.\<close>

lemma parseSkillRankLimitData_ranks:
  assumes "parseSkillRankLimitData doc = Inr limits"
  shows "fst (SkillRankLimitFor limits level style) \<le> 10"
proof -
  have rank: "rank < 256 \<Longrightarrow> rank \<le> 10 \<Longrightarrow> (word_of_nat rank :: byte) \<le> 10" for rank
    by (simp add: word_le_nat_alt unat_word_of_nat del: unsigned_of_nat)
  obtain tokens b where s: "scan limit_step tokens (Map.empty, False) = Inr (limits, b)"
    using assms by (auto simp: parseSkillRankLimitData_def split: option.splits)
  have "\<forall>k l. limits k = Some l \<longrightarrow> limitRank l \<le> 10"
  proof (rule scan_invariant [OF s, of "\<lambda>(ls, _). \<forall>k l. ls k = Some l \<longrightarrow> limitRank l \<le> 10", unfolded split_conv])
    fix t and u u' :: "limit_table \<times> bool"
    assume u: "case u of (ls, _) \<Rightarrow> \<forall>k l. ls k = Some l \<longrightarrow> limitRank l \<le> 10" "limit_step t u = Inr u'"
    have "\<forall>k l. ls' k = Some l \<longrightarrow> limitRank l \<le> 10"
      if "parseSkillRankLimit attrs ls = Inr ls'" "\<forall>k l. ls k = Some l \<longrightarrow> limitRank l \<le> 10" for attrs ls ls'
      using that by (auto simp: parseSkillRankLimit_def Let_def not_less dest!: uintAttribute_bound intro!: rank split: if_splits)
    with u show "case u' of (ls, _) \<Rightarrow> \<forall>k l. ls k = Some l \<longrightarrow> limitRank l \<le> 10"
      by (fastforce simp: limit_step_def split: Token.splits if_splits prod.splits)
  qed simp
  then show ?thesis by (auto simp: SkillRankLimitFor_def split: option.splits)
qed

section \<open>A level is always found\<close>

text \<open>
  C38: With a table that the parser of \<open>cabal.dec\<close> accepted, the search for the level of some experience
  returns for every level and every amount, although its loop has no bound: it never goes down, it passes
  a level only when the experience reaches its threshold, and it stops only where the table ends or the
  threshold is not reached.
\<close>

theorem LevelForExperience_returns:
  assumes "parseCharacterLevels doc = Inr levels"
  shows "\<exists>l. LevelForExperience levels currentLevel experience = Some l \<and> currentLevel \<le> l \<and> 1 \<le> l \<and>
     (\<forall>k. currentLevel \<le> k \<and> 1 \<le> k \<and> k < l \<longrightarrow> (\<exists>e. levels k = Some e \<and> AccumulatedExp e \<le> experience)) \<and>
     (levels l = None \<or> levels (l + 1) = None \<or> (\<exists>e. levels l = Some e \<and> experience < AccumulatedExp e))"
proof -
  let ?start = "if currentLevel = 0 then 1 else currentLevel"
  have "1 \<le> k \<longleftrightarrow> k \<noteq> 0" for k :: uint16 by (simp add: word_le_nat_alt unat_gt_0 [symmetric] Suc_le_eq)
  with level_loop_search [where levels = levels, OF parseCharacterLevels_0 [OF assms], of ?start experience] show ?thesis
    unfolding LevelForExperience_def by (auto split: if_splits)
qed

definition sample_levels :: Document where
  "sample_levels = Some [StartElement ''level_up'' [],
     StartElement ''con'' [(''level'', ''1''), (''exp'', ''100''), (''accuexp'', ''100'')],
     StartElement ''con'' [(''level'', ''2''), (''exp'', ''200''), (''accuexp'', ''300'')],
     EndElement ''level_up'']"

lemma sample_levels_parsed:
  "parseCharacterLevels sample_levels = Inr [1 \<mapsto> \<lparr>lvLevel = 1, RequiredExp = 100, AccumulatedExp = 100\<rparr>,
     2 \<mapsto> \<lparr>lvLevel = 2, RequiredExp = 200, AccumulatedExp = 300\<rparr>]"
  by (simp add: parseCharacterLevels_def sample_levels_def level_step_def parseCharacterLevel_def uintAttribute_def
      ParseUint_def digit_def refuse_def)

theorem LevelForExperience_returns_witness:
  "\<exists>levels. parseCharacterLevels sample_levels = Inr levels \<and>
     (\<exists>l. LevelForExperience levels 1 150 = Some l \<and> 1 \<le> l \<and>
       (\<forall>k. 1 \<le> k \<and> k < l \<longrightarrow> (\<exists>e. levels k = Some e \<and> AccumulatedExp e \<le> 150)))"
  using LevelForExperience_returns [OF sample_levels_parsed, of 1 150] sample_levels_parsed by blast

end
