(* ===== verification/Freya_Growth.thy ===== *)
theory Freya_Growth
  imports Freya_World Freya_Levels Freya_Master_Values
begin

text \<open>
  How a character grows (\<open>packet/skill.go\<close>, \<open>packet/stat.go\<close>, \<open>packet/hp.go\<close>, \<open>packet/spirit.go\<close>): experience and
  levels, skill experience and ranks, stat points, vitals, and the packets that report them. The tables are
  those of \<open>Freya_Levels\<close>; a function that looks up a level returns \<open>None\<close> should the search not end.
\<close>

record Tables =
  characterLevels :: level_table
  skillRankProgressData :: progress_table
  skillRankBonusData :: bonus_table
  skillRankLimitData :: limit_table

section \<open>Packets (hp.go, skill.go, stat.go)\<close>

definition sendUpdatedData :: "uint16 \<Rightarrow> byte \<Rightarrow> uint64 \<Rightarrow> 'm Game \<Rightarrow> 'm Game" where
  "sendUpdatedData s updateType v = send s (287, [FByte updateType, FUint16 0, FUint32 0, FUint64 v])"

definition sendManaUpdate :: "uint16 \<Rightarrow> uint16 \<Rightarrow> 'm Game \<Rightarrow> 'm Game" where
  "sendManaUpdate s currentMP g = notifyPartyMemberStats s (sendUpdatedData s 4 (ucast currentMP) g)"

definition sendManaPotionUpdate :: "uint16 \<Rightarrow> uint16 \<Rightarrow> 'm Game \<Rightarrow> 'm Game" where
  "sendManaPotionUpdate s currentMP g = notifyPartyMemberStats s (sendUpdatedData s 2 (ucast currentMP) g)"

definition sendSpiritUpdate :: "uint16 \<Rightarrow> uint16 \<Rightarrow> 'm Game \<Rightarrow> 'm Game" where
  "sendSpiritUpdate s currentSP g = notifyPartyMemberStats s (sendUpdatedData s 5 (ucast currentSP) g)"

definition sendHealthUpdate :: "uint16 \<Rightarrow> uint16 \<Rightarrow> 'm Game \<Rightarrow> 'm Game" where
  "sendHealthUpdate s currentHP g = notifyPartyMemberStats s
     (send s (287, [FByte 3, FUint16 0, FUint32 0, FUint16 0, FUint16 currentHP, FUint32 0]) g)"

definition sendLastErrorCode :: "uint16 \<Rightarrow> uint16 \<Rightarrow> uint16 \<Rightarrow> uint16 \<Rightarrow> 'm Game \<Rightarrow> 'm Game" where
  "sendLastErrorCode s requestCommand requestSubCommand errorCode =
     send s (7, [FUint16 requestCommand, FUint16 requestSubCommand, FUint16 errorCode, FUint16 0])"

definition sendExperienceUpdate :: "uint16 \<Rightarrow> uint64 \<Rightarrow> 'm Game \<Rightarrow> 'm Game" where
  "sendExperienceUpdate s experience = sendUpdatedData s 8 experience"

definition sendLevelUpdate :: "uint16 \<Rightarrow> uint16 \<Rightarrow> 'm Game \<Rightarrow> 'm Game" where
  "sendLevelUpdate s level = sendUpdatedData s 10 (ucast level)"

definition sendSkillRankUpdate :: "uint16 \<Rightarrow> byte \<Rightarrow> byte \<Rightarrow> 'm Game \<Rightarrow> 'm Game" where
  "sendSkillRankUpdate s skillType rank = send s (287, [FByte 9, FUint16 0, FUint32 0, FUint16 (ucast skillType),
     FUint16 (ucast rank), FUint32 0])"

definition limit_code :: "SkillRankLimitType \<Rightarrow> int32" where
  "limit_code t = (case t of SkillRankLimitNone \<Rightarrow> 0 | SkillRankLimitCharacterLevel \<Rightarrow> 1 | SkillRankLimitBattleStyleLevel \<Rightarrow> 2)"

definition sendSkillRankLimitHook :: "uint16 \<Rightarrow> byte \<Rightarrow> SkillRankLimitType \<Rightarrow> 'm Game \<Rightarrow> 'm Game" where
  "sendSkillRankLimitHook s rank limitType = send s (982, [FInt32 (ucast rank), FInt32 (limit_code limitType)])"

definition sendClassRankUpdate :: "uint16 \<Rightarrow> byte \<Rightarrow> 'm Game \<Rightarrow> 'm Game" where
  "sendClassRankUpdate s rank = send s (276, [FByte rank])"

text \<open>The events are broadcast in the world of the character; without a world the call panics.\<close>

definition send_event :: "byte \<Rightarrow> uint16 \<Rightarrow> int32 \<Rightarrow> 'm Game \<Rightarrow> 'm Game option" where
  "send_event event s characterID g =
     (case Parse s g of
        None \<Rightarrow> Some g
      | Some ctx \<Rightarrow> do { w \<leftarrow> ctxWorld ctx; Some (BroadcastSessionPacket w s (288, [FByte event, FInt32 characterID]) g) })"

abbreviation "sendLevelUpEvent \<equiv> send_event 1"
abbreviation "sendClassRankUpEvent \<equiv> send_event 2"

section \<open>Vitals (hp.go, spirit.go)\<close>

definition saveCharacterVitals :: "'m Character \<Rightarrow> 'm Game \<Rightarrow> bool \<times> 'm Game" where
  "saveCharacterVitals c g =
     (let req = \<lparr>vServer = ServerId g, vCharacter = CharId c, vCurrentHP = CurrentHP c, vMaxHP = MaxHP c,
            vCurrentMP = CurrentMP c, vMaxMP = MaxMP c, vCurrentSP = CurrentSP c, vMaxSP = MaxSP c\<rparr>;
          (res, m) = call_vitals (g_RPCHandler g) req (remote g); g = g\<lparr>remote := m\<rparr> in
      (case res of Inl _ \<Rightarrow> (False, g) | Inr ok \<Rightarrow> (ok, g)))"

definition saveContextVitals :: "uint16 \<Rightarrow> 'm Game \<Rightarrow> bool \<times> 'm Game" where
  "saveContextVitals s g =
     (case Option.bind (Parse s g) cChar of None \<Rightarrow> (False, g) | Some snapshot \<Rightarrow> saveCharacterVitals snapshot g)"

abbreviation (input) spiritPointsPerSuccessfulHit :: uint32 where "spiritPointsPerSuccessfulHit \<equiv> 1000"

definition ctx_addSpiritPoints :: "uint16 \<Rightarrow> uint32 \<Rightarrow> 'm Game \<Rightarrow> bool \<times> 'm Game" where
  "ctx_addSpiritPoints s successfulHits g =
     (if successfulHits = 0 then (False, g)
      else case Option.bind (Parse s g) cChar of
        None \<Rightarrow> (False, g)
      | Some c \<Rightarrow>
          let (changed, c) = AddSpiritPoints (successfulHits * spiritPointsPerSuccessfulHit) c in
          (changed, upd s (on_char (\<lambda>_. c)) g))"

section \<open>Experience (skill.go)\<close>

abbreviation (input) characterExperienceMultiplier :: uint64 where "characterExperienceMultiplier \<equiv> 30"
abbreviation (input) statPointsPerLevel :: uint32 where "statPointsPerLevel \<equiv> 5"

text \<open>Health, mana and spirit filled up to maxima computed anew.\<close>

definition refill :: "'m Character \<Rightarrow> 'm Character" where
  "refill c = (let c = c\<lparr>CurrentHP := MaxHP c\<rparr>; c = snd (RecalculateHP c); c = c\<lparr>CurrentHP := MaxHP c\<rparr>;
     c = c\<lparr>CurrentMP := MaxMP c\<rparr>; c = snd (RecalculateMP c) in c\<lparr>CurrentMP := MaxMP c\<rparr>)"

text \<open>The character after the experience is added, and the request that saves it.\<close>

definition gain_request :: "byte \<Rightarrow> uint64 \<Rightarrow> uint16 \<Rightarrow> uint32 \<Rightarrow> 'm Character \<Rightarrow> 'm Character \<times> ExperienceReq" where
  "gain_request server currentExperience currentLevel statPoints c =
     (let currentClassRank = ClassRankForLevel currentLevel;
          classRankChanged = (currentClassRank \<noteq> MasteryLevel (CharStyle c));
          levelUp = (cLevel c < currentLevel);
          updated = c\<lparr>cLevel := currentLevel, CharStyle := (CharStyle c)\<lparr>MasteryLevel := currentClassRank\<rparr>\<rparr>;
          updated = (if levelUp \<or> classRankChanged then snd (RecalculateSP (refill updated)) else updated);
          req = \<lparr>xServer = server, xCharacter = CharId c, ExpectedExp = CharExp c, ExpectedLevel = cLevel c,
            xExp = currentExperience, xLevel = currentLevel, StatPoints = statPoints,
            xCurrentHP = 0, xMaxHP = 0, xCurrentMP = 0, xMaxMP = 0, xCurrentSP = 0, xMaxSP = 0\<rparr>;
          req = (if levelUp \<or> classRankChanged
                 then req\<lparr>xCurrentHP := CurrentHP updated, xMaxHP := MaxHP updated, xCurrentMP := CurrentMP updated,
                   xMaxMP := MaxMP updated, xCurrentSP := CurrentSP updated, xMaxSP := MaxSP updated\<rparr>
                 else req)
      in (updated\<lparr>CharExp := currentExperience, CharPNT := CharPNT c + statPoints\<rparr>, req))"

text \<open>Previous level, level, whether the experience was added and whether the class rank rose.\<close>

type_synonym gain = "uint16 \<times> uint16 \<times> bool \<times> bool"

definition no_gain :: gain where
  "no_gain = (0, 0, False, False)"

definition addExperience :: "Tables \<Rightarrow> uint16 \<Rightarrow> uint64 \<Rightarrow> 'm Game \<Rightarrow> (gain \<times> 'm Game) option" where
  "addExperience d s gained g =
     (if gained = 0 then Some (no_gain, g)
      else
        let gained = (if - 1 div characterExperienceMultiplier < gained then - 1 else gained * characterExperienceMultiplier) in
        case Option.bind (Parse s g) cChar of
          None \<Rightarrow> Some (no_gain, g)
        | Some c \<Rightarrow>
            if - 1 - CharExp c < gained then Some (no_gain, g)
            else do {
              let currentExperience = CharExp c + gained;
              currentLevel \<leftarrow> LevelForExperience (characterLevels d) (cLevel c) currentExperience;
              let levelsGained = (ucast (currentLevel - cLevel c) :: uint32);
              let statPoints = levelsGained * statPointsPerLevel;
              if - 1 div statPointsPerLevel < levelsGained \<or> - 1 - CharPNT c < statPoints then Some (no_gain, g)
              else
                let (updated, req) = gain_request (ServerId g) currentExperience currentLevel statPoints c;
                    (res, m) = call_experience (g_RPCHandler g) req (remote g); g = g\<lparr>remote := m\<rparr> in
                if res = Inr True
                then Some ((cLevel c, currentLevel, True, MasteryLevel (CharStyle c) < ClassRankForLevel currentLevel),
                           upd s (on_char (\<lambda>_. updated)) g)
                else Some (no_gain, g) })"

section \<open>Skill experience (skill.go)\<close>

abbreviation (input) skillExperienceMultiplier :: uint32 where "skillExperienceMultiplier \<equiv> 30"

record skillExperienceResult =
  Applied :: uint16
  SwordRankUp :: bool
  MagicRankUp :: bool
  resSwordRank :: byte
  resMagicRank :: byte
  resCurrentHP :: uint16
  resCurrentMP :: uint16
  RankLimitReached :: bool
  RankLimitRank :: byte
  RankLimitType :: SkillRankLimitType

definition no_skill_gain :: skillExperienceResult where
  "no_skill_gain = \<lparr>Applied = 0, SwordRankUp = False, MagicRankUp = False, resSwordRank = 0, resMagicRank = 0,
     resCurrentHP = 0, resCurrentMP = 0, RankLimitReached = False, RankLimitRank = 0, RankLimitType = SkillRankLimitNone\<rparr>"

definition skillRankExpForPoint :: "SkillRankProgress \<Rightarrow> byte \<Rightarrow> uint16" where
  "skillRankExpForPoint p skillType = (if skillType = 1 then SwordExpForPoint p else MagicExpForPoint p)"

definition skillRankPointsForRank :: "SkillRankProgress \<Rightarrow> byte \<Rightarrow> uint16" where
  "skillRankPointsForRank p skillType = (if skillType = 1 then SwordRankPoints p else MagicRankPoints p)"

text \<open>The variables of the loop.\<close>

record rank_state =
  totalExp :: uint32
  acceptedExp :: uint32
  currentPoint :: uint16
  currentRankExp :: uint16
  currentRank :: byte
  rkSTR :: uint32
  rkDEX :: uint32
  rkINT :: uint32
  rankUp :: bool
  limitReached :: bool

text \<open>One skill point for the experience it takes.\<close>

definition gain_point :: "uint16 \<Rightarrow> rank_state \<Rightarrow> rank_state" where
  "gain_point requiredExp s = s\<lparr>totalExp := totalExp s - ucast requiredExp,
     currentPoint := (if currentPoint s < - 1 then currentPoint s + 1 else currentPoint s),
     currentRankExp := (if currentRankExp s < - 1 then currentRankExp s + 1 else currentRankExp s)\<rparr>"

definition at_limit :: "uint16 \<Rightarrow> rank_state \<Rightarrow> rank_state" where
  "at_limit requiredExp s = s\<lparr>
     currentPoint := (if currentPoint s > 0 then currentPoint s - 1 else currentPoint s),
     currentRankExp := (if currentRankExp s > 0 then currentRankExp s - 1 else currentRankExp s),
     totalExp := ucast requiredExp, acceptedExp := 0, limitReached := True\<rparr>"

definition promote :: "SkillRankBonus option \<Rightarrow> rank_state \<Rightarrow> rank_state" where
  "promote bonus s =
     (let s = (case bonus of
                 None \<Rightarrow> s
               | Some b \<Rightarrow> s\<lparr>rkSTR := rkSTR s + bonusSTR b, rkDEX := rkDEX s + bonusDEX b, rkINT := rkINT s + bonusINT b\<rparr>)
      in s\<lparr>currentRank := currentRank s + 1, currentRankExp := 0, rankUp := True\<rparr>)"

lemma gain_point_less:
  assumes "requiredExp \<noteq> 0" "ucast requiredExp \<le> totalExp s"
  shows "unat (totalExp (gain_point requiredExp s)) = unat (totalExp s) - unat requiredExp"
    and "unat (totalExp (gain_point requiredExp s)) < unat (totalExp s)"
proof -
  have "unat (ucast requiredExp :: uint32) = unat requiredExp" by (simp add: unat_up)
  then show eq: "unat (totalExp (gain_point requiredExp s)) = unat (totalExp s) - unat requiredExp"
    using assms(2) by (simp add: gain_point_def unat_sub)
  have "0 < unat requiredExp" "unat requiredExp \<le> unat (totalExp s)"
    using assms by (simp_all add: unat_gt_0 word_le_nat_alt unat_up)
  with eq show "unat (totalExp (gain_point requiredExp s)) < unat (totalExp s)" by simp
qed

lemma promote_totalExp [simp]: "totalExp (promote b s) = totalExp s"
  by (simp add: promote_def Let_def split: option.split)

text \<open>Every turn takes away at least one unit of experience, so the loop ends whatever the tables hold.\<close>

function rank_loop :: "Tables \<Rightarrow> byte \<Rightarrow> byte \<Rightarrow> byte \<Rightarrow> rank_state \<Rightarrow> rank_state" where
  "rank_loop d style skillType allowedRank s =
     (case FindSkillRankProgress (skillRankProgressData d) style (currentRank s) skillType of
        None \<Rightarrow> s
      | Some p \<Rightarrow>
          let requiredExp = skillRankExpForPoint p skillType; requiredRankPoints = skillRankPointsForRank p skillType in
          if requiredExp = 0 \<or> totalExp s < ucast requiredExp then s
          else
            let s = gain_point requiredExp s in
            if currentRankExp s < requiredRankPoints then rank_loop d style skillType allowedRank s
            else if 10 \<le> currentRank s then s\<lparr>acceptedExp := acceptedExp s - totalExp s, totalExp := 0\<rparr>
            else if allowedRank \<le> currentRank s then at_limit requiredExp s
            else rank_loop d style skillType allowedRank
                   (promote (FindSkillRankBonus (skillRankBonusData d) (currentRank s) skillType) s))"
  by pat_completeness auto

termination
  by (relation "measure (\<lambda>(d, style, ty, allowed, s). unat (totalExp s))")
    (auto simp: not_less intro!: gain_point_less(2))

declare rank_loop.simps [simp del]

section \<open>Saving skill experience (skill.go)\<close>

definition char_progress :: "'m Character \<Rightarrow> SkillProgress" where
  "char_progress c = \<lparr>pgSwordRank = SwordRank c, pgMagicRank = MagicRank c, pgSwordExp = SwordExp c,
     pgMagicExp = MagicExp c, pgSwordPoint = SwordPoint c, pgMagicPoint = MagicPoint c,
     pgSwordRankExp = SwordRankExp c, pgMagicRankExp = MagicRankExp c, pgSTR = CharSTR c, pgDEX = CharDEX c,
     pgINT = CharINT c, pgCurrentHP = CurrentHP c, pgMaxHP = MaxHP c, pgCurrentMP = CurrentMP c, pgMaxMP = MaxMP c\<rparr>"

definition set_char_progress :: "'m Character \<Rightarrow> 'm Character \<Rightarrow> 'm Character" where
  "set_char_progress u c = c\<lparr>SwordRank := SwordRank u, MagicRank := MagicRank u, SwordExp := SwordExp u,
     MagicExp := MagicExp u, SwordPoint := SwordPoint u, MagicPoint := MagicPoint u,
     SwordRankExp := SwordRankExp u, MagicRankExp := MagicRankExp u, CharSTR := CharSTR u, CharDEX := CharDEX u,
     CharINT := CharINT u, CurrentHP := CurrentHP u, MaxHP := MaxHP u, CurrentMP := CurrentMP u, MaxMP := MaxMP u\<rparr>"

definition uint16_cap :: "uint32 \<Rightarrow> uint16" where
  "uint16_cap x = (if 65535 < x then 65535 else ucast x)"

text \<open>The loop's variables before it starts, and the character once it is done.\<close>

definition rank_start :: "byte \<Rightarrow> uint32 \<Rightarrow> 'm Character \<Rightarrow> rank_state" where
  "rank_start skillType gained c =
     (let rank = (if skillType = 2 then MagicRank c else SwordRank c) in
      \<lparr>totalExp = ucast (if skillType = 2 then MagicExp c else SwordExp c) + gained, acceptedExp = gained,
       currentPoint = (if skillType = 2 then MagicPoint c else SwordPoint c),
       currentRankExp = (if skillType = 2 then MagicRankExp c else SwordRankExp c),
       currentRank = (if rank = 0 then 1 else rank),
       rkSTR = CharSTR c, rkDEX = CharDEX c, rkINT = CharINT c, rankUp = False, limitReached = False\<rparr>)"

definition rank_finish :: "byte \<Rightarrow> rank_state \<Rightarrow> 'm Character \<Rightarrow> 'm Character" where
  "rank_finish skillType s c =
     (let u = c\<lparr>CharSTR := rkSTR s, CharDEX := rkDEX s, CharINT := rkINT s\<rparr>;
          u = (if skillType = 1
               then u\<lparr>SwordExp := uint16_cap (totalExp s), SwordPoint := currentPoint s, SwordRankExp := currentRankExp s,
                 SwordRank := currentRank s\<rparr>
               else u\<lparr>MagicExp := uint16_cap (totalExp s), MagicPoint := currentPoint s, MagicRankExp := currentRankExp s,
                 MagicRank := currentRank s\<rparr>)
      in if rankUp s then refill u else u)"

text \<open>
  The loop's outcome, the character it leads to and the limit that applies; \<open>None\<close> when the function
  returns before it calls the master server.
\<close>

definition skill_gain ::
    "Tables \<Rightarrow> byte \<Rightarrow> uint32 \<Rightarrow> 'm Character \<Rightarrow> (rank_state \<times> 'm Character \<times> byte \<times> SkillRankLimitType) option" where
  "skill_gain d skillType gained c =
     (let start = rank_start skillType gained c; style = BattleStyle (CharStyle c);
          (allowedRank, rankLimitType) = SkillRankLimitFor (skillRankLimitData d) (cLevel c) (MasteryLevel (CharStyle c)) in
      if allowedRank < currentRank start then None
      else case FindSkillRankProgress (skillRankProgressData d) style (currentRank start) skillType of
        None \<Rightarrow> None
      | Some p \<Rightarrow>
          if skillRankExpForPoint p skillType = 0 \<or>
             10 \<le> currentRank start \<and> skillRankPointsForRank p skillType \<le> currentRankExp start
          then None
          else let end = rank_loop d style skillType allowedRank start in
            Some (end, rank_finish skillType end c, allowedRank, rankLimitType))"

definition addSkillExperienceForType ::
    "Tables \<Rightarrow> uint16 \<Rightarrow> byte \<Rightarrow> uint32 \<Rightarrow> 'm Game \<Rightarrow> skillExperienceResult \<times> 'm Game" where
  "addSkillExperienceForType d s skillType gained g =
     (if gained = 0 \<or> skillType \<noteq> 1 \<and> skillType \<noteq> 2 then (no_skill_gain, g)
      else case Option.bind (Parse s g) cChar of
        None \<Rightarrow> (no_skill_gain, g)
      | Some c \<Rightarrow>
          (case skill_gain d skillType gained c of
             None \<Rightarrow> (no_skill_gain, g)
           | Some (end, updated, allowedRank, rankLimitType) \<Rightarrow>
               let req = \<lparr>seServer = ServerId g, seCharacter = CharId c, Expected = char_progress c,
                     New = char_progress updated\<rparr>;
                   (res, m) = call_skill_experience (g_RPCHandler g) req (remote g); g = g\<lparr>remote := m\<rparr> in
               if res = Inr True
               then (\<lparr>Applied = uint16_cap (acceptedExp end), SwordRankUp = (rankUp end \<and> skillType = 1),
                      MagicRankUp = (rankUp end \<and> skillType \<noteq> 1), resSwordRank = SwordRank updated,
                      resMagicRank = MagicRank updated, resCurrentHP = CurrentHP updated, resCurrentMP = CurrentMP updated,
                      RankLimitReached = limitReached end, RankLimitRank = (if limitReached end then allowedRank else 0),
                      RankLimitType = (if limitReached end then rankLimitType else SkillRankLimitNone)\<rparr>,
                     upd s (on_char (set_char_progress updated)) g)
               else (no_skill_gain, g)))"

definition addSkillExperience :: "Tables \<Rightarrow> uint16 \<Rightarrow> byte \<Rightarrow> uint32 \<Rightarrow> 'm Game \<Rightarrow> skillExperienceResult \<times> 'm Game" where
  "addSkillExperience d s skillType gained g =
     (if skillType \<noteq> 1 \<and> skillType \<noteq> 2 then (no_skill_gain, g)
      else
        let (sword, g) = addSkillExperienceForType d s 1 gained g;
            (magic, g) = addSkillExperienceForType d s 2 gained g in
        (\<lparr>Applied = (if Applied sword < Applied magic then Applied magic else Applied sword),
          SwordRankUp = SwordRankUp sword, MagicRankUp = MagicRankUp magic,
          resSwordRank = (if resSwordRank magic = 0 then resSwordRank sword else resSwordRank magic),
          resMagicRank = (if resMagicRank magic = 0 then resMagicRank sword else resMagicRank magic),
          resCurrentHP = (if resCurrentHP magic = 0 then resCurrentHP sword else resCurrentHP magic),
          resCurrentMP = (if resCurrentMP magic = 0 then resCurrentMP sword else resCurrentMP magic),
          RankLimitReached = (RankLimitReached sword \<or> RankLimitReached magic),
          RankLimitRank = (if RankLimitReached sword \<or> RankLimitReached magic then RankLimitRank magic else RankLimitRank sword),
          RankLimitType = (if RankLimitReached sword \<or> RankLimitReached magic then RankLimitType magic else RankLimitType sword)\<rparr>,
         g))"

section \<open>Stat points (stat.go)\<close>

definition decodeStat :: "byte \<Rightarrow> byte option" where
  "decodeStat raw = (if raw = 2 then Some 0 else if raw = 3 then Some 1 else if raw = 4 then Some 2 else None)"

definition sendUseStatBonsResult :: "uint16 \<Rightarrow> bool \<Rightarrow> 'm Game \<Rightarrow> 'm Game" where
  "sendUseStatBonsResult s result = send s (250, [FByte (of_bool result)])"

definition sendStatDistributionResult :: "uint16 \<Rightarrow> int32 \<Rightarrow> int32 \<Rightarrow> int32 \<Rightarrow> 'm Game \<Rightarrow> 'm Game" where
  "sendStatDistributionResult s statSTR statDEX statINT = send s (255, [FInt32 statSTR, FInt32 statDEX, FInt32 statINT])"

text \<open>The stats the master server reports become those of the character.\<close>

definition take_stats :: "StatResponse \<Rightarrow> 'm Character \<Rightarrow> 'm Character" where
  "take_stats res c = c\<lparr>CharSTR := srSTR res, CharDEX := srDEX res, CharINT := srINT res, CharPNT := srPNT res\<rparr>"

definition UseStatBons :: "uint16 \<Rightarrow> Reader \<Rightarrow> 'm Game \<Rightarrow> 'm Game option" where
  "UseStatBons s r g = do {
     (rawStat, r) \<leftarrow> ReadByte r;
     Some (case decodeStat rawStat of
       None \<Rightarrow> sendUseStatBonsResult s False g
     | Some stat \<Rightarrow>
         (case Option.bind (Parse s g) cChar of
            None \<Rightarrow> sendUseStatBonsResult s False g
          | Some c \<Rightarrow>
              if CharPNT c = 0 then sendUseStatBonsResult s False g
              else
                let req = \<lparr>stServer = ServerId g, stCharacter = CharId c, Stat = stat, stExpectedPNT = CharPNT c\<rparr>;
                    (res, m) = call_stat (g_RPCHandler g) req (remote g); g = g\<lparr>remote := m\<rparr> in
                (case res of
                   Inl _ \<Rightarrow> sendUseStatBonsResult s False g
                 | Inr res \<Rightarrow>
                     if \<not> srResult res then sendUseStatBonsResult s False g
                     else sendUseStatBonsResult s True (upd s (on_char (take_stats res)) g)))) }"

definition UserStatAutoDistribution :: "uint16 \<Rightarrow> Reader \<Rightarrow> 'm Game \<Rightarrow> 'm Game option" where
  "UserStatAutoDistribution s r g = do {
     (statSTR, r) \<leftarrow> ReadInt32 r; (statDEX, r) \<leftarrow> ReadInt32 r; (statINT, r) \<leftarrow> ReadInt32 r;
     Some (if sint statSTR < 0 \<or> sint statDEX < 0 \<or> sint statINT < 0 then sendStatDistributionResult s 0 0 0 g
       else case Option.bind (Parse s g) cChar of
         None \<Rightarrow> sendStatDistributionResult s 0 0 0 g
       | Some c \<Rightarrow>
           let req = \<lparr>dServer = ServerId g, dCharacter = CharId c, dSTR = statSTR, dDEX = statDEX, dINT = statINT,
                 dExpectedPNT = CharPNT c\<rparr>;
               (res, m) = call_distribution (g_RPCHandler g) req (remote g); g = g\<lparr>remote := m\<rparr> in
           (case res of
              Inl _ \<Rightarrow> sendStatDistributionResult s 0 0 0 g
            | Inr res \<Rightarrow>
                if \<not> srResult res then sendStatDistributionResult s 0 0 0 g
                else sendStatDistributionResult s statSTR statDEX statINT (upd s (on_char (take_stats res)) g))) }"

end
