(* ===== verification/Freya_Growth_Laws.thy ===== *)
theory Freya_Growth_Laws
  imports Freya_Growth Freya_Trade_Protocol
begin

text \<open>
  What growth preserves: the contract \<open>growth_master\<close> of the calls that save a character's values, its
  proof for the master server's handlers, and the consequences: memory and database keep agreeing, stat
  points are neither made nor lost, a level is always found, a rank stays within its limits.
\<close>

section \<open>What the handlers do\<close>

lemma sql_update_character_Some:
  "sql_update_character c P f db = Some (n, db') \<longleftrightarrow>
     (if alz_of db c = None \<or> \<not> P (columns db c) then n = 0 \<and> db' = db
      else \<exists>r. f (columns db c) = Some r \<and> n = (if r = columns db c then 0 else 1) \<and>
        db' = db\<lparr>columns := (columns db)(c := r)\<rparr>)"
  by (auto simp: sql_update_character_def split: option.splits)

lemma columns_same: "db\<lparr>columns := (columns db)(c := columns db c)\<rparr> = db"
  by simp

lemma Exec_cases:
  assumes "Exec io (sql_update_character c P f) db = (res, db')"
  shows "(case res of
      Inl _ \<Rightarrow> db' = db
    | Inr n \<Rightarrow> (n = 0 \<and> db' = db \<and> (alz_of db c \<noteq> None \<and> P (columns db c) \<longrightarrow> f (columns db c) = Some (columns db c))) \<or>
        (n = 1 \<and> alz_of db c \<noteq> None \<and> P (columns db c) \<and>
         (\<exists>r. f (columns db c) = Some r \<and> r \<noteq> columns db c \<and> db' = db\<lparr>columns := (columns db)(c := r)\<rparr>)))"
  using assms
  by (auto simp: Exec_def sql_update_character_def split: if_splits option.splits)

text \<open>The row after the experience is saved.\<close>

definition experience_row :: "ExperienceReq \<Rightarrow> CharRow \<Rightarrow> CharRow" where
  "experience_row r row =
     (let row = row\<lparr>col_exp := xExp r, col_level := xLevel r, col_rank := ClassRankForLevel (xLevel r),
            pnt_stat := pnt_stat row + StatPoints r\<rparr> in
      if xMaxHP r \<noteq> 0
      then row\<lparr>col_current_hp := xCurrentHP r, col_max_hp := xMaxHP r, col_current_mp := xCurrentMP r,
               col_max_mp := xMaxMP r, col_current_sp := xCurrentSP r, col_max_sp := xMaxSP r\<rparr>
      else row)"

definition vitals_row :: "VitalsRequest \<Rightarrow> CharRow \<Rightarrow> CharRow" where
  "vitals_row r row = row\<lparr>col_current_hp := vCurrentHP r, col_max_hp := vMaxHP r, col_current_mp := vCurrentMP r,
     col_max_mp := vMaxMP r, col_current_sp := vCurrentSP r, col_max_sp := vMaxSP r\<rparr>"

definition stat_row :: "StatResponse \<Rightarrow> CharRow \<Rightarrow> CharRow" where
  "stat_row s row = row\<lparr>str_stat := srSTR s, dex_stat := srDEX s, int_stat := srINT s, pnt_stat := srPNT s\<rparr>"

abbreviation set_columns :: "int32 \<Rightarrow> CharRow \<Rightarrow> Db \<Rightarrow> Db" where
  "set_columns c r db \<equiv> db\<lparr>columns := (columns db)(c := r)\<rparr>"

lemma SaveExperience_effect:
  assumes "SaveExperience io r db = (res, db')"
  shows "if res = Some (Inr True)
     then col_exp (columns db (xCharacter r)) = ExpectedExp r \<and> col_level (columns db (xCharacter r)) = ExpectedLevel r \<and>
       unat (pnt_stat (columns db (xCharacter r))) + unat (StatPoints r) < 2 ^ 32 \<and>
       db' = set_columns (xCharacter r) (experience_row r (columns db (xCharacter r))) db
     else db' = db"
  using assms
  by (auto simp: SaveExperience_def Let_def experience_row_def checked_add_def map_option_case
      dest!: Exec_cases split: prod.splits sum.splits if_splits option.splits)

lemma SaveSkillExperience_effect:
  assumes "SaveSkillExperience io r db = (res, db')"
  shows "if res = Some (Inr True)
     then progress_of (columns db (seCharacter r)) = Expected r \<and>
       db' = set_columns (seCharacter r) (set_progress (New r) (columns db (seCharacter r))) db
     else db' = db"
  using assms
  by (auto simp: SaveSkillExperience_def Let_def dest!: Exec_cases split: prod.splits sum.splits if_splits option.splits)

lemma SaveVitals_effect:
  assumes "SaveVitals io r db = (res, db')"
  shows "db' = db \<or> res = Some (Inr True) \<and> db' = set_columns (vCharacter r) (vitals_row r (columns db (vCharacter r))) db"
  using assms
  by (auto simp: SaveVitals_def vitals_row_def dest!: Exec_cases split: prod.splits sum.splits if_splits option.splits)

lemma select_stats_Done [simp]:
  "select_stats c db io = Done row db' io' \<longleftrightarrow>
     \<not> faulty io \<and> alz_of db c \<noteq> None \<and> row = columns db c \<and> db' = db \<and> io' = tl io"
  by (auto simp: select_stats_def return_tx_def fail_tx_def split: option.splits)

lemma select_stats_refuses [refuses_intro]: "refuses P (select_stats c)"
  unfolding select_stats_def by (intro refuses_intro)

text \<open>Points a row holds, spent and free.\<close>

definition points :: "CharRow \<Rightarrow> nat" where
  "points row = unat (str_stat row) + unat (dex_stat row) + unat (int_stat row) + unat (pnt_stat row)"

lemma checked_add_Some: "checked_add a b = Some x \<longleftrightarrow> unat a + unat b < 2 ^ 32 \<and> x = a + b"
  by (auto simp: checked_add_def)

lemma checked_sub_Some: "checked_sub a b = Some x \<longleftrightarrow> b \<le> a \<and> x = a - b"
  by (auto simp: checked_sub_def)

lemma unat_checked:
  "unat (a :: uint32) + unat b < 2 ^ 32 \<Longrightarrow> unat (a + b) = unat a + unat b"
  "b \<le> a \<Longrightarrow> unat (a - b) = unat a - unat (b :: uint32)"
  by (simp_all add: unat_add_lem [THEN iffD1] unat_sub)

lemma SaveStat_tx_refuses: "refuses (\<lambda>p. \<not> srResult p) (SaveStat_tx r)"
  unfolding SaveStat_tx_def Let_def by (intro refuses_intro) (simp_all add: stat_response_def)

lemma unat_pred: "1 \<le> (a :: uint32) \<Longrightarrow> Suc (unat a - Suc 0) = unat a"
  by (simp add: word_le_nat_alt)

lemma SaveStat_tx_Done:
  assumes "SaveStat_tx r db io = Done p db' io'" "Stat r \<le> 2"
  shows "srResult p \<and> alz_of db (stCharacter r) \<noteq> None \<and>
     db' = set_columns (stCharacter r) (stat_row p (columns db (stCharacter r))) db \<and>
     points (stat_row p (columns db (stCharacter r))) = points (columns db (stCharacter r)) \<and>
     unat (srPNT p) + 1 = unat (pnt_stat (columns db (stCharacter r)))"
proof -
  have "Stat r = 0 \<or> Stat r = 1 \<or> Stat r = 2"
    using byte_range(1) [of "Stat r"] assms(2) by (auto simp: word_le_nat_alt word_unat_eq_iff)
  with assms show ?thesis
    by (elim disjE)
      (auto simp: SaveStat_tx_def Let_def sql_update_character_Some spend_stat_def checked_add_Some checked_sub_Some
        stat_response_def stat_row_def points_def unat_checked unat_pred bind_eq_Some split: if_splits)
qed

lemma SaveStat_effect:
  assumes "SaveStat io r db = (res, db')"
  shows "if success srResult res
     then \<exists>p. res = Some (Inr p) \<and> db' = set_columns (stCharacter r) (stat_row p (columns db (stCharacter r))) db \<and>
       points (stat_row p (columns db (stCharacter r))) = points (columns db (stCharacter r)) \<and>
       alz_of db (stCharacter r) \<noteq> None
     else db' = db"
proof (cases "sint (stCharacter r) \<le> 0 \<or> 2 < Stat r")
  case True
  with assms show ?thesis by (auto simp: SaveStat_def)
next
  case False
  then have le: "Stat r \<le> 2" by (simp add: not_less)
  from False assms obtain t where t: "transaction (SaveStat_tx r) io db = (t, db')" "res = Some t"
    by (cases "transaction (SaveStat_tx r) io db") (auto simp: SaveStat_def)
  from transaction_cases [OF SaveStat_tx_refuses [of r], of io db] t show ?thesis
    by (auto dest: SaveStat_tx_Done [OF _ le])
qed

lemma SaveStatDistribution_tx_refuses: "refuses (\<lambda>p. \<not> srResult p) (SaveStatDistribution_tx r n)"
  unfolding SaveStatDistribution_tx_def by (intro refuses_intro) simp_all

lemma SaveStatDistribution_tx_Done:
  assumes "SaveStatDistribution_tx r n db io = Done p db' io'" "n = unat (dSTR r) + unat (dDEX r) + unat (dINT r)"
    "n < 2 ^ 32"
  shows "srResult p \<and> alz_of db (dCharacter r) \<noteq> None \<and>
     db' = set_columns (dCharacter r) (stat_row p (columns db (dCharacter r))) db \<and>
     points (stat_row p (columns db (dCharacter r))) = points (columns db (dCharacter r)) \<and>
     unat (srPNT p) + n = unat (pnt_stat (columns db (dCharacter r)))"
proof -
  let ?row = "columns db (dCharacter r)"
  have n: "unat (word_of_nat n :: uint32) = n" by (rule unat_word_of_nat) (use assms(3) in simp)
  have facts: "n \<le> unat (pnt_stat ?row)" "pnt_stat ?row = dExpectedPNT r" "alz_of db (dCharacter r) \<noteq> None"
    "sql_update_character (dCharacter r) (\<lambda>row. pnt_stat row = dExpectedPNT r) (spend_stats r n) db = Some (1, db')"
    and p: "p = \<lparr>srResult = True, srSTR = str_stat ?row + dSTR r, srDEX = dex_stat ?row + dDEX r,
       srINT = int_stat ?row + dINT r, srPNT = pnt_stat ?row - word_of_nat n\<rparr>"
    using assms(1) by (auto simp: SaveStatDistribution_tx_def not_less)
  from facts(2-4) obtain new where new: "spend_stats r n ?row = Some new" "db' = set_columns (dCharacter r) new db"
    by (auto simp: sql_update_character_Some split: if_splits)
  from new(1) have fits: "unat (str_stat ?row) + unat (dSTR r) < 2 ^ 32" "unat (dex_stat ?row) + unat (dDEX r) < 2 ^ 32"
    "unat (int_stat ?row) + unat (dINT r) < 2 ^ 32" "word_of_nat n \<le> pnt_stat ?row"
    and row: "new = stat_row p ?row"
    by (auto simp: spend_stats_def bind_eq_Some checked_add_Some checked_sub_Some stat_row_def p)
  have sums: "unat (srSTR p) = unat (str_stat ?row) + unat (dSTR r)" "unat (srDEX p) = unat (dex_stat ?row) + unat (dDEX r)"
    "unat (srINT p) = unat (int_stat ?row) + unat (dINT r)" "unat (srPNT p) = unat (pnt_stat ?row) - n"
    using unat_checked(1) [OF fits(1)] unat_checked(1) [OF fits(2)] unat_checked(1) [OF fits(3)]
      unat_checked(2) [OF fits(4)] n by (simp_all add: p del: unsigned_of_nat)
  have "points (stat_row p ?row) = points ?row"
    using sums facts(1) assms(2) by (simp add: points_def stat_row_def)
  with new(2) row facts sums(4) show ?thesis by (simp add: p)
qed

lemma SaveStatDistribution_effect:
  assumes "SaveStatDistribution io r db = (res, db')"
  shows "if success srResult res
     then \<exists>p. res = Some (Inr p) \<and> db' = set_columns (dCharacter r) (stat_row p (columns db (dCharacter r))) db \<and>
       points (stat_row p (columns db (dCharacter r))) = points (columns db (dCharacter r)) \<and>
       alz_of db (dCharacter r) \<noteq> None
     else db' = db"
proof -
  let ?n = "unat (dSTR r) + unat (dDEX r) + unat (dINT r)"
  consider (refused) e where "res = Some (Inl e)" "db' = db"
    | (run) t where "transaction (SaveStatDistribution_tx r ?n) io db = (t, db')" "res = Some t" "?n < 2 ^ 32"
    using assms by (cases "transaction (SaveStatDistribution_tx r ?n) io db")
      (auto simp: SaveStatDistribution_def Let_def split: if_splits)
  then show ?thesis
  proof cases
    case refused
    then show ?thesis by simp
  next
    case run
    from transaction_cases [OF SaveStatDistribution_tx_refuses [of r ?n], of io db] run(1,2) show ?thesis
      by (auto dest: SaveStatDistribution_tx_Done [OF _ refl run(3)])
  qed
qed

section \<open>The contract of the calls that save values\<close>

text \<open>
  \<open>row m c\<close> is what the remote side stores of a character. A call that is not answered by a success leaves
  it as it was; saving vitals also succeeds for a character that is not stored.
\<close>

locale growth_master =
  fixes rpc :: "'m Client" and row :: "'m \<Rightarrow> int32 \<Rightarrow> CharRow"
  assumes experience: "\<And>q m res m'. call_experience rpc q m = (res, m') \<Longrightarrow>
      if res = Inr True
      then col_exp (row m (xCharacter q)) = ExpectedExp q \<and> col_level (row m (xCharacter q)) = ExpectedLevel q \<and>
        row m' = (row m)(xCharacter q := experience_row q (row m (xCharacter q)))
      else row m' = row m"
    and skill_experience: "\<And>q m res m'. call_skill_experience rpc q m = (res, m') \<Longrightarrow>
      if res = Inr True
      then progress_of (row m (seCharacter q)) = Expected q \<and>
        row m' = (row m)(seCharacter q := set_progress (New q) (row m (seCharacter q)))
      else row m' = row m"
    and vitals: "\<And>q m res m'. call_vitals rpc q m = (res, m') \<Longrightarrow> row m' = row m \<or>
      res = Inr True \<and> row m' = (row m)(vCharacter q := vitals_row q (row m (vCharacter q)))"
    and stat: "\<And>q m res m'. call_stat rpc q m = (res, m') \<Longrightarrow>
      if accepted srResult res
      then \<exists>p. res = Inr p \<and> row m' = (row m)(stCharacter q := stat_row p (row m (stCharacter q))) \<and>
        points (stat_row p (row m (stCharacter q))) = points (row m (stCharacter q))
      else row m' = row m"
    and distribution: "\<And>q m res m'. call_distribution rpc q m = (res, m') \<Longrightarrow>
      if accepted srResult res
      then \<exists>p. res = Inr p \<and> row m' = (row m)(dCharacter q := stat_row p (row m (dCharacter q))) \<and>
        points (stat_row p (row m (dCharacter q))) = points (row m (dCharacter q))
      else row m' = row m"

text \<open>The values of a character that memory and row share; spirit is saved only now and then.\<close>

definition recorded :: "'m Character \<Rightarrow> CharRow \<Rightarrow> bool" where
  "recorded c row \<longleftrightarrow> char_progress c = progress_of row \<and> CharExp c = col_exp row \<and> cLevel c = col_level row \<and>
     CharPNT c = pnt_stat row"

lemma serve_row:
  assumes "serve h q w = (res, w')"
    and "\<And>io r db'. h io q (database w) = (r, db') \<Longrightarrow> if r = Some (Inr a) then db' = D else db' = database w"
  shows "database w' = (if res = Inr a then D else database w)"
  using assms(1)
proof (cases rule: serve_cases)
  case lost
  then show ?thesis by simp
next
  case (run io r)
  then show ?thesis using assms(2) [OF run(1)] by (cases res) (auto split: if_splits)
qed

section \<open>Operations keep memory and row together\<close>

abbreviation played :: "uint16 \<Rightarrow> 'm Game \<Rightarrow> 'm Character option" where
  "played i g \<equiv> Option.bind (Parse i g) cChar"

lemma played_fields [simp]:
  "played i (g\<lparr>remote := m\<rparr>) = played i g" "played i (send j p g) = played i g"
  by simp_all

lemma played_upd [simp]: "played i (upd j (on_char f) g) = (if i = j then map_option f (played i g) else played i g)"
  by (cases "Parse j g") (simp_all add: Parse_upd)

abbreviation fighter :: "'m Character \<Rightarrow> bool" where
  "fighter c \<equiv> BattleStyle (CharStyle c) \<in> {1, 2, 3, 4, 5, 6}"

text \<open>The character of client \<open>i\<close> agrees with its row.\<close>

definition in_step :: "('m \<Rightarrow> int32 \<Rightarrow> CharRow) \<Rightarrow> uint16 \<Rightarrow> 'm Game \<Rightarrow> bool" where
  "in_step row i g \<longleftrightarrow> (case played i g of None \<Rightarrow> True | Some c \<Rightarrow> fighter c \<and> recorded c (row (remote g) (CharId c)))"

text \<open>Nothing but that client and its row has changed.\<close>

definition only :: "('m \<Rightarrow> int32 \<Rightarrow> CharRow) \<Rightarrow> uint16 \<Rightarrow> 'm Game \<Rightarrow> 'm Game \<Rightarrow> bool" where
  "only row i g g' \<longleftrightarrow> g_RPCHandler g' = g_RPCHandler g \<and> (\<forall>j. j \<noteq> i \<longrightarrow> users g' j = users g j) \<and>
     map_option CharId (played i g') = map_option CharId (played i g) \<and>
     (\<forall>c. Some c \<noteq> map_option CharId (played i g) \<longrightarrow> row (remote g') c = row (remote g) c)"

lemma only_refl [simp]: "only row i g g"
  by (simp add: only_def)

lemma only_trans: "only row i f g \<Longrightarrow> only row i g h \<Longrightarrow> only row i f h"
  by (simp add: only_def)

lemma only_send [simp]: "only row i g (send j p g') = only row i g g'" "in_step row i (send j p g) = in_step row i g"
  by (simp_all add: only_def in_step_def cong: option.case_cong)

lemma in_step_D: "in_step row i g \<Longrightarrow> played i g = Some c \<Longrightarrow> fighter c \<and> recorded c (row (remote g) (CharId c))"
  by (simp add: in_step_def)

text \<open>A call for the character that succeeds, and one that changes nothing.\<close>

lemma saved:
  assumes "played i g = Some c" "row m = (row (remote g))(CharId c := r)" "CharId c' = CharId c" "fighter c'" "recorded c' r"
    "f c = c'"
  shows "in_step row i (upd i (on_char f) (g\<lparr>remote := m\<rparr>)) \<and> only row i g (upd i (on_char f) (g\<lparr>remote := m\<rparr>))"
  using assms by (simp add: in_step_def only_def users_upd)

lemma unsaved:
  assumes "in_step row i g" "row m = row (remote g)"
  shows "in_step row i (g\<lparr>remote := m\<rparr>) \<and> only row i g (g\<lparr>remote := m\<rparr>)"
  using assms by (simp add: in_step_def only_def cong: option.case_cong)

lemma refill_fields [simp]:
  "CharId (refill c) = CharId c" "CharExp (refill c) = CharExp c" "cLevel (refill c) = cLevel c"
  "CharPNT (refill c) = CharPNT c" "CharStyle (refill c) = CharStyle c" "SwordRank (refill c) = SwordRank c"
  "MagicRank (refill c) = MagicRank c" "SwordExp (refill c) = SwordExp c" "MagicExp (refill c) = MagicExp c"
  "SwordPoint (refill c) = SwordPoint c" "MagicPoint (refill c) = MagicPoint c"
  "SwordRankExp (refill c) = SwordRankExp c" "MagicRankExp (refill c) = MagicRankExp c"
  "CharSTR (refill c) = CharSTR c" "CharDEX (refill c) = CharDEX c" "CharINT (refill c) = CharINT c"
  by (simp_all add: refill_def RecalculateHP_def RecalculateMP_def Let_def)

lemma RecalculateSP_fields [simp]:
  "CharId (snd (RecalculateSP c)) = CharId c" "CharStyle (snd (RecalculateSP c)) = CharStyle c"
  "char_progress (snd (RecalculateSP c)) = char_progress c" "CurrentHP (snd (RecalculateSP c)) = CurrentHP c"
  "MaxHP (snd (RecalculateSP c)) = MaxHP c" "CurrentMP (snd (RecalculateSP c)) = CurrentMP c"
  "MaxMP (snd (RecalculateSP c)) = MaxMP c" "cLevel (snd (RecalculateSP c)) = cLevel c"
  by (simp_all add: RecalculateSP_def Let_def char_progress_def)

lemma style_formulas:
  assumes "fighter c"
  shows "BattleStyle (CharStyle c) \<noteq> 0" "unat (BattleStyle (CharStyle c)) < length hpFormulas"
    "unat (BattleStyle (CharStyle c)) < length mpFormulas"
  using assms by (auto simp: hpFormulas_def mpFormulas_def)

lemma refill_full:
  assumes "fighter c"
  shows "MaxHP (refill c) \<noteq> 0 \<and> CurrentHP (refill c) = MaxHP (refill c) \<and> MaxMP (refill c) \<noteq> 0 \<and>
     CurrentMP (refill c) = MaxMP (refill c)"
proof -
  have "CalculateMaxHP d \<noteq> 0" "CalculateMaxMP d \<noteq> 0" if "CharStyle d = CharStyle c" for d :: "'a Character"
    using CalculateMaxHP_eq [of d] CalculateMaxMP_eq [of d] style_formulas [OF assms] clamp16_bounds that by simp_all
  then show ?thesis by (simp add: refill_def RecalculateHP_def RecalculateMP_def Let_def)
qed

text \<open>The request for more experience, and the row it leaves behind.\<close>

lemma gain_request_recorded:
  assumes "gain_request sv e l p c = (u, req)" "fighter c" "recorded c row"
  shows "CharId u = CharId c \<and> fighter u \<and> recorded u (experience_row req row) \<and> xCharacter req = CharId c \<and>
     ExpectedExp req = CharExp c \<and> ExpectedLevel req = cLevel c \<and> xExp req = e \<and> xLevel req = l"
proof -
  let ?up = "c\<lparr>cLevel := l, CharStyle := (CharStyle c)\<lparr>MasteryLevel := ClassRankForLevel l\<rparr>\<rparr>"
  let ?b = "cLevel c < l \<or> ClassRankForLevel l \<noteq> MasteryLevel (CharStyle c)"
  define w where "w = snd (RecalculateSP (refill ?up))"
  have w: "char_progress w = (char_progress c)\<lparr>pgCurrentHP := CurrentHP w, pgMaxHP := MaxHP w,
      pgCurrentMP := CurrentMP w, pgMaxMP := MaxMP w\<rparr>" "CharId w = CharId c" "CharStyle w = CharStyle ?up"
    "cLevel w = l" "MaxHP w \<noteq> 0"
    using refill_full [of ?up] assms(2) by (simp_all add: w_def) (simp add: char_progress_def)
  show ?thesis
  proof (cases ?b)
    case True
    then have "u = w\<lparr>CharExp := e, CharPNT := CharPNT c + p\<rparr>"
      "req = \<lparr>xServer = sv, xCharacter = CharId c, ExpectedExp = CharExp c, ExpectedLevel = cLevel c, xExp = e, xLevel = l,
         StatPoints = p, xCurrentHP = CurrentHP w, xMaxHP = MaxHP w, xCurrentMP = CurrentMP w, xMaxMP = MaxMP w,
         xCurrentSP = CurrentSP w, xMaxSP = MaxSP w\<rparr>"
      using assms(1) by (auto simp: gain_request_def Let_def w_def)
    moreover have "char_progress (w\<lparr>CharExp := e, CharPNT := CharPNT c + p\<rparr>) = char_progress w"
      by (simp add: char_progress_def)
    ultimately show ?thesis using assms(2,3) w
      by (simp add: recorded_def experience_row_def Let_def) (simp add: progress_of_def)
  next
    case False
    then have "u = ?up\<lparr>CharExp := e, CharPNT := CharPNT c + p\<rparr>" "xMaxHP req = 0" "xCharacter req = CharId c"
      "ExpectedExp req = CharExp c" "ExpectedLevel req = cLevel c" "xExp req = e" "xLevel req = l" "StatPoints req = p"
      using assms(1) by (auto simp: gain_request_def Let_def)
    then show ?thesis using assms(2,3)
      by (simp add: recorded_def experience_row_def Let_def char_progress_def progress_of_def)
  qed
qed

lemma progress_round_trip [simp]:
  "char_progress (set_char_progress u c) = char_progress u" "progress_of (set_progress n row) = n"
  "CharId (set_char_progress u c) = CharId c" "CharStyle (set_char_progress u c) = CharStyle c"
  "CharExp (set_char_progress u c) = CharExp c" "cLevel (set_char_progress u c) = cLevel c"
  "CharPNT (set_char_progress u c) = CharPNT c" "col_exp (set_progress n row) = col_exp row"
  "col_level (set_progress n row) = col_level row" "pnt_stat (set_progress n row) = pnt_stat row"
  by (simp_all add: char_progress_def set_char_progress_def progress_of_def set_progress_def)

lemma take_stats_fields:
  "CharId (take_stats p c) = CharId c" "CharStyle (take_stats p c) = CharStyle c"
  "recorded c row \<Longrightarrow> recorded (take_stats p c) (stat_row p row)"
  by (simp_all add: take_stats_def stat_row_def recorded_def char_progress_def progress_of_def)

context growth_master
begin

lemma addExperience_in_step:
  assumes "in_step row i g" "g_RPCHandler g = rpc" "addExperience d i n g = Some (r, g')"
  shows "in_step row i g' \<and> only row i g g'"
proof -
  consider (same) "g' = g" | (call) c e l p u req res m where "played i g = Some c" "gain_request (ServerId g) e l p c = (u, req)"
      "call_experience rpc req (remote g) = (res, m)"
      "g' = (if res = Inr True then upd i (on_char (\<lambda>_. u)) (g\<lparr>remote := m\<rparr>) else g\<lparr>remote := m\<rparr>)"
    using assms(2,3)
    by (auto simp: addExperience_def Let_def bind_eq_Some split: if_splits option.splits prod.splits)
  then show ?thesis
  proof cases
    case same
    then show ?thesis using assms(1) by simp
  next
    case call
    from in_step_D [OF assms(1) call(1)] have c: "fighter c" "recorded c (row (remote g) (CharId c))" by simp_all
    note u = gain_request_recorded [OF call(2) c]
    show ?thesis
    proof (cases "res = Inr True")
      case True
      with experience [OF call(3)] u
      have "row m = (row (remote g))(CharId c := experience_row req (row (remote g) (CharId c)))" by simp
      from saved [OF call(1) this, of u "\<lambda>_. u"] call(4) True u show ?thesis by simp
    next
      case False
      with experience [OF call(3)] have "row m = row (remote g)" by simp
      with call(4) False unsaved [OF assms(1)] show ?thesis by simp
    qed
  qed
qed

lemma addSkillExperienceForType_in_step:
  assumes "in_step row i g" "g_RPCHandler g = rpc" "addSkillExperienceForType d i ty n g = (r, g')"
  shows "in_step row i g' \<and> only row i g g'"
proof -
  consider (same) "g' = g" | (call) c u req res m where "played i g = Some c" "New req = char_progress u"
      "seCharacter req = CharId c" "call_skill_experience rpc req (remote g) = (res, m)"
      "g' = (if res = Inr True then upd i (on_char (set_char_progress u)) (g\<lparr>remote := m\<rparr>) else g\<lparr>remote := m\<rparr>)"
  proof (cases "n = 0 \<or> ty \<noteq> 1 \<and> ty \<noteq> 2 \<or> played i g = None \<or> skill_gain d ty n (the (played i g)) = None")
    case True
    then have "g' = g" using assms(3) by (auto simp: addSkillExperienceForType_def split: option.splits)
    then show ?thesis by (rule same)
  next
    case False
    then obtain c e u a t where c: "played i g = Some c" "skill_gain d ty n c = Some (e, u, a, t)" by auto
    let ?req = "\<lparr>seServer = ServerId g, seCharacter = CharId c, Expected = char_progress c, New = char_progress u\<rparr>"
    obtain res m where m: "call_skill_experience rpc ?req (remote g) = (res, m)" by fastforce
    show ?thesis
    proof (rule call [OF c(1) _ _ m])
      show "g' = (if res = Inr True then upd i (on_char (set_char_progress u)) (g\<lparr>remote := m\<rparr>) else g\<lparr>remote := m\<rparr>)"
        using assms(2,3) False c m by (auto simp: addSkillExperienceForType_def Let_def split: if_splits)
    qed simp_all
  qed
  then show ?thesis
  proof cases
    case same
    then show ?thesis using assms(1) by simp
  next
    case call
    from in_step_D [OF assms(1) call(1)] have c: "fighter c" "recorded c (row (remote g) (CharId c))" by simp_all
    show ?thesis
    proof (cases "res = Inr True")
      case True
      with skill_experience [OF call(4)] call(2,3)
      have "row m = (row (remote g))(CharId c := set_progress (char_progress u) (row (remote g) (CharId c)))" by simp
      from saved [OF call(1) this, of "set_char_progress u c" "set_char_progress u"] call(5) True c
      show ?thesis by (simp add: recorded_def)
    next
      case False
      with skill_experience [OF call(4)] have "row m = row (remote g)" by simp
      with call(5) False unsaved [OF assms(1)] show ?thesis by simp
    qed
  qed
qed

lemma addSkillExperience_in_step:
  assumes "in_step row i g" "g_RPCHandler g = rpc" "addSkillExperience d i ty n g = (r, g')"
  shows "in_step row i g' \<and> only row i g g'"
proof (cases "ty \<noteq> 1 \<and> ty \<noteq> 2")
  case True
  with assms show ?thesis by (simp add: addSkillExperience_def)
next
  case False
  obtain r1 g1 where 1: "addSkillExperienceForType d i 1 n g = (r1, g1)" by fastforce
  obtain r2 where 2: "addSkillExperienceForType d i 2 n g1 = (r2, g')"
    using assms(3) False 1 by (auto simp: addSkillExperience_def Let_def split: prod.splits)
  note s1 = addSkillExperienceForType_in_step [OF assms(1,2) 1]
  then have "g_RPCHandler g1 = rpc" using assms(2) by (simp add: only_def)
  from addSkillExperienceForType_in_step [OF _ this 2] s1 show ?thesis by (blast intro: only_trans)
qed

lemma stats_in_step:
  assumes "in_step row i g" "played i g = Some c" "row m = (if ok then (row (remote g))(CharId c := stat_row p (row (remote g) (CharId c))) else row (remote g))"
    "g' = (if ok then upd i (on_char (take_stats p)) (g\<lparr>remote := m\<rparr>) else g\<lparr>remote := m\<rparr>)"
  shows "in_step row i g' \<and> only row i g g'"
proof (cases ok)
  case True
  then have "row m = (row (remote g))(CharId c := stat_row p (row (remote g) (CharId c)))" using assms(3) by simp
  from saved [OF assms(2) this, of "take_stats p c" "take_stats p"] in_step_D [OF assms(1,2)] assms(4) True
  show ?thesis by (simp add: take_stats_fields)
next
  case False
  with assms unsaved [OF assms(1), of m] show ?thesis by simp
qed

lemma UseStatBons_in_step:
  assumes "in_step row i g" "g_RPCHandler g = rpc" "UseStatBons i r g = Some g'"
  shows "in_step row i g' \<and> only row i g g'"
proof -
  obtain raw r' where rd: "ReadByte r = Some (raw, r')" using assms(3) by (auto simp: UseStatBons_def bind_eq_Some)
  show ?thesis
  proof (cases "\<exists>s c. decodeStat raw = Some s \<and> played i g = Some c \<and> CharPNT c \<noteq> 0")
    case False
    then have "g' = sendUseStatBonsResult i False g"
      using assms(3) rd by (auto simp: UseStatBons_def split: option.splits)
    then show ?thesis using assms(1) by (simp add: sendUseStatBonsResult_def)
  next
    case True
    then obtain s c where c: "decodeStat raw = Some s" "played i g = Some c" "CharPNT c \<noteq> 0" by blast
    let ?req = "\<lparr>stServer = ServerId g, stCharacter = CharId c, Stat = s, stExpectedPNT = CharPNT c\<rparr>"
    obtain res m where call: "call_stat rpc ?req (remote g) = (res, m)" by fastforce
    define ok where "ok = accepted srResult res"
    obtain p where p: "ok \<Longrightarrow> res = Inr p"
      "row m = (if ok then (row (remote g))(CharId c := stat_row p (row (remote g) (CharId c))) else row (remote g))"
      using stat [OF call] by (cases ok) (auto simp: ok_def)
    have "g' = sendUseStatBonsResult i ok (if ok then upd i (on_char (take_stats p)) (g\<lparr>remote := m\<rparr>) else g\<lparr>remote := m\<rparr>)"
      using assms(2,3) rd c call p(1) by (cases res) (auto simp: UseStatBons_def ok_def Let_def)
    with stats_in_step [OF assms(1) c(2) p(2) refl] show ?thesis by (simp add: sendUseStatBonsResult_def)
  qed
qed

lemma UserStatAutoDistribution_in_step:
  assumes "in_step row i g" "g_RPCHandler g = rpc" "UserStatAutoDistribution i r g = Some g'"
  shows "in_step row i g' \<and> only row i g g'"
proof -
  obtain a b e r1 r2 r3 where rd: "ReadInt32 r = Some (a, r1)" "ReadInt32 r1 = Some (b, r2)" "ReadInt32 r2 = Some (e, r3)"
    using assms(3) by (auto simp: UserStatAutoDistribution_def bind_eq_Some)
  show ?thesis
  proof (cases "sint a < 0 \<or> sint b < 0 \<or> sint e < 0 \<or> played i g = None")
    case True
    then have "g' = sendStatDistributionResult i 0 0 0 g"
      using assms(3) rd by (auto simp: UserStatAutoDistribution_def split: option.splits)
    then show ?thesis using assms(1) by (simp add: sendStatDistributionResult_def)
  next
    case False
    then obtain c where c: "played i g = Some c" by blast
    let ?req = "\<lparr>dServer = ServerId g, dCharacter = CharId c, dSTR = a, dDEX = b, dINT = e, dExpectedPNT = CharPNT c\<rparr>"
    obtain res m where call: "call_distribution rpc ?req (remote g) = (res, m)" by fastforce
    define ok where "ok = accepted srResult res"
    obtain p where p: "ok \<Longrightarrow> res = Inr p"
      "row m = (if ok then (row (remote g))(CharId c := stat_row p (row (remote g) (CharId c))) else row (remote g))"
      using distribution [OF call] by (cases ok) (auto simp: ok_def)
    have "g' = sendStatDistributionResult i (if ok then a else 0) (if ok then b else 0) (if ok then e else 0)
        (if ok then upd i (on_char (take_stats p)) (g\<lparr>remote := m\<rparr>) else g\<lparr>remote := m\<rparr>)"
      using assms(2,3) rd c call p(1) False by (cases res) (auto simp: UserStatAutoDistribution_def ok_def Let_def)
    with stats_in_step [OF assms(1) c p(2) refl] show ?thesis by (simp add: sendStatDistributionResult_def)
  qed
qed

lemma saveContextVitals_in_step:
  assumes "in_step row i g" "g_RPCHandler g = rpc" "saveContextVitals i g = (ok, g')"
  shows "in_step row i g' \<and> only row i g g'"
proof (cases "played i g")
  case None
  with assms show ?thesis by (simp add: saveContextVitals_def)
next
  case (Some c)
  let ?req = "\<lparr>vServer = ServerId g, vCharacter = CharId c, vCurrentHP = CurrentHP c, vMaxHP = MaxHP c,
    vCurrentMP = CurrentMP c, vMaxMP = MaxMP c, vCurrentSP = CurrentSP c, vMaxSP = MaxSP c\<rparr>"
  obtain res m where call: "call_vitals rpc ?req (remote g) = (res, m)" by fastforce
  have g': "g' = g\<lparr>remote := m\<rparr>"
    using assms(2,3) Some call by (cases res) (auto simp: saveContextVitals_def saveCharacterVitals_def Let_def)
  have c: "fighter c" "recorded c (row (remote g) (CharId c))" using in_step_D [OF assms(1) Some] by simp_all
  have "row m = row (remote g) \<or> row m = (row (remote g))(CharId c := vitals_row ?req (row (remote g) (CharId c)))"
    using vitals [OF call] by auto
  moreover have "recorded c (vitals_row ?req (row (remote g) (CharId c)))"
    using c(2) by (simp add: recorded_def vitals_row_def char_progress_def progress_of_def)
  ultimately show ?thesis
    using g' c Some assms(1) by (auto simp: in_step_def only_def)
qed

end

section \<open>The master server keeps the contract\<close>

abbreviation world_row :: "world \<Rightarrow> int32 \<Rightarrow> CharRow" where
  "world_row w \<equiv> columns (database w)"

lemma value_calls [simp]:
  "call_experience master = serve SaveExperience" "call_skill_experience master = serve SaveSkillExperience"
  "call_vitals master = serve SaveVitals" "call_stat master = serve SaveStat"
  "call_distribution master = serve SaveStatDistribution"
  by (simp_all add: master_def)

lemma serve_stats:
  assumes "serve h q w = (res, w')"
    and "\<And>io r db'. h io q (database w) = (r, db') \<Longrightarrow>
      if success srResult r then \<exists>p. r = Some (Inr p) \<and> db' = set_columns c (stat_row p (columns (database w) c)) (database w) \<and>
        points (stat_row p (columns (database w) c)) = points (columns (database w) c) \<and> alz_of (database w) c \<noteq> None
      else db' = database w"
  shows "if accepted srResult res
    then \<exists>p. res = Inr p \<and> world_row w' = (world_row w)(c := stat_row p (world_row w c)) \<and>
      points (stat_row p (world_row w c)) = points (world_row w c)
    else world_row w' = world_row w"
  using assms(1)
proof (cases rule: serve_cases)
  case lost
  then show ?thesis by simp
next
  case (run io r)
  then show ?thesis using assms(2) [OF run(1)] by (cases res) (auto split: if_splits)
qed

interpretation world: growth_master master world_row
proof (unfold_locales, goal_cases)
  case (1 q m res m')
  then have "serve SaveExperience q m = (res, m')" by simp
  then show ?case
  proof (cases rule: serve_cases)
    case lost
    then show ?thesis by simp
  next
    case (run io r)
    then show ?thesis using SaveExperience_effect [OF run(1)] by (cases res) (auto split: if_splits)
  qed
next
  case (2 q m res m')
  then have "serve SaveSkillExperience q m = (res, m')" by simp
  then show ?case
  proof (cases rule: serve_cases)
    case lost
    then show ?thesis by simp
  next
    case (run io r)
    then show ?thesis using SaveSkillExperience_effect [OF run(1)] by (cases res) (auto split: if_splits)
  qed
next
  case (3 q m res m')
  then have "serve SaveVitals q m = (res, m')" by simp
  then show ?case
  proof (cases rule: serve_cases)
    case lost
    then show ?thesis by simp
  next
    case (run io r)
    have "res = Inr True" if "r = Some (Inr True)" using run(2) [of "\<lambda>x. x"] that by (cases res) auto
    with SaveVitals_effect [OF run(1)] show ?thesis by auto
  qed
next
  case (4 q m res m')
  then have "serve SaveStat q m = (res, m')" by simp
  then show ?case by (rule serve_stats) (rule SaveStat_effect)
next
  case (5 q m res m')
  then have "serve SaveStatDistribution q m = (res, m')" by simp
  then show ?case by (rule serve_stats) (rule SaveStatDistribution_effect)
qed

section \<open>The rank loop\<close>

text \<open>The ways a turn of the loop ends, as a case rule.\<close>

lemma rank_loop_cases:
  obtains (stop) "rank_loop d style ty allowed s = s"
      "case FindSkillRankProgress (skillRankProgressData d) style (currentRank s) ty of None \<Rightarrow> True
       | Some p \<Rightarrow> skillRankExpForPoint p ty = 0 \<or> totalExp s < ucast (skillRankExpForPoint p ty)"
  | (turn) p s' where "FindSkillRankProgress (skillRankProgressData d) style (currentRank s) ty = Some p"
      "skillRankExpForPoint p ty \<noteq> 0" "ucast (skillRankExpForPoint p ty) \<le> totalExp s"
      "s' = gain_point (skillRankExpForPoint p ty) s"
      "rank_loop d style ty allowed s =
        (if currentRankExp s' < skillRankPointsForRank p ty then rank_loop d style ty allowed s'
         else if 10 \<le> currentRank s' then s'\<lparr>acceptedExp := acceptedExp s' - totalExp s', totalExp := 0\<rparr>
         else if allowed \<le> currentRank s' then at_limit (skillRankExpForPoint p ty) s'
         else rank_loop d style ty allowed (promote (FindSkillRankBonus (skillRankBonusData d) (currentRank s') ty) s'))"
proof (cases "FindSkillRankProgress (skillRankProgressData d) style (currentRank s) ty")
  case None
  then show ?thesis by (intro stop) (simp_all add: rank_loop.simps [of d style ty allowed s])
next
  case (Some p)
  show ?thesis
  proof (cases "skillRankExpForPoint p ty = 0 \<or> totalExp s < ucast (skillRankExpForPoint p ty)")
    case True
    with Some show ?thesis by (intro stop) (simp_all add: rank_loop.simps [of d style ty allowed s])
  next
    case False
    then have "(skillRankExpForPoint p ty = 0) = False" "(totalExp s < ucast (skillRankExpForPoint p ty)) = False" by simp_all
    with Some show ?thesis
      by (intro turn [OF Some _ _ refl]) (simp_all add: rank_loop.simps [of d style ty allowed s] Let_def)
  qed
qed

lemma gain_point_fields [simp]:
  "currentRank (gain_point e s) = currentRank s" "acceptedExp (gain_point e s) = acceptedExp s"
  "limitReached (gain_point e s) = limitReached s" "rankUp (gain_point e s) = rankUp s"
  by (simp_all add: gain_point_def)

lemma promote_fields [simp]:
  "currentRank (promote b s) = currentRank s + 1" "acceptedExp (promote b s) = acceptedExp s"
  "limitReached (promote b s) = limitReached s"
  by (simp_all add: promote_def Let_def split: option.split)

lemma at_limit_fields [simp]:
  "currentRank (at_limit e s) = currentRank s" "acceptedExp (at_limit e s) = 0" "totalExp (at_limit e s) = ucast e"
  "limitReached (at_limit e s)"
  by (simp_all add: at_limit_def)

text \<open>What is left over at the end: less than a point takes, a full bar at a limit, nothing at the last rank.\<close>

definition settled :: "Tables \<Rightarrow> byte \<Rightarrow> byte \<Rightarrow> rank_state \<Rightarrow> bool" where
  "settled d style ty s \<longleftrightarrow>
     (case FindSkillRankProgress (skillRankProgressData d) style (currentRank s) ty of
        None \<Rightarrow> True
      | Some p \<Rightarrow> let e = skillRankExpForPoint p ty in
          e = 0 \<or> totalExp s < ucast e \<or> limitReached s \<and> totalExp s = ucast e \<or> currentRank s = 10 \<and> totalExp s = 0)"

lemma rank_loop_result:
  assumes "currentRank s \<le> allowed" "allowed \<le> 10"
    and "\<And>p. FindSkillRankProgress (skillRankProgressData d) style (currentRank s) ty = Some p \<Longrightarrow>
      unat (totalExp s) \<le> unat (acceptedExp s) + unat (skillRankExpForPoint p ty)"
  shows "currentRank s \<le> currentRank (rank_loop d style ty allowed s) \<and> currentRank (rank_loop d style ty allowed s) \<le> allowed \<and>
     acceptedExp (rank_loop d style ty allowed s) \<le> acceptedExp s \<and> settled d style ty (rank_loop d style ty allowed s)"
  using assms
proof (induction "unat (totalExp s)" arbitrary: s rule: less_induct)
  case less
  show ?case
  proof (cases rule: rank_loop_cases [of d style ty allowed s])
    case stop
    then show ?thesis using less.prems(1,2) by (auto simp: settled_def Let_def split: option.splits)
  next
    case (turn p s')
    have down: "unat (totalExp s') < unat (totalExp s)"
      and rest: "unat (totalExp s') = unat (totalExp s) - unat (skillRankExpForPoint p ty)"
      using gain_point_less [OF turn(2,3)] turn(4) by simp_all
    then have le: "unat (totalExp s') \<le> unat (acceptedExp s')" using less.prems(3) [OF turn(1)] turn(4) by simp
    have up: "currentRank s' + 1 \<le> allowed \<and> currentRank s' \<le> currentRank s' + 1" if "\<not> allowed \<le> currentRank s'"
    proof -
      have less: "currentRank s' < allowed" using that by simp
      then have "currentRank s' \<noteq> - 1" by (metis word_n1_ge linorder_not_less)
      from word_less_plus_one [OF this] inc_le [OF less] show ?thesis by (simp add: order_less_imp_le)
    qed
    consider (again) "currentRankExp s' < skillRankPointsForRank p ty"
      | (last) "\<not> currentRankExp s' < skillRankPointsForRank p ty" "10 \<le> currentRank s'"
      | (limit) "\<not> currentRankExp s' < skillRankPointsForRank p ty" "\<not> 10 \<le> currentRank s'" "allowed \<le> currentRank s'"
      | (promoted) "\<not> currentRankExp s' < skillRankPointsForRank p ty" "\<not> 10 \<le> currentRank s'" "\<not> allowed \<le> currentRank s'"
      by blast
    then show ?thesis
    proof cases
      case again
      from less.hyps [OF down] less.prems(1,2) turn le again show ?thesis by (simp add: trans_le_add1)
    next
      case last
      then have "currentRank s = 10" using less.prems turn(4) by auto
      then show ?thesis using last less.prems(1,2) turn le
        by (auto simp: settled_def Let_def word_sub_le word_le_nat_alt [symmetric] split: option.splits)
    next
      case limit
      then show ?thesis using less.prems(1,2) turn by (auto simp: settled_def Let_def split: option.splits)
    next
      case promoted
      let ?t = "promote (FindSkillRankBonus (skillRankBonusData d) (currentRank s') ty) s'"
      have "unat (totalExp ?t) < unat (totalExp s)" using down by simp
      from less.hyps [OF this] up [OF promoted(3)] le less.prems(2) turn promoted
      show ?thesis by (auto simp: trans_le_add1)
    qed
  qed
qed

section \<open>Growing\<close>

text \<open>What can happen to the values of a character, in any order.\<close>

datatype growth = Gain uint64 | SkillGain byte uint32 | SpendStat Reader | SpendStats Reader | SaveVits

primrec grow :: "Tables \<Rightarrow> uint16 \<Rightarrow> growth \<Rightarrow> 'm Game \<Rightarrow> 'm Game option" where
  "grow d i (Gain n) g = map_option snd (addExperience d i n g)"
| "grow d i (SkillGain ty n) g = Some (snd (addSkillExperience d i ty n g))"
| "grow d i (SpendStat r) g = UseStatBons i r g"
| "grow d i (SpendStats r) g = UserStatAutoDistribution i r g"
| "grow d i SaveVits g = Some (snd (saveContextVitals i g))"

primrec grows :: "Tables \<Rightarrow> uint16 \<Rightarrow> growth list \<Rightarrow> 'm Game \<Rightarrow> 'm Game option" where
  "grows d i [] g = Some g"
| "grows d i (e # es) g = Option.bind (grow d i e g) (grows d i es)"

primrec long_enough :: "growth \<Rightarrow> bool" where
  "long_enough (Gain n) = True"
| "long_enough (SkillGain ty n) = True"
| "long_enough (SpendStat r) \<longleftrightarrow> rindex r + 1 \<le> length (rbuffer r)"
| "long_enough (SpendStats r) \<longleftrightarrow> rindex r + 12 \<le> length (rbuffer r)"
| "long_enough SaveVits = True"

lemma addExperience_returns:
  assumes "parseCharacterLevels doc = Inr (characterLevels d)"
  shows "addExperience d i n g \<noteq> None"
proof -
  have "\<exists>y. LevelForExperience (characterLevels d) l e = Some y" for l e
    using level_loop_search [where levels = "characterLevels d", OF parseCharacterLevels_0 [OF assms]]
    unfolding LevelForExperience_def by blast
  then obtain f where lv: "\<And>l e. LevelForExperience (characterLevels d) l e = Some (f l e)" by metis
  have "returns (\<lambda>_. True) (addExperience d i n g)"
    unfolding addExperience_def Let_def lv Option.bind_lunit by (intro returns_intro TrueI)
  then show ?thesis by (auto simp: returns_def simp del: split_paired_Ex)
qed

lemma grow_returns:
  assumes "parseCharacterLevels doc = Inr (characterLevels d)" "long_enough e"
  shows "grow d i e g \<noteq> None"
proof (cases e)
  case (Gain n)
  then show ?thesis using addExperience_returns [OF assms(1)] by simp
next
  case (SpendStat r)
  then show ?thesis using assms(2) by (auto simp: UseStatBons_def ReadByte_def Let_def)
next
  case (SpendStats r)
  then show ?thesis using assms(2) by (auto simp: UserStatAutoDistribution_def ReadInt32_def Let_def)
qed simp_all

lemma grow_in_step:
  assumes "in_step world_row i g" "g_RPCHandler g = master" "grow d i e g = Some g'"
  shows "in_step world_row i g' \<and> only world_row i g g'"
proof (cases e)
  case (Gain n)
  then show ?thesis using assms(3) world.addExperience_in_step [OF assms(1,2)] by auto
next
  case (SkillGain ty n)
  then show ?thesis using assms(3) world.addSkillExperience_in_step [OF assms(1,2)]
    by (metis grow.simps(2) option.inject prod.collapse)
next
  case (SpendStat r)
  then show ?thesis using assms(3) world.UseStatBons_in_step [OF assms(1,2)] by simp
next
  case (SpendStats r)
  then show ?thesis using assms(3) world.UserStatAutoDistribution_in_step [OF assms(1,2)] by simp
next
  case SaveVits
  then show ?thesis using assms(3) world.saveContextVitals_in_step [OF assms(1,2)]
    by (metis grow.simps(5) option.inject prod.collapse)
qed

lemma grows_in_step:
  assumes "parseCharacterLevels doc = Inr (characterLevels d)" "list_all long_enough es"
    "in_step world_row i g" "g_RPCHandler g = master"
  shows "\<exists>g'. grows d i es g = Some g' \<and> in_step world_row i g' \<and> only world_row i g g'"
  using assms(2-4)
proof (induction es arbitrary: g)
  case (Cons e es)
  then obtain g1 where g1: "grow d i e g = Some g1" using grow_returns [OF assms(1), of e i g] by auto
  note s = grow_in_step [OF Cons.prems(2,3) g1]
  then have "g_RPCHandler g1 = master" using Cons.prems(3) by (simp add: only_def)
  from Cons.IH [of g1] this s Cons.prems(1) obtain g2 where
    "grows d i es g1 = Some g2" "in_step world_row i g2" "only world_row i g1 g2" by auto
  with g1 s show ?case by (auto intro: only_trans)
qed simp


definition novice :: "world Context" where
  "novice = (trader 1 1000 [] zero_TradeState)\<lparr>cChar := map_option (\<lambda>c. c\<lparr>CharSTR := 3, CharDEX := 4, CharINT := 5,
     CharPNT := 2\<rparr>) (cChar (trader 1 1000 [] zero_TradeState))\<rparr>"

definition school :: "(bool \<times> bool list) list \<Rightarrow> world Game" where
  "school cs = market [(1, novice)] [] cs"

definition sample_tables :: Tables where
  "sample_tables = \<lparr>characterLevels = [1 \<mapsto> \<lparr>lvLevel = 1, RequiredExp = 100, AccumulatedExp = 100\<rparr>,
       2 \<mapsto> \<lparr>lvLevel = 2, RequiredExp = 200, AccumulatedExp = 300\<rparr>],
     skillRankProgressData = Map.empty, skillRankBonusData = Map.empty, skillRankLimitData = Map.empty\<rparr>"

lemma school_novice:
  "\<exists>c. played 1 (school cs) = Some c \<and> CharId c = 1 \<and> fighter c \<and>
     recorded c (world_row (remote (school cs)) 1) \<and> CharPNT c = 2"
  by (simp add: school_def market_def Parse_def novice_def trader_def sample_style_def recorded_def sample_world_def
      sample_db_def sample_row_def char_progress_def progress_of_def)


text \<open>
  C11: Spending stat points, one or many, whatever the request asks for and whichever statement fails,
  neither makes nor loses points: strength, dexterity, intelligence and free points of every character add
  up to the same number afterwards, nothing else of the database changes, and no attribute wraps around.
\<close>

theorem stat_points_conserved:
  "(case SaveStat io r db of (res, db') \<Rightarrow> (\<forall>c. points (columns db' c) = points (columns db c)) \<and>
      db' = db\<lparr>columns := columns db'\<rparr>) \<and>
   (case SaveStatDistribution io q db of (res, db') \<Rightarrow> (\<forall>c. points (columns db' c) = points (columns db c)) \<and>
      db' = db\<lparr>columns := columns db'\<rparr>)"
proof -
  obtain res db1 where 1: "SaveStat io r db = (res, db1)" by fastforce
  obtain qes db2 where 2: "SaveStatDistribution io q db = (qes, db2)" by fastforce
  show ?thesis using SaveStat_effect [OF 1] SaveStatDistribution_effect [OF 2] 1 2 by (auto split: if_splits)
qed

text \<open>
  C17: Adding skill experience with accepted tables keeps the rank between the old one and the rank the
  level allows, at most ten; it credits no more than was gained; and it leaves over less experience than
  the next point takes, except for a full bar where the level stops the rank and nothing at the last rank.
\<close>

theorem skill_gain_bounded:
  assumes "parseSkillRankLimitData doc = Inr (skillRankLimitData d)"
    and "skill_gain d ty gained c = Some (end, u, allowed, t)" and "unat gained \<le> 30 * 65535"
    and "\<And>p. FindSkillRankProgress (skillRankProgressData d) (BattleStyle (CharStyle c)) (currentRank (rank_start ty gained c)) ty = Some p \<Longrightarrow>
      (if ty = 2 then MagicExp c else SwordExp c) \<le> skillRankExpForPoint p ty"
  shows "currentRank (rank_start ty gained c) \<le> currentRank end \<and> currentRank end \<le> allowed \<and> allowed \<le> 10 \<and>
     acceptedExp end \<le> gained \<and> settled d (BattleStyle (CharStyle c)) ty end"
proof -
  let ?s = "rank_start ty gained c" and ?style = "BattleStyle (CharStyle c)"
  have facts: "currentRank ?s \<le> allowed" "end = rank_loop d ?style ty allowed ?s"
    "allowed = fst (SkillRankLimitFor (skillRankLimitData d) (cLevel c) (MasteryLevel (CharStyle c)))"
    using assms(2) by (auto simp: skill_gain_def Let_def split: prod.splits if_splits option.splits)
  have ten: "allowed \<le> 10" using parseSkillRankLimitData_ranks [OF assms(1)] facts(3) by simp
  let ?e = "if ty = 2 then MagicExp c else SwordExp c"
  have "unat ?e < 65536" by (rule uint16_less)
  then have "unat (ucast ?e :: uint32) + unat gained < 2 ^ 32" using assms(3) by (simp add: unat_up)
  then have "unat (totalExp ?s) = unat ?e + unat gained"
    by (simp add: rank_start_def Let_def unat_checked unat_up)
  moreover have "acceptedExp ?s = gained" by (simp add: rank_start_def Let_def)
  ultimately have "unat (totalExp ?s) \<le> unat (acceptedExp ?s) + unat (skillRankExpForPoint p ty)"
    if "FindSkillRankProgress (skillRankProgressData d) ?style (currentRank ?s) ty = Some p" for p
    using assms(4) [OF that] by (simp add: word_le_nat_alt)
  from rank_loop_result [OF facts(1) ten this] facts(2) ten \<open>acceptedExp ?s = gained\<close> show ?thesis by simp
qed

definition sample_limits :: Document where
  "sample_limits = Some [StartElement ''rank_limit'' [],
     StartElement ''limit'' [(''rank'', ''2''), (''level'', ''1''), (''bs_lv'', ''1'')], EndElement ''rank_limit'']"

definition rank_tables :: Tables where
  "rank_tables = sample_tables\<lparr>
     skillRankProgressData := (\<lambda>_. Some \<lparr>SwordExpForPoint = 10, MagicExpForPoint = 10, SwordRankPoints = 2, MagicRankPoints = 2\<rparr>),
     skillRankLimitData := [1 \<mapsto> \<lparr>limitRank = 2, CharacterLevel = 1, BattleStyleLevel = 1\<rparr>]\<rparr>"

lemma sample_limits_parsed: "parseSkillRankLimitData sample_limits = Inr (skillRankLimitData rank_tables)"
  by (simp add: parseSkillRankLimitData_def sample_limits_def limit_step_def parseSkillRankLimit_def uintAttribute_def
      ParseUint_def digit_def refuse_def rank_tables_def)

definition apprentice :: "world Character" where
  "apprentice = (the (cChar novice))\<lparr>CharStyle := (CharStyle (the (cChar novice)))\<lparr>MasteryLevel := 1\<rparr>\<rparr>"

lemma apprentice_fields:
  "BattleStyle (CharStyle apprentice) = 3" "MasteryLevel (CharStyle apprentice) = 1" "cLevel apprentice = 1"
  "SwordRank apprentice = 1" "SwordExp apprentice = 0" "SwordRankExp apprentice = 0" "SwordPoint apprentice = 0"
  by (simp_all add: apprentice_def novice_def trader_def sample_style_def)

text \<open>Twenty points of experience buy the two points that lead from the first rank to the second.\<close>

lemma apprentice_gain:
  "\<exists>s u t. skill_gain rank_tables 1 25 apprentice = Some (s, u, 2, t) \<and> currentRank s = 2 \<and> totalExp s = 5"
proof -
  have less: "(1 :: uint16) < - 1" "(0 :: uint16) < - 1" by (simp_all add: word_order.not_eq_extremum [symmetric])
  have le: "\<not> (2 :: byte) \<le> 1" "\<not> (10 :: byte) \<le> 1" by (simp_all add: word_le_nat_alt)
  show ?thesis
    by (simp add: skill_gain_def rank_start_def apprentice_fields SkillRankLimitFor_def rank_tables_def
        FindSkillRankProgress_def FindSkillRankBonus_def skillRankExpForPoint_def skillRankPointsForRank_def
        rank_loop.simps gain_point_def promote_def sample_tables_def Let_def less le)
qed

theorem skill_gain_bounded_witness:
  "\<exists>s u t. skill_gain rank_tables 1 25 apprentice = Some (s, u, 2, t) \<and> currentRank s \<le> 2 \<and> acceptedExp s \<le> 25 \<and>
     settled rank_tables 3 1 s"
proof -
  obtain s u t where s: "skill_gain rank_tables 1 25 apprentice = Some (s, u, 2, t)" using apprentice_gain by blast
  have "p = \<lparr>SwordExpForPoint = 10, MagicExpForPoint = 10, SwordRankPoints = 2, MagicRankPoints = 2\<rparr>"
    if "FindSkillRankProgress (skillRankProgressData rank_tables) k j 1 = Some p" for k j p
    using that by (auto simp: FindSkillRankProgress_def rank_tables_def split: if_splits)
  then show ?thesis
    using skill_gain_bounded [OF sample_limits_parsed s] s
    by (simp add: apprentice_fields skillRankExpForPoint_def)
qed

section \<open>Where memory and row part\<close>

lemma set_progress_same: "set_progress (progress_of row) row = row"
  by (simp add: set_progress_def progress_of_def)

lemma SaveSkillExperience_refused:
  assumes "SaveSkillExperience io r db = (res, db')"
    and "New r = Expected r \<or> progress_of (columns db (seCharacter r)) \<noteq> Expected r"
  shows "res \<noteq> Some (Inr True)"
proof
  assume t: "res = Some (Inr True)"
  with SaveSkillExperience_effect [OF assms(1)] assms(2) have e: "progress_of (columns db (seCharacter r)) = Expected r"
    "New r = Expected r" by auto
  from assms(1) t show False
    by (auto simp: SaveSkillExperience_def Let_def dest!: Exec_cases split: prod.splits sum.splits if_splits)
      (use e set_progress_same in \<open>metis\<close>)
qed

lemma skill_experience_refused:
  assumes "addSkillExperienceForType d i ty n g = (r, g')" "played i g = Some c" "g_RPCHandler g = master"
    and "progress_of (world_row (remote g) (CharId c)) \<noteq> char_progress c \<or>
      (\<forall>e u a t. skill_gain d ty n c = Some (e, u, a, t) \<longrightarrow> char_progress u = char_progress c)"
  shows "r = no_skill_gain \<and> played i g' = Some c \<and> world_row (remote g') = world_row (remote g)"
proof (cases "n = 0 \<or> ty \<noteq> 1 \<and> ty \<noteq> 2 \<or> skill_gain d ty n c = None")
  case True
  then show ?thesis using assms(1,2) by (auto simp: addSkillExperienceForType_def split: if_splits)
next
  case False
  then obtain e u a t where u: "skill_gain d ty n c = Some (e, u, a, t)" by auto
  let ?req = "\<lparr>seServer = ServerId g, seCharacter = CharId c, Expected = char_progress c, New = char_progress u\<rparr>"
  obtain res m where m: "call_skill_experience master ?req (remote g) = (res, m)" by fastforce
  then have s: "serve SaveSkillExperience ?req (remote g) = (res, m)" by simp
  have "res \<noteq> Inr True"
    using s
  proof (cases rule: serve_cases)
    case lost
    then show ?thesis by simp
  next
    case (run io r)
    have "r \<noteq> Some (Inr True)" by (rule SaveSkillExperience_refused [OF run(1)]) (use assms(4) u in auto)
    with run(3) show ?thesis by auto
  qed
  with world.skill_experience [OF m] have "world_row m = world_row (remote g)" by simp
  with assms(1-3) False u m \<open>res \<noteq> Inr True\<close> show ?thesis by (auto simp: addSkillExperienceForType_def Let_def)
qed

text \<open>
  C36: A character whose health or mana in memory is not the stored one, as after a save of its vitals
  that was lost, gains no skill experience at all, however much it is given: the update compares every
  stored value with the one in memory, and nothing brings the two together.
\<close>

theorem stale_vitals_refused:
  assumes "played i g = Some c" and "g_RPCHandler g = master"
    and "progress_of (world_row (remote g) (CharId c)) \<noteq> char_progress c"
  shows "case addSkillExperienceForType d i ty n g of (r, g') \<Rightarrow>
     r = no_skill_gain \<and> played i g' = Some c \<and> world_row (remote g') = world_row (remote g)"
proof -
  obtain r g' where "addSkillExperienceForType d i ty n g = (r, g')" by fastforce
  with skill_experience_refused [OF this assms(1,2)] assms(3) show ?thesis by simp
qed

theorem stale_vitals_refused_witness:
  "case addSkillExperienceForType rank_tables 1 1 25 (upd 1 (on_char (\<lambda>c. c\<lparr>CurrentMP := 0\<rparr>)) (school [])) of
     (r, g') \<Rightarrow> r = no_skill_gain \<and> world_row (remote g') = world_row (remote (school []))"
proof -
  obtain c where c: "played 1 (school []) = Some c" "recorded c (world_row (remote (school [])) 1)" "CharId c = 1"
    using school_novice [of "[]"] by auto
  let ?g = "upd 1 (on_char (\<lambda>c. c\<lparr>CurrentMP := 0\<rparr>)) (school [])"
  have "played 1 ?g = Some (c\<lparr>CurrentMP := 0\<rparr>)" using c(1) by simp
  moreover have "g_RPCHandler ?g = master" by (simp add: school_def market_def)
  moreover have "progress_of (world_row (remote ?g) (CharId (c\<lparr>CurrentMP := 0\<rparr>))) \<noteq> char_progress (c\<lparr>CurrentMP := 0\<rparr>)"
    by (simp add: school_def market_def sample_world_def sample_db_def sample_row_def progress_of_def char_progress_def)
  ultimately show ?thesis
    using stale_vitals_refused [of 1 ?g "c\<lparr>CurrentMP := 0\<rparr>" rank_tables 1 25] by (auto split: prod.splits)
qed

text \<open>
  C37: Where the level stops the sword rank, the first hit fills the bar and tells the client; every later
  hit ends in an update that would change nothing, which the database reports as no row changed: the
  server takes that for a conflict, and the client is not told of the limit again.
\<close>

theorem full_bar_refused:
  assumes "played i g = Some c" and "g_RPCHandler g = master" and "unat n \<le> 30 * 65535"
    and "FindSkillRankProgress (skillRankProgressData d) (BattleStyle (CharStyle c)) (SwordRank c) 1 = Some p"
    and "fst (SkillRankLimitFor (skillRankLimitData d) (cLevel c) (MasteryLevel (CharStyle c))) = SwordRank c"
    and "SwordRank c < 10" and "SwordRank c \<noteq> 0" and "SwordExpForPoint p \<noteq> 0" and "SwordExp c = SwordExpForPoint p"
    and "SwordRankExp c + 1 = SwordRankPoints p" and "SwordRankPoints p \<noteq> 0" and "SwordPoint c \<noteq> - 1"
  shows "case addSkillExperienceForType d i 1 n g of (r, g') \<Rightarrow> r = no_skill_gain \<and> played i g' = Some c"
proof -
  let ?s = "rank_start 1 n c"
  have full: "SwordRankExp c \<noteq> - 1" using assms(10,11) by auto
  have less: "x < - 1" if "x \<noteq> - 1" for x :: uint16 using that by (simp add: word_order.not_eq_extremum)
  have "unat (SwordExp c) < 65536" by (rule uint16_less)
  then have "unat (ucast (SwordExp c) :: uint32) + unat n < 2 ^ 32" using assms(3) by (simp add: unat_up)
  then have total: "\<not> totalExp ?s < ucast (SwordExp c)"
    by (simp add: rank_start_def Let_def not_less word_le_nat_alt unat_checked)
  have loop: "rank_loop d (BattleStyle (CharStyle c)) 1 (SwordRank c) ?s = at_limit (SwordExp c) (gain_point (SwordExp c) ?s)"
    using assms(4,6-11) total full less
    by (subst rank_loop.simps) (simp add: rank_start_def gain_point_def skillRankExpForPoint_def
        skillRankPointsForRank_def Let_def)
  have cap: "uint16_cap (ucast x) = x" for x :: uint16
  proof -
    have "\<not> (65535 :: uint32) < ucast x" using uint16_less [of x] by (simp add: word_less_nat_alt unat_up)
    moreover have "ucast (ucast x :: uint32) = x" 
      by (rule bit_word_eqI) (auto simp: bit_simps)
    ultimately show ?thesis by (simp add: uint16_cap_def)
  qed
  have up: "x + 1 \<noteq> 0" if "x \<noteq> - 1" for x :: uint16 using that by (metis add.inverse_unique add.commute)
  have "char_progress (rank_finish 1 (at_limit (SwordExp c) (gain_point (SwordExp c) ?s)) c) = char_progress c"
    using assms(7,12) full less up
    by (simp add: rank_finish_def at_limit_def gain_point_def rank_start_def Let_def cap char_progress_def word_gt_0)
  then have "\<forall>e u a t. skill_gain d 1 n c = Some (e, u, a, t) \<longrightarrow> char_progress u = char_progress c"
    using loop assms(5) by (auto simp: skill_gain_def Let_def split: prod.splits if_splits option.splits)
  moreover obtain r g' where "addSkillExperienceForType d i 1 n g = (r, g')" by fastforce
  ultimately show ?thesis using skill_experience_refused [OF _ assms(1,2)] by (auto split: prod.splits)
qed

definition journeyman :: "world Context" where
  "journeyman = novice\<lparr>cChar := map_option (\<lambda>c. c\<lparr>CharStyle := (CharStyle c)\<lparr>MasteryLevel := 1\<rparr>,
     SwordRank := 2, SwordExp := 10, SwordRankExp := 1\<rparr>) (cChar novice)\<rparr>"

theorem full_bar_refused_witness:
  "case addSkillExperienceForType rank_tables 1 1 25 (market [(1, journeyman)] [] []) of (r, g') \<Rightarrow> r = no_skill_gain"
proof -
  let ?g = "market [(1, journeyman)] [] []"
  obtain c where c: "cChar journeyman = Some c" "BattleStyle (CharStyle c) = 3" "MasteryLevel (CharStyle c) = 1"
    "cLevel c = 1" "SwordRank c = 2" "SwordExp c = 10" "SwordRankExp c = 1" "SwordPoint c = 0"
    by (simp add: journeyman_def novice_def trader_def sample_style_def)
  have "played 1 ?g = Some c" using c(1) by (simp add: market_def Parse_def)
  moreover have "g_RPCHandler ?g = master" by (simp add: market_def)
  moreover have "FindSkillRankProgress (skillRankProgressData rank_tables) 3 2 1 =
      Some \<lparr>SwordExpForPoint = 10, MagicExpForPoint = 10, SwordRankPoints = 2, MagicRankPoints = 2\<rparr>"
    by (simp add: FindSkillRankProgress_def rank_tables_def)
  moreover have "fst (SkillRankLimitFor (skillRankLimitData rank_tables) 1 1) = 2"
    by (simp add: SkillRankLimitFor_def rank_tables_def)
  ultimately show ?thesis
    using full_bar_refused [of 1 ?g c 25 rank_tables] c by (simp split: prod.splits)
qed

end
