(* ===== verification/Freya_SkillData.thy ===== *)
theory Freya_SkillData
  imports Freya_Xml "HOL-Library.Signed_Division"
begin

text \<open>
  The tables of skills (\<open>clientdata/skills.go\<close>, \<open>skillmeta.go\<close>, \<open>skillbuff.go\<close>): the coefficients of damage,
  cost and buffs, how they are read, and the formulas over them. Go's \<open>/\<close> on \<open>int\<close> truncates: \<open>sdiv\<close>. The
  coefficients come from the client's own files, their products are taken without overflow.
\<close>

section \<open>Damage (skills.go)\<close>

record SkillDamageInfo =
  PhysicalAttackCoef :: int
  MagicAttackCoef :: int
  LevelAttackCoef :: int
  BaseAttack :: int
  DamageType :: byte
  NormalSkillExp :: uint16
  CriticalSkillExp :: uint16

definition zero_SkillDamageInfo :: SkillDamageInfo where
  "zero_SkillDamageInfo = \<lparr>PhysicalAttackCoef = 0, MagicAttackCoef = 0, LevelAttackCoef = 0, BaseAttack = 0,
     DamageType = 0, NormalSkillExp = 0, CriticalSkillExp = 0\<rparr>"

type_synonym damage_table = "uint16 \<rightharpoonup> SkillDamageInfo"

definition SkillSlotRange :: "damage_table \<Rightarrow> uint16 \<Rightarrow> (uint16 \<times> uint16) option" where
  "SkillSlotRange skillDamageData skillID =
     (case skillDamageData skillID of
        None \<Rightarrow> None
      | Some info \<Rightarrow>
          if DamageType info = 1 then Some (0, 31)
          else if DamageType info = 2 then Some (32, 63)
          else None)"

definition skillDeltaAttackAmp :: "int \<Rightarrow> int" where
  "skillDeltaAttackAmp level = level sdiv 10 + level sdiv 13 + level sdiv 16 + level sdiv 19"

definition Calculate :: "SkillDamageInfo \<Rightarrow> int \<Rightarrow> int \<Rightarrow> byte \<Rightarrow> int" where
  "Calculate info physicalAttack magicAttack level =
     (let levelIndex = uint (if level = 0 then 1 else level);
          deltaAmp = skillDeltaAttackAmp levelIndex;
          physicalCoef = 10 * PhysicalAttackCoef info + (if DamageType info = 1 then 5 * deltaAmp else 0);
          magicCoef = 10 * MagicAttackCoef info + (if DamageType info = 2 then 5 * deltaAmp else 0);
          damage = (physicalCoef * physicalAttack + magicCoef * magicAttack +
            10 * LevelAttackCoef info * levelIndex + 10 * BaseAttack info) sdiv 100
      in if damage < 1 then 1 else damage)"

text \<open>\<open>Atoi\<close> of the parts of a value, spaces trimmed, with one message for every failure.\<close>

primrec atoi_all :: "string \<Rightarrow> string list \<Rightarrow> string + int list" where
  "atoi_all err [] = Inr []"
| "atoi_all err (part # parts) =
     (case Atoi (TrimSpace part) of
        None \<Rightarrow> Inl err
      | Some v \<Rightarrow> attempt (atoi_all err parts) (\<lambda>vs. Inr (v # vs)))"

definition parseSkillAttackCoefficients :: "string \<Rightarrow> string + SkillDamageInfo" where
  "parseSkillAttackCoefficients v =
     (if TrimSpace v = [] then Inr zero_SkillDamageInfo
      else
        let parts = Split v CHR '','' in
        if length parts = 2
        then attempt (atoi_all ''invalid skill attack coefficient'' parts) (\<lambda>_. Inr zero_SkillDamageInfo)
        else
          attempt (refuse (length parts \<noteq> 4) ''invalid skill attack coefficients'') (\<lambda>_.
          attempt (atoi_all ''invalid skill attack coefficient'' parts) (\<lambda>coefficients.
          Inr (zero_SkillDamageInfo\<lparr>PhysicalAttackCoef := coefficients ! 0, MagicAttackCoef := coefficients ! 1,
            LevelAttackCoef := coefficients ! 2, BaseAttack := coefficients ! 3\<rparr>))))"

record damage_parser =
  dData :: damage_table
  dSkillID :: uint16
  dSkillType :: byte
  dSkillExp1 :: uint16
  dSkillExp2 :: uint16
  dInSkillMain :: bool

definition damage_power :: "attributes \<Rightarrow> damage_parser \<Rightarrow> string + damage_parser" where
  "damage_power attrs s =
     attempt (stringAttribute attrs ''atk'') (\<lambda>attack.
     attempt (parseSkillAttackCoefficients attack) (\<lambda>values.
     attempt (refuse (dData s (dSkillID s) \<noteq> None) ''duplicate skill damage data'') (\<lambda>_.
     Inr (s\<lparr>dData := (dData s)(dSkillID s \<mapsto> values\<lparr>DamageType := dSkillType s, NormalSkillExp := dSkillExp1 s,
       CriticalSkillExp := dSkillExp2 s\<rparr>)\<rparr>))))"

definition damage_step :: "Token \<Rightarrow> damage_parser \<Rightarrow> string + damage_parser" where
  "damage_step t s =
     (case t of
        StartElement name attrs \<Rightarrow>
          if name = ''skill_main'' then
            attempt (uintAttribute attrs ''id'' 16) (\<lambda>i.
            attempt (refuse (i = 0) ''skill_main has invalid id 0'') (\<lambda>_.
            attempt (uintAttribute attrs ''type'' 8) (\<lambda>typeValue.
            Inr (s\<lparr>dSkillID := word_of_nat i, dSkillType := word_of_nat typeValue, dSkillExp1 := 0, dSkillExp2 := 0,
              dInSkillMain := True\<rparr>))))
          else if name = ''skill_param'' \<and> dInSkillMain s then
            attempt (uintAttribute attrs ''exp1'' 16) (\<lambda>exp1.
            attempt (uintAttribute attrs ''exp2'' 16) (\<lambda>exp2.
            Inr (s\<lparr>dSkillExp1 := word_of_nat exp1, dSkillExp2 := word_of_nat exp2\<rparr>)))
          else if name = ''power'' \<and> dInSkillMain s then damage_power attrs s
          else Inr s
      | EndElement name \<Rightarrow>
          Inr (if name = ''skill_main''
               then s\<lparr>dSkillID := 0, dSkillType := 0, dSkillExp1 := 0, dSkillExp2 := 0, dInSkillMain := False\<rparr>
               else s)
      | _ \<Rightarrow> Inr s)"

definition parseSkillDamageData :: "Document \<Rightarrow> string + damage_table" where
  "parseSkillDamageData cabalData =
     (case cabalData of
        None \<Rightarrow> Inl ''cabal.dec does not contain a cabal XML section''
      | Some tokens \<Rightarrow>
          attempt (scan damage_step tokens \<lparr>dData = Map.empty, dSkillID = 0, dSkillType = 0, dSkillExp1 = 0,
            dSkillExp2 = 0, dInSkillMain = False\<rparr>) (\<lambda>s.
          attempt (refuse (dData s = Map.empty) ''cabal.dec does not contain skill damage data'') (\<lambda>_. Inr (dData s))))"

section \<open>Costs (skillmeta.go)\<close>

record SkillMeta =
  Group :: byte
  Exclusive :: byte
  MPWastePerLevel :: int
  MPWasteBase :: int
  MPWasteModePerLevel :: int
  MPWasteModeBase :: int
  SPWaste :: int
  PreparationMS :: int

definition zero_SkillMeta :: SkillMeta where
  "zero_SkillMeta = \<lparr>Group = 0, Exclusive = 0, MPWastePerLevel = 0, MPWasteBase = 0, MPWasteModePerLevel = 0,
     MPWasteModeBase = 0, SPWaste = 0, PreparationMS = 0\<rparr>"

definition MPWaste :: "SkillMeta \<Rightarrow> byte \<Rightarrow> uint16" where
  "MPWaste m level =
     (let l = uint (if level = 0 then 1 else level);
          waste = (MPWastePerLevel m * l + MPWasteBase m) sdiv 10 +
            (\<Sum>threshold \<leftarrow> [10, 13, 16, 19]. ((l sdiv threshold) * MPWastePerLevel m) sdiv 10)
      in if waste \<le> 0 then 0 else if 0xFFFF < waste then 0xFFFF else word_of_int waste)"

definition BattleModeMPWaste :: "SkillMeta \<Rightarrow> byte \<Rightarrow> byte \<Rightarrow> int" where
  "BattleModeMPWaste m masteryLevel modeType =
     (let skillLevel =
            (if modeType = 1 then if masteryLevel < 4 then 1 else uint masteryLevel - 3
             else if modeType = 2 then if uint masteryLevel - 5 < 0 then 0 else uint masteryLevel - 5
             else 0)
      in MPWasteModePerLevel m * skillLevel + MPWasteModeBase m)"

definition parseSkillCost :: "string \<Rightarrow> string + int \<times> int" where
  "parseSkillCost v =
     (let parts = Split v CHR '','' in
      attempt (refuse (length parts \<noteq> 2) ''invalid MP cost'') (\<lambda>_.
      attempt (atoi_all ''invalid MP cost'' parts) (\<lambda>vs. Inr (vs ! 0, vs ! 1))))"

type_synonym meta_table = "uint16 \<rightharpoonup> SkillMeta"

record meta_parser =
  mData :: meta_table
  mSkillID :: uint16
  mMeta :: SkillMeta
  mInSkillMain :: bool
  mConditionSet :: bool

definition meta_cost :: "attributes \<Rightarrow> SkillMeta \<Rightarrow> string + SkillMeta" where
  "meta_cost attrs meta =
     attempt (stringAttribute attrs ''mp'') (\<lambda>mp.
     if TrimSpace mp = [] then Inr meta
     else
       attempt (parseSkillCost mp) (\<lambda>(perLevel, base).
       let meta = meta\<lparr>MPWastePerLevel := perLevel, MPWasteBase := base\<rparr> in
       attempt (stringAttribute attrs ''sp'') (\<lambda>spCost.
       attempt (if TrimSpace spCost = [] then Inr meta
                else case Atoi (TrimSpace spCost) of
                  None \<Rightarrow> Inl ''invalid SP cost'' | Some v \<Rightarrow> Inr (meta\<lparr>SPWaste := v\<rparr>)) (\<lambda>meta.
       let modeCost = (case map_of attrs ''mpadd'' of Some v \<Rightarrow> v | None \<Rightarrow> []) in
       if TrimSpace modeCost = [] then Inr meta
       else attempt (parseSkillCost modeCost) (\<lambda>(modePerLevel, modeBase).
         Inr (meta\<lparr>MPWasteModePerLevel := modePerLevel, MPWasteModeBase := modeBase\<rparr>))))))"

definition meta_step :: "Token \<Rightarrow> meta_parser \<Rightarrow> string + meta_parser" where
  "meta_step t s =
     (case t of
        StartElement name attrs \<Rightarrow>
          if name = ''skill_main'' then
            attempt (uintAttribute attrs ''id'' 16) (\<lambda>i.
            attempt (refuse (i = 0) ''skill_main has invalid id 0'') (\<lambda>_.
            attempt (uintAttribute attrs ''group'' 8) (\<lambda>group.
            attempt (refuse (mData s (word_of_nat i) \<noteq> None) ''duplicate skill metadata'') (\<lambda>_.
            Inr (s\<lparr>mSkillID := word_of_nat i, mMeta := zero_SkillMeta\<lparr>Group := word_of_nat group\<rparr>,
              mConditionSet := False, mInSkillMain := True\<rparr>)))))
          else if \<not> mInSkillMain s then Inr s
          else if name = ''condition'' \<and> \<not> mConditionSet s then
            attempt (optionalUintAttribute attrs ''exclusive'' 8) (\<lambda>exclusive.
            Inr (case exclusive of
                   None \<Rightarrow> s
                 | Some e \<Rightarrow> s\<lparr>mMeta := (mMeta s)\<lparr>Exclusive := word_of_nat e\<rparr>, mConditionSet := True\<rparr>))
          else if name = ''frame'' then
            attempt (optionalUintAttribute attrs ''term'' 32) (\<lambda>term.
            Inr (case term of
                   None \<Rightarrow> s
                 | Some n \<Rightarrow> s\<lparr>mMeta := (mMeta s)\<lparr>PreparationMS := (int n * 1000) sdiv 30\<rparr>\<rparr>))
          else if name = ''cost'' then
            attempt (meta_cost attrs (mMeta s)) (\<lambda>meta. Inr (s\<lparr>mMeta := meta\<rparr>))
          else Inr s
      | EndElement name \<Rightarrow>
          Inr (if name = ''skill_main'' \<and> mInSkillMain s
               then s\<lparr>mData := (mData s)(mSkillID s \<mapsto> mMeta s), mSkillID := 0, mMeta := zero_SkillMeta,
                 mConditionSet := False, mInSkillMain := False\<rparr>
               else s)
      | _ \<Rightarrow> Inr s)"

definition parseSkillMetaData :: "Document \<Rightarrow> string + meta_table" where
  "parseSkillMetaData cabalData =
     (case cabalData of
        None \<Rightarrow> Inl ''cabal.dec does not contain a cabal XML section''
      | Some tokens \<Rightarrow>
          attempt (scan meta_step tokens \<lparr>mData = Map.empty, mSkillID = 0, mMeta = zero_SkillMeta,
            mInSkillMain = False, mConditionSet = False\<rparr>) (\<lambda>s.
          attempt (refuse (mData s = Map.empty) ''cabal.dec does not contain skill metadata'') (\<lambda>_. Inr (mData s))))"

section \<open>Buffs (skillbuff.go)\<close>

record SkillBuffEffect =
  EffForceID :: int
  ValueA :: int
  ValueB :: int
  DurationA :: int
  DurationB :: int
  EffValueType :: byte

definition Effect_Value :: "SkillBuffEffect \<Rightarrow> byte \<Rightarrow> int" where
  "Effect_Value e level = (let level = (if level = 0 then 1 else level) in (ValueA e * uint level + ValueB e) sdiv 10)"

definition Effect_Duration :: "SkillBuffEffect \<Rightarrow> byte \<Rightarrow> int" where
  "Effect_Duration e level = (let level = (if level = 0 then 1 else level) in DurationA e * uint level + DurationB e)"

text \<open>A \<open>SkillBuffInfo\<close> is the list of its effects. The shortest of the durations that are positive, or 0.\<close>

definition Info_Duration :: "SkillBuffEffect list \<Rightarrow> byte \<Rightarrow> int" where
  "Info_Duration info level =
     fold (\<lambda>effect result.
       let duration = Effect_Duration effect level in
       if duration \<le> 0 then result else if result = 0 \<or> duration < result then duration else result) info 0"

definition parseSkillBuffPair :: "string \<Rightarrow> string + int \<times> int" where
  "parseSkillBuffPair v =
     (if TrimSpace v = [] then Inr (0, 0)
      else
        let parts = Split v CHR '','' in
        attempt (refuse (length parts < 2) ''expected two coefficients'') (\<lambda>_.
        attempt (atoi_all ''invalid syntax'' (take 2 parts)) (\<lambda>vs. Inr (vs ! 0, vs ! 1))))"

type_synonym buff_table = "uint16 \<rightharpoonup> SkillBuffEffect list"

record buff_parser =
  bData :: buff_table
  bSkillID' :: uint16
  bInfo :: "SkillBuffEffect list"
  bInSkillValue :: bool

definition buff_value :: "attributes \<Rightarrow> string + SkillBuffEffect" where
  "buff_value attrs =
     attempt (uintAttribute attrs ''bforce_id'' 16) (\<lambda>forceID.
     attempt (stringAttribute attrs ''bforce_value'') (\<lambda>forceValue.
     attempt (parseSkillBuffPair forceValue) (\<lambda>(valueA, valueB).
     let duration = (case map_of attrs ''dur'' of Some v \<Rightarrow> v | None \<Rightarrow> []) in
     attempt (parseSkillBuffPair duration) (\<lambda>(durationA, durationB).
     attempt (optionalUintAttribute attrs ''value_type'' 8) (\<lambda>valueType.
     Inr \<lparr>EffForceID = int forceID, ValueA = valueA, ValueB = valueB, DurationA = durationA, DurationB = durationB,
       EffValueType = (case valueType of None \<Rightarrow> 1 | Some v \<Rightarrow> word_of_nat v)\<rparr>)))))"

definition buff_step :: "Token \<Rightarrow> buff_parser \<Rightarrow> string + buff_parser" where
  "buff_step t s =
     (case t of
        StartElement name attrs \<Rightarrow>
          if name = ''skill_value'' then
            attempt (uintAttribute attrs ''id'' 16) (\<lambda>i.
            attempt (refuse (i = 0) ''skill_value has invalid id 0'') (\<lambda>_.
            attempt (refuse (bData s (word_of_nat i) \<noteq> None) ''duplicate skill buff data'') (\<lambda>_.
            Inr (s\<lparr>bSkillID' := word_of_nat i, bInfo := [], bInSkillValue := True\<rparr>))))
          else if name = ''value'' \<and> bInSkillValue s then
            attempt (buff_value attrs) (\<lambda>effect. Inr (s\<lparr>bInfo := bInfo s @ [effect]\<rparr>))
          else Inr s
      | EndElement name \<Rightarrow>
          Inr (if name = ''skill_value'' \<and> bInSkillValue s
               then s\<lparr>bData := (bData s)(bSkillID' s \<mapsto> bInfo s), bSkillID' := 0, bInfo := [], bInSkillValue := False\<rparr>
               else s)
      | _ \<Rightarrow> Inr s)"

definition parseSkillBuffData :: "Document \<Rightarrow> string + buff_table" where
  "parseSkillBuffData cabalData =
     (case cabalData of
        None \<Rightarrow> Inl ''cabal.dec does not contain a cabal XML section''
      | Some tokens \<Rightarrow>
          attempt (scan buff_step tokens \<lparr>bData = Map.empty, bSkillID' = 0, bInfo = [], bInSkillValue = False\<rparr>) (\<lambda>s.
          attempt (refuse (bData s = Map.empty) ''cabal.dec does not contain skill buff data'') (\<lambda>_. Inr (bData s))))"

end
