(* ===== verification/Freya_ItemData.thy ===== *)
theory Freya_ItemData
  imports Freya_Items Freya_SkillData "HOL-Library.AList"
begin

text \<open>
  What the game server knows of items (\<open>cmd/gameserver/clientdata\<close>): the records of \<open>item.dec\<close> with types,
  prices, potions and armor binders (\<open>skillbooks.go\<close>, \<open>item_attach.go\<close>, \<open>potions.go\<close>, \<open>armor_binder.go\<close>), the
  attack of weapons (\<open>weapons.go\<close>), shops (\<open>shops.go\<close>) and skill books. A document that the code decodes into structs
  is an argument, as the struct. \<open>Initialize\<close> calls \<open>detectItemLayout\<close> first, so a record is never empty.
\<close>

abbreviation (input) itemDataKindMask :: uint32 where "itemDataKindMask \<equiv> 0x00000FFF"
abbreviation (input) itemKindIndexMask :: uint32 where "itemKindIndexMask \<equiv> 0x00001FFF"
abbreviation (input) upgradeCoreMask :: uint32 where "upgradeCoreMask \<equiv> 0x0001E000"
abbreviation (input) itemNameOffset :: nat where "itemNameOffset \<equiv> 64"
abbreviation (input) itemTypeOffset :: nat where "itemTypeOffset \<equiv> 204"
abbreviation (input) itemSellPriceOffset :: nat where "itemSellPriceOffset \<equiv> 327"
abbreviation (input) skillBookSkillOffset :: nat where "skillBookSkillOffset \<equiv> 339"

section \<open>Records (skillbooks.go)\<close>

record itemFileLayout =
  headerSize :: nat
  recordSize :: nat

text \<open>\<open>bytes.Index\<close>.\<close>

fun Index :: "byte list \<Rightarrow> byte list \<Rightarrow> nat option" where
  "Index [] sep = (if sep = [] then Some 0 else None)"
| "Index (b # bs) sep = (if take (length sep) (b # bs) = sep then Some 0 else map_option Suc (Index bs sep))"

definition item_name :: "byte \<Rightarrow> byte list" where
  "item_name d = [0x69, 0x74, 0x65, 0x6D, d, 0]"

definition detectItemLayout :: "byte list \<Rightarrow> string + itemFileLayout" where
  "detectItemLayout data =
     (case (Index data (item_name 0x31), Index data (item_name 0x32)) of
        (Some firstName, Some secondName) \<Rightarrow>
          if firstName < itemNameOffset \<or> secondName \<le> firstName then Inl ''item.dec has an unsupported record layout''
          else
            let layout = \<lparr>headerSize = firstName - itemNameOffset, recordSize = secondName - firstName\<rparr> in
            if recordSize layout \<le> skillBookSkillOffset + 4 then Inl ''item.dec record is too short'' else Inr layout
      | _ \<Rightarrow> Inl ''item.dec has an unsupported record layout'')"

text \<open>The items with their records, from 1 on, as every loop over the file visits them.\<close>

definition item_records :: "itemFileLayout \<Rightarrow> byte list \<Rightarrow> (uint32 \<times> byte list) list" where
  "item_records layout data =
     map (\<lambda>i. (word_of_nat (Suc i), take (recordSize layout) (drop (headerSize layout + i * recordSize layout) data)))
       [0..<(length data - headerSize layout) div recordSize layout]"

text \<open>\<open>binary.LittleEndian.Uint32\<close> at an offset.\<close>

definition Uint32_at :: "nat \<Rightarrow> byte list \<Rightarrow> uint32" where
  "Uint32_at offset data = le_word (take 4 (drop offset data))"

record itemSellInfo =
  sellPrice :: uint64
  sellType :: uint32

definition parseItemSellPrices :: "byte list \<Rightarrow> itemFileLayout \<Rightarrow> string + (uint32 \<rightharpoonup> itemSellInfo)" where
  "parseItemSellPrices data layout =
     attempt (refuse (recordSize layout < itemSellPriceOffset + 4 \<and> item_records layout data \<noteq> [])
       ''record does not contain sell price'') (\<lambda>_.
     let prices = fold (\<lambda>(itemID, record) prices.
           let price = Uint32_at itemSellPriceOffset record in
           if price = 0 then prices
           else prices(itemID \<mapsto> \<lparr>sellPrice = ucast price, sellType = Uint32_at itemTypeOffset record\<rparr>))
         (item_records layout data) Map.empty in
     attempt (refuse (prices = Map.empty) ''item.dec does not contain item sell prices'') (\<lambda>_. Inr prices))"

definition FindItemSellValue :: "(uint32 \<rightharpoonup> itemSellInfo) \<Rightarrow> uint32 \<Rightarrow> int32 \<Rightarrow> uint64 option" where
  "FindItemSellValue itemSellData itemID itemOption =
     (case itemSellData (and itemID itemDataKindMask) of
        None \<Rightarrow> None
      | Some data \<Rightarrow>
          if sellPrice data = 0 then None
          else
            let count = (if sellType data \<in> {16, 27, 102, 67, 70} then ucast (and (ucast itemOption :: uint32) 0xFFFF)
                  else if sellType data \<in> {13, 15, 42, 46, 60, 71, 76, 80, 81, 83, 87, 88, 93, 95, 96}
                  then ucast (ucast itemOption :: uint32) else 1 :: uint64) in
            if count = 0 \<or> - 1 div sellPrice data < count then None else Some (sellPrice data * count))"

section \<open>Types (item_attach.go) and potions (potions.go)\<close>

type_synonym type_table = "uint32 \<rightharpoonup> uint32"

definition parseItemTypes :: "byte list \<Rightarrow> itemFileLayout \<Rightarrow> type_table" where
  "parseItemTypes data layout =
     (if recordSize layout < itemTypeOffset + 4 then Map.empty
      else fold (\<lambda>(itemID, record) types. types(and itemID itemDataKindMask \<mapsto> Uint32_at itemTypeOffset record))
        (item_records layout data) Map.empty)"

definition FindItemType :: "type_table \<Rightarrow> uint32 \<Rightarrow> uint32 option" where
  "FindItemType itemTypes kind = itemTypes (and kind itemDataKindMask)"

datatype ItemAttachOperation = ItemAttachUnsupported | ItemAttachSlotExtender | ItemAttachArmorBinder

abbreviation (input) armorBinderItemType :: uint32 where "armorBinderItemType \<equiv> 103"

definition FindItemAttachOperation :: "type_table \<Rightarrow> uint32 \<Rightarrow> ItemAttachOperation \<times> bool" where
  "FindItemAttachOperation itemTypes kind =
     (case FindItemType itemTypes kind of
        None \<Rightarrow> (ItemAttachUnsupported, False)
      | Some itemType \<Rightarrow>
          if itemType = 29 then (ItemAttachSlotExtender, True)
          else if itemType = armorBinderItemType then (ItemAttachArmorBinder, True)
          else (ItemAttachUnsupported, False))"

definition IsSlotExtenderTarget :: "type_table \<Rightarrow> uint32 \<Rightarrow> bool" where
  "IsSlotExtenderTarget itemTypes kind =
     (case FindItemType itemTypes kind of None \<Rightarrow> False | Some itemType \<Rightarrow> 5 \<le> itemType \<and> itemType \<le> 11)"

definition manaPotionRecovery :: "uint32 \<rightharpoonup> uint16" where
  "manaPotionRecovery = map_of [(6, 50), (7, 200), (8, 400), (1010, 400), (1116, 400)]"

definition parseManaPotionData :: "byte list \<Rightarrow> itemFileLayout \<Rightarrow> uint32 \<rightharpoonup> uint16" where
  "parseManaPotionData data layout =
     (if recordSize layout \<le> 339 then Map.empty
      else fold (\<lambda>(itemID, record) potions.
          if Uint32_at itemTypeOffset record \<noteq> 14 \<or> record ! 339 \<noteq> 2 then potions
          else case manaPotionRecovery (and itemID itemDataKindMask) of
            None \<Rightarrow> potions
          | Some recovery \<Rightarrow> potions(and itemID itemDataKindMask \<mapsto> recovery))
        (item_records layout data) Map.empty)"

definition FindManaPotionRecovery :: "(uint32 \<rightharpoonup> uint16) \<Rightarrow> uint32 \<Rightarrow> uint16 option" where
  "FindManaPotionRecovery manaPotionData itemID = manaPotionData (and itemID itemDataKindMask)"

section \<open>Armor binders (armor_binder.go)\<close>

record armorVariantSignature =
  sigType :: uint32
  field264 :: uint32
  field268 :: uint32
  field284 :: uint32
  field392 :: uint32
  field396 :: uint32

record armorBinderInfo =
  material :: byte
  classes :: "byte list"

text \<open>Binders and bases by item index, variants by signature and class.\<close>

record binder_scan =
  binders :: "(uint32 \<times> armorBinderInfo) list"
  bases :: "(armorVariantSignature \<times> uint32) list"
  variants :: "armorVariantSignature \<Rightarrow> byte \<rightharpoonup> uint32"

definition binder_classes :: "byte list \<Rightarrow> byte list" where
  "binder_classes record =
     fold (\<lambda>offset cs. let c = ucast (drop_bit 24 (Uint32_at offset record)) in
       if c = 0 \<or> c \<in> set cs then cs else cs @ [c]) [352, 360, 368] []"

definition binder_record :: "uint32 \<times> byte list \<Rightarrow> binder_scan \<Rightarrow> binder_scan" where
  "binder_record r s = (case r of (itemID, record) \<Rightarrow>
     let itemType = Uint32_at itemTypeOffset record;
         itemIndex = and itemID itemKindIndexMask;
         itemClass = (ucast (Uint32_at 276 record) :: byte);
         mat = ucast (and (drop_bit 8 (Uint32_at 396 record)) 0xFF);
         signature = \<lparr>sigType = itemType, field264 = Uint32_at 264 record, field268 = Uint32_at 268 record,
           field284 = Uint32_at 284 record, field392 = Uint32_at 392 record, field396 = Uint32_at 396 record\<rparr> in
     if itemType = armorBinderItemType
     then if binder_classes record = [] then s
          else s\<lparr>binders := AList.update itemIndex \<lparr>material = mat, classes = binder_classes record\<rparr> (binders s)\<rparr>
     else if itemClass = 0
     then if map_of (bases s) signature = None then s\<lparr>bases := (signature, itemIndex) # bases s\<rparr> else s
     else if variants s signature itemClass = None
     then s\<lparr>variants := (variants s)(signature := (variants s signature)(itemClass \<mapsto> itemIndex))\<rparr>
     else s)"

text \<open>
  Go walks its maps in any order. A binder has several classes only when an item may become one of several; the
  last class with a variant wins, and two bases with one index would come from indices that wrap at 8192.
\<close>

definition parseArmorBinderData :: "byte list \<Rightarrow> itemFileLayout \<Rightarrow> uint32 \<times> uint32 \<rightharpoonup> uint32" where
  "parseArmorBinderData data layout =
     (if recordSize layout < 400 then Map.empty
      else
        let s = fold binder_record (item_records layout data) \<lparr>binders = [], bases = [], variants = (\<lambda>_. Map.empty)\<rparr> in
        fold (\<lambda>(signature, targetIndex) results.
          fold (\<lambda>(sourceIndex, binder) results.
            if material binder \<noteq> ucast (and (drop_bit 8 (field396 signature)) 0xFF) then results
            else fold (\<lambda>c results. case variants s signature c of
                None \<Rightarrow> results
              | Some resultIndex \<Rightarrow> results((sourceIndex, targetIndex) \<mapsto> resultIndex)) (classes binder) results)
            (binders s) results) (bases s) Map.empty)"

definition FindArmorBinderResult :: "(uint32 \<times> uint32 \<rightharpoonup> uint32) \<Rightarrow> uint32 \<Rightarrow> uint32 \<Rightarrow> uint32 option" where
  "FindArmorBinderResult armorBinderResults sourceKind targetKind =
     map_option (or (and targetKind (not itemKindIndexMask)))
       (armorBinderResults (and sourceKind itemKindIndexMask, and targetKind itemKindIndexMask))"

section \<open>Weapons (weapons.go)\<close>

datatype weaponClass = weaponClassMagic | weaponClassOneHand | weaponClassTwoHand

record weaponAttackInfo =
  baseAttack :: int
  baseMagicAttack :: int
  upgradeBonus :: "int list"
  magicUpgradeBonus :: "int list"

record weaponUpgradeFormula =
  minGrade :: int
  maxGrade :: int
  valueA :: int
  valueB :: int

record clientEnchantValue =
  evForceID :: int
  ForceValue :: string

record clientEnchantGrade =
  MinGrade :: int
  MaxGrade :: int
  Values :: "clientEnchantValue list"

record clientEnchantItem =
  eiType :: string
  Grades :: "clientEnchantGrade list"

definition weapon_types :: "string \<rightharpoonup> weaponClass" where
  "weapon_types = map_of [(''MG'', weaponClassMagic), (''1H'', weaponClassOneHand), (''2H'', weaponClassTwoHand)]"

definition attackForceIDs :: "weaponClass \<Rightarrow> int" where
  "attackForceIDs c = (if c = weaponClassTwoHand then 23 else 3)"

type_synonym formulas = "weaponClass \<Rightarrow> weaponUpgradeFormula list"

definition enchant_value ::
    "weaponClass \<Rightarrow> clientEnchantGrade \<Rightarrow> clientEnchantValue \<Rightarrow> formulas \<Rightarrow> string + formulas" where
  "enchant_value itemType grade v formulas =
     (if evForceID v \<noteq> attackForceIDs itemType then Inr formulas
      else
        let parts = Split (ForceValue v) CHR '','' in
        attempt (refuse (length parts \<noteq> 2) ''invalid client enchant value'') (\<lambda>_.
        attempt (atoi_all ''invalid client enchant value'' parts) (\<lambda>vs.
        Inr (formulas(itemType := formulas itemType @ [\<lparr>minGrade = MinGrade grade, maxGrade = MaxGrade grade,
          valueA = vs ! 0, valueB = vs ! 1\<rparr>])))))"

definition enchant_item :: "clientEnchantItem \<Rightarrow> formulas \<Rightarrow> string + formulas" where
  "enchant_item item formulas =
     (case weapon_types (eiType item) of
        None \<Rightarrow> Inr formulas
      | Some itemType \<Rightarrow> attempts (\<lambda>grade. attempts (enchant_value itemType grade) (Values grade)) (Grades item) formulas)"

definition parseWeaponUpgradeFormulas :: "string + clientEnchantItem list \<Rightarrow> string + formulas" where
  "parseWeaponUpgradeFormulas decoded =
     attempt decoded (\<lambda>document.
     attempt (attempts enchant_item document (\<lambda>_. [])) (\<lambda>formulas.
     attempt (refuse (\<exists>c \<in> {weaponClassMagic, weaponClassOneHand, weaponClassTwoHand}. formulas c = [])
       ''client enchant data has no attack formula'') (\<lambda>_. Inr formulas)))"

definition localWeaponClass :: "uint32 \<Rightarrow> weaponClass option" where
  "localWeaponClass itemType =
     (if itemType = 1 then Some weaponClassTwoHand
      else if itemType = 4 \<or> itemType = 6 then Some weaponClassMagic
      else if itemType = 5 then Some weaponClassOneHand
      else None)"

text \<open>The bonus of each of the sixteen upgrade levels, the sum of the steps below.\<close>

definition upgrade_bonus :: "weaponUpgradeFormula \<Rightarrow> int list" where
  "upgrade_bonus f = map (\<lambda>level. \<Sum>l \<leftarrow> [1..<Suc level]. valueA f + int ((l - 1) div 3) * valueB f) [0..<16]"

definition weapon_record ::
    "itemFileLayout \<Rightarrow> formulas \<Rightarrow> uint32 \<times> byte list \<Rightarrow> (uint32 \<rightharpoonup> weaponAttackInfo) \<Rightarrow> uint32 \<rightharpoonup> weaponAttackInfo" where
  "weapon_record layout formulas r weapons = (case r of (itemID, record) \<Rightarrow>
     (case localWeaponClass (Uint32_at 0 record) of
        None \<Rightarrow> weapons
      | Some itemClass \<Rightarrow>
          let physicalAttack = Uint32_at 343 record; magicAttack = Uint32_at 347 record in
          if physicalAttack = 0 \<and> magicAttack = 0 then weapons
          else
            let grade = (if recordSize layout \<ge> 391 \<and> Uint32_at 387 record \<noteq> 0 then uint (Uint32_at 387 record) else 1);
                formula = (case List.find (\<lambda>c. minGrade c \<le> grade \<and> grade \<le> maxGrade c) (formulas itemClass) of
                  Some candidate \<Rightarrow> candidate | None \<Rightarrow> formulas itemClass ! 0) in
            weapons(itemID \<mapsto> \<lparr>baseAttack = uint physicalAttack, baseMagicAttack = uint magicAttack,
              upgradeBonus = upgrade_bonus formula,
              magicUpgradeBonus = (if itemClass = weaponClassMagic then upgrade_bonus formula else replicate 16 0)\<rparr>)))"

definition parseWeaponAttackData :: "byte list \<Rightarrow> itemFileLayout \<Rightarrow> formulas \<Rightarrow> uint32 \<rightharpoonup> weaponAttackInfo" where
  "parseWeaponAttackData data layout formulas =
     (if recordSize layout < 351 then Map.empty
      else fold (weapon_record layout formulas) (item_records layout data) Map.empty)"

definition FindWeaponAttack :: "(uint32 \<rightharpoonup> weaponAttackInfo) \<Rightarrow> uint32 \<Rightarrow> int option" where
  "FindWeaponAttack weaponAttackData kind =
     (if kind = 0 then None
      else map_option (\<lambda>data. baseAttack data + upgradeBonus data ! unat (drop_bit 13 (and kind upgradeCoreMask)))
        (weaponAttackData (and kind itemKindIndexMask)))"

definition FindWeaponMagicAttack :: "(uint32 \<rightharpoonup> weaponAttackInfo) \<Rightarrow> uint32 \<Rightarrow> int option" where
  "FindWeaponMagicAttack weaponAttackData kind =
     (if kind = 0 then None
      else case weaponAttackData (and kind itemKindIndexMask) of
        None \<Rightarrow> None
      | Some data \<Rightarrow>
          if baseMagicAttack data = 0 then None
          else Some (baseMagicAttack data + magicUpgradeBonus data ! unat (drop_bit 13 (and kind upgradeCoreMask))))"

end
