(* ===== verification/Freya_ShopData.thy ===== *)
theory Freya_ShopData
  imports Freya_ItemData
begin

text \<open>
  What NPCs sell and teach: shops (\<open>clientdata/shops.go\<close>), trainers with their skill books and the levels of
  skills (\<open>clientdata/skillbooks.go\<close>). The nested maps of the source are maps from pairs or triples here.
\<close>

section \<open>Where the scanner is\<close>

text \<open>Both parsers follow world and shop or trainer through the document; 0 means outside.\<close>

record place_parser =
  inCabalWorld :: bool
  worldID :: byte
  npcID :: byte

definition zero_place :: place_parser where
  "zero_place = \<lparr>inCabalWorld = False, worldID = 0, npcID = 0\<rparr>"

text \<open>The steps the two share; \<open>npc\<close> is the name of the element of an NPC.\<close>

definition place_start :: "string \<Rightarrow> string \<Rightarrow> attributes \<Rightarrow> place_parser \<Rightarrow> string + place_parser" where
  "place_start npc name attrs p =
     (if name = ''cabal_world'' then Inr (p\<lparr>inCabalWorld := True\<rparr>)
      else if name = ''world'' \<and> inCabalWorld p
      then attempt (uintAttribute attrs ''id'' 8) (\<lambda>v. Inr (p\<lparr>worldID := word_of_nat v\<rparr>))
      else if name = npc \<and> inCabalWorld p \<and> worldID p \<noteq> 0
      then attempt (uintAttribute attrs ''id'' 8) (\<lambda>v. Inr (p\<lparr>npcID := word_of_nat v\<rparr>))
      else Inr p)"

definition place_end :: "string \<Rightarrow> string \<Rightarrow> place_parser \<Rightarrow> place_parser" where
  "place_end npc name p =
     (if name = npc then p\<lparr>npcID := 0\<rparr>
      else if name = ''world'' then if inCabalWorld p then p\<lparr>worldID := 0\<rparr> else p
      else if name = ''cabal_world'' then p\<lparr>inCabalWorld := False\<rparr>
      else p)"

definition at_npc :: "place_parser \<Rightarrow> bool" where
  "at_npc p \<longleftrightarrow> inCabalWorld p \<and> worldID p \<noteq> 0 \<and> npcID p \<noteq> 0"

section \<open>Shops (shops.go)\<close>

text \<open>\<open>ItemID\<close> always has the value of \<open>Kind\<close>.\<close>

record ShopItem =
  shKind :: uint32
  shItemID :: uint32
  shOption :: int32
  shPrice :: uint64

type_synonym shop_table = "byte \<times> byte \<times> int32 \<rightharpoonup> ShopItem"

definition FindShopItem :: "shop_table \<Rightarrow> byte \<Rightarrow> byte \<Rightarrow> int32 \<Rightarrow> ShopItem option" where
  "FindShopItem shopItems world npc slot = shopItems (world, npc, slot)"

definition parseShopItem :: "attributes \<Rightarrow> string + int32 \<times> ShopItem" where
  "parseShopItem attrs =
     attempt (intAttribute attrs ''slot_id'' 32) (\<lambda>slot.
     attempt (optionalUintAttribute attrs ''kind'' 32) (\<lambda>kind.
     attempt (if kind = None then optionalUintAttribute attrs ''kind_idx'' 32 else Inr kind) (\<lambda>kind.
     attempt (case kind of None \<Rightarrow> uintAttribute attrs ''item_id'' 32 | Some k \<Rightarrow> Inr k) (\<lambda>itemKind.
     attempt (intAttribute attrs ''option'' 32) (\<lambda>option.
     attempt (uintAttribute attrs ''price'' 64) (\<lambda>price.
     attempt (refuse (slot < 0) ''invalid NPC shop item'') (\<lambda>_.
     Inr (word_of_int slot, \<lparr>shKind = word_of_nat itemKind, shItemID = word_of_nat itemKind,
       shOption = word_of_int option, shPrice = word_of_nat price\<rparr>))))))))"

definition shop_step :: "Token \<Rightarrow> shop_table \<times> place_parser \<Rightarrow> string + shop_table \<times> place_parser" where
  "shop_step t s = (case s of (loaded, p) \<Rightarrow>
     (case t of
        StartElement name attrs \<Rightarrow>
          if name = ''item'' then
            if at_npc p then
              attempt (parseShopItem attrs) (\<lambda>(slot, item).
              attempt (refuse (loaded (worldID p, npcID p, slot) \<noteq> None) ''duplicate shop item'') (\<lambda>_.
              Inr (loaded((worldID p, npcID p, slot) \<mapsto> item), p)))
            else Inr s
          else attempt (place_start ''shop'' name attrs p) (\<lambda>p. Inr (loaded, p))
      | EndElement name \<Rightarrow> Inr (loaded, place_end ''shop'' name p)
      | _ \<Rightarrow> Inr s))"

definition parseShops :: "Document \<Rightarrow> string + shop_table" where
  "parseShops cabalData =
     (case cabalData of
        None \<Rightarrow> Inl ''cabal.dec does not contain a cabal XML section''
      | Some tokens \<Rightarrow>
          attempt (scan shop_step tokens (Map.empty, zero_place)) (\<lambda>(loaded, _).
          attempt (refuse (loaded = Map.empty) ''cabal.dec does not contain NPC shops'') (\<lambda>_. Inr loaded)))"

section \<open>Skill books and levels (skillbooks.go)\<close>

record SkillBook =
  bkWorldID :: byte
  Trainer :: byte
  bkSlot :: uint16
  bkSkillID :: uint16
  bkLevel :: byte
  bkItemID :: uint32
  Price :: uint32

record SkillLevel =
  UntrainPrice :: uint64
  TrainType :: byte

type_synonym book_table = "byte \<times> byte \<times> uint16 \<rightharpoonup> SkillBook"
type_synonym skill_level_table = "uint16 \<times> byte \<rightharpoonup> SkillLevel"

definition FindSkillBook :: "book_table \<Rightarrow> byte \<Rightarrow> byte \<Rightarrow> uint16 \<Rightarrow> SkillBook option" where
  "FindSkillBook skillBooks world trainer slot = skillBooks (world, trainer, slot)"

definition parseSkillLevel :: "attributes \<Rightarrow> string + uint16 \<times> nat \<times> nat \<times> SkillLevel" where
  "parseSkillLevel attrs =
     attempt (uintAttribute attrs ''id'' 16) (\<lambda>skillID.
     attempt (uintAttribute attrs ''start_level'' 8) (\<lambda>startLevel.
     attempt (uintAttribute attrs ''end_level'' 8) (\<lambda>endLevel.
     attempt (uintAttribute attrs ''train_type'' 8) (\<lambda>trainType.
     attempt (uintAttribute attrs ''untrain_price'' 64) (\<lambda>untrainPrice.
     attempt (refuse (skillID = 0 \<or> startLevel = 0 \<or> endLevel < startLevel) ''invalid skill order'') (\<lambda>_.
     Inr (word_of_nat skillID, startLevel, endLevel,
       \<lparr>UntrainPrice = word_of_nat untrainPrice, TrainType = word_of_nat trainType\<rparr>)))))))"

definition parseSkillBook :: "byte list \<Rightarrow> itemFileLayout \<Rightarrow> byte \<Rightarrow> byte \<Rightarrow> attributes \<Rightarrow> string + SkillBook" where
  "parseSkillBook itemData layout world trainer attrs =
     attempt (uintAttribute attrs ''slot_id'' 16) (\<lambda>slot.
     attempt (uintAttribute attrs ''id'' 16) (\<lambda>skillID.
     attempt (uintAttribute attrs ''level'' 8) (\<lambda>level.
     attempt (uintAttribute attrs ''skill_book'' 32) (\<lambda>itemID.
     attempt (refuse (itemID = 0) ''skill has no skill book'') (\<lambda>_.
     let recordStart = headerSize layout + (itemID - 1) * recordSize layout in
     attempt (refuse (length itemData < recordStart + recordSize layout) ''item.dec does not contain skill book item'') (\<lambda>_.
     attempt (refuse (Uint32_at (recordStart + itemTypeOffset) itemData \<noteq> 77) ''item has no skill book type'') (\<lambda>_.
     attempt (refuse (Uint32_at (recordStart + skillBookSkillOffset) itemData \<noteq> word_of_nat skillID)
       ''skill book links to another skill'') (\<lambda>_.
     let price = Uint32_at (recordStart + itemSellPriceOffset) itemData in
     attempt (refuse (price = 0) ''skill book has no price'') (\<lambda>_.
     Inr \<lparr>bkWorldID = world, Trainer = trainer, bkSlot = word_of_nat slot, bkSkillID = word_of_nat skillID,
       bkLevel = word_of_nat level, bkItemID = word_of_nat itemID, Price = price\<rparr>)))))))))"

record book_parser =
  skLoaded :: book_table
  skLevels :: skill_level_table
  skPlace :: place_parser

definition skill_order :: "attributes \<Rightarrow> skill_level_table \<Rightarrow> string + skill_level_table" where
  "skill_order attrs levels =
     attempt (parseSkillLevel attrs) (\<lambda>(skillID, startLevel, endLevel, info).
     attempts (\<lambda>level levels.
       let k = (skillID, word_of_nat level) in
       attempt (refuse (\<exists>existing. levels k = Some existing \<and> existing \<noteq> info) ''conflicting skill order'') (\<lambda>_.
       Inr (levels(k \<mapsto> info)))) [startLevel..<Suc endLevel] levels)"

definition book_step :: "byte list \<Rightarrow> itemFileLayout \<Rightarrow> Token \<Rightarrow> book_parser \<Rightarrow> string + book_parser" where
  "book_step itemData layout t s =
     (case t of
        StartElement name attrs \<Rightarrow>
          if name = ''skill_order'' then attempt (skill_order attrs (skLevels s)) (\<lambda>levels. Inr (s\<lparr>skLevels := levels\<rparr>))
          else if name = ''skill'' then
            let p = skPlace s in
            if at_npc p then
              attempt (parseSkillBook itemData layout (worldID p) (npcID p) attrs) (\<lambda>book.
              let k = (worldID p, npcID p, bkSlot book) in
              attempt (refuse (skLoaded s k \<noteq> None) ''duplicate trainer skill slot'') (\<lambda>_.
              Inr (s\<lparr>skLoaded := (skLoaded s)(k \<mapsto> book)\<rparr>)))
            else Inr s
          else attempt (place_start ''trainer'' name attrs (skPlace s)) (\<lambda>p. Inr (s\<lparr>skPlace := p\<rparr>))
      | EndElement name \<Rightarrow> Inr (s\<lparr>skPlace := place_end ''trainer'' name (skPlace s)\<rparr>)
      | _ \<Rightarrow> Inr s)"

text \<open>The counts of \<open>Stats\<close> only go to the log.\<close>

definition parseSkillBooks :: "Document \<Rightarrow> byte list \<Rightarrow> itemFileLayout \<Rightarrow> string + book_table \<times> skill_level_table" where
  "parseSkillBooks cabalData itemData layout =
     (case cabalData of
        None \<Rightarrow> Inl ''cabal.dec does not contain a cabal XML section''
      | Some tokens \<Rightarrow>
          attempt (scan (book_step itemData layout) tokens
            \<lparr>skLoaded = Map.empty, skLevels = Map.empty, skPlace = zero_place\<rparr>) (\<lambda>s.
          attempt (refuse (skLoaded s = Map.empty) ''cabal.dec does not contain trainer skill books'') (\<lambda>_.
          attempt (refuse (skLevels s = Map.empty) ''cabal.dec does not contain skill orders'') (\<lambda>_.
          Inr (skLoaded s, skLevels s)))))"

text \<open>\<open>skillBooksByItem\<close>, from the books in the order the maps are walked.\<close>

definition books_by_item :: "SkillBook list \<Rightarrow> string + (uint32 \<rightharpoonup> SkillBook)" where
  "books_by_item books =
     attempts (\<lambda>book byItem.
       (case byItem (bkItemID book) of
          Some existing \<Rightarrow>
            if bkSkillID existing \<noteq> bkSkillID book \<or> bkLevel existing \<noteq> bkLevel book \<or> Price existing \<noteq> Price book
            then Inl ''conflicting trainer data for skill book item'' else Inr byItem
        | None \<Rightarrow> Inr (byItem(bkItemID book \<mapsto> book)))) books Map.empty"

definition FindSkillBookItem :: "(uint32 \<rightharpoonup> SkillBook) \<Rightarrow> uint32 \<Rightarrow> SkillBook option" where
  "FindSkillBookItem skillBooksByItem itemID = skillBooksByItem itemID"

end
