(* ===== verification/Freya_ForceCore.thy ===== *)
theory Freya_ForceCore
  imports Freya_ItemData
begin

text \<open>
  Force cores (\<open>clientdata/forcecore.go\<close>): the chance to add an option to an item, which option it is, and how the
  options are packed into the 32 bits of \<open>Item.Option\<close>. The numbers drawn from \<open>crypto/rand\<close> are arguments,
  \<open>None\<close> when the source of randomness fails.
\<close>

abbreviation (input) forceCoreRateScale :: uint64 where "forceCoreRateScale \<equiv> 1000000000"
abbreviation (input) forceCorePerStone :: uint64 where "forceCorePerStone \<equiv> 50000000"

section \<open>Tables\<close>

record forceCoreOption =
  foIndex :: int
  ForceCode :: int

record forceCoreCodeGroup =
  fgType :: string
  Options :: "forceCoreOption list"

record forceCoreRateEntry =
  ActiveOptions :: int
  rateLevel :: int
  Rate :: uint64

record forceCoreChangeEntry =
  OneHandCode :: int
  TwoHandCode :: int

record forceCoreDataSection =
  Codes :: "forceCoreCodeGroup list"
  Rates :: "forceCoreRateEntry list"
  Changes :: "forceCoreChangeEntry list"

record ForceTables =
  forceCoreRates :: "int \<times> int \<rightharpoonup> uint64"
  forceCoreOptions :: "string \<Rightarrow> forceCoreOption list"
  forceCoreChanges :: "int \<rightharpoonup> int"

definition force_rate :: "forceCoreRateEntry \<Rightarrow> (int \<times> int \<rightharpoonup> uint64) \<Rightarrow> string + (int \<times> int \<rightharpoonup> uint64)" where
  "force_rate entry rates =
     attempt (refuse (ActiveOptions entry < 0 \<or> 4 < ActiveOptions entry \<or> rateLevel entry < 0 \<or> 15 < rateLevel entry \<or>
       forceCoreRateScale < Rate entry) ''invalid fcore_rate'') (\<lambda>_.
     Inr (rates((ActiveOptions entry, rateLevel entry) \<mapsto> Rate entry)))"

definition parseForceCoreData :: "string + forceCoreDataSection \<Rightarrow> string + ForceTables" where
  "parseForceCoreData decoded =
     attempt decoded (\<lambda>document.
     attempt (attempts force_rate (Rates document) Map.empty) (\<lambda>rates.
     attempt (refuse (rates = Map.empty) ''cabal.dec does not contain fcore_rate data'') (\<lambda>_.
     Inr \<lparr>forceCoreRates = rates,
       forceCoreOptions = (\<lambda>t. concat (map (\<lambda>group. if fgType group \<noteq> t then []
         else filter (\<lambda>entry. 0 < foIndex entry \<and> foIndex entry \<le> 15 \<and> 0 < ForceCode entry) (Options group)) (Codes document))),
       forceCoreChanges = fold (\<lambda>entry changes.
         if 0 < OneHandCode entry \<and> 0 < TwoHandCode entry then changes(OneHandCode entry \<mapsto> TwoHandCode entry) else changes)
         (Changes document) Map.empty\<rparr>)))"

section \<open>The packed options\<close>

text \<open>
  The eight bits of one option: its code, how often it was added, and whether it is an epic one. The top four
  bits of the word are the number of slots.
\<close>

definition core_at :: "nat \<Rightarrow> uint32 \<Rightarrow> uint32" where
  "core_at index v = and (drop_bit (index * 8) v) 0xFF"

definition core_code :: "uint32 \<Rightarrow> uint32" where
  "core_code core = and core 0x0F"

definition core_num :: "uint32 \<Rightarrow> uint32" where
  "core_num core = drop_bit 4 (and core 0x70)"

definition core_epic :: "uint32 \<Rightarrow> bool" where
  "core_epic core \<longleftrightarrow> and core 0x80 \<noteq> 0"

definition set_core :: "nat \<Rightarrow> uint32 \<Rightarrow> uint32 \<Rightarrow> uint32" where
  "set_core index core v = or (and v (not (push_bit (index * 8) 0xFF))) (push_bit (index * 8) core)"

definition option_value :: "int32 \<Rightarrow> uint32" where
  "option_value itemOption = and (ucast itemOption) 0x0FFFFFFF"

definition option_slots :: "int32 \<Rightarrow> uint32" where
  "option_slots itemOption = and (drop_bit 28 (ucast itemOption)) 0x0F"

definition pack_option :: "uint32 \<Rightarrow> uint32 \<Rightarrow> int32" where
  "pack_option v maxSlots = ucast (or v (push_bit 28 maxSlots))"

definition active_count :: "uint32 \<Rightarrow> nat" where
  "active_count core = (if core_code core = 0 \<or> core_epic core then 0 else unat (core_num core))"

definition forceCoreActiveOptions :: "int32 \<Rightarrow> nat" where
  "forceCoreActiveOptions itemOption = (\<Sum>index \<leftarrow> [0..<4]. active_count (core_at index (option_value itemOption)))"

definition ForceCoreHasRoom :: "int32 \<Rightarrow> bool" where
  "ForceCoreHasRoom itemOption \<longleftrightarrow>
     0 < unat (option_slots itemOption) \<and> forceCoreActiveOptions itemOption < unat (option_slots itemOption)"

text \<open>The loop over the four options.\<close>

primrec add_loop :: "nat list \<Rightarrow> int32 \<Rightarrow> uint32 \<Rightarrow> int32 \<times> bool" where
  "add_loop [] itemOption optionCode = (itemOption, False)"
| "add_loop (index # is) itemOption optionCode =
     (let v = option_value itemOption; maxSlots = option_slots itemOption; core = core_at index v in
      if core_code core = 0
      then (pack_option (set_core index (or optionCode 0x10) v) maxSlots, True)
      else if core_code core = optionCode \<and> \<not> core_epic core
      then if 4 \<le> core_num core then (itemOption, False)
           else (pack_option (set_core index (or (and core (not 0x70)) (push_bit 4 (core_num core + 1))) v) maxSlots, True)
      else add_loop is itemOption optionCode)"

definition AddForceCoreOption :: "int32 \<Rightarrow> int \<Rightarrow> int32 \<times> bool" where
  "AddForceCoreOption itemOption optionCode =
     (if optionCode \<le> 0 \<or> 15 < optionCode then (itemOption, False)
      else if option_slots itemOption = 0 \<or> unat (option_slots itemOption) \<le> forceCoreActiveOptions itemOption
      then (itemOption, False)
      else add_loop [0..<4] itemOption (word_of_int optionCode))"

section \<open>Chance and choice\<close>

definition ForceCoreSuccessRate :: "ForceTables \<Rightarrow> uint32 \<Rightarrow> int32 \<Rightarrow> byte \<Rightarrow> uint64 option" where
  "ForceCoreSuccessRate d kind itemOption forceCoreNum =
     (let level = uint (drop_bit 13 (and kind upgradeCoreMask)) in
      map_option (\<lambda>baseRate.
          let rate = baseRate + ucast forceCoreNum * forceCorePerStone in
          if forceCoreRateScale < rate then forceCoreRateScale else rate)
        (forceCoreRates d (int (forceCoreActiveOptions itemOption), level)))"

text \<open>Success, rate, and whether there was a rate and a roll.\<close>

definition RollForceCoreSuccess ::
    "ForceTables \<Rightarrow> uint64 option \<Rightarrow> uint32 \<Rightarrow> int32 \<Rightarrow> byte \<Rightarrow> bool \<times> uint64 \<times> bool" where
  "RollForceCoreSuccess d roll kind itemOption forceCoreNum =
     (case ForceCoreSuccessRate d kind itemOption forceCoreNum of
        None \<Rightarrow> (False, 0, False)
      | Some rate \<Rightarrow> (case roll of None \<Rightarrow> (False, rate, False) | Some n \<Rightarrow> (n < rate, rate, True)))"

definition forceCoreClass :: "type_table \<Rightarrow> uint32 \<Rightarrow> string option" where
  "forceCoreClass itemTypes kind =
     Option.bind (FindItemType itemTypes kind) (map_of
       [(3, ''AMULET''), (5, ''1H''), (6, ''1H''), (7, ''2H''), (8, ''SUIT''), (9, ''GLOVE''), (10, ''BOOT''), (11, ''HELM''),
        (15, ''RING''), (16, ''AMULET''), (17, ''EPULET''), (22, ''BIKE''), (32, ''EARRING''), (33, ''BRACELET''), (78, ''BELT'')])"

text \<open>\<open>pick\<close> is the number drawn below the number of candidates.\<close>

definition SelectForceCoreOption :: "ForceTables \<Rightarrow> type_table \<Rightarrow> (nat \<Rightarrow> nat option) \<Rightarrow> uint32 \<Rightarrow> int option" where
  "SelectForceCoreOption d itemTypes pick kind =
     (case forceCoreClass itemTypes kind of
        None \<Rightarrow> None
      | Some itemClass \<Rightarrow>
          let candidates = forceCoreOptions d itemClass in
          if candidates = [] then None
          else map_option (\<lambda>n. foIndex (candidates ! n)) (pick (length candidates)))"

definition SelectForceCoreSpecificOption :: "ForceTables \<Rightarrow> type_table \<Rightarrow> uint32 \<Rightarrow> int32 \<Rightarrow> int option" where
  "SelectForceCoreSpecificOption d itemTypes kind scrollOption =
     (case forceCoreClass itemTypes kind of
        None \<Rightarrow> None
      | Some itemClass \<Rightarrow>
          let forceCode = uint (drop_bit 7 (and (ucast scrollOption :: uint32) 0x000FFF80)) in
          if forceCode \<le> 0 then None
          else
            let forceCode = (if itemClass = ''2H''
                  then case forceCoreChanges d forceCode of Some changed \<Rightarrow> changed | None \<Rightarrow> forceCode
                  else forceCode) in
            map_option foIndex (List.find (\<lambda>option. ForceCode option = forceCode) (forceCoreOptions d itemClass)))"

section \<open>One option more\<close>

lemma masks: "(0xFF :: uint32) = mask 8" "(0x0FFFFFFF :: uint32) = mask 28" "(0x0F :: uint32) = mask 4"
  by (simp_all add: mask_eq_exp_minus_1)

lemma core_at_bits: "core_at i v = take_bit 8 (drop_bit (i * 8) v)"
  by (simp only: core_at_def masks(1) take_bit_eq_mask)

lemma take_bit_D: "take_bit n c = c \<Longrightarrow> bit c k \<Longrightarrow> k < n"
  by (metis bit_take_bit_iff)

lemma core_at_set_core:
  assumes "take_bit 8 c = c" "i < 4" "j < 4"
  shows "core_at j (set_core i c v) = (if i = j then c else core_at j v)"
proof (cases "i = j")
  case True
  then show ?thesis
    unfolding core_at_bits set_core_def masks(1)
    using assms(2) by (intro bit_word_eqI) (auto simp: bit_simps dest: take_bit_D [OF assms(1)])
next
  case False
  then have "i * 8 + 8 \<le> j * 8 \<or> j * 8 + 8 \<le> i * 8" by arith
  then show ?thesis using False assms(3)
    unfolding core_at_bits set_core_def masks(1)
    by (intro bit_word_eqI) (auto simp: bit_simps dest: take_bit_D [OF assms(1)])
qed

lemma take_bit_set_core:
  assumes "i < 3" "take_bit 8 c = c" "take_bit 28 v = v"
  shows "take_bit 28 (set_core i c v) = set_core i c v"
  unfolding set_core_def using assms(1)
  by (intro bit_word_eqI) (auto simp: bit_simps dest: take_bit_D [OF assms(2)] take_bit_D [OF assms(3)])

lemma option_value_bits: "option_value it = take_bit 28 (ucast it)"
  by (simp only: option_value_def masks(2) take_bit_eq_mask)

lemma option_slots_bits: "option_slots it = drop_bit 28 (ucast it)"
  unfolding option_slots_def masks(3) take_bit_eq_mask [symmetric]
  by (rule bit_word_eqI) (auto simp: bit_simps dest: bit_imp_le_length)

lemma pack_value: "option_value (pack_option v s) = take_bit 28 v"
  unfolding option_value_bits pack_option_def by (rule bit_word_eqI) (auto simp: bit_simps)

lemma pack_slots:
  assumes "take_bit 4 s = s"
  shows "option_slots (pack_option v s) = or (drop_bit 28 v) s"
  unfolding option_slots_bits pack_option_def
  by (rule bit_word_eqI) (auto simp: bit_simps dest: take_bit_D [OF assms])

lemma slots_bound: "take_bit 4 (option_slots it) = option_slots it"
  unfolding option_slots_def masks(3) by (simp add: take_bit_eq_mask)

text \<open>The parts of the eight bits after each of the two changes.\<close>

lemma mask_bits:
  "bit (16 :: int) n \<longleftrightarrow> n = 4" "bit (112 :: int) n \<longleftrightarrow> 4 \<le> n \<and> n < 7" "bit (7 :: int) n \<longleftrightarrow> n < 3"
  "bit (15 :: int) n \<longleftrightarrow> n < 4" "bit (143 :: int) n \<longleftrightarrow> n < 4 \<or> n = 7"
proof -
  have "(16 :: int) = push_bit 4 1" "(112 :: int) = push_bit 4 (mask 3)" "(7 :: int) = mask 3" "(15 :: int) = mask 4"
    "(143 :: int) = or (mask 4) (push_bit 7 1)"
    by (simp_all add: push_bit_eq_mult mask_eq_exp_minus_1)
  note m = this
  show "bit (16 :: int) n \<longleftrightarrow> n = 4" "bit (112 :: int) n \<longleftrightarrow> 4 \<le> n \<and> n < 7" "bit (7 :: int) n \<longleftrightarrow> n < 3"
    "bit (15 :: int) n \<longleftrightarrow> n < 4" "bit (143 :: int) n \<longleftrightarrow> n < 4 \<or> n = 7"
    unfolding m bit_or_iff bit_push_bit_iff bit_1_iff bit_mask_iff by auto
qed

lemma fields_bits:
  "core_code core = take_bit 4 core" "core_num core = take_bit 3 (drop_bit 4 core)" "core_epic core \<longleftrightarrow> bit core 7"
proof -
  show "core_code core = take_bit 4 core" unfolding core_code_def masks(3) by (simp add: take_bit_eq_mask)
  show "core_num core = take_bit 3 (drop_bit 4 core)" unfolding core_num_def
    by (rule bit_word_eqI) (auto simp: bit_simps mask_bits)
  have "(0x80 :: uint32) = push_bit 7 1" by (simp add: push_bit_eq_mult)
  then show "core_epic core \<longleftrightarrow> bit core 7" unfolding core_epic_def by (simp only: bit_iff_and_push_bit_not_eq_0)
qed

lemma new_core:
  fixes c :: uint32
  assumes "take_bit 4 c = c"
  shows "core_code (or c 0x10) = c" "core_num (or c 0x10) = 1" "\<not> core_epic (or c 0x10)" "take_bit 8 (or c 0x10) = or c 0x10"
    "core_code c = c" "core_num c = 0" "\<not> core_epic c" "or (and c (not 0x70)) 0x10 = or c 0x10"
proof -
  have d: "n < 4" if "bit c n" for n using take_bit_D [OF assms that] .
  then have c: "\<not> bit c (n + 4)" "n < 8 \<or> \<not> bit c n" "n < 7 \<or> \<not> bit c n" for n by force+
  show "core_code (or c 0x10) = c" "core_code c = c" unfolding fields_bits
    by (auto intro!: bit_word_eqI simp: bit_simps mask_bits dest: d)
  show "core_num (or c 0x10) = 1" "core_num c = 0" unfolding fields_bits
    by (auto intro!: bit_word_eqI simp: bit_simps bit_1_iff add.commute c(1)) (simp_all add: mask_bits)
  show "\<not> core_epic (or c 0x10)" "\<not> core_epic c" unfolding fields_bits using c(3) [of 7]
    by (auto simp: bit_simps mask_bits)
  show "take_bit 8 (or c 0x10) = or c 0x10" "or (and c (not 0x70)) 0x10 = or c 0x10"
    by (auto intro!: bit_word_eqI simp: bit_simps mask_bits dest: d) (use d in force)+
qed

lemma raised_core:
  assumes "take_bit 8 core = core" "core_num core < 4"
  defines "new \<equiv> or (and core (not 0x70)) (push_bit 4 (core_num core + 1))"
  shows "core_code new = core_code core" "core_num new = core_num core + 1" "core_epic new = core_epic core"
    "take_bit 8 new = new"
proof -
  have "core_num core + 1 \<le> 4" using assms(2) by (simp add: inc_le)
  then have "core_num core + 1 < 2 ^ 3" by (rule order.strict_trans1) simp
  then have "take_bit 3 (core_num core + 1) = core_num core + 1"
    by (rule less_mask_eq [folded take_bit_eq_mask])
  note d = take_bit_D [OF this]
  note e = take_bit_D [OF assms(1)]
  show "core_code new = core_code core" unfolding fields_bits(1) new_def by (rule bit_word_eqI) (auto simp: bit_simps mask_bits)
  show "core_num new = core_num core + 1" unfolding fields_bits(2) [of new] unfolding new_def
    by (rule bit_word_eqI) (auto simp: bit_simps mask_bits dest: d)
  show "core_epic new = core_epic core" unfolding fields_bits(3) new_def by (auto simp: bit_simps mask_bits dest: d)
  show "take_bit 8 new = new" unfolding new_def by (rule bit_word_eqI) (use d e in \<open>force simp: bit_simps mask_bits\<close>)
qed

declare add_loop.simps [simp del]

text \<open>The places where the loop stops, and what it leaves there.\<close>

definition takes :: "uint32 \<Rightarrow> uint32 \<Rightarrow> bool" where
  "takes c core \<longleftrightarrow> core_code core = 0 \<or> core_code core = c \<and> \<not> core_epic core"

lemma add_loop_cases:
  assumes "add_loop is it c = (it', True)" "take_bit 4 c = c" "c \<noteq> 0"
  obtains index new where "index \<in> set is" "\<forall>k \<in> set (takeWhile (\<lambda>k. k \<noteq> index) is). \<not> takes c (core_at k (option_value it))"
    "takes c (core_at index (option_value it))" "take_bit 8 new = new"
    "active_count new = Suc (active_count (core_at index (option_value it)))"
    "it' = pack_option (set_core index new (option_value it)) (option_slots it)"
  using assms(1)
proof (induction "is" arbitrary: thesis)
  case (Cons i "is")
  let ?core = "core_at i (option_value it)"
  have bounded: "take_bit 8 ?core = ?core" by (simp add: core_at_bits)
  show ?case
  proof (cases "takes c ?core")
    case False
    with Cons.prems(2) have "add_loop is it c = (it', True)" by (auto simp: takes_def add_loop.simps(2) Let_def)
    from Cons.IH [OF _ this] obtain index new where r: "index \<in> set is"
      "\<forall>k \<in> set (takeWhile (\<lambda>k. k \<noteq> index) is). \<not> takes c (core_at k (option_value it))"
      "takes c (core_at index (option_value it))" "take_bit 8 new = new"
      "active_count new = Suc (active_count (core_at index (option_value it)))"
      "it' = pack_option (set_core index new (option_value it)) (option_slots it)" by metis
    show ?thesis by (rule Cons.prems(1) [OF _ _ r(3-6)]) (use r(1,2) False in auto)
  next
    case True
    show ?thesis
    proof (cases "core_code ?core = 0")
      case True
      show ?thesis
        by (rule Cons.prems(1) [of i "or c 0x10"])
          (use Cons.prems(2) True \<open>takes c ?core\<close> new_core [OF assms(2)] assms(3) in \<open>auto simp: add_loop.simps(2) Let_def active_count_def\<close>)
    next
      case False
      with Cons.prems(2) True have less: "core_num ?core < 4" and eq: "core_code ?core = c" "\<not> core_epic ?core"
        and it': "it' = pack_option (set_core i (or (and ?core (not 0x70)) (push_bit 4 (core_num ?core + 1)))
          (option_value it)) (option_slots it)"
        by (auto simp: takes_def add_loop.simps(2) Let_def not_le split: if_splits)
      have "unat (core_num ?core + 1) = Suc (unat (core_num ?core))"
        using unat_plus_one [of "core_num ?core"] less by fastforce
      then show ?thesis
        by (intro Cons.prems(1) [of i "or (and ?core (not 0x70)) (push_bit 4 (core_num ?core + 1))"])
          (use True it' eq assms(3) raised_core [OF bounded less] in \<open>auto simp: active_count_def\<close>)
    qed
  qed
qed (simp add: add_loop.simps(1))

lemma four: "[0..<4] = [0, 1, 2, 3 :: nat]"
  by (simp add: numeral_eq_Suc)

lemma active_sum:
  "forceCoreActiveOptions it = active_count (core_at 0 (option_value it)) + active_count (core_at 1 (option_value it)) +
     active_count (core_at 2 (option_value it)) + active_count (core_at 3 (option_value it))"
  by (simp add: forceCoreActiveOptions_def four)

lemma option_code:
  assumes "\<not> (c \<le> 0 \<or> 15 < (c :: int))"
  shows "take_bit 4 (word_of_int c :: uint32) = word_of_int c" "(word_of_int c :: uint32) \<noteq> 0"
proof -
  have "uint (word_of_int c :: uint32) = c" using assms by (simp add: uint_word_of_int)
  then show "(word_of_int c :: uint32) \<noteq> 0" using assms by auto
  have "(word_of_int c :: uint32) < 2 ^ 4"
    using \<open>uint _ = c\<close> assms by (simp add: word_less_def)
  then show "take_bit 4 (word_of_int c :: uint32) = word_of_int c" by (rule less_mask_eq [folded take_bit_eq_mask])
qed

lemma fourth_overlaps:
  fixes c :: uint32
  assumes "take_bit 4 c = c"
  shows "drop_bit 28 (set_core 3 (or c 0x10) (option_value it)) = 1"
  unfolding set_core_def option_value_bits
  by (rule bit_word_eqI) (auto simp: bit_simps mask_bits bit_1_iff dest: take_bit_D [OF assms])

lemma set_core_again: "set_core 3 x (take_bit 28 (set_core 3 x (take_bit 28 v))) = set_core 3 x (take_bit 28 v)"
  unfolding set_core_def masks(1) by (rule bit_word_eqI) (auto simp: bit_simps)

lemma pack_again:
  fixes a s b :: uint32
  assumes "bit a 28" "\<And>n. bit b n \<longleftrightarrow> n = 0"
  shows "pack_option a (or s b) = pack_option a s"
proof -
  have "or a (push_bit 28 (or s b)) = or a (push_bit 28 s)"
  proof (rule bit_word_eqI)
    fix n
    assume "n < LENGTH(32)"
    show "bit (or a (push_bit 28 (or s b))) n \<longleftrightarrow> bit (or a (push_bit 28 s)) n"
    proof (cases "n = 28")
      case True
      with assms(1) show ?thesis by (simp only: bit_or_iff) simp
    next
      case False
      then have "28 \<le> n \<Longrightarrow> n - 28 \<noteq> 0" by arith
      then show ?thesis by (simp add: bit_or_iff bit_push_bit_iff assms(2)) arith
    qed
  qed
  then show ?thesis by (simp only: pack_option_def)
qed

lemma first_take:
  assumes "i \<in> set [0..<4]" "\<forall>k \<in> set (takeWhile (\<lambda>k. k \<noteq> i) [0..<4]). \<not> P k" "P j" "j < (3 :: nat)"
  shows "i < 3"
proof (rule ccontr)
  assume "\<not> i < 3"
  with assms(1) have "i = 3" unfolding four by auto
  with assms(2) have "\<not> P 0" "\<not> P 1" "\<not> P 2" unfolding four by simp_all
  moreover have "j = 0 \<or> j = 1 \<or> j = 2" using assms(4) by arith
  ultimately show False using assms(3) by auto
qed

text \<open>
  C39: An option that goes to one of the first three places of an item is counted exactly once, the number of
  slots of the item stays what it was, and the item never has more active options than slots.
\<close>

theorem force_option_counted:
  assumes "AddForceCoreOption it c = (it', True)" and "\<exists>j < 3. takes (word_of_int c) (core_at j (option_value it))"
  shows "forceCoreActiveOptions it' = Suc (forceCoreActiveOptions it) \<and> option_slots it' = option_slots it \<and>
     forceCoreActiveOptions it' \<le> unat (option_slots it')"
proof -
  let ?v = "option_value it"
  have c: "\<not> (c \<le> 0 \<or> 15 < c)" and room: "forceCoreActiveOptions it < unat (option_slots it)"
    and run: "add_loop [0..<4] it (word_of_int c) = (it', True)"
    using assms(1) by (auto simp: AddForceCoreOption_def split: if_splits)
  obtain i new where i: "i \<in> set [0..<4]"
    "\<forall>k \<in> set (takeWhile (\<lambda>k. k \<noteq> i) [0..<4]). \<not> takes (word_of_int c) (core_at k ?v)"
    and new: "take_bit 8 new = new" "active_count new = Suc (active_count (core_at i ?v))"
    and it': "it' = pack_option (set_core i new ?v) (option_slots it)"
    by (rule add_loop_cases [OF run option_code [OF c]])
  obtain j where j: "j < 3" "takes (word_of_int c) (core_at j ?v)" using assms(2) by blast
  have less: "i < 3" by (rule first_take [where P = "\<lambda>k. takes (word_of_int c) (core_at k ?v)", OF i j(2,1)])
  have v: "take_bit 28 ?v = ?v" by (simp add: option_value_bits)
  have value': "option_value it' = set_core i new ?v"
    unfolding it' pack_value by (rule take_bit_set_core [OF less new(1) v])
  have "drop_bit 28 (set_core i new ?v) = drop_bit 28 (take_bit 28 (set_core i new ?v))"
    by (rule arg_cong [OF take_bit_set_core [OF less new(1) v, symmetric]])
  then have "drop_bit 28 (set_core i new ?v) = 0" by (simp only: drop_bit_take_bit) simp
  then have slots: "option_slots it' = option_slots it" unfolding it' by (simp add: pack_slots slots_bound)
  have core: "core_at j (option_value it') = (if i = j then new else core_at j ?v)" if "j < 4" for j
    unfolding value' using less that by (intro core_at_set_core [OF new(1)]) simp_all
  have "i = 0 \<or> i = 1 \<or> i = 2" using less by auto
  then have "forceCoreActiveOptions it' = Suc (forceCoreActiveOptions it)"
    unfolding active_sum by (auto simp: core new(2))
  with slots room show ?thesis by simp
qed

theorem force_option_counted_witness:
  "case AddForceCoreOption 0x20000012 3 of (it', ok) \<Rightarrow> ok \<and> it' = 0x20001312 \<and> forceCoreActiveOptions it' = 2"
proof -
  have e: "AddForceCoreOption 0x20000012 3 = (0x20001312, True)" "forceCoreActiveOptions 0x20000012 = 1" by code_simp+
  moreover have "takes (word_of_int 3) (core_at 1 (option_value 0x20000012))" by code_simp
  ultimately show ?thesis using force_option_counted [OF e(1)] by (auto simp: numeral_eq_Suc intro: exI [of _ 1])
qed

text \<open>
  C40: The fourth option of an item overlaps the number of its slots: it is written but never counted, an even
  number of slots becomes one more, and from then on the same option can be added again and again without
  changing the item, so that each success only costs the force cores.
\<close>

theorem fourth_option_lost:
  assumes "forceCoreActiveOptions it < unat (option_slots it)" and "0 < c" and "c \<le> 15"
    and "\<forall>j < 3. \<not> takes (word_of_int c) (core_at j (option_value it))" and "core_code (core_at 3 (option_value it)) = 0"
  shows "case AddForceCoreOption it c of (it', ok) \<Rightarrow>
     ok \<and> forceCoreActiveOptions it' = forceCoreActiveOptions it \<and> option_slots it' = or (option_slots it) 1 \<and>
     AddForceCoreOption it' c = (it', True)"
proof -
  let ?c = "word_of_int c :: uint32" and ?v = "option_value it" and ?s = "option_slots it"
  let ?new = "or ?c 0x10"
  have c: "take_bit 4 ?c = ?c" "?c \<noteq> 0" using option_code [of c] assms(2,3) by auto
  note new = new_core [OF c(1)]
  have code: "\<not> (c \<le> 0 \<or> 15 < c)" using assms(2,3) by simp
  have empty: "core_at 3 ?v = 0"
  proof -
    have "core_at 3 ?v = take_bit 4 (core_at 3 ?v)"
      unfolding core_at_bits option_value_bits by (rule bit_word_eqI) (auto simp: bit_simps)
    with assms(5) show ?thesis by (simp add: fields_bits)
  qed
  define it' where "it' = pack_option (set_core 3 ?new ?v) ?s"
  have stop: "add_loop (k # ks) x ?c = add_loop ks x ?c" if "\<not> takes ?c (core_at k (option_value x))" for k ks x
    using that by (auto simp: takes_def add_loop.simps(2) Let_def)
  have skip: "add_loop [0..<4] x ?c = add_loop [3] x ?c" if "\<forall>j < 3. \<not> takes ?c (core_at j (option_value x))" for x
    unfolding four using that stop [of 0 x "[1, 2, 3]"] stop [of 1 x "[2, 3]"] stop [of 2 x "[3]"] by simp
  have room: "?s \<noteq> 0" "\<not> unat ?s \<le> forceCoreActiveOptions it" using assms(1) by auto
  have first: "AddForceCoreOption it c = (it', True)"
    using code room skip [OF assms(4)] by (simp add: AddForceCoreOption_def add_loop.simps(2) empty it'_def core_code_def Let_def)
  have value': "option_value it' = take_bit 28 (set_core 3 ?new ?v)" by (simp add: it'_def pack_value)
  have other: "core_at j (option_value it') = core_at j ?v" if "j < 3" for j
  proof -
    have "core_at j (option_value it') = core_at j (set_core 3 ?new ?v)"
      unfolding value' core_at_bits using that by (intro bit_word_eqI) (auto simp: bit_simps)
    then show ?thesis using that core_at_set_core [OF new(4), of 3 j ?v] by simp
  qed
  have last: "core_at 3 (option_value it') = ?c"
  proof -
    have "core_at 3 (option_value it') = take_bit 4 (core_at 3 (set_core 3 ?new ?v))"
      unfolding value' core_at_bits by (rule bit_word_eqI) (auto simp: bit_simps)
    then show ?thesis using core_at_set_core [OF new(4), of 3 3 ?v] new(1) by (simp add: fields_bits)
  qed
  have active: "forceCoreActiveOptions it' = forceCoreActiveOptions it"
    unfolding active_sum using other [of 0] other [of 1] other [of 2]
    by (simp add: last empty active_count_def new) (simp add: core_code_def)
  have high: "drop_bit 28 (set_core 3 ?new ?v) = 1" using c(1) by (rule fourth_overlaps)
  then have slots: "option_slots it' = or ?s 1"
    unfolding it'_def by (simp add: pack_slots slots_bound or.commute)
  have "unat ?s \<le> unat (or ?s 1)" using le_word_or2 [of ?s 1] by (simp add: word_le_nat_alt)
  then have room': "option_slots it' \<noteq> 0" "\<not> unat (option_slots it') \<le> forceCoreActiveOptions it'"
    using room active slots assms(1) by auto
  have again: "set_core 3 (or (and ?c (not 0x70)) (push_bit 4 (core_num ?c + 1))) (option_value it') = set_core 3 ?new ?v"
  proof -
    have "or (and ?c (not 0x70)) (push_bit 4 (core_num ?c + 1)) = ?new" using new(6,8) by (simp add: push_bit_eq_mult)
    then show ?thesis unfolding value' by (simp only: set_core_again option_value_bits)
  qed
  have "bit (set_core 3 ?new ?v) 28" using arg_cong [OF high, of "\<lambda>w. bit w 0"] by (simp add: bit_simps)
  then have "pack_option (set_core 3 ?new ?v) (option_slots it') = it'"
    unfolding slots unfolding it'_def by (rule pack_again) (simp add: bit_1_iff)
  then have "AddForceCoreOption it' c = (it', True)"
    using code room' skip [of it'] other assms(4) c(2) new(5-7) again
    by (simp add: AddForceCoreOption_def add_loop.simps(2) last Let_def)
  with first active slots show ?thesis by simp
qed

theorem fourth_option_lost_witness:
  "case AddForceCoreOption 0x40131211 4 of (it', ok) \<Rightarrow> ok \<and> it' = 0x54131211 \<and> AddForceCoreOption it' 4 = (it', True)"
proof -
  have "forceCoreActiveOptions 0x40131211 < unat (option_slots 0x40131211)"
    "core_code (core_at 3 (option_value 0x40131211)) = 0" "AddForceCoreOption 0x40131211 4 = (0x54131211, True)"
    "\<forall>j \<in> {0, 1, 2}. \<not> takes (word_of_int 4) (core_at j (option_value 0x40131211))"
    by code_simp+
  then show ?thesis using fourth_option_lost [of "0x40131211" 4] by (auto simp: numeral_eq_Suc less_Suc_eq)
qed

end
