(* ===== verification/Freya_Bag.thy ===== *)
theory Freya_Bag
  imports Freya_Growth Freya_ShopData Freya_ForceCore
begin

text \<open>
  What a player does with its items (\<open>packet/inventory.go\<close>, \<open>enchant.go\<close>, \<open>item_attach.go\<close>, \<open>warehouse.go\<close>):
  moving them between inventory, equipment and warehouse, accessories, shops, skill books, potions, enchants,
  slot extenders and armor binders. The containers are those of \<open>Freya_Inventory\<close> and \<open>Freya_Equipment\<close>; a
  write through \<open>ctx.Char.Inventory\<close> is a write to the context.
\<close>

text \<open>The client data the handlers look up.\<close>

record Goods =
  itemTypes :: type_table
  itemSellData :: "uint32 \<rightharpoonup> itemSellInfo"
  shopItems :: shop_table
  skillBooks :: book_table
  skillBooksByItem :: "uint32 \<rightharpoonup> SkillBook"
  manaPotionData :: "uint32 \<rightharpoonup> uint16"
  armorBinderResults :: "uint32 \<times> uint32 \<rightharpoonup> uint32"
  skillDamageData :: damage_table
  forceCores :: ForceTables

abbreviation player :: "uint16 \<Rightarrow> 'm Game \<Rightarrow> 'm Character option" where
  "player s g \<equiv> Option.bind (Parse s g) cChar"

section \<open>Operations on the containers of a session\<close>

definition use_inv :: "uint16 \<Rightarrow> ('m Inventory \<Rightarrow> 'm \<Rightarrow> 'r \<times> 'm Inventory \<times> 'm) \<Rightarrow> 'm Character \<Rightarrow> 'm Game \<Rightarrow> 'r \<times> 'm Game" where
  "use_inv s f c g =
     (let (r, e, m) = f (CharInventory c) (remote g) in
      (r, upd s (on_char (CharInventory_update (\<lambda>_. e))) (g\<lparr>remote := m\<rparr>)))"

definition use_eq :: "uint16 \<Rightarrow> ('m Equipment \<Rightarrow> 'm \<Rightarrow> 'r \<times> 'm Equipment \<times> 'm) \<Rightarrow> 'm Character \<Rightarrow> 'm Game \<Rightarrow> 'r \<times> 'm Game" where
  "use_eq s f c g =
     (let (r, e, m) = f (CharEquipment c) (remote g) in
      (r, upd s (on_char (CharEquipment_update (\<lambda>_. e))) (g\<lparr>remote := m\<rparr>)))"

definition use_both ::
    "uint16 \<Rightarrow> ('m Equipment \<Rightarrow> 'm Inventory \<Rightarrow> 'm \<Rightarrow> 'm move_result) \<Rightarrow> 'm Character \<Rightarrow> 'm Game \<Rightarrow> (bool \<times> err) option \<times> 'm Game" where
  "use_both s f c g =
     (let (r, e, i, m) = f (CharEquipment c) (CharInventory c) (remote g) in
      (r, upd s (on_char (\<lambda>c. c\<lparr>CharEquipment := e, CharInventory := i\<rparr>)) (g\<lparr>remote := m\<rparr>)))"

text \<open>A broadcast through \<open>ctx.World\<close>, which panics while that is nil.\<close>

definition broadcast_own :: "uint16 \<Rightarrow> packet \<Rightarrow> 'm Game \<Rightarrow> 'm Game option" where
  "broadcast_own s p g = do { ctx \<leftarrow> Parse s g; w \<leftarrow> ctxWorld ctx; Some (BroadcastSessionPacket w s p g) }"

section \<open>Moving between the containers (inventory.go)\<close>

abbreviation (input) typeInventory :: int32 where "typeInventory \<equiv> 0"
abbreviation (input) typeEquipment :: int32 where "typeEquipment \<equiv> 1"
abbreviation (input) typeWarehouse :: int32 where "typeWarehouse \<equiv> 2"

abbreviation (input) RightHand :: uint16 where "RightHand \<equiv> 4"
abbreviation (input) LeftHand :: uint16 where "LeftHand \<equiv> 5"

text \<open>A slot number that fits a \<open>uint16\<close>.\<close>

definition valid_slot :: "int32 \<Rightarrow> bool" where
  "valid_slot v \<longleftrightarrow> 0 \<le> sint v \<and> sint v \<le> 65535"

definition notifyStorageExchange :: "uint16 \<Rightarrow> bool \<Rightarrow> 'm Game \<Rightarrow> 'm Game" where
  "notifyStorageExchange s result = send s (2165, [FByte (of_bool result)])"

definition unequip_packet :: "int32 \<Rightarrow> uint16 \<Rightarrow> packet" where
  "unequip_packet i slot = (207, [FInt32 i, FInt16 slot])"

definition equip_packet :: "int32 \<Rightarrow> Item \<Rightarrow> packet" where
  "equip_packet i item = (206, [FInt32 i, FUint32 (Kind item), FUint16 (Slot item)])"

text \<open>An empty hand stands for the other one when that holds a weapon.\<close>

definition resolved_slot :: "'m Equipment \<Rightarrow> uint16 \<Rightarrow> uint16" where
  "resolved_slot e slot =
     (if Kind (Equipment_Get slot e) \<noteq> 0 then slot
      else if slot = RightHand \<and> Kind (Equipment_Get LeftHand e) \<noteq> 0 then LeftHand
      else if slot = LeftHand \<and> Kind (Equipment_Get RightHand e) \<noteq> 0 then RightHand
      else slot)"

text \<open>The four cases of \<open>StorageExchangeMove\<close> without the warehouse.\<close>

definition take_off :: "uint16 \<Rightarrow> uint16 \<Rightarrow> uint16 \<Rightarrow> 'm Character \<Rightarrow> 'm Game \<Rightarrow> 'm Game option" where
  "take_off s deleteSlot createSlot c g =
     (let (res, g) = use_both s (Equipment_UnEquipItem (resolved_slot (CharEquipment c) deleteSlot) createSlot) c g in do {
        (ok, err) \<leftarrow> res;
        let g = notifyStorageExchange s ok g;
        if err \<noteq> nil \<or> \<not> ok then Some g else broadcast_own s (unequip_packet (CharId c) deleteSlot) g })"

definition put_on :: "uint16 \<Rightarrow> uint16 \<Rightarrow> uint16 \<Rightarrow> 'm Character \<Rightarrow> 'm Game \<Rightarrow> 'm Game option" where
  "put_on s deleteSlot createSlot c g =
     (let (res, g) = use_both s (Equipment_EquipItem deleteSlot createSlot) c g in do {
        (ok, err) \<leftarrow> res; c \<leftarrow> player s g;
        let item = Equipment_Get createSlot (CharEquipment c); let g = notifyStorageExchange s ok g;
        if err \<noteq> nil \<or> \<not> ok then Some g else broadcast_own s (equip_packet (CharId c) item) g })"

definition shift_on :: "uint16 \<Rightarrow> uint16 \<Rightarrow> uint16 \<Rightarrow> 'm Character \<Rightarrow> 'm Game \<Rightarrow> 'm Game option" where
  "shift_on s deleteSlot createSlot c g =
     (let ((ok, err), g) = use_eq s (Equipment_MoveItem deleteSlot createSlot) c g in do {
        c \<leftarrow> player s g;
        let item = Equipment_Get createSlot (CharEquipment c); let g = notifyStorageExchange s ok g;
        if err \<noteq> nil \<or> \<not> ok then Some g
        else do { g \<leftarrow> broadcast_own s (unequip_packet (CharId c) deleteSlot) g;
          broadcast_own s (equip_packet (CharId c) item) g } })"

definition move_in :: "uint16 \<Rightarrow> uint16 \<Rightarrow> uint16 \<Rightarrow> 'm Character \<Rightarrow> 'm Game \<Rightarrow> 'm Game" where
  "move_in s deleteSlot createSlot c g =
     (let ((ok, err), g) = use_inv s (Move deleteSlot createSlot) c g in notifyStorageExchange s ok g)"

text \<open>Inventory and warehouse by their type, for reading and for writing.\<close>

definition storage_of :: "int32 \<Rightarrow> 'm Context \<Rightarrow> 'm Character \<Rightarrow> 'm Inventory" where
  "storage_of t ctx c = (if t = typeInventory then CharInventory c else Warehouse ctx)"

definition upd_storage :: "int32 \<Rightarrow> ('m Inventory \<Rightarrow> 'm Inventory) \<Rightarrow> 'm Context \<Rightarrow> 'm Context" where
  "upd_storage t f = (if t = typeInventory then on_char (CharInventory_update f) else Warehouse_update f)"

definition moveStorageItem ::
    "uint16 \<Rightarrow> 'm Context \<Rightarrow> 'm Character \<Rightarrow> int32 \<Rightarrow> uint16 \<Rightarrow> int32 \<Rightarrow> uint16 \<Rightarrow> 'm Game \<Rightarrow> bool \<times> 'm Game" where
  "moveStorageItem s ctx c sourceType sourceSlot targetType targetSlot g =
     (let item = Inventory_Get sourceSlot (storage_of sourceType ctx c);
          elsewhere = (sourceType \<noteq> targetType \<or> sourceSlot \<noteq> targetSlot) in
      if Kind item = 0 then (False, g)
      else if elsewhere \<and> Kind (Inventory_Get targetSlot (storage_of targetType ctx c)) \<noteq> 0 then (False, g)
      else
        let request = \<lparr>smServer = ServerId g, smCharacter = CharId c, SourceType = ucast sourceType, SourceSlot = sourceSlot,
              TargetType = ucast targetType, smTargetSlot = targetSlot\<rparr>;
            (res, m) = call_storage (g_RPCHandler g) request (remote g); g = g\<lparr>remote := m\<rparr> in
        if res \<noteq> Inr True then (False, g)
        else if elsewhere
        then (True, upd s (upd_storage targetType (SetLocal (item\<lparr>Slot := targetSlot\<rparr>)))
               (upd s (upd_storage sourceType (RemoveLocal sourceSlot)) g))
        else (True, g))"

definition StorageExchangeMove :: "uint16 \<Rightarrow> Reader \<Rightarrow> 'm Game \<Rightarrow> 'm Game option" where
  "StorageExchangeMove s r g = do {
     (sourceType, r) \<leftarrow> ReadInt32 r; (sourceSlotValue, r) \<leftarrow> ReadInt32 r;
     (targetType, r) \<leftarrow> ReadInt32 r; (targetSlotValue, r) \<leftarrow> ReadInt32 r;
     if \<not> valid_slot sourceSlotValue \<or> \<not> valid_slot targetSlotValue then Some (notifyStorageExchange s False g)
     else case Parse s g of
       None \<Rightarrow> Some g
     | Some ctx \<Rightarrow> do {
         c \<leftarrow> cChar ctx;
         let deleteSlot = ucast sourceSlotValue; let createSlot = ucast targetSlotValue;
         if sourceType = typeEquipment \<and> targetType = typeInventory then take_off s deleteSlot createSlot c g
         else if sourceType = typeInventory \<and> targetType = typeEquipment then put_on s deleteSlot createSlot c g
         else if sourceType = typeEquipment \<and> targetType = typeEquipment then shift_on s deleteSlot createSlot c g
         else if sourceType = typeInventory \<and> targetType = typeInventory then Some (move_in s deleteSlot createSlot c g)
         else if (sourceType = typeInventory \<or> sourceType = typeWarehouse) \<and>
           (targetType = typeInventory \<or> targetType = typeWarehouse)
         then let (ok, g) = moveStorageItem s ctx c sourceType deleteSlot targetType createSlot g in
           Some (notifyStorageExchange s ok g)
         else Some (notifyStorageExchange s False g) } }"

definition validStorageSlot :: "int32 \<Rightarrow> int32 \<Rightarrow> bool" where
  "validStorageSlot storageType slot \<longleftrightarrow> 0 \<le> sint storageType \<and> sint storageType \<le> 2 \<and> valid_slot slot"

definition readStorageSlot :: "Reader \<Rightarrow> ((int32 \<times> int32) \<times> Reader) option" where
  "readStorageSlot r = do { (storageType, r) \<leftarrow> ReadInt32 r; (slot, r) \<leftarrow> ReadInt32 r; Some ((storageType, slot), r) }"

definition sendStorageSwapResult :: "uint16 \<Rightarrow> bool \<Rightarrow> 'm Game \<Rightarrow> 'm Game" where
  "sendStorageSwapResult s result = send s (2166, [FByte (of_bool result)])"

text \<open>The operation that types and slots ask for; with the warehouse there is none.\<close>

definition swap_items :: "uint16 \<Rightarrow> int32 \<Rightarrow> uint16 \<Rightarrow> int32 \<Rightarrow> uint16 \<Rightarrow> 'm Character \<Rightarrow> 'm Game \<Rightarrow> (bool \<times> err) option \<times> 'm Game" where
  "swap_items s src srcSlot dst dstSlot c g =
     (if src = typeInventory \<and> dst = typeInventory then apfst Some (use_inv s (Inventory_Swap srcSlot dstSlot) c g)
      else if src = typeInventory \<and> dst = typeEquipment then use_both s (SwapEquipItem srcSlot dstSlot) c g
      else if src = typeEquipment \<and> dst = typeInventory then use_both s (SwapEquipItem dstSlot srcSlot) c g
      else if src = typeEquipment \<and> dst = typeEquipment then apfst Some (use_eq s (Equipment_Swap srcSlot dstSlot) c g)
      else (Some (False, nil), g))"

definition StorageItemSwap :: "uint16 \<Rightarrow> Reader \<Rightarrow> 'm Game \<Rightarrow> 'm Game option" where
  "StorageItemSwap s r g = do {
     ((src, srcSlotValue), r) \<leftarrow> readStorageSlot r; ((dst, dstSlotValue), r) \<leftarrow> readStorageSlot r;
     ((src2, src2SlotValue), r) \<leftarrow> readStorageSlot r; ((dst2, dst2SlotValue), r) \<leftarrow> readStorageSlot r;
     (_, r) \<leftarrow> ReadByte r; (_, r) \<leftarrow> ReadBytes 3 r; (_, r) \<leftarrow> ReadInt32 r;
     if \<not> validStorageSlot src srcSlotValue \<or> \<not> validStorageSlot dst dstSlotValue \<or>
       \<not> validStorageSlot src2 src2SlotValue \<or> \<not> validStorageSlot dst2 dst2SlotValue \<or> src \<noteq> dst2 \<or> src2 \<noteq> dst
     then Some (sendStorageSwapResult s False g)
     else case player s g of
       None \<Rightarrow> Some g
     | Some c \<Rightarrow>
         let (res, g) = swap_items s src (ucast srcSlotValue) dst (ucast dstSlotValue) c g in do {
           (state, err) \<leftarrow> res;
           Some (sendStorageSwapResult s state g) } }"

text \<open>The equipment slots of earrings, bracelets and rings.\<close>

definition accessory_slots :: "int32 \<Rightarrow> int list option" where
  "accessory_slots accyType =
     (if accyType = 1 then Some [13, 14] else if accyType = 2 then Some [15, 16]
      else if accyType = 3 then Some [8, 9, 17, 18] else None)"

definition AccessoryEquip :: "uint16 \<Rightarrow> Reader \<Rightarrow> 'm Game \<Rightarrow> 'm Game option" where
  "AccessoryEquip s r g = do {
     (slot, r) \<leftarrow> ReadUint32 r; (_, r) \<leftarrow> ReadInt32 r; (accyType, r) \<leftarrow> ReadInt32 r;
     case player s g of
       None \<Rightarrow> Some g
     | Some c \<Rightarrow>
         (case accessory_slots accyType of
            None \<Rightarrow> Some g
          | Some slots \<Rightarrow>
              let (res, g) = use_both s (EquipAccessory (ucast slot) slots) c g in do {
                (ok, err) \<leftarrow> res;
                Some (send s (486, [FByte (of_bool ok)]) g) }) }"

text \<open>The contents of the warehouse (\<open>warehouse.go\<close>); \<open>ks\<close> is the order in which the map is walked.\<close>

definition GetMyWarehs :: "int list \<Rightarrow> uint16 \<Rightarrow> Reader \<Rightarrow> 'm Game \<Rightarrow> 'm Game option" where
  "GetMyWarehs ks s r g =
     (case Parse s g of
        None \<Rightarrow> Some g
      | Some ctx \<Rightarrow>
          let (data, count) = Inventory_Serialize ks (Warehouse ctx) in
          Some (send s (145, [FUint16 (word_of_nat count), FUint64 0, FBytes data]) g))"

section \<open>Selling and buying (inventory.go)\<close>

definition sendItemSellingResult :: "uint16 \<Rightarrow> uint64 \<Rightarrow> int32 \<Rightarrow> 'm Game \<Rightarrow> 'm Game" where
  "sendItemSellingResult s alz result = send s (162, [FUint64 alz, FInt32 result])"

text \<open>The slots of the request; \<open>Some None\<close> when one is out of range or named twice.\<close>

fun read_slots :: "nat \<Rightarrow> uint16 set \<Rightarrow> Reader \<Rightarrow> uint16 list option option" where
  "read_slots 0 seenSlots r = Some (Some [])"
| "read_slots (Suc n) seenSlots r = do {
     (slot, r) \<leftarrow> ReadInt32 r;
     if \<not> valid_slot slot \<or> ucast slot \<in> seenSlots then Some None
     else do {
       rest \<leftarrow> read_slots n (insert (ucast slot) seenSlots) r;
       Some (map_option ((#) (ucast slot)) rest) } }"

text \<open>The items with the sum of their prices, or the code of the first failure.\<close>

fun sell_items ::
    "(uint32 \<rightharpoonup> itemSellInfo) \<Rightarrow> 'm Inventory \<Rightarrow> uint16 list \<Rightarrow> uint64 \<Rightarrow> int32 + Item list \<times> uint64" where
  "sell_items d e [] earned = Inr ([], earned)"
| "sell_items d e (slot # slots) earned =
     (let item = Inventory_Get slot e in
      if Kind item = 0 then Inl 1
      else case FindItemSellValue d (Kind item) (Option item) of
        None \<Rightarrow> Inl 4
      | Some price \<Rightarrow>
          if price = 0 then Inl 4
          else if - 1 - earned < price then Inl 6
          else (case sell_items d e slots (earned + price) of
              Inl er \<Rightarrow> Inl er
            | Inr (items, paid) \<Rightarrow> Inr (item # items, paid)))"

definition ItemSelling :: "Goods \<Rightarrow> uint16 \<Rightarrow> Reader \<Rightarrow> 'm Game \<Rightarrow> 'm Game option" where
  "ItemSelling d s r g = do {
     (npcIndex, r) \<leftarrow> ReadByte r; (remoteShopSlot, r) \<leftarrow> ReadInt32 r; (tradeCount, r) \<leftarrow> ReadInt32 r;
     if \<not> valid_slot remoteShopSlot then Some (sendItemSellingResult s 0 2 g)
     else if sint tradeCount \<le> 0 \<or> 128 < sint tradeCount then Some (sendItemSellingResult s 0 1 g)
     else do {
       read \<leftarrow> read_slots (nat (sint tradeCount)) {} r;
       case read of
         None \<Rightarrow> Some (sendItemSellingResult s 0 1 g)
       | Some slots \<Rightarrow>
           (case player s g of
              None \<Rightarrow> Some (sendItemSellingResult s 0 1 g)
            | Some c \<Rightarrow>
                (case sell_items (itemSellData d) (CharInventory c) slots 0 of
                   Inl er \<Rightarrow> Some (sendItemSellingResult s 0 er g)
                 | Inr (items, earned) \<Rightarrow>
                     if - 1 - Alz c < earned then Some (sendItemSellingResult s (Alz c) 5 g)
                     else
                       let ((sold, alz, err), g) = use_inv s (Sell items earned) c g in
                       if err \<noteq> nil then Some (sendItemSellingResult s 0 1 g)
                       else if \<not> sold then Some (sendItemSellingResult s alz 1 g)
                       else Some (sendItemSellingResult s alz 0 (upd s (on_char (Alz_update (\<lambda>_. alz))) g)))) } }"

definition sendItemBuyingsResult :: "uint16 \<Rightarrow> int32 \<Rightarrow> Item \<Rightarrow> 'm Game \<Rightarrow> 'm Game" where
  "sendItemBuyingsResult s result item = send s (161, [FInt32 result, FUint32 (Kind item), FInt32 (Option item),
     FUint16 (Slot item), FUint32 (Expire item)])"

text \<open>Kind, count and slot of a request in its two formats.\<close>

definition read_purchase :: "Reader \<Rightarrow> ((uint32 \<times> int32 \<times> int32) \<times> Reader) option" where
  "read_purchase r =
     (if rSize r = 25
      then do { (requestedKind, r) \<leftarrow> ReadUint32 r; (slot, r) \<leftarrow> ReadUint16 r; Some ((requestedKind, 1, ucast slot), r) }
      else do { (tradeCount, r) \<leftarrow> ReadInt32 r; (inventorySlot, r) \<leftarrow> ReadInt32 r; Some ((0, tradeCount, inventorySlot), r) })"

definition ItemBuyings :: "Goods \<Rightarrow> uint16 \<Rightarrow> Reader \<Rightarrow> 'm Game \<Rightarrow> 'm Game option" where
  "ItemBuyings d s r g = do {
     (npcIndex, r) \<leftarrow> ReadByte r; (setIndex, r) \<leftarrow> ReadInt32 r; (remoteShopSlot, r) \<leftarrow> ReadInt32 r;
     ((requestedKind, tradeCount, inventorySlot), r) \<leftarrow> read_purchase r;
     if sint remoteShopSlot < 0 \<or> tradeCount \<noteq> 1 \<or> \<not> valid_slot inventorySlot
     then Some (sendItemBuyingsResult s 1 zero_Item g)
     else case player s g of
       None \<Rightarrow> Some (sendItemBuyingsResult s 2 zero_Item g)
     | Some c \<Rightarrow>
         (case FindShopItem (shopItems d) (World c) npcIndex setIndex of
            None \<Rightarrow> Some (sendItemBuyingsResult s 1 zero_Item g)
          | Some shopItem \<Rightarrow>
              let shopKind = (if shKind shopItem = 0 then shItemID shopItem else shKind shopItem) in
              if shopKind = 0 \<or> shPrice shopItem = 0 then Some (sendItemBuyingsResult s 1 zero_Item g)
              else if requestedKind \<noteq> 0 \<and> requestedKind \<noteq> shopKind then Some (sendItemBuyingsResult s 1 zero_Item g)
              else
                let item = zero_Item\<lparr>Kind := shopKind, Option := shOption shopItem, Slot := ucast inventorySlot\<rparr>;
                    ((purchased, alz, err), g) = use_inv s (Purchase item (shPrice shopItem)) c g in
                if err \<noteq> nil then Some (sendItemBuyingsResult s 2 zero_Item g)
                else if \<not> purchased
                then Some (sendItemBuyingsResult s (if alz < shPrice shopItem \<or> Alz c < shPrice shopItem then 5 else 2) zero_Item g)
                else Some (sendItemBuyingsResult s 0 item (upd s (on_char (Alz_update (\<lambda>_. alz))) g))) }"

definition sendBuySkillBookResult :: "uint16 \<Rightarrow> bool \<Rightarrow> Item \<Rightarrow> 'm Game \<Rightarrow> 'm Game" where
  "sendBuySkillBookResult s result item = send s (2003, [FByte (if result then 0 else 1), FUint32 (Kind item),
     FUint32 (Serials item), FInt32 (Option item), FUint32 (ucast (Slot item))])"

definition BuySkillBook :: "Goods \<Rightarrow> uint16 \<Rightarrow> Reader \<Rightarrow> 'm Game \<Rightarrow> 'm Game option" where
  "BuySkillBook d s r g = do {
     (npcIndex, r) \<leftarrow> ReadByte r; (setIndex, r) \<leftarrow> ReadUint16 r; (skillIndex, r) \<leftarrow> ReadUint16 r; (slot, r) \<leftarrow> ReadUint16 r;
     case player s g of
       None \<Rightarrow> Some (sendBuySkillBookResult s False zero_Item g)
     | Some c \<Rightarrow>
         (case FindSkillBook (skillBooks d) (World c) npcIndex setIndex of
            None \<Rightarrow> Some (sendBuySkillBookResult s False zero_Item g)
          | Some book \<Rightarrow>
              if bkSkillID book \<noteq> skillIndex then Some (sendBuySkillBookResult s False zero_Item g)
              else
                let item = zero_Item\<lparr>Kind := bkItemID book, Slot := slot\<rparr>;
                    ((result, alz, err), g) = use_inv s (Purchase item (ucast (Price book))) c g in
                if err \<noteq> nil then Some (sendBuySkillBookResult s False zero_Item g)
                else Some (sendBuySkillBookResult s result item
                  (if result then upd s (on_char (Alz_update (\<lambda>_. alz))) g else g))) }"

section \<open>Using items (inventory.go)\<close>

definition sendItemUsingResult :: "uint16 \<Rightarrow> bool \<Rightarrow> 'm Game \<Rightarrow> 'm Game" where
  "sendItemUsingResult s result = send s (285, [FByte (if result then 0 else 1)])"

text \<open>The cooldown of mana potions in nanoseconds; the zero \<open>time.Time\<close> is 0 and never ahead of the clock.\<close>

abbreviation (input) manaPotionCooldown :: int where "manaPotionCooldown \<equiv> 2000000000"

text \<open>The mana after a potion.\<close>

definition drink :: "uint16 \<Rightarrow> 'm Character \<Rightarrow> 'm Character" where
  "drink recovery c =
     (let currentMP = (ucast (CurrentMP c) :: uint32) + ucast recovery;
          currentMP = (if ucast (MaxMP c) < currentMP then ucast (MaxMP c) else currentMP) in
      c\<lparr>CurrentMP := ucast currentMP\<rparr>)"

definition useManaPotion :: "uint16 \<Rightarrow> 'm Context \<Rightarrow> uint16 \<Rightarrow> Item \<Rightarrow> uint16 \<Rightarrow> 'm Game \<Rightarrow> 'm Game option" where
  "useManaPotion s ctx slot item recovery g = do {
     c \<leftarrow> cChar ctx;
     if MaxMP c \<le> CurrentMP c \<or> sint (Option item) \<le> 0 \<or> clock g < MPPotionCooldownUntil ctx
     then Some (sendItemUsingResult s False g)
     else do {
       let g = upd s (MPPotionCooldownUntil_update (\<lambda>_. clock g + manaPotionCooldown)) g;
       let ((updatedItem, consumed, err), g) = use_inv s (ConsumeOne slot) c g;
       if err \<noteq> nil \<or> \<not> consumed
       then Some (sendItemUsingResult s False (upd s (MPPotionCooldownUntil_update (\<lambda>_. 0)) g))
       else do {
         let g = upd s (on_char (drink recovery)) g;
         snapshot \<leftarrow> player s g;
         let (_, g) = saveCharacterVitals snapshot g; let g = sendManaPotionUpdate s (CurrentMP snapshot) g;
         Some (sendItemUsingResult s True g) } } }"

text \<open>The first free slot among those for a type of skill.\<close>

definition free_skill_slot :: "(uint16 \<rightharpoonup> Skill) \<Rightarrow> uint16 \<times> uint16 \<Rightarrow> uint16 option" where
  "free_skill_slot skills reserved =
     (case reserved of (slotStart, slotEnd) \<Rightarrow>
        List.find (\<lambda>candidate. skills candidate = None) (map word_of_nat [unat slotStart..<Suc (unat slotEnd)]))"

definition ItemUsing :: "Goods \<Rightarrow> uint16 \<Rightarrow> Reader \<Rightarrow> 'm Game \<Rightarrow> 'm Game option" where
  "ItemUsing d s r g = do {
     (slot, r) \<leftarrow> ReadUint16 r;
     case Parse s g of
       None \<Rightarrow> Some (sendItemUsingResult s False g)
     | Some ctx \<Rightarrow> do {
         c \<leftarrow> cChar ctx;
         let item = Inventory_Get slot (CharInventory c);
         case FindManaPotionRecovery (manaPotionData d) (Kind item) of
           Some recovery \<Rightarrow> useManaPotion s ctx slot item recovery g
         | None \<Rightarrow>
             (case FindSkillBookItem (skillBooksByItem d) (Kind item) of
                None \<Rightarrow> Some (sendItemUsingResult s False g)
              | Some book \<Rightarrow>
                  if \<exists>learned \<in> ran (CharSkills c). SkillId learned = bkSkillID book then Some (sendItemUsingResult s False g)
                  else
                    let reserved = (case SkillSlotRange (skillDamageData d) (bkSkillID book) of Some r \<Rightarrow> r | None \<Rightarrow> (0, 255)) in
                    (case free_skill_slot (CharSkills c) reserved of
                       None \<Rightarrow> Some (sendItemUsingResult s False g)
                     | Some skillSlot \<Rightarrow>
                         let skill = \<lparr>SkillId = bkSkillID book, Level = bkLevel book, SkillSlot = skillSlot\<rparr>;
                             ((result, err), g) = use_inv s (ConsumeSkillBook slot (bkItemID book) skill) c g in
                         if err \<noteq> nil then Some (sendItemUsingResult s False g)
                         else Some (sendItemUsingResult s result
                           (if result then upd s (on_char (CharSkills_update (\<lambda>sk. sk(skillSlot \<mapsto> skill)))) g else g)))) } }"

section \<open>Force cores and upgrades (enchant.go)\<close>

definition sendEnchantCoreResult :: "uint16 \<Rightarrow> bool \<Rightarrow> int32 \<Rightarrow> 'm Game \<Rightarrow> 'm Game" where
  "sendEnchantCoreResult s result itemOption = send s (280, [FByte (of_bool result), FInt32 itemOption])"

definition validOptionalEnchantSlot :: "int32 \<Rightarrow> bool" where
  "validOptionalEnchantSlot slot \<longleftrightarrow> slot = - 1 \<or> valid_slot slot"

fun read_int32s :: "nat \<Rightarrow> Reader \<Rightarrow> (int32 list \<times> Reader) option" where
  "read_int32s 0 r = Some ([], r)"
| "read_int32s (Suc n) r = do { (v, r) \<leftarrow> ReadInt32 r; (vs, r) \<leftarrow> read_int32s n r; Some (v # vs, r) }"

text \<open>Whether every slot of the request is used once; a scroll that is not used has slot -1.\<close>

primrec slots_once :: "int32 set \<Rightarrow> int32 list \<Rightarrow> bool" where
  "slots_once usedSlots [] = True"
| "slots_once usedSlots (slot # slots) \<longleftrightarrow>
     valid_slot slot \<and> slot \<notin> usedSlots \<and> slots_once (insert slot usedSlots) slots"

definition scrolls :: "int32 list \<Rightarrow> int32 list" where
  "scrolls = filter (\<lambda>slot. 0 \<le> sint slot)"

text \<open>What becomes of the target: \<open>roll\<close> and \<open>pick\<close> are the draws, \<open>None\<close> stands for a refusal.\<close>

definition enchanted ::
    "Goods \<Rightarrow> uint64 option \<Rightarrow> (nat \<Rightarrow> nat option) \<Rightarrow> Item \<Rightarrow> Item option \<Rightarrow> byte \<Rightarrow> Item option" where
  "enchanted d roll pick target specificScroll forceCoreNum =
     (if \<not> ForceCoreHasRoom (Option target) then None
      else case RollForceCoreSuccess (forceCores d) roll (Kind target) (Option target) forceCoreNum of
        (_, _, False) \<Rightarrow> None
      | (False, _, True) \<Rightarrow> Some target
      | (True, _, True) \<Rightarrow>
          (case (case specificScroll of
                   Some scroll \<Rightarrow> SelectForceCoreSpecificOption (forceCores d) (itemTypes d) (Kind target) (Option scroll)
                 | None \<Rightarrow> SelectForceCoreOption (forceCores d) (itemTypes d) pick (Kind target)) of
             None \<Rightarrow> None
           | Some optionCode \<Rightarrow>
               (case AddForceCoreOption (Option target) optionCode of
                  (_, False) \<Rightarrow> None
                | (option, True) \<Rightarrow> Some (target\<lparr>Option := option\<rparr>))))"

definition EnchantCore ::
    "Goods \<Rightarrow> uint64 option \<Rightarrow> (nat \<Rightarrow> nat option) \<Rightarrow> uint16 \<Rightarrow> Reader \<Rightarrow> 'm Game \<Rightarrow> 'm Game option" where
  "EnchantCore d roll pick s r g =
     (if rSize r \<noteq> 63 then Some (sendEnchantCoreResult s False 0 g)
      else do {
        (targetSlot, r) \<leftarrow> ReadInt32 r; (randomScrollSlot, r) \<leftarrow> ReadInt32 r; (specificScrollSlot, r) \<leftarrow> ReadInt32 r;
        (forceCoreNum, r) \<leftarrow> ReadByte r; (forceCoreSlots, r) \<leftarrow> read_int32s 10 r;
        let coreSlots = take (unat forceCoreNum) forceCoreSlots;
        if \<not> valid_slot targetSlot \<or> \<not> validOptionalEnchantSlot randomScrollSlot \<or>
          \<not> validOptionalEnchantSlot specificScrollSlot \<or> forceCoreNum = 0 \<or> 10 < forceCoreNum
        then Some (sendEnchantCoreResult s False 0 g)
        else if \<not> slots_once {targetSlot} (scrolls [randomScrollSlot, specificScrollSlot] @ coreSlots)
        then Some (sendEnchantCoreResult s False 0 g)
        else case player s g of
          None \<Rightarrow> Some (sendEnchantCoreResult s False 0 g)
        | Some c \<Rightarrow>
            let item = (\<lambda>slot. Inventory_Get (ucast slot) (CharInventory c)); target = item targetSlot;
                scroll = (\<lambda>slot. if 0 \<le> sint slot then Some (item slot) else None);
                randomScroll = scroll randomScrollSlot; specificScroll = scroll specificScrollSlot;
                cores = map item coreSlots in
            if Kind target = 0 \<or> (\<exists>x \<in> set (opt_list randomScroll @ opt_list specificScroll @ cores). Kind x = 0) \<or>
              randomScroll = None \<and> specificScroll = None
            then Some (sendEnchantCoreResult s False 0 g)
            else case enchanted d roll pick target specificScroll forceCoreNum of
              None \<Rightarrow> Some (sendEnchantCoreResult s False 0 g)
            | Some newTarget \<Rightarrow>
                let ((ok, err), g) = use_inv s (ForceCoreEnchant target newTarget randomScroll specificScroll cores) c g in
                Some (if ok then sendEnchantCoreResult s True (Option newTarget) g else sendEnchantCoreResult s False 0 g) })"

definition nextEnchantKind :: "uint32 \<Rightarrow> uint32 option" where
  "nextEnchantKind kind =
     (if kind = 0 then None
      else let level = drop_bit 13 (and kind upgradeCoreMask) in
        if 15 \<le> level then None else Some (or (and kind (not upgradeCoreMask)) (push_bit 13 (level + 1))))"

definition sendEnchantResult :: "uint16 \<Rightarrow> byte \<Rightarrow> uint32 \<Rightarrow> int32 \<Rightarrow> uint32 \<Rightarrow> 'm Game \<Rightarrow> 'm Game" where
  "sendEnchantResult s result kind option expire =
     send s (951, [FByte result, FUint32 kind, FInt32 option, FUint32 expire])"

fun read_uint16s :: "nat \<Rightarrow> Reader \<Rightarrow> (uint16 list \<times> Reader) option" where
  "read_uint16s 0 r = Some ([], r)"
| "read_uint16s (Suc n) r = do { (v, r) \<leftarrow> ReadUint16 r; (vs, r) \<leftarrow> read_uint16s n r; Some (v # vs, r) }"

definition UpgradeCoreEnchant :: "uint16 \<Rightarrow> Reader \<Rightarrow> 'm Game \<Rightarrow> 'm Game option" where
  "UpgradeCoreEnchant s r g = do {
     (coreCount, r) \<leftarrow> ReadByte r; (targetSlot, r) \<leftarrow> ReadUint16 r;
     if coreCount = 0 \<or> 7 < coreCount then Some (sendEnchantResult s 6 0 0 0 g)
     else do {
       (coreSlots, r) \<leftarrow> read_uint16s (unat coreCount) r;
       case player s g of
         None \<Rightarrow> Some (sendEnchantResult s 6 0 0 0 g)
       | Some c \<Rightarrow>
           let target = Inventory_Get targetSlot (CharInventory c) in
           (case nextEnchantKind (Kind target) of
              None \<Rightarrow> Some (sendEnchantResult s 6 0 0 0 g)
            | Some newKind \<Rightarrow>
                let ((ok, err), g) = use_inv s (Enchant targetSlot newKind coreSlots) c g in
                Some (if ok then sendEnchantResult s 1 newKind (Option target) (Expire target) g
                  else sendEnchantResult s 6 0 0 0 g)) } }"

section \<open>Attaching one item to another (item_attach.go)\<close>

definition sendItemAttachResult :: "uint16 \<Rightarrow> int32 \<Rightarrow> Item \<Rightarrow> 'm Game \<Rightarrow> 'm Game" where
  "sendItemAttachResult s result target = send s (2170, [FInt32 result, FUint32 (Kind target), FUint32 (Serials target),
     FInt32 (Option target), FUint16 (Slot target), FUint32 (Expire target)])"

definition applySlotExtender :: "type_table \<Rightarrow> Item \<Rightarrow> Item option" where
  "applySlotExtender types target =
     (if Kind target = 0 \<or> \<not> IsSlotExtenderTarget types (Kind target) then None
      else if and (Kind target) 0x00001000 \<noteq> 0 \<or> and (Kind target) 0x00100000 \<noteq> 0 then None
      else
        let option = (ucast (Option target) :: uint32);
            slotCount = drop_bit 28 (and option 0xF0000000);
            limit = (if and option 0x00000080 \<noteq> 0 then 3 else 4 :: uint32) in
        if limit \<le> slotCount then None
        else Some (target\<lparr>Option := ucast (or (and option 0x0FFFFFFF) (push_bit 28 (slotCount + 1))),
          Kind := or (Kind target) 0x00001000\<rparr>))"

text \<open>The target after the operation its source stands for.\<close>

definition attached :: "Goods \<Rightarrow> Item \<Rightarrow> Item \<Rightarrow> Item option" where
  "attached d source target =
     (case FindArmorBinderResult (armorBinderResults d) (Kind source) (Kind target) of
        Some newKind \<Rightarrow> Some (target\<lparr>Kind := newKind\<rparr>)
      | None \<Rightarrow>
          if FindItemAttachOperation (itemTypes d) (Kind source) \<noteq> (ItemAttachSlotExtender, True) then None
          else applySlotExtender (itemTypes d) target)"

definition ItemAttach :: "Goods \<Rightarrow> uint16 \<Rightarrow> Reader \<Rightarrow> 'm Game \<Rightarrow> 'm Game option" where
  "ItemAttach d s r g = do {
     (sourceSlotValue, r) \<leftarrow> ReadInt32 r; (targetSlotValue, r) \<leftarrow> ReadInt32 r;
     if \<not> valid_slot sourceSlotValue \<or> \<not> valid_slot targetSlotValue \<or> sourceSlotValue = targetSlotValue
     then Some (sendItemAttachResult s 1 zero_Item g)
     else case player s g of
       None \<Rightarrow> Some (sendItemAttachResult s 1 zero_Item g)
     | Some c \<Rightarrow>
         let sourceSlot = ucast sourceSlotValue; targetSlot = ucast targetSlotValue;
             source = Inventory_Get sourceSlot (CharInventory c); target = Inventory_Get targetSlot (CharInventory c) in
         (case attached d source target of
            None \<Rightarrow> Some (sendItemAttachResult s 1 zero_Item g)
          | Some target \<Rightarrow>
              let ((ok, err), g) = use_inv s (AttachWithTarget sourceSlot targetSlot target) c g in
              Some (if ok then sendItemAttachResult s 0 target g else sendItemAttachResult s 1 zero_Item g)) }"

text \<open>
  The handlers of this theory by the code they are registered for. \<open>EnchantCore\<close> and \<open>GetMyWarehs\<close> take the
  draws and the order of a map besides.
\<close>

definition bag_handlers :: "Goods \<Rightarrow> (uint16 \<times> 'm handler) list" where
  "bag_handlers d = [(161, ItemBuyings d), (162, ItemSelling d), (285, ItemUsing d), (486, AccessoryEquip),
     (951, UpgradeCoreEnchant), (2003, BuySkillBook d), (2165, StorageExchangeMove), (2166, StorageItemSwap),
     (2170, ItemAttach d)]"

end
