(* ===== verification/Freya_Bag_Laws.thy ===== *)
theory Freya_Bag_Laws
  imports Freya_Bag Freya_Wear Freya_Trade_Protocol
begin

text \<open>
  What a client sees of its belongings is what the master server has recorded: inventory, equipment, warehouse,
  Alz and skills stay equal to the database through every packet of \<open>Freya_Bag\<close>, whichever calls fail. The locale
  \<open>bag_master\<close> extends \<open>equipment_master\<close> by what the handlers need of the other calls.
\<close>

section \<open>Belongings beside inventory and equipment\<close>

record Belongings =
  whRows :: "uint16 \<rightharpoonup> Item"
  purse :: "uint64 option"
  learnt :: "uint16 \<rightharpoonup> uint16 \<times> byte"

text \<open>The rows of a storage, by the byte a request names it with: 0 is the inventory, 2 the warehouse.\<close>

definition shelf :: "('m \<Rightarrow> int32 \<Rightarrow> uint16 \<rightharpoonup> Item) \<Rightarrow> ('m \<Rightarrow> int32 \<Rightarrow> Belongings) \<Rightarrow> byte \<Rightarrow> 'm \<Rightarrow> int32 \<Rightarrow> uint16 \<rightharpoonup> Item" where
  "shelf rows bel t m c = (if t = 0 then rows m c else whRows (bel m c))"

text \<open>One item carried from a place to another.\<close>

definition carried :: "byte \<Rightarrow> uint16 \<Rightarrow> byte \<Rightarrow> uint16 \<Rightarrow> Item \<Rightarrow> (byte \<Rightarrow> uint16 \<rightharpoonup> Item) \<Rightarrow> byte \<Rightarrow> uint16 \<rightharpoonup> Item" where
  "carried src srcSlot tgt tgtSlot it shelves t =
     (let rest = (if t = src then (shelves t)(srcSlot := None) else shelves t) in
      if t = tgt then rest(tgtSlot \<mapsto> it\<lparr>Slot := tgtSlot\<rparr>) else rest)"

locale bag_master = equipment_master rpc rows eqrows
  for rpc :: "'m Client" and rows eqrows :: "'m \<Rightarrow> int32 \<Rightarrow> uint16 \<rightharpoonup> Item" +
  fixes bel :: "'m \<Rightarrow> int32 \<Rightarrow> Belongings"
  assumes bel_item: "cmd \<in> inventory_commands \<union> equipment_commands \<Longrightarrow> call_item rpc cmd r m = (res, m') \<Longrightarrow> bel m' = bel m"
    and bel_purchase: "call_purchase rpc pq m = (pres, m') \<Longrightarrow> bel m' (pCharacter pq) =
      (case pres of Inr p \<Rightarrow> if pResult p then (bel m (pCharacter pq))\<lparr>purse := Some (pAlz p)\<rparr> else bel m (pCharacter pq)
       | Inl _ \<Rightarrow> bel m (pCharacter pq))"
    and bel_sell: "call_sell rpc sq m = (sres, m') \<Longrightarrow> bel m' (sCharacter sq) =
      (case sres of Inr p \<Rightarrow> if sResult p then (bel m (sCharacter sq))\<lparr>purse := Some (sAlz p)\<rparr> else bel m (sCharacter sq)
       | Inl _ \<Rightarrow> bel m (sCharacter sq))"
    and bel_learn: "call_learn rpc lq m = (bres, m') \<Longrightarrow> bel m' (lCharacter lq) =
      (if accepted id bres
       then (bel m (lCharacter lq))\<lparr>learnt := (learnt (bel m (lCharacter lq)))
         (SkillSlot (lSkill lq) \<mapsto> (SkillId (lSkill lq), Level (lSkill lq)))\<rparr>
       else bel m (lCharacter lq))"
    and bel_enchant: "call_enchant rpc eq m = (bres, m') \<Longrightarrow> bel m' = bel m"
    and bel_attach: "call_attach rpc aq m = (bres, m') \<Longrightarrow> bel m' = bel m"
    and vitals: "call_vitals rpc vq m = (bres, m') \<Longrightarrow> rows m' = rows m \<and> eqrows m' = eqrows m \<and> bel m' = bel m"
    and storage: "call_storage rpc mq m = (bres, m') \<Longrightarrow> SourceType mq \<in> {0, 2} \<Longrightarrow> TargetType mq \<in> {0, 2} \<Longrightarrow>
      if accepted id bres \<and> (SourceType mq \<noteq> TargetType mq \<or> SourceSlot mq \<noteq> smTargetSlot mq)
      then \<exists>it. shelf rows bel (SourceType mq) m (smCharacter mq) (SourceSlot mq) = Some it \<and>
        (\<forall>t \<in> {0, 2}. shelf rows bel t m' (smCharacter mq) =
           carried (SourceType mq) (SourceSlot mq) (TargetType mq) (smTargetSlot mq) it
             (\<lambda>t. shelf rows bel t m (smCharacter mq)) t)
      else rows m' (smCharacter mq) = rows m (smCharacter mq) \<and> whRows (bel m' (smCharacter mq)) = whRows (bel m (smCharacter mq))"
    and storage_rest: "call_storage rpc mq m = (bres, m') \<Longrightarrow>
      eqrows m' = eqrows m \<and> purse (bel m' c) = purse (bel m c) \<and> learnt (bel m' c) = learnt (bel m c)"

section \<open>Calls that leave the belongings alone\<close>

text \<open>\<open>calm bel m i x\<close>: the operation changed nothing but rows and contents.\<close>

definition calm :: "('m \<Rightarrow> int32 \<Rightarrow> Belongings) \<Rightarrow> 'm \<Rightarrow> 'm Inventory \<Rightarrow> 'r \<times> 'm Inventory \<times> 'm \<Rightarrow> bool" where
  "calm bel m i x \<longleftrightarrow> (case x of (r, i', m') \<Rightarrow>
     bel m' = bel m \<and> rpcHandler i' = rpcHandler i \<and> character i' = character i)"

definition calm_eq :: "('m \<Rightarrow> int32 \<Rightarrow> Belongings) \<Rightarrow> 'm \<Rightarrow> 'm Equipment \<Rightarrow> 'r \<times> 'm Equipment \<times> 'm \<Rightarrow> bool" where
  "calm_eq bel m e x \<longleftrightarrow> (case x of (r, e', m') \<Rightarrow> bel m' = bel m \<and> eq_rpcHandler e' = eq_rpcHandler e)"

definition calm_both ::
    "('m \<Rightarrow> int32 \<Rightarrow> Belongings) \<Rightarrow> 'm \<Rightarrow> 'm Equipment \<Rightarrow> 'm Inventory \<Rightarrow> 'm move_result \<Rightarrow> bool" where
  "calm_both bel m e i x \<longleftrightarrow> (case x of (r, e', i', m') \<Rightarrow> bel m' = bel m \<and>
     eq_rpcHandler e' = eq_rpcHandler e \<and> rpcHandler i' = rpcHandler i \<and> character i' = character i)"

context bag_master
begin

lemma sync_calm:
  assumes "sync cmd old new i m = (r, m')" "rpcHandler i = Some rpc" "cmd \<in> inventory_commands"
  shows "bel m' = bel m"
proof -
  have "cmd \<in> inventory_commands \<union> equipment_commands" using assms(3) by (rule UnI1)
  then have "call_item rpc cmd q m = (x, n) \<Longrightarrow> bel n = bel m" for q x n by (rule bel_item)
  with assms(1,2) show ?thesis unfolding sync_def Let_def by (auto split: prod.splits sum.splits if_splits)
qed

lemma Equipment_sync_calm:
  assumes "Equipment_sync cmd old new e m = (r, m')" "eq_rpcHandler e = Some rpc" "cmd \<in> equipment_commands"
  shows "bel m' = bel m"
proof -
  have "cmd \<in> inventory_commands \<union> equipment_commands" using assms(3) by (rule UnI2)
  then have "call_item rpc cmd q m = (x, n) \<Longrightarrow> bel n = bel m" for q x n by (rule bel_item)
  with assms(1,2) show ?thesis unfolding Equipment_sync_def Let_def by (auto split: prod.splits sum.splits if_splits)
qed

lemmas sync_calms = sync_calm [where cmd = "''AddItem''", simplified] sync_calm [where cmd = "''RemoveItem''", simplified]
  sync_calm [where cmd = "''MoveItem''", simplified] sync_calm [where cmd = "''SwapItem''", simplified]
  sync_calm [where cmd = "''ConsumeItem''", simplified] Equipment_sync_calm [where cmd = "''EquipItem''", simplified]
  Equipment_sync_calm [where cmd = "''UnEquipItem''", simplified]
  Equipment_sync_calm [where cmd = "''MoveEquipmentItem''", simplified]
  Equipment_sync_calm [where cmd = "''SwapEquipmentItem''", simplified]

lemma calm_ops:
  assumes "rpcHandler i = Some rpc"
  shows "calm bel m i (Inventory_Set slot item i m)"
    and "calm bel m i (Inventory_Remove slot i m)"
    and "calm bel m i (ConsumeOne slot i m)"
    and "calm bel m i (Inventory_Swap a b i m)"
    and "calm bel m i (Move a b i m)"
  using assms by (auto simp: calm_def Inventory_Set_def Inventory_Remove_def ConsumeOne_def Inventory_Swap_def Move_def Let_def
      split: option.split prod.split dest: sync_calms)

lemma calm_others:
  assumes "rpcHandler i = Some rpc"
  shows "calm bel m i (Enchant t k cs i m)"
    and "calm bel m i (AttachWithTarget a b it i m)"
  using assms bel_enchant bel_attach
  by (auto simp: calm_def Enchant_def AttachWithTarget_def attachLocked_def Let_def split: option.split prod.split sum.split)

lemma calm_eq_ops:
  assumes "eq_rpcHandler e = Some rpc"
  shows "calm_eq bel m e (Equipment_Set slot item e m)"
    and "calm_eq bel m e (Equipment_Remove slot e m)"
    and "calm_eq bel m e (Equipment_Swap a b e m)"
    and "calm_eq bel m e (Equipment_MoveItem a b e m)"
  using assms by (auto simp: calm_eq_def Equipment_Set_def Equipment_Remove_def Equipment_Swap_def Equipment_MoveItem_def Let_def
      split: option.split prod.split dest: sync_calms)

text \<open>The same, step by step, for the operations that are made of several.\<close>

lemma inv_steps:
  "Inventory_Set slot item i m = (r, i', m') \<Longrightarrow> rpcHandler i = Some rpc \<Longrightarrow>
     bel m' = bel m \<and> rpcHandler i' = Some rpc \<and> character i' = character i"
  "Inventory_Remove slot i m = (r, i', m') \<Longrightarrow> rpcHandler i = Some rpc \<Longrightarrow>
     bel m' = bel m \<and> rpcHandler i' = Some rpc \<and> character i' = character i"
  using calm_ops(1) [of i m slot item] calm_ops(2) [of i m slot] by (simp_all add: calm_def)

lemma eq_steps:
  "Equipment_Set slot item e m = (r, e', m') \<Longrightarrow> eq_rpcHandler e = Some rpc \<Longrightarrow>
     bel m' = bel m \<and> eq_rpcHandler e' = Some rpc"
  "Equipment_Remove slot e m = (r, e', m') \<Longrightarrow> eq_rpcHandler e = Some rpc \<Longrightarrow>
     bel m' = bel m \<and> eq_rpcHandler e' = Some rpc"
  "Equipment_MoveItem a b e m = (r, e', m') \<Longrightarrow> eq_rpcHandler e = Some rpc \<Longrightarrow>
     bel m' = bel m \<and> eq_rpcHandler e' = Some rpc"
  using calm_eq_ops(1) [of e m slot item] calm_eq_ops(2) [of e m slot] calm_eq_ops(4) [of e m a b]
  by (simp_all add: calm_eq_def)

lemma EquipItem_calm:
  assumes "eq_rpcHandler e = Some rpc" "rpcHandler i = Some rpc"
  shows "calm_both bel m e i (Equipment_EquipItem old new e i m)"
  using assms unfolding Equipment_EquipItem_def
  by (auto simp: calm_both_def Let_def split: prod.split dest!: inv_steps eq_steps)

lemma unEquipItem_calm:
  assumes "eq_rpcHandler e = Some rpc" "rpcHandler i = Some rpc"
  shows "calm_both bel m e i (unEquipItem old new e i m)"
  using assms unfolding unEquipItem_def
  by (auto simp: calm_both_def split: prod.split option.split dest!: inv_steps eq_steps)

lemma both_steps:
  "Equipment_EquipItem old new e i m = (r, e', i', m') \<Longrightarrow> eq_rpcHandler e = Some rpc \<Longrightarrow> rpcHandler i = Some rpc \<Longrightarrow>
     bel m' = bel m \<and> eq_rpcHandler e' = Some rpc \<and> rpcHandler i' = Some rpc \<and> character i' = character i"
  "unEquipItem old new e i m = (r, e', i', m') \<Longrightarrow> eq_rpcHandler e = Some rpc \<Longrightarrow> rpcHandler i = Some rpc \<Longrightarrow>
     bel m' = bel m \<and> eq_rpcHandler e' = Some rpc \<and> rpcHandler i' = Some rpc \<and> character i' = character i"
  using EquipItem_calm [of e i m old new] unEquipItem_calm [of e i m old new] by (simp_all add: calm_both_def)

lemma SwapEquipItem_calm:
  assumes "eq_rpcHandler e = Some rpc" "rpcHandler i = Some rpc"
  shows "calm_both bel m e i (SwapEquipItem old new e i m)"
  using assms unfolding SwapEquipItem_def
  by (auto simp: calm_both_def Let_def split: prod.split option.split dest!: inv_steps eq_steps both_steps)

lemma shift_slots_calm:
  "eq_rpcHandler e = Some rpc \<Longrightarrow> shift_slots slots e m = (e', m') \<Longrightarrow> bel m' = bel m \<and> eq_rpcHandler e' = Some rpc"
proof (induction slots e m arbitrary: e' m' rule: shift_slots.induct)
  case (1 a b slots e m)
  obtain e1 m1 where s: "shift_slots (b # slots) e m = (e1, m1)" by (cases "shift_slots (b # slots) e m")
  obtain r where "Equipment_MoveItem a b e1 m1 = (r, e', m')"
    using "1.prems"(2) s by (cases "Equipment_MoveItem a b e1 m1") auto
  with "1.IH" [OF "1.prems"(1) s] show ?case by (auto dest!: eq_steps)
qed auto

lemma EquipAccessory_calm:
  assumes "eq_rpcHandler e = Some rpc" "rpcHandler i = Some rpc"
  shows "calm_both bel m e i (EquipAccessory old slots e i m)"
  using assms unfolding EquipAccessory_def Equipment_UnEquipItem_def
  by (auto simp: calm_both_def Let_def split: prod.split option.split dest!: inv_steps eq_steps both_steps
      dest: shift_slots_calm [rotated])

end

section \<open>What leaves clients and records alone\<close>

definition still :: "'m Game \<Rightarrow> 'm Game \<Rightarrow> bool" where
  "still g h \<longleftrightarrow> users h = users g \<and> remote h = remote g \<and> g_RPCHandler h = g_RPCHandler g"

lemma still_rules [simp]: "still g g" "still g (send i p h) \<longleftrightarrow> still g h"
  by (simp_all add: still_def)

lemma still_fold: "(\<And>x h. still g h \<Longrightarrow> still g (f x h)) \<Longrightarrow> still g h \<Longrightarrow> still g (fold f xs h)"
  by (induction xs arbitrary: h) simp_all

lemma still_broadcast [simp]: "still g (BroadcastSessionPacket w s p g)"
  by (auto simp: BroadcastSessionPacket_def BroadcastPacket_def sendToNearbyCells_def Cell_Send_def
      split: option.split intro!: still_fold)

lemma still_notify: "still g h \<Longrightarrow> still g (notifyPartyMemberStats s h)"
  by (auto simp: notifyPartyMemberStats_def sendPartyMemberStatsToMembers_def to_members_def sendPartyMemberStats_def Let_def
      split: option.split intro!: still_fold)

section \<open>Memory and records\<close>

text \<open>Warehouse, Alz and skills of a client as its record has them.\<close>

definition account :: "'m Context \<Rightarrow> 'm Character \<Rightarrow> Belongings \<Rightarrow> bool" where
  "account ctx c b \<longleftrightarrow> (\<forall>k. Inv (Warehouse ctx) (key k) = whRows b k) \<and> purse b = Some (Alz c) \<and>
     (\<forall>k. map_option (\<lambda>sk. (SkillId sk, Level sk)) (CharSkills c k) = learnt b k)"

definition on_hand ::
    "'m Client \<Rightarrow> ('m \<Rightarrow> int32 \<Rightarrow> uint16 \<rightharpoonup> Item) \<Rightarrow> ('m \<Rightarrow> int32 \<Rightarrow> uint16 \<rightharpoonup> Item) \<Rightarrow> uint16 \<Rightarrow> 'm Game \<Rightarrow>
     'm Context \<Rightarrow> 'm Character \<Rightarrow> bool" where
  "on_hand rpc rows eqrows s g ctx c \<longleftrightarrow> Parse s g = Some ctx \<and> cChar ctx = Some c \<and> g_RPCHandler g = rpc \<and>
     in_step rpc rows eqrows (CharEquipment c) (CharInventory c) (remote g) \<and> character (CharInventory c) = CharId c"

definition accounted ::
    "'m Client \<Rightarrow> ('m \<Rightarrow> int32 \<Rightarrow> uint16 \<rightharpoonup> Item) \<Rightarrow> ('m \<Rightarrow> int32 \<Rightarrow> uint16 \<rightharpoonup> Item) \<Rightarrow> ('m \<Rightarrow> int32 \<Rightarrow> Belongings) \<Rightarrow>
     uint16 \<Rightarrow> 'm Game \<Rightarrow> bool" where
  "accounted rpc rows eqrows bel s g \<longleftrightarrow>
     (\<exists>ctx c. on_hand rpc rows eqrows s g ctx c \<and> account ctx c (bel (remote g) (CharId c)))"

lemma on_hand_still: "still g h \<Longrightarrow> on_hand rpc rows eqrows s h ctx c = on_hand rpc rows eqrows s g ctx c"
  by (simp add: on_hand_def still_def Parse_def)

lemma accounted_still: "still g h \<Longrightarrow> accounted rpc rows eqrows bel s g \<Longrightarrow> accounted rpc rows eqrows bel s h"
  by (auto simp: accounted_def on_hand_still) (auto simp: still_def)

lemma accounted_send [simp]: "accounted rpc rows eqrows bel s (send i p g) = accounted rpc rows eqrows bel s g"
  by (simp add: accounted_def on_hand_def)

lemma on_hand_player: "on_hand rpc rows eqrows s g ctx c \<Longrightarrow> player s g = Some c"
  by (simp add: on_hand_def)

text \<open>A write to the context of the client, after a call.\<close>

lemma on_hand_write:
  assumes "on_hand rpc rows eqrows s g ctx c" "cChar (f ctx) = Some c'" "CharId c' = CharId c"
    "\<And>x. cChar (f x) = None \<longleftrightarrow> cChar x = None"
    "in_step rpc rows eqrows (CharEquipment c') (CharInventory c') m" "character (CharInventory c') = CharId c"
  shows "on_hand rpc rows eqrows s (upd s f (g\<lparr>remote := m\<rparr>)) (f ctx) c'"
  using assms by (simp add: on_hand_def Parse_upd)

context bag_master
begin

text \<open>The state of a client during a packet: its context, its character and the belongings on record.\<close>

definition holds :: "uint16 \<Rightarrow> 'm Game \<Rightarrow> 'm Context \<Rightarrow> 'm Character \<Rightarrow> Belongings \<Rightarrow> bool" where
  "holds s g ctx c b \<longleftrightarrow> on_hand rpc rows eqrows s g ctx c \<and> bel (remote g) (CharId c) = b"

lemma use_inv_holds:
  assumes "holds s g ctx c b" "f (CharInventory c) (remote g) = (r, i, m)"
    "run_op p (CharInventory c, remote g) = (i, m)" "character i = character (CharInventory c)"
  shows "use_inv s f c g = (r, upd s (on_char (CharInventory_update (\<lambda>_. i))) (g\<lparr>remote := m\<rparr>))"
    "holds s (upd s (on_char (CharInventory_update (\<lambda>_. i))) (g\<lparr>remote := m\<rparr>))
       (on_char (CharInventory_update (\<lambda>_. i)) ctx) (c\<lparr>CharInventory := i\<rparr>) (bel m (CharId c))"
proof -
  have h: "on_hand rpc rows eqrows s g ctx c" using assms(1) by (simp add: holds_def)
  then have step: "in_step rpc rows eqrows (CharEquipment c) (CharInventory c) (remote g)" and c: "cChar ctx = Some c"
    and ch: "character (CharInventory c) = CharId c"
    by (simp_all add: on_hand_def)
  show "use_inv s f c g = (r, upd s (on_char (CharInventory_update (\<lambda>_. i))) (g\<lparr>remote := m\<rparr>))"
    using assms(2) by (simp add: use_inv_def)
  have "on_hand rpc rows eqrows s (upd s (on_char (CharInventory_update (\<lambda>_. i))) (g\<lparr>remote := m\<rparr>))
      (on_char (CharInventory_update (\<lambda>_. i)) ctx) (c\<lparr>CharInventory := i\<rparr>)"
    using run_op_in_step [OF step assms(3)] assms(4) c ch by (intro on_hand_write [OF h]) simp_all
  then show "holds s (upd s (on_char (CharInventory_update (\<lambda>_. i))) (g\<lparr>remote := m\<rparr>))
       (on_char (CharInventory_update (\<lambda>_. i)) ctx) (c\<lparr>CharInventory := i\<rparr>) (bel m (CharId c))"
    using c by (simp add: holds_def)
qed

abbreviation safe :: "uint16 \<Rightarrow> 'm Game \<Rightarrow> bool" where
  "safe \<equiv> accounted rpc rows eqrows bel"

lemma safe_holds: "safe s g \<Longrightarrow> \<exists>ctx c. holds s g ctx c (bel (remote g) (CharId c)) \<and> account ctx c (bel (remote g) (CharId c))"
  by (simp add: accounted_def holds_def)

lemma holds_safe: "holds s g ctx c b \<Longrightarrow> account ctx c b \<Longrightarrow> safe s g"
  by (auto simp: accounted_def holds_def)

lemma holds_D:
  assumes "holds s g ctx c b"
  shows "Parse s g = Some ctx" "cChar ctx = Some c" "g_RPCHandler g = rpc" "character (CharInventory c) = CharId c"
    "in_step rpc rows eqrows (CharEquipment c) (CharInventory c) (remote g)" "rpcHandler (CharInventory c) = Some rpc"
    "eq_rpcHandler (CharEquipment c) = Some rpc" "bel (remote g) (CharId c) = b"
  using assms by (simp_all add: holds_def on_hand_def in_step_def coherent_def eq_coherent_def)

lemma safe_player:
  assumes "safe s g" "player s g = Some c"
  obtains ctx where "holds s g ctx c (bel (remote g) (CharId c))" "account ctx c (bel (remote g) (CharId c))" "Parse s g = Some ctx"
  using safe_holds [OF assms(1)] assms(2) by (auto simp: holds_def on_hand_def)

lemma safe_client: "safe s g \<Longrightarrow> player s g \<noteq> None \<and> Parse s g \<noteq> None"
  by (auto simp: accounted_def on_hand_def)

text \<open>Operations on one container, and on both.\<close>

lemma use_inv_safe:
  assumes "safe s g" "player s g = Some c" "use_inv s f c g = (r, g')"
    "\<And>i m. rpcHandler i = Some rpc \<Longrightarrow> calm bel m i (f i m)" "\<And>i m. \<exists>p. snd (f i m) = run_op p (i, m)"
  shows "safe s g'"
proof -
  obtain ctx where h: "holds s g ctx c (bel (remote g) (CharId c))" and a: "account ctx c (bel (remote g) (CharId c))"
    using safe_player [OF assms(1,2)] by blast
  obtain x i m where f: "f (CharInventory c) (remote g) = (x, i, m)" by (cases "f (CharInventory c) (remote g)")
  obtain p where p: "run_op p (CharInventory c, remote g) = (i, m)"
    using assms(5) [of "CharInventory c" "remote g"] f by auto
  have calm: "bel m = bel (remote g)" "character i = character (CharInventory c)"
    using assms(4) [OF holds_D(6) [OF h], of "remote g"] f by (simp_all add: calm_def)
  note u = use_inv_holds(1) [where f = f, OF h f p calm(2)] and h' = use_inv_holds(2) [where f = f, OF h f p calm(2)]
  have "account (on_char (CharInventory_update (\<lambda>_. i)) ctx) (c\<lparr>CharInventory := i\<rparr>) (bel m (CharId c))"
    using a calm by (simp add: account_def)
  with holds_safe [OF h'] u assms(3) show ?thesis by simp
qed

lemma use_both_safe:
  assumes "safe s g" "player s g = Some c" "use_both s f c g = (r, g')"
    "\<And>e i m. eq_rpcHandler e = Some rpc \<Longrightarrow> rpcHandler i = Some rpc \<Longrightarrow> calm_both bel m e i (f e i m)"
    "\<And>e i m. \<exists>p. snd (f e i m) = run_eq_op p (e, i, m)"
  shows "safe s g'"
proof -
  obtain ctx where h: "holds s g ctx c (bel (remote g) (CharId c))" and a: "account ctx c (bel (remote g) (CharId c))"
    using safe_player [OF assms(1,2)] by blast
  obtain x e i m where f: "f (CharEquipment c) (CharInventory c) (remote g) = (x, e, i, m)" by (metis prod.collapse)
  obtain p where "run_eq_op p (CharEquipment c, CharInventory c, remote g) = (e, i, m)"
    using assms(5) [of "CharEquipment c" "CharInventory c" "remote g"] f by auto
  from run_eq_op_in_step [OF holds_D(5) [OF h] this] have step: "in_step rpc rows eqrows e i m" .
  have calm: "bel m = bel (remote g)" "character i = CharId c"
    using assms(4) [OF holds_D(7,6) [OF h], of "remote g"] f holds_D(4) [OF h] by (simp_all add: calm_both_def)
  let ?f = "\<lambda>c. c\<lparr>CharEquipment := e, CharInventory := i\<rparr>"
  have g': "g' = upd s (on_char ?f) (g\<lparr>remote := m\<rparr>)" using assms(3) f by (auto simp: use_both_def)
  have "on_hand rpc rows eqrows s (upd s (on_char ?f) (g\<lparr>remote := m\<rparr>)) (on_char ?f ctx) (?f c)"
    using step calm holds_D(2) [OF h] by (intro on_hand_write [where c = c]) (use h in \<open>simp_all add: holds_def\<close>)
  moreover have "account (on_char ?f ctx) (?f c) (bel m (CharId c))" using a calm by (simp add: account_def)
  ultimately show ?thesis unfolding g' accounted_def by (intro exI conjI) (assumption, simp)
qed

lemma use_eq_safe:
  assumes "safe s g" "player s g = Some c" "use_eq s f c g = (r, g')"
    "\<And>e m. eq_rpcHandler e = Some rpc \<Longrightarrow> calm_eq bel m e (f e m)"
    "\<And>e i m. \<exists>p. run_eq_op p (e, i, m) = (fst (snd (f e m)), i, snd (snd (f e m)))"
  shows "safe s g'"
proof (rule use_both_safe [OF assms(1,2)])
  let ?f = "\<lambda>e i m. (None :: (bool \<times> err) option, fst (snd (f e m)), i, snd (snd (f e m)))"
  have "upd s (on_char (\<lambda>x. x\<lparr>CharEquipment := e, CharInventory := CharInventory c\<rparr>)) h =
      upd s (on_char (CharEquipment_update (\<lambda>_. e))) h" if "player s h = Some c" for e h
    using that by (auto simp: upd_def Parse_def fun_eq_iff split: option.splits if_splits)
  then show "use_both s ?f c g = (None, g')"
    using assms(2,3) by (auto simp: use_both_def use_eq_def split: prod.splits)
  show "\<exists>p. snd (?f e i m) = run_eq_op p (e, i, m)" for e i m using assms(5) [of e i m] by (auto intro: sym)
  show "calm_both bel m e i (?f e i m)" if "eq_rpcHandler e = Some rpc" "rpcHandler i = Some rpc" for e i m
    using assms(4) [OF that(1), of m] by (auto simp: calm_eq_def calm_both_def split: prod.splits)
qed

text \<open>Writes of the handler itself.\<close>

lemma write_safe:
  assumes "holds s g ctx c b" "account (on_char f ctx) (f c) b" "CharId (f c) = CharId c"
    "CharEquipment (f c) = CharEquipment c" "CharInventory (f c) = CharInventory c"
  shows "safe s (upd s (on_char f) g)"
proof -
  note D = holds_D [OF assms(1)]
  have "on_hand rpc rows eqrows s (upd s (on_char f) (g\<lparr>remote := remote g\<rparr>)) (on_char f ctx) (f c)"
    using assms(3-5) D(2,4,5) by (intro on_hand_write [where c = c]) (use assms(1) in \<open>simp_all add: holds_def\<close>)
  then have "on_hand rpc rows eqrows s (upd s (on_char f) g) (on_char f ctx) (f c)" by simp
  with assms(2,3) D(8) show ?thesis unfolding accounted_def by (intro exI conjI) (assumption, simp)
qed

lemma drink_safe:
  assumes "safe s g"
  shows "safe s (upd s (on_char (drink recovery)) g)"
proof -
  obtain ctx c where h: "holds s g ctx c (bel (remote g) (CharId c))" and a: "account ctx c (bel (remote g) (CharId c))"
    using safe_holds [OF assms] by blast
  show ?thesis by (rule write_safe [OF h]) (use a in \<open>simp_all add: drink_def account_def Let_def\<close>)
qed

lemma cooldown_safe:
  assumes "safe s g"
  shows "safe s (upd s (MPPotionCooldownUntil_update f) g)"
proof -
  obtain ctx c where h: "on_hand rpc rows eqrows s g ctx c" and a: "account ctx c (bel (remote g) (CharId c))"
    using assms by (auto simp: accounted_def)
  have "on_hand rpc rows eqrows s (upd s (MPPotionCooldownUntil_update f) (g\<lparr>remote := remote g\<rparr>))
      (MPPotionCooldownUntil_update f ctx) c"
    using h by (intro on_hand_write [OF h]) (simp_all add: on_hand_def)
  moreover have "account (MPPotionCooldownUntil_update f ctx) c (bel (remote g) (CharId c))" using a by (simp add: account_def)
  ultimately show ?thesis unfolding accounted_def by (intro exI conjI) simp_all
qed

lemma vitals_safe:
  assumes "safe s g"
  shows "safe s (snd (saveCharacterVitals c g))"
proof -
  have rpc: "g_RPCHandler g = rpc" using assms by (auto simp: accounted_def on_hand_def)
  define q where "q = \<lparr>vServer = ServerId g, vCharacter = CharId c, vCurrentHP = CurrentHP c, vMaxHP = MaxHP c,
    vCurrentMP = CurrentMP c, vMaxMP = MaxMP c, vCurrentSP = CurrentSP c, vMaxSP = MaxSP c\<rparr>"
  have v: "snd (saveCharacterVitals c g) = g\<lparr>remote := snd (call_vitals rpc q (remote g))\<rparr>"
    by (simp add: saveCharacterVitals_def Let_def rpc q_def split: prod.split sum.split)
  let ?m = "snd (call_vitals rpc q (remote g))"
  have same: "rows ?m = rows (remote g)" "eqrows ?m = eqrows (remote g)" "bel ?m = bel (remote g)"
    using vitals [of q "remote g" "fst (call_vitals rpc q (remote g))" ?m] by simp_all
  from assms show ?thesis unfolding v
    by (auto simp: accounted_def on_hand_def in_step_def coherent_def eq_coherent_def same)
qed

text \<open>Buying, selling and learning change the record and, on success, the character.\<close>

lemma Purchase_law:
  "Purchase item price i m = ((ok, alz, err), i', m') \<Longrightarrow> rpcHandler i = Some rpc \<Longrightarrow>
   character i' = character i \<and>
   bel m' (character i) = (if ok then (bel m (character i))\<lparr>purse := Some alz\<rparr> else bel m (character i))"
  by (auto simp: Purchase_def Let_def split: if_splits prod.splits sum.splits dest: bel_purchase)

lemma Sell_law:
  "Sell items price i m = ((ok, alz, err), i', m') \<Longrightarrow> rpcHandler i = Some rpc \<Longrightarrow>
   character i' = character i \<and>
   bel m' (character i) = (if ok then (bel m (character i))\<lparr>purse := Some alz\<rparr> else bel m (character i))"
  by (auto simp: Sell_def Let_def split: if_splits prod.splits sum.splits option.splits dest: bel_sell)

lemma Learn_law:
  "ConsumeSkillBook slot item skill i m = ((ok, err), i', m') \<Longrightarrow> rpcHandler i = Some rpc \<Longrightarrow>
   character i' = character i \<and>
   bel m' (character i) =
     (if ok then (bel m (character i))\<lparr>learnt := (learnt (bel m (character i)))(SkillSlot skill \<mapsto> (SkillId skill, Level skill))\<rparr>
      else bel m (character i))"
  by (auto simp: ConsumeSkillBook_def Let_def split: if_splits prod.splits sum.splits option.splits dest: bel_learn)

lemma use_inv_cases:
  assumes "safe s g" "player s g = Some c" "use_inv s f c g = (r, g')" "\<And>i m. \<exists>p. snd (f i m) = run_op p (i, m)"
    "\<And>i m r i' m'. f i m = (r, i', m') \<Longrightarrow> rpcHandler i = Some rpc \<Longrightarrow>
       character i' = character i \<and> bel m' (character i) = change r (bel m (character i))"
  obtains ctx c' b where "holds s g' ctx c' (change r b)" "account ctx c' b"
proof -
  obtain ctx where h: "holds s g ctx c (bel (remote g) (CharId c))" and a: "account ctx c (bel (remote g) (CharId c))"
    using safe_player [OF assms(1,2)] by blast
  obtain x i m where f: "f (CharInventory c) (remote g) = (x, i, m)" by (cases "f (CharInventory c) (remote g)")
  obtain p where p: "run_op p (CharInventory c, remote g) = (i, m)"
    using assms(4) [of "CharInventory c" "remote g"] f by auto
  have law: "character i = character (CharInventory c)" "bel m (CharId c) = change x (bel (remote g) (CharId c))"
    using assms(5) [OF f holds_D(6) [OF h]] holds_D(4) [OF h] by simp_all
  note u = use_inv_holds(1) [where f = f, OF h f p law(1)] and h' = use_inv_holds(2) [where f = f, OF h f p law(1)]
  have r: "x = r" "upd s (on_char (CharInventory_update (\<lambda>_. i))) (g\<lparr>remote := m\<rparr>) = g'" using u assms(3) by simp_all
  have "account (on_char (CharInventory_update (\<lambda>_. i)) ctx) (c\<lparr>CharInventory := i\<rparr>) (bel (remote g) (CharId c))"
    using a by (simp add: account_def)
  with h' that show ?thesis unfolding r law(2) by blast
qed

lemma money_safe:
  assumes "safe s g" "player s g = Some c" "use_inv s f c g = ((ok, alz, err), g')"
    "\<And>i m. \<exists>p. snd (f i m) = run_op p (i, m)"
    "\<And>i m ok alz err i' m'. f i m = ((ok, alz, err), i', m') \<Longrightarrow> rpcHandler i = Some rpc \<Longrightarrow> character i' = character i \<and>
       bel m' (character i) = (if ok then (bel m (character i))\<lparr>purse := Some alz\<rparr> else bel m (character i))"
  shows "safe s (if ok then upd s (on_char (Alz_update (\<lambda>_. alz))) g' else g')"
proof -
  obtain ctx c' b where h: "holds s g' ctx c' (if ok then b\<lparr>purse := Some alz\<rparr> else b)" and a: "account ctx c' b"
    by (rule use_inv_cases [OF assms(1-4), where change = "\<lambda>(ok, alz, err) b. if ok then b\<lparr>purse := Some alz\<rparr> else b"])
      (use assms(5) in auto)
  show ?thesis
  proof (cases ok)
    case True
    with h have "holds s g' ctx c' (b\<lparr>purse := Some alz\<rparr>)" by simp
    from write_safe [OF this, of "Alz_update (\<lambda>_. alz)"] True a show ?thesis by (simp add: account_def)
  next
    case False
    with holds_safe h a show ?thesis by simp
  qed
qed

lemma learn_safe:
  assumes "safe s g" "player s g = Some c" "use_inv s (ConsumeSkillBook slot item skill) c g = ((ok, err), g')"
  shows "safe s (if ok then upd s (on_char (CharSkills_update (\<lambda>sk. sk(SkillSlot skill \<mapsto> skill)))) g' else g')"
proof -
  let ?add = "\<lambda>b. b\<lparr>learnt := (learnt b)(SkillSlot skill \<mapsto> (SkillId skill, Level skill))\<rparr>"
  have "\<exists>p. snd (ConsumeSkillBook slot item skill i m) = run_op p (i, m)" for i and m :: 'm
    by (rule exI [of _ "OpLearn slot item skill"]) simp
  then obtain ctx c' b where h: "holds s g' ctx c' (if ok then ?add b else b)" and a: "account ctx c' b"
    by (rule use_inv_cases [OF assms, where change = "\<lambda>(ok, err) b. if ok then ?add b else b"]) (use Learn_law in auto)
  show ?thesis
  proof (cases ok)
    case True
    with h have "holds s g' ctx c' (?add b)" by simp
    from write_safe [OF this, of "CharSkills_update (\<lambda>sk. sk(SkillSlot skill \<mapsto> skill))"] True a
    show ?thesis by (simp add: account_def)
  next
    case False
    with holds_safe h a show ?thesis by simp
  qed
qed

text \<open>A move between inventory and warehouse changes both as the record has changed.\<close>

lemma stored_safe:
  assumes "holds s g ctx c b" "cChar (f ctx) = Some (c\<lparr>CharInventory := i\<rparr>)" "\<And>x. cChar (f x) = None \<longleftrightarrow> cChar x = None"
    "rpcHandler i = rpcHandler (CharInventory c)" "character i = character (CharInventory c)" "serverId i = serverId (CharInventory c)"
    "eqrows m = eqrows (remote g)" "\<And>k. Inv i (key k) = rows m (CharId c) k"
    "account (f ctx) c (bel m (CharId c))"
  shows "safe s (upd s f (g\<lparr>remote := m\<rparr>))"
proof -
  note D = holds_D [OF assms(1)]
  have "in_step rpc rows eqrows (CharEquipment c) i m"
    using D(4,5) assms(4-8) by (simp add: in_step_def coherent_def eq_coherent_def)
  then have "on_hand rpc rows eqrows s (upd s f (g\<lparr>remote := m\<rparr>)) (f ctx) (c\<lparr>CharInventory := i\<rparr>)"
    using assms(1-3,5) D(4) by (intro on_hand_write [where c = c]) (simp_all add: holds_def)
  moreover have "account (f ctx) (c\<lparr>CharInventory := i\<rparr>) (bel m (CharId c))" using assms(9) by (simp add: account_def)
  ultimately show ?thesis unfolding accounted_def by (intro exI conjI) (assumption, simp)
qed

lemma upd_upd: "upd s f (upd s h g) = upd s (\<lambda>x. f (h x)) g"
  by (simp add: upd_def option.map_comp comp_def)

lemma moveStorageItem_safe:
  assumes "safe s g" "Parse s g = Some ctx" "cChar ctx = Some c"
    and t: "sourceType = 0 \<or> sourceType = 2" "targetType = 0 \<or> targetType = 2"
    and move: "moveStorageItem s ctx c sourceType sourceSlot targetType targetSlot g = (ok, g')"
  shows "safe s g'"
proof -
  let ?b = "bel (remote g) (CharId c)" and ?item = "Inventory_Get sourceSlot (storage_of sourceType ctx c)"
  have "player s g = Some c" using assms(2,3) by simp
  then have h: "holds s g ctx c ?b" and a: "account ctx c ?b"
    using assms(1,2) by (auto elim!: safe_player)
  note D = holds_D [OF h]
  have inv: "Inv (CharInventory c) (key k) = rows (remote g) (CharId c) k" for k
    using D(4,5) by (simp add: in_step_def coherent_def)
  have wh: "Inv (Warehouse ctx) (key k) = whRows ?b k" for k using a by (simp add: account_def)
  define q where "q = \<lparr>smServer = ServerId g, smCharacter = CharId c, SourceType = ucast sourceType, SourceSlot = sourceSlot,
    TargetType = ucast targetType, smTargetSlot = targetSlot\<rparr>"
  obtain res m where call: "call_storage rpc q (remote g) = (res, m)" by (cases "call_storage rpc q (remote g)")
  have types: "SourceType q \<in> {0, 2}" "TargetType q \<in> {0, 2}" "smCharacter q = CharId c" using t by (auto simp: q_def)
  let ?away = "sourceType \<noteq> targetType \<or> sourceSlot \<noteq> targetSlot"
  have away: "(SourceType q \<noteq> TargetType q \<or> SourceSlot q \<noteq> smTargetSlot q) = ?away" using t by (auto simp: q_def)
  note law = storage [OF call types(1,2), unfolded away types(3)] and rest = storage_rest [OF call, of "CharId c"]
  have stay: "safe s (g\<lparr>remote := m\<rparr>)" if "\<not> (accepted id res \<and> ?away)"
  proof -
    have same: "rows m (CharId c) = rows (remote g) (CharId c)" "whRows (bel m (CharId c)) = whRows ?b" using law that by simp_all
    have "safe s (upd s (\<lambda>x. x) (g\<lparr>remote := m\<rparr>))"
      by (rule stored_safe [OF h, where i = "CharInventory c"])
        (use D(2) rest a inv same in \<open>simp_all add: account_def\<close>)
    then show ?thesis by (simp add: upd_def option.map_id0 [unfolded id_def])
  qed
  have go: "safe s (upd s (upd_storage targetType (SetLocal (?item\<lparr>Slot := targetSlot\<rparr>)))
      (upd s (upd_storage sourceType (RemoveLocal sourceSlot)) (g\<lparr>remote := m\<rparr>)))" if "res = Inr True" ?away
  proof -
    from law that obtain it where it: "shelf rows bel (SourceType q) (remote g) (CharId c) sourceSlot = Some it"
      and new: "\<forall>t \<in> {0, 2}. shelf rows bel t m (CharId c) = carried (SourceType q) sourceSlot (TargetType q) targetSlot it
         (\<lambda>t. shelf rows bel t (remote g) (CharId c)) t"
      by (auto simp: q_def)
    have item: "?item = it" using it t(1) by (auto simp: storage_of_def Inventory_Get_def q_def shelf_def inv wh)
    let ?S = "SetLocal (it\<lparr>Slot := targetSlot\<rparr>)" and ?R = "RemoveLocal sourceSlot"
    let ?i = "(if targetType = 0 then ?S else id) ((if sourceType = 0 then ?R else id) (CharInventory c))"
    have rows_m: "rows m (CharId c) = carried (SourceType q) sourceSlot (TargetType q) targetSlot it
         (\<lambda>t. shelf rows bel t (remote g) (CharId c)) 0"
      and wh_m: "whRows (bel m (CharId c)) = carried (SourceType q) sourceSlot (TargetType q) targetSlot it
         (\<lambda>t. shelf rows bel t (remote g) (CharId c)) 2"
      using new by (auto simp: shelf_def)
    have "safe s (upd s (\<lambda>x. upd_storage targetType ?S (upd_storage sourceType ?R x)) (g\<lparr>remote := m\<rparr>))"
      by (rule stored_safe [OF h, where i = ?i])
        (use t D(2) rest a in \<open>auto simp: upd_storage_def SetLocal_def RemoveLocal_def account_def rows_m wh_m carried_def
           shelf_def q_def inv wh\<close>)
    then show ?thesis by (simp add: upd_upd item)
  qed
  have unfolded: "moveStorageItem s ctx c sourceType sourceSlot targetType targetSlot g =
      (if Kind ?item = 0 then (False, g)
       else if ?away \<and> Kind (Inventory_Get targetSlot (storage_of targetType ctx c)) \<noteq> 0 then (False, g)
       else if res \<noteq> Inr True then (False, g\<lparr>remote := m\<rparr>)
       else if ?away
       then (True, upd s (upd_storage targetType (SetLocal (?item\<lparr>Slot := targetSlot\<rparr>)))
               (upd s (upd_storage sourceType (RemoveLocal sourceSlot)) (g\<lparr>remote := m\<rparr>)))
       else (True, g\<lparr>remote := m\<rparr>))"
    unfolding moveStorageItem_def Let_def D(3) q_def [symmetric] call prod.case by (rule refl)
  have "accepted id res \<longleftrightarrow> res = Inr True" by (cases res) simp_all
  then show ?thesis using move assms(1) stay go unfolding unfolded by (auto split: if_splits)
qed

text \<open>A pair in a pair, as nested results are taken apart.\<close>

lemma ensures_prod_arg [ensures_intro]:
  "(\<And>a b. x = (a, b) \<Longrightarrow> ensures P (f a b y)) \<Longrightarrow> ensures P ((case x of (a, b) \<Rightarrow> f a b) y)"
  by (cases x) simp

section \<open>The handlers\<close>

lemma sell_step:
  assumes "safe s g" "player s g = Some c" "use_inv s (Sell items price) c g = ((ok, alz, err), g')"
  shows "(ok \<longrightarrow> err = nil) \<and> safe s (if ok then upd s (on_char (Alz_update (\<lambda>_. alz))) g' else g')"
proof
  show "ok \<longrightarrow> err = nil" using assms(3)
    by (auto simp: use_inv_def Sell_def Let_def split: prod.splits if_splits option.splits sum.splits)
  show "safe s (if ok then upd s (on_char (Alz_update (\<lambda>_. alz))) g' else g')"
    by (rule money_safe [OF assms]) (auto intro: exI [of _ "OpSell items price"] dest: Sell_law)
qed

lemma purchase_step:
  assumes "safe s g" "player s g = Some c" "use_inv s (Purchase item price) c g = ((ok, alz, err), g')"
  shows "(ok \<longrightarrow> err = nil) \<and> safe s (if ok then upd s (on_char (Alz_update (\<lambda>_. alz))) g' else g')"
proof
  show "ok \<longrightarrow> err = nil" using assms(3)
    by (auto simp: use_inv_def Purchase_def Let_def split: prod.splits if_splits option.splits sum.splits)
  show "safe s (if ok then upd s (on_char (Alz_update (\<lambda>_. alz))) g' else g')"
    by (rule money_safe [OF assms]) (auto intro: exI [of _ "OpPurchase item price"] dest: Purchase_law)
qed

lemma learn_step:
  assumes "safe s g" "player s g = Some c" "use_inv s (ConsumeSkillBook slot item skill) c g = ((ok, err), g')"
  shows "(ok \<longrightarrow> err = nil) \<and>
    safe s (if ok then upd s (on_char (CharSkills_update (\<lambda>sk. sk(SkillSlot skill \<mapsto> skill)))) g' else g')"
proof
  show "ok \<longrightarrow> err = nil" using assms(3)
    by (auto simp: use_inv_def ConsumeSkillBook_def Let_def split: prod.splits if_splits option.splits sum.splits)
qed (rule learn_safe [OF assms])

text \<open>Operations that are calm.\<close>

lemma inv_steps_safe:
  assumes "safe s g" "player s g = Some c"
  shows "use_inv s (Move a b) c g = (r, g') \<Longrightarrow> safe s g'"
    and "use_inv s (Inventory_Swap a b) c g = (r, g') \<Longrightarrow> safe s g'"
    and "use_inv s (ConsumeOne a) c g = (r1, g') \<Longrightarrow> safe s g'"
    and "use_inv s (Enchant a k ks) c g = (r, g') \<Longrightarrow> safe s g'"
    and "use_inv s (AttachWithTarget a b it) c g = (r, g') \<Longrightarrow> safe s g'"
proof -
  have 1: "\<exists>p. snd (Move a b i m) = run_op p (i, m)" for i and m :: 'm by (rule exI [of _ "OpMove a b"]) simp
  have 2: "\<exists>p. snd (Inventory_Swap a b i m) = run_op p (i, m)" for i and m :: 'm by (rule exI [of _ "OpSwap a b"]) simp
  have 3: "\<exists>p. snd (ConsumeOne a i m) = run_op p (i, m)" for i and m :: 'm by (rule exI [of _ "OpConsume a"]) simp
  have 4: "\<exists>p. snd (Enchant a k ks i m) = run_op p (i, m)" for i and m :: 'm by (rule exI [of _ "OpEnchant a k ks"]) simp
  have 5: "\<exists>p. snd (AttachWithTarget a b it i m) = run_op p (i, m)" for i and m :: 'm
    by (rule exI [of _ "OpAttachWith a b it"]) simp
  show "use_inv s (Move a b) c g = (r, g') \<Longrightarrow> safe s g'"
    by (rule use_inv_safe [OF assms _ calm_ops(5) 1])
  show "use_inv s (Inventory_Swap a b) c g = (r, g') \<Longrightarrow> safe s g'"
    by (rule use_inv_safe [OF assms _ calm_ops(4) 2])
  show "use_inv s (ConsumeOne a) c g = (r1, g') \<Longrightarrow> safe s g'"
    by (rule use_inv_safe [OF assms _ calm_ops(3) 3])
  show "use_inv s (Enchant a k ks) c g = (r, g') \<Longrightarrow> safe s g'"
    by (rule use_inv_safe [OF assms _ calm_others(1) 4])
  show "use_inv s (AttachWithTarget a b it) c g = (r, g') \<Longrightarrow> safe s g'"
    by (rule use_inv_safe [OF assms _ calm_others(2) 5])
qed

lemma eq_steps_safe:
  assumes "safe s g" "player s g = Some c"
  shows "use_eq s (Equipment_MoveItem a b) c g = (r, g') \<Longrightarrow> safe s g'"
    and "use_eq s (Equipment_Swap a b) c g = (r, g') \<Longrightarrow> safe s g'"
proof -
  have 1: "\<exists>p. run_eq_op p (e, i, m) = (fst (snd (Equipment_MoveItem a b e m)), i, snd (snd (Equipment_MoveItem a b e m)))"
    for e i and m :: 'm by (rule exI [of _ "EqMove a b"]) (simp split: prod.split)
  have 2: "\<exists>p. run_eq_op p (e, i, m) = (fst (snd (Equipment_Swap a b e m)), i, snd (snd (Equipment_Swap a b e m)))"
    for e i and m :: 'm by (rule exI [of _ "EqSwap a b"]) (simp split: prod.split)
  show "use_eq s (Equipment_MoveItem a b) c g = (r, g') \<Longrightarrow> safe s g'"
    by (rule use_eq_safe [OF assms _ calm_eq_ops(4) 1])
  show "use_eq s (Equipment_Swap a b) c g = (r, g') \<Longrightarrow> safe s g'"
    by (rule use_eq_safe [OF assms _ calm_eq_ops(3) 2])
qed

lemma both_steps_safe:
  assumes "safe s g" "player s g = Some c"
  shows "use_both s (Equipment_EquipItem a b) c g = (r, g') \<Longrightarrow> safe s g'"
    and "use_both s (Equipment_UnEquipItem a b) c g = (r, g') \<Longrightarrow> safe s g'"
    and "use_both s (SwapEquipItem a b) c g = (r, g') \<Longrightarrow> safe s g'"
    and "use_both s (EquipAccessory a slots) c g = (r, g') \<Longrightarrow> safe s g'"
proof -
  have 1: "\<exists>p. snd (Equipment_EquipItem a b e i m) = run_eq_op p (e, i, m)" for e i and m :: 'm
    by (rule exI [of _ "EqEquip a b"]) simp
  have 2: "\<exists>p. snd (Equipment_UnEquipItem a b e i m) = run_eq_op p (e, i, m)" for e i and m :: 'm
    by (rule exI [of _ "EqUnEquip a b"]) simp
  have 3: "\<exists>p. snd (SwapEquipItem a b e i m) = run_eq_op p (e, i, m)" for e i and m :: 'm
    by (rule exI [of _ "EqSwapEquip a b"]) simp
  have 4: "\<exists>p. snd (EquipAccessory a slots e i m) = run_eq_op p (e, i, m)" for e i and m :: 'm
    by (rule exI [of _ "EqAccessory a slots"]) simp
  show "use_both s (Equipment_EquipItem a b) c g = (r, g') \<Longrightarrow> safe s g'"
    by (rule use_both_safe [OF assms _ EquipItem_calm 1])
  show "use_both s (Equipment_UnEquipItem a b) c g = (r, g') \<Longrightarrow> safe s g'"
    by (rule use_both_safe [OF assms _ _ 2], assumption) (simp add: Equipment_UnEquipItem_def unEquipItem_calm)
  show "use_both s (SwapEquipItem a b) c g = (r, g') \<Longrightarrow> safe s g'"
    by (rule use_both_safe [OF assms _ SwapEquipItem_calm 3])
  show "use_both s (EquipAccessory a slots) c g = (r, g') \<Longrightarrow> safe s g'"
    by (rule use_both_safe [OF assms _ EquipAccessory_calm 4])
qed

lemma still_safe: "safe s g \<Longrightarrow> still g h \<Longrightarrow> safe s h"
  by (rule accounted_still)

lemma broadcast_safe: "safe s g \<Longrightarrow> ensures (safe s) (broadcast_own s p g)"
  unfolding broadcast_own_def by (intro ensures_intro) (simp add: still_safe [OF _ still_broadcast])

lemma notify_safe: "safe s (notifyStorageExchange s result g) = safe s g"
  by (simp add: notifyStorageExchange_def)

lemma take_off_safe: "safe s g \<Longrightarrow> player s g = Some c \<Longrightarrow> ensures (safe s) (take_off s a b c g)"
  unfolding take_off_def Let_def
  by (intro ensures_intro broadcast_safe) (auto simp: notify_safe dest: both_steps_safe)

lemma put_on_safe: "safe s g \<Longrightarrow> player s g = Some c \<Longrightarrow> ensures (safe s) (put_on s a b c g)"
  unfolding put_on_def Let_def
  by (intro ensures_intro broadcast_safe) (auto simp: notify_safe dest: both_steps_safe)

lemma ensures_known: "ensures P x \<Longrightarrow> x = Some y \<Longrightarrow> P y"
  by (simp add: ensures_def)

lemma shift_on_safe: "safe s g \<Longrightarrow> player s g = Some c \<Longrightarrow> ensures (safe s) (shift_on s a b c g)"
  unfolding shift_on_def Let_def
  by (intro ensures_intro; (rule broadcast_safe)?; (drule ensures_known [OF broadcast_safe, rotated])?)
    (simp_all add: notify_safe eq_steps_safe(1))

lemma StorageExchangeMove_safe: "safe s g \<Longrightarrow> ensures (safe s) (StorageExchangeMove s r g)"
  unfolding StorageExchangeMove_def Let_def
  by (intro ensures_intro take_off_safe put_on_safe shift_on_safe)
    (auto simp: notify_safe move_in_def Let_def split: prod.splits dest: inv_steps_safe(1) moveStorageItem_safe [rotated -1])

lemma swap_items_safe:
  "swap_items s src srcSlot dst dstSlot c g = (res, g') \<Longrightarrow> safe s g \<Longrightarrow> player s g = Some c \<Longrightarrow> safe s g'"
  by (auto simp: swap_items_def apfst_def map_prod_def split: if_splits prod.splits
      dest: inv_steps_safe(2) eq_steps_safe(2) both_steps_safe(3))

lemma StorageItemSwap_safe: "safe s g \<Longrightarrow> ensures (safe s) (StorageItemSwap s r g)"
  unfolding StorageItemSwap_def Let_def
  by (intro ensures_intro)
    (auto simp: sendStorageSwapResult_def dest: swap_items_safe)

lemma AccessoryEquip_safe: "safe s g \<Longrightarrow> ensures (safe s) (AccessoryEquip s r g)"
  unfolding AccessoryEquip_def Let_def by (intro ensures_intro) (auto dest: both_steps_safe(4))

lemma ItemSelling_safe: "safe s g \<Longrightarrow> ensures (safe s) (ItemSelling d s r g)"
  unfolding ItemSelling_def Let_def
  by (intro ensures_intro) (auto simp: sendItemSellingResult_def dest!: sell_step [rotated -1] split: if_splits)

lemma ItemBuyings_safe: "safe s g \<Longrightarrow> ensures (safe s) (ItemBuyings d s r g)"
  unfolding ItemBuyings_def Let_def
  by (intro ensures_intro) (auto simp: sendItemBuyingsResult_def dest!: purchase_step [rotated -1] split: if_splits)

lemma BuySkillBook_safe: "safe s g \<Longrightarrow> ensures (safe s) (BuySkillBook d s r g)"
  unfolding BuySkillBook_def Let_def
  by (intro ensures_intro) (auto simp: sendBuySkillBookResult_def dest!: purchase_step [rotated -1] split: if_splits)

lemma UpgradeCoreEnchant_safe: "safe s g \<Longrightarrow> ensures (safe s) (UpgradeCoreEnchant s r g)"
  unfolding UpgradeCoreEnchant_def Let_def
  by (intro ensures_intro) (auto simp: sendEnchantResult_def dest: inv_steps_safe(4))

lemma ItemAttach_safe: "safe s g \<Longrightarrow> ensures (safe s) (ItemAttach d s r g)"
  unfolding ItemAttach_def Let_def
  by (intro ensures_intro) (auto simp: sendItemAttachResult_def dest: inv_steps_safe(5))

lemma mana_safe: "safe s g \<Longrightarrow> safe s (sendManaPotionUpdate s v g)"
  by (rule still_safe) (auto simp: sendManaPotionUpdate_def sendUpdatedData_def intro: still_notify)

lemma useManaPotion_safe:
  assumes "safe s g" "Parse s g = Some ctx"
  shows "ensures (safe s) (useManaPotion s ctx slot item recovery g)"
proof -
  let ?start = "upd s (MPPotionCooldownUntil_update (\<lambda>_. clock g + manaPotionCooldown)) g"
  have begun: "safe s ?start" using assms(1) by (rule cooldown_safe)
  have eaten: "safe s g'" if "use_inv s (ConsumeOne slot) c ?start = (r, g')" "cChar ctx = Some c" for c r g'
    by (rule inv_steps_safe(3) [OF begun _ that(1)]) (use assms(2) that(2) in \<open>simp add: Parse_upd\<close>)
  have rest: "safe s (sendManaPotionUpdate s v h)"
    if "saveCharacterVitals x (upd s (on_char (drink recovery)) g') = (r, h)" "safe s g'" for v x g' h r
    using vitals_safe [OF drink_safe [OF that(2)], of x recovery] that(1) by (simp add: mana_safe)
  show ?thesis unfolding useManaPotion_def Let_def
    by (intro ensures_intro) (use assms(1) in \<open>auto simp: sendItemUsingResult_def intro: cooldown_safe rest dest: eaten\<close>)
qed

lemma ItemUsing_safe: "safe s g \<Longrightarrow> ensures (safe s) (ItemUsing d s r g)"
  unfolding ItemUsing_def Let_def
  by (intro ensures_intro useManaPotion_safe)
    (auto simp: sendItemUsingResult_def dest!: learn_step [rotated -1] split: if_splits)

lemma bag_handlers_safe: "map_of (bag_handlers d) code = Some h \<Longrightarrow> safe s g \<Longrightarrow> ensures (safe s) (h s r g)"
  by (auto simp: bag_handlers_def ItemBuyings_safe ItemSelling_safe ItemUsing_safe AccessoryEquip_safe UpgradeCoreEnchant_safe
      BuySkillBook_safe StorageExchangeMove_safe StorageItemSwap_safe ItemAttach_safe split: if_splits)

end

section \<open>What a statement of the master leaves alone\<close>

text \<open>\<open>spares f m\<close>: the part \<open>f\<close> of the database is the same after \<open>m\<close>; \<open>blind t f\<close>: it holds nothing of \<open>t\<close>.\<close>

definition spares :: "(Db \<Rightarrow> 'x) \<Rightarrow> ('r, 'a) stmt \<Rightarrow> bool" where
  "spares f m \<longleftrightarrow> (\<forall>db io a db' io'. m db io = Done a db' io' \<longrightarrow> f db' = f db)"

definition blind :: "table \<Rightarrow> (Db \<Rightarrow> 'x) \<Rightarrow> bool" where
  "blind t f \<longleftrightarrow> (\<forall>c s r db. f (set_row t c s r db) = f db)"

named_theorems spares_intro "rules for the parts of the database a statement leaves alone"

lemma spares_rules [spares_intro]:
  "spares f (return_tx a)"
  "spares f (fail_tx e)"
  "spares f (refuse_tx r)"
  "spares f (refuse_if b r)"
  "spares f (fail_if b e)"
  "spares f (query q)"
  "(\<And>db n db'. x db = Some (n, db') \<Longrightarrow> f db' = f db) \<Longrightarrow> spares f (exec x)"
  by (auto simp: spares_def)

lemma spares_andThen [spares_intro]: "spares f m \<Longrightarrow> (\<And>a. spares f (h a)) \<Longrightarrow> spares f (andThen m h)"
  by (fastforce simp: spares_def)

lemma spares_if [spares_intro]: "spares f m \<Longrightarrow> spares f n \<Longrightarrow> spares f (if b then m else n)"
  by simp

lemma spares_option [spares_intro]:
  "spares f m \<Longrightarrow> (\<And>a. spares f (h a)) \<Longrightarrow> spares f (case x of None \<Rightarrow> m | Some a \<Rightarrow> h a)"
  by (simp split: option.split)

lemma blind_statements:
  assumes "blind t f"
  shows "sql_insert t c it db = Some (n, db') \<Longrightarrow> f db' = f db"
    and "sql_delete t c s db = (n, db') \<Longrightarrow> f db' = f db"
    and "sql_delete_exact t c it db = (n, db') \<Longrightarrow> f db' = f db"
    and "sql_move t c old new db = Some (n, db') \<Longrightarrow> f db' = f db"
    and "sql_update_exact t c it k p db = (n, db') \<Longrightarrow> f db' = f db"
  using assms
  by (auto simp: blind_def sql_insert_def sql_delete_def sql_delete_exact_def sql_move_def sql_update_exact_def
      split: if_splits option.splits)

lemma spares_exec [spares_intro]:
  assumes "blind t f"
  shows "spares f (exec (sql_insert t c it))" "spares f (exec (sql_move t c old new))"
    "spares f (exec (\<lambda>db. Some (sql_delete t c s db)))" "spares f (exec (\<lambda>db. Some (sql_delete_exact t c it db)))"
    "spares f (exec (\<lambda>db. Some (sql_update_exact t c it k p db)))"
  by (auto simp del: sql_insert_Some intro!: spares_rules(7) dest: blind_statements [OF assms])

lemma spares_selects [spares_intro]: "spares f (select_exact c it r)" "spares f (select_alz c)"
  unfolding select_exact_def select_alz_def by (intro spares_intro)+

lemma spares_loops [spares_intro]:
  assumes "blind characters_inventory f"
  shows "spares f (sell_loop c no A items)" "spares f (check_cores c target A items)" "spares f (delete_all c items)"
  using assms by (induction items arbitrary: A) (auto intro!: spares_intro)

lemma spares_swap [spares_intro]: "blind t f \<Longrightarrow> spares f (swap_slots t r n)"
  unfolding swap_slots_def Let_def by (intro spares_intro)

lemma spares_bodies [spares_intro]:
  assumes "blind characters_inventory f"
  shows "spares f (ConsumeItem_tx new r)" "spares f (EnchantItem_tx q)" "spares f (AttachItem_tx it a b ar)"
    "(\<And>a db. f (db\<lparr>alz_of := a\<rparr>) = f db) \<Longrightarrow> spares f (PurchaseItem_tx p)"
    "(\<And>a db. f (db\<lparr>alz_of := a\<rparr>) = f db) \<Longrightarrow> spares f (SellItems_tx s)"
    "(\<And>a db. f (db\<lparr>skills_of := a\<rparr>) = f db) \<Longrightarrow> spares f (LearnSkill_tx l)"
    "blind characters_warehouse f \<Longrightarrow> src \<noteq> characters_equipment \<Longrightarrow> tgt \<noteq> characters_equipment \<Longrightarrow>
     spares f (StorageMove_tx src tgt m)"
  unfolding ConsumeItem_tx_def EnchantItem_tx_def AttachItem_tx_def PurchaseItem_tx_def SellItems_tx_def LearnSkill_tx_def
    StorageMove_tx_def
  using assms by (cases src; cases tgt; auto intro!: spares_intro)+

lemma spares_transaction: "spares f body \<Longrightarrow> transaction body io db = (res, db') \<Longrightarrow> f db' = f db"
  by (auto simp: transaction_def split: if_splits tx.splits) (metis spares_def)

lemma spares_apfst: "spares f body \<Longrightarrow> apfst Some (transaction body io db) = (res, db') \<Longrightarrow> f db' = f db"
  by (cases "transaction body io db") (auto dest: spares_transaction)

lemma inventory_handlers_spare:
  assumes "blind characters_inventory f" "cmd \<in> inventory_commands" "item_handlers cmd io r db = (res, db')"
  shows "f db' = f db"
  using assms(2,3) spares_bodies(1) [OF assms(1), THEN spares_apfst] spares_swap [OF assms(1), THEN spares_apfst]
  by (auto simp: item_handlers_def AddItem_def RemoveItem_def MoveItem_def SwapItem_def ConsumeItem_def
      simp del: sql_insert_Some split: prod.splits option.splits if_splits
      dest!: MustExec_cases dest: blind_statements [OF assms(1)])

lemma equipment_handlers_spare:
  assumes "blind characters_equipment f" "cmd \<in> equipment_commands" "item_handlers cmd io r db = (res, db')"
  shows "f db' = f db"
  using assms(2,3) spares_swap [OF assms(1), THEN spares_apfst]
  by (auto simp: EquipItem_def UnEquipItem_def MoveEquipmentItem_def SwapEquipmentItem_def
      simp del: sql_insert_Some split: prod.splits option.splits if_splits
      dest!: MustExec_cases dest: blind_statements [OF assms(1)])

lemma value_handlers_spare:
  assumes "blind characters_inventory f"
  shows "EnchantItem io q db = (bres, db') \<Longrightarrow> f db' = f db"
    and "AttachItem io a db = (bres, db') \<Longrightarrow> f db' = f db"
    and "(\<And>x d. f (d\<lparr>alz_of := x\<rparr>) = f d) \<Longrightarrow> PurchaseItem io p db = (pres, db') \<Longrightarrow> f db' = f db"
    and "(\<And>x d. f (d\<lparr>alz_of := x\<rparr>) = f d) \<Longrightarrow> SellItems io s db = (sres, db') \<Longrightarrow> f db' = f db"
    and "(\<And>x d. f (d\<lparr>skills_of := x\<rparr>) = f d) \<Longrightarrow> LearnSkill io l db = (bres, db') \<Longrightarrow> f db' = f db"
    and "blind characters_warehouse f \<Longrightarrow> StorageMove io m db = (bres, db') \<Longrightarrow> f db' = f db"
proof -
  note B = spares_bodies [OF assms]
  show "EnchantItem io q db = (bres, db') \<Longrightarrow> f db' = f db"
    unfolding EnchantItem_def Let_def by (auto split: if_split_asm dest: spares_apfst [OF B(2)])
  show "AttachItem io a db = (bres, db') \<Longrightarrow> f db' = f db"
    unfolding AttachItem_def Let_def by (auto split: if_split_asm dest: spares_apfst [OF B(3)])
  show "PurchaseItem io p db = (pres, db') \<Longrightarrow> f db' = f db" if "\<And>x d. f (d\<lparr>alz_of := x\<rparr>) = f d"
    unfolding PurchaseItem_def by (auto split: if_split_asm dest: spares_apfst [OF B(4) [OF that]])
  show "SellItems io s db = (sres, db') \<Longrightarrow> f db' = f db" if "\<And>x d. f (d\<lparr>alz_of := x\<rparr>) = f d"
    unfolding SellItems_def by (auto split: if_split_asm dest: spares_apfst [OF B(5) [OF that]])
  show "LearnSkill io l db = (bres, db') \<Longrightarrow> f db' = f db" if "\<And>x d. f (d\<lparr>skills_of := x\<rparr>) = f d"
    unfolding LearnSkill_def by (auto split: if_split_asm dest: spares_apfst [OF B(6) [OF that]])
  show "StorageMove io m db = (bres, db') \<Longrightarrow> f db' = f db" if "blind characters_warehouse f"
  proof -
    have "storageTable t = Some x \<Longrightarrow> x \<noteq> characters_equipment" for t x
      by (auto simp: storageTable_def split: if_splits)
    then have "f db' = f db" if "storageTable (SourceType m) = Some x" "storageTable (TargetType m) = Some y"
        "apfst Some (transaction (StorageMove_tx x y m) io db) = (bres, db')" for x y
      using that B(7) [OF \<open>blind characters_warehouse f\<close>, THEN spares_apfst] by blast
    then show "StorageMove io m db = (bres, db') \<Longrightarrow> f db' = f db"
      unfolding StorageMove_def by (auto split: if_split_asm option.split_asm)
  qed
qed

section \<open>The master server meets the contract\<close>

definition world_bel :: "world \<Rightarrow> int32 \<Rightarrow> Belongings" where
  "world_bel w c = \<lparr>whRows = stored characters_warehouse c (database w), purse = alz_of (database w) c,
     learnt = skills_of (database w) c\<rparr>"

lemma serve_spares:
  assumes "serve h q w = (res, w')"
    and "\<And>io r db'. h io q (database w) = (r, db') \<Longrightarrow> f db' = f (database w)"
  shows "f (database w') = f (database w)"
  using assms(1)
proof (cases rule: serve_cases)
  case (run io r)
  then show ?thesis by (auto dest: assms(2))
qed simp

text \<open>What the belongings are read from, and what each operation leaves of it.\<close>

abbreviation beyond :: "Db \<Rightarrow> (int32 \<Rightarrow> uint16 \<rightharpoonup> Row) \<times> (int32 \<rightharpoonup> uint64) \<times> (int32 \<Rightarrow> uint16 \<rightharpoonup> uint16 \<times> byte)" where
  "beyond db \<equiv> (tables db characters_warehouse, alz_of db, skills_of db)"

lemma blind_parts [simp]:
  "blind characters_inventory beyond" "blind characters_equipment beyond"
  "blind characters_inventory (\<lambda>db. (tables db characters_warehouse, skills_of db))"
  "blind characters_inventory (\<lambda>db. (tables db characters_warehouse, alz_of db))"
  "blind characters_inventory (\<lambda>db. (tables db characters_equipment, alz_of db, skills_of db))"
  "blind characters_warehouse (\<lambda>db. (tables db characters_equipment, alz_of db, skills_of db))"
  by (simp_all add: blind_def set_row_def)

lemma world_bel_same: "beyond (database w') = beyond (database w) \<Longrightarrow> world_bel w' = world_bel w"
  by (simp add: world_bel_def stored_def fun_eq_iff)

lemma serve_bel:
  assumes "serve h q w = (res, w')"
    and "\<And>io r db'. h io q (database w) = (r, db') \<Longrightarrow> beyond db' = beyond (database w)"
  shows "world_bel w' = world_bel w"
  using serve_spares [where f = beyond, OF assms] by (rule world_bel_same)

lemma PurchaseItem_bel:
  assumes "serve PurchaseItem q w = (res, w')"
  shows "world_bel w' (pCharacter q) = (case res of
     Inr p \<Rightarrow> if pResult p then (world_bel w (pCharacter q))\<lparr>purse := Some (pAlz p)\<rparr> else world_bel w (pCharacter q)
   | Inl _ \<Rightarrow> world_bel w (pCharacter q))"
  using assms
proof (cases rule: serve_cases)
  case lost
  then show ?thesis by (simp add: world_bel_def)
next
  case (run io r)
  let ?f = "\<lambda>db. (tables db characters_warehouse, skills_of db)"
  have "?f (database w') = ?f (database w)" by (rule value_handlers_spare(3) [OF _ _ run(1)]) simp_all
  with PurchaseItem_effect [OF run(1)] run(2) [of pResult] run(3) show ?thesis
    by (auto simp: world_bel_def stored_def split: sum.split if_splits)
qed

lemma SellItems_bel:
  assumes "serve SellItems q w = (res, w')"
  shows "world_bel w' (sCharacter q) = (case res of
     Inr p \<Rightarrow> if sResult p then (world_bel w (sCharacter q))\<lparr>purse := Some (sAlz p)\<rparr> else world_bel w (sCharacter q)
   | Inl _ \<Rightarrow> world_bel w (sCharacter q))"
  using assms
proof (cases rule: serve_cases)
  case lost
  then show ?thesis by (simp add: world_bel_def)
next
  case (run io r)
  let ?f = "\<lambda>db. (tables db characters_warehouse, skills_of db)"
  have "?f (database w') = ?f (database w)" by (rule value_handlers_spare(4) [OF _ _ run(1)]) simp_all
  with SellItems_effect [OF run(1)] run(2) [of sResult] run(3) show ?thesis
    by (auto simp: world_bel_def stored_def split: sum.split if_splits)
qed

lemma LearnSkill_bel:
  assumes "serve LearnSkill q w = (res, w')"
  shows "world_bel w' (lCharacter q) =
     (if accepted id res
      then (world_bel w (lCharacter q))\<lparr>learnt := (learnt (world_bel w (lCharacter q)))
        (SkillSlot (lSkill q) \<mapsto> (SkillId (lSkill q), Level (lSkill q)))\<rparr>
      else world_bel w (lCharacter q))"
  using assms
proof (cases rule: serve_cases)
  case lost
  then show ?thesis by (simp add: world_bel_def)
next
  case (run io r)
  let ?f = "\<lambda>db. (tables db characters_warehouse, alz_of db)"
  have "?f (database w') = ?f (database w)" by (rule value_handlers_spare(5) [OF _ _ run(1)]) simp_all
  with LearnSkill_effect [OF run(1)] run(2) [of id] show ?thesis
    by (auto simp: world_bel_def stored_def split: if_splits)
qed

lemma SaveVitals_spares:
  "SaveVitals io r db = (res, db') \<Longrightarrow> tables db' = tables db \<and> beyond db' = beyond db"
  by (auto simp: SaveVitals_def Exec_def sql_update_character_def split: if_splits option.splits prod.splits sum.splits)

lemma StorageMove_bel:
  assumes "serve StorageMove q w = (res, w')" "SourceType q \<in> {0, 2}" "TargetType q \<in> {0, 2}"
  shows "if accepted id res \<and> (SourceType q \<noteq> TargetType q \<or> SourceSlot q \<noteq> smTargetSlot q)
     then \<exists>it. shelf world_rows world_bel (SourceType q) w (smCharacter q) (SourceSlot q) = Some it \<and>
       (\<forall>t \<in> {0, 2}. shelf world_rows world_bel t w' (smCharacter q) =
          carried (SourceType q) (SourceSlot q) (TargetType q) (smTargetSlot q) it
            (\<lambda>t. shelf world_rows world_bel t w (smCharacter q)) t)
     else world_rows w' (smCharacter q) = world_rows w (smCharacter q) \<and>
       whRows (world_bel w' (smCharacter q)) = whRows (world_bel w (smCharacter q))"
  using assms(1)
proof (cases rule: serve_cases)
  case lost
  then show ?thesis by (simp add: world_bel_def world_rows_def)
next
  case (run io r)
  have shelf: "shelf world_rows world_bel t v c = stored x c (database v)" if "storageTable t = Some x" for t x v c
    using that by (auto simp: shelf_def storageTable_def world_rows_def world_bel_def split: if_splits)
  have tabs: "\<exists>x. storageTable t = Some x" if "t \<in> {0, 2}" for t using that by (auto simp: storageTable_def)
  have inj: "storageTable t = Some x \<Longrightarrow> storageTable u = Some x \<Longrightarrow> t = u" for t u x
    by (auto simp: storageTable_def split: if_splits)
  have away: "(SourceType q \<noteq> TargetType q \<or> SourceSlot q \<noteq> smTargetSlot q) =
      (\<not> (SourceType q = TargetType q \<and> SourceSlot q = smTargetSlot q))" by simp
  note effect = StorageMove_atomic [where io = io and r = q and db = "database w", unfolded run(1) prod.case]
  show ?thesis
  proof (cases "accepted id res \<and> \<not> (SourceType q = TargetType q \<and> SourceSlot q = smTargetSlot q)")
    case True
    with effect run(2) [of id] obtain src tgt it where s: "storageTable (SourceType q) = Some src"
      "storageTable (TargetType q) = Some tgt" and it: "stored src (smCharacter q) (database w) (SourceSlot q) = Some it"
      and new: "\<forall>t c. stored t c (database w') =
          (let m = (if t = src \<and> c = smCharacter q then (stored t c (database w))(SourceSlot q := None)
             else stored t c (database w))
           in if t = tgt \<and> c = smCharacter q then m(smTargetSlot q \<mapsto> it\<lparr>Slot := smTargetSlot q\<rparr>) else m)"
      by auto
    have "shelf world_rows world_bel t w' (smCharacter q) =
        carried (SourceType q) (SourceSlot q) (TargetType q) (smTargetSlot q) it
          (\<lambda>t. shelf world_rows world_bel t w (smCharacter q)) t" if t: "t \<in> {0, 2}" for t
    proof -
      obtain x where x: "storageTable t = Some x" using tabs [OF t] by blast
      have "(x = src) = (t = SourceType q)" "(x = tgt) = (t = TargetType q)" using x s inj by auto
      then show ?thesis unfolding carried_def Let_def shelf [OF x] new [rule_format] by simp
    qed
    with True it shelf [OF s(1)] show ?thesis by auto
  next
    case False
    with effect run(2) [of id] have "database w' = database w" by (simp split: if_splits)
    with False show ?thesis by (auto simp: world_bel_def world_rows_def)
  qed
qed

interpretation world_bag: bag_master master world_rows world_eqrows world_bel
proof (unfold_locales, goal_cases)
  case (1 cmd r m res m')
  then have "serve (item_handlers cmd) r m = (res, m')" by simp
  note s = this
  from 1(1) show ?case
  proof
    assume "cmd \<in> inventory_commands"
    from s show ?case
      by (rule serve_bel) (erule inventory_handlers_spare [OF blind_parts(1) \<open>cmd \<in> inventory_commands\<close>])
  next
    assume "cmd \<in> equipment_commands"
    from s show ?case
      by (rule serve_bel) (erule equipment_handlers_spare [OF blind_parts(2) \<open>cmd \<in> equipment_commands\<close>])
  qed
next
  case (2 q m res m')
  then have "serve PurchaseItem q m = (res, m')" by (simp add: master_def)
  then show ?case by (rule PurchaseItem_bel)
next
  case (3 q m res m')
  then have "serve SellItems q m = (res, m')" by (simp add: master_def)
  then show ?case by (rule SellItems_bel)
next
  case (4 q m res m')
  then have "serve LearnSkill q m = (res, m')" by (simp add: master_def)
  then show ?case by (rule LearnSkill_bel)
next
  case (5 q m res m')
  then have "serve EnchantItem q m = (res, m')" by (simp add: master_def)
  then show ?case by (rule serve_bel) (erule value_handlers_spare(1) [OF blind_parts(1)])
next
  case (6 q m res m')
  then have "serve AttachItem q m = (res, m')" by (simp add: master_def)
  then show ?case by (rule serve_bel) (erule value_handlers_spare(2) [OF blind_parts(1)])
next
  case (7 q m res m')
  then have s: "serve SaveVitals q m = (res, m')" by (simp add: master_def)
  have "tables (database m') = tables (database m)"
    by (rule serve_spares [OF s]) (drule SaveVitals_spares, simp)
  moreover have "world_bel m' = world_bel m" by (rule serve_bel [OF s]) (drule SaveVitals_spares, simp)
  ultimately show ?case by (simp add: world_rows_def world_eqrows_def stored_def fun_eq_iff)
next
  case (8 q m res m')
  then have "serve StorageMove q m = (res, m')" by (simp add: master_def)
  then show ?case using 8(2,3) by (rule StorageMove_bel)
next
  case (9 q m res m' c)
  then have s: "serve StorageMove q m = (res, m')" by (simp add: master_def)
  let ?f = "\<lambda>db. (tables db characters_equipment, alz_of db, skills_of db)"
  have "?f (database m') = ?f (database m)"
    by (rule serve_spares [OF s, where f = ?f]) (erule value_handlers_spare(6) [OF blind_parts(5,6)])
  then show ?case by (simp add: world_bel_def world_eqrows_def stored_def fun_eq_iff)
qed

section \<open>A client plays\<close>

text \<open>The packets of one session in their order; a code that is not of \<open>Freya_Bag\<close> is passed over.\<close>

fun play :: "Goods \<Rightarrow> uint16 \<Rightarrow> (uint16 \<times> Reader) list \<Rightarrow> 'm Game \<Rightarrow> 'm Game option" where
  "play d s [] g = Some g"
| "play d s ((code, r) # packets) g =
     (case map_of (bag_handlers d) code of
        None \<Rightarrow> play d s packets g
      | Some h \<Rightarrow> do { g \<leftarrow> h s r g; play d s packets g })"


text \<open>Session 1 puts the item of inventory slot 3 into slot 5 of the warehouse.\<close>

definition store_packet :: Reader where
  "store_packet = packet_reader [0, 0, 0, 0, 3, 0, 0, 0, 2, 0, 0, 0, 5, 0, 0, 0]"

definition errand :: "world Game" where
  "errand = market [(1, trader 1 1000 [sample_item 7 0 3] zero_TradeState)] [sample_item 7 0 3] []"

lemma errand_accounted: "accounted master world_rows world_eqrows world_bel 1 errand"
proof -
  let ?its = "[sample_item 7 0 3]"
  have "coherent master world_rows (sample_inv ?its) (sample_world ?its [])" by (rule sample_coherent)
  then show ?thesis
    by (simp add: accounted_def on_hand_def errand_def market_def Parse_def trader_def in_step_def eq_coherent_def coherent_def
        account_def world_bel_def world_eqrows_def sample_world_def sample_db_def sample_inv_def stored_def SetLocal_def)
qed

lemma errand_run:
  "\<exists>g' ctx. play d 1 [(2165, store_packet)] errand = Some g' \<and> Parse 1 g' = Some ctx \<and>
     Inv (Warehouse ctx) (key 5) = Some (sample_item 7 0 5)"
  by (simp add: bag_handlers_def StorageExchangeMove_def store_packet_def packet_reader_def ReadInt32_def valid_slot_def
      nth_append errand_def market_def Parse_def trader_def Let_def moveStorageItem_def storage_of_def upd_storage_def
      sample_inv_def SetLocal_def RemoveLocal_def Inventory_Get_def master_def serve_def next_call_def sample_world_def
      StorageMove_def StorageMove_tx_def storageTable_def transaction_def andThen_def query_def exec_def refuse_if_def
      return_tx_def fail_if_def faulty_def sample_db_def stored_def sql_insert_def sql_delete_def sample_item_def
      notifyStorageExchange_def upd_def send_def item_at_row_of)


end
