(* ===== verification/Spec2Isabelle.thy ===== *)
theory Spec2Isabelle
  imports Freya_Network Freya_Wear Freya_Character Freya_Exchange Freya_Party_Laws Freya_Mob_Laws Freya_Growth_Laws
    Freya_Bag_Laws
begin

text \<open>
  Verification of Freya, a server emulator for Cabal Online written in Go. The cluster has a login
  server, game servers (one per channel), a chat server and a master server, which owns the database and
  answers the RPC calls of the others. The development models the network layer they share and the
  part of the game that moves property and players: inventories, equipment, trades, parties, the world
  maps with their players, items and mobs, the growth of a character, and the master server's handlers
  behind them.

  Conventions. Words are Go's integers at their width and wrap like them; \<open>int\<close> stands for Go's
  \<open>int\<close> where no overflow is possible. A Go struct is a record, a pointer that may be nil an option. A
  panic is \<open>None\<close>, an \<open>error\<close> result is a value of \<open>err\<close> or the left of a sum. State is passed
  explicitly. The RPC client is a record of functions over an abstract state \<open>'m\<close> of the remote side; the
  master server is one such state. What is not in the repository is an argument: the order in which a
  Go map is walked (a list of its keys), the clock, \<open>math/rand\<close>, what a socket delivers.

  Shared network layer (\<open>share/network\<close>, \<open>share/encryption\<close>, \<open>share/event\<close>).
  \<^item> \<open>Freya_Prelude\<close>: integer types, errors, little-endian bytes, slices that can panic.
  \<^item> \<open>Freya_Codec\<close> (\<open>reader.go\<close>, \<open>writer.go\<close>): typed reads and writes, buffer growth, headers. A packet
    that is written reads back field by field; which operation can panic, and when.
  \<^item> \<open>Freya_Encryption\<close> (\<open>encryption.go\<close>, \<open>xorkeytable.go\<close>, \<open>keyrand.go\<close>): key tables and both directions of the
    cipher, against a client that encrypts and a chained cipher as reference.
  \<^item> \<open>Freya_Event\<close> (\<open>event.go\<close>, \<open>periodic_task.go\<close>), \<open>Freya_Session\<close> (\<open>session.go\<close>, \<open>packethandler.go\<close>): the
    receive loop, which delivers the same packets however the stream is segmented; dispatch, closing.
  \<^item> \<open>Freya_Network\<close> (\<open>network.go\<close>): the client table. The search for a free index is a
    \<open>partial_function\<close>; it returns exactly when one of the 65536 indexes is free.

  Items and the master server (\<open>share/models/inventory\<close>, \<open>cmd/masterserver/rpc\<close>, \<open>sql/world.sql\<close>).
  \<^item> \<open>Freya_Items\<close>: items, requests and the RPC client. \<open>Freya_Inventory\<close> and \<open>Freya_Equipment\<close>: the
    containers of the game server, each operation with its call and its rollback. Their locales
    \<open>item_master\<close> and \<open>equipment_master\<close> state what they need of the remote side.
  \<^item> \<open>Freya_Db\<close>, \<open>Freya_Master\<close>: the tables and the handlers of the master server, as transactions in which
    any database call may fail (\<open>io\<close> lists which). \<open>Freya_Master_Laws\<close>: a handler does all it should or nothing.
  \<^item> \<open>Freya_Coherence\<close>, \<open>Freya_Wear\<close>: the handlers satisfy the locales, so after any sequence of operations
    memory equals the database; and the operations for which it does not. A \<open>world\<close> is the master server with a
    plan (\<open>calls\<close>) of the calls that are lost and the statements that fail, of any length.

  Players and what they do to each other (\<open>share/models/character\<close>, \<open>cmd/gameserver\<close>).
  \<^item> \<open>Freya_Character\<close>: style word, vitals, attack values, with their bounds.
  \<^item> \<open>Freya_Context\<close> (\<open>context/session.go\<close>): the context of a client and the game server's state
    \<open>Game\<close>; packets sent are logged as typed fields. The rules \<open>returns\<close> and \<open>ensures\<close> walk a handler
    down to its exits; \<open>happens\<close> runs a sequence of connects, packets, departures and disconnects.
  \<^item> \<open>Freya_Trade\<close> (\<open>packet/trade.go\<close>), \<open>Freya_Trade_Protocol\<close>: each handler makes at most one move of an abstract
    machine, which keeps the two sides of a trade linked. \<open>Freya_Exchange\<close>: a completed trade changes both
    inventories as the master server changed their rows.
  \<^item> \<open>Freya_Party\<close>, \<open>Freya_Party_Laws\<close> (\<open>packet/party.go\<close>): every member of a party has the same view of it.

  The world (\<open>cmd/gameserver/game\<close>, \<open>packet/movement.go\<close>, \<open>item.go\<close>, \<open>mob.go\<close>, \<open>initialized.go\<close>).
  \<^item> \<open>Freya_Grid\<close>: the cells of a map and which are near. \<open>Freya_World\<close>: players entering, leaving and crossing cells,
    broadcasts, items on the ground, the movement and looting handlers. \<open>Freya_World_Laws\<close>: contexts and
    cells agree on where each player is, and each client has been shown the players around it.
    \<open>Freya_Loot\<close>: what looting guards, and the ways it goes wrong.
  \<^item> \<open>Freya_Mobs\<close>, \<open>Freya_Mob_Laws\<close>: spawning, walking, dying, drops and respawn. The A* search, the float
    course between two way points, the drop lists and the random numbers are arguments.

  How a character grows (\<open>packet/skill.go\<close>, \<open>stat.go\<close>, \<open>clientdata\<close>, \<open>context\<close>, \<open>cmd/masterserver/rpc/character.go\<close>).
  \<^item> \<open>Freya_Xml\<close>: a data file as the tokens \<open>encoding/xml\<close> delivers, the loop of the parsers over them, attributes.
    \<open>Freya_Levels\<close> (\<open>levels.go\<close>, \<open>rankup.go\<close>): the tables, what an accepted table guarantees, and that the
    search for a level, a \<open>partial_function\<close>, returns. \<open>Freya_Combat\<close> (\<open>battle_mode.go\<close>, \<open>buff.go\<close>): buffs.
  \<^item> \<open>Freya_Master_Values\<close>: the handlers that store the values of a character. \<open>Freya_Growth\<close>: experience, skill ranks,
    stat points, vitals. \<open>Freya_Growth_Laws\<close>: the locale \<open>growth_master\<close> states what the client needs of these
    handlers; memory and row stay in step, points are conserved, and where the two part for good.

  What a player does with its items (\<open>packet/inventory.go\<close>, \<open>enchant.go\<close>, \<open>item_attach.go\<close>, \<open>warehouse.go\<close>).
  \<^item> \<open>Freya_Bag\<close>: the handlers that move, sell, buy, use, upgrade and attach items, on the containers, the client
    data and the growth of the theories above. \<open>Freya_Bag_Laws\<close>: the locale \<open>bag_master\<close> extends the contract of
    \<open>Freya_Wear\<close> by warehouse, Alz and skills; whatever a client sends, all its belongings equal the database.

  What the game server knows (\<open>cmd/gameserver/clientdata\<close>), each table with its parser and its look-ups.
  \<^item> \<open>Freya_SkillData\<close> (\<open>skills.go\<close>, \<open>skillmeta.go\<close>, \<open>skillbuff.go\<close>): damage, costs, buffs. \<open>Freya_ItemData\<close>
    (\<open>skillbooks.go\<close>, \<open>item_attach.go\<close>, \<open>potions.go\<close>, \<open>armor_binder.go\<close>, \<open>weapons.go\<close>): the records of
    \<open>item.dec\<close>. \<open>Freya_ShopData\<close> (\<open>shops.go\<close>, \<open>skillbooks.go\<close>): shops, trainers, skill levels.
  \<^item> \<open>Freya_ForceCore\<close> (\<open>forcecore.go\<close>): rates and the options packed into an item, with the laws of the packing;
    a draw of \<open>crypto/rand\<close> is an argument. Documents the code decodes into structs are arguments as structs.

  Handlers run one after the other: a section under locks is one step, and a handler that
  drops its locks in between is modelled by its sections (\<open>completeTrade\<close>, where that matters). Fuel is not used.

  Not modelled: the login server, the chat server and the packet handlers of the game server for mail, quests,
  attacks and buffs, battle mode, PvP and the cash inventory; loading a character in \<open>Initialized\<close>; the map files and the
  client data of warps, quests, item durations and masteries; the gob codec and transport of the RPC layer, configuration, logging and
  Lua scripts, which are I/O or wrappers of libraries; SQL as text (each statement is a function on tables).
\<close>

end
